(* ===== verification/MC_Prelude.thy ===== *)
theory MC_Prelude
  imports Main "HOL-Library.AList" "HOL-Library.Multiset"
begin

section \<open>Prelude: Go maps, range order, tenants, bounded histories\<close>

text \<open>
  What every component of the development shares.
  \<^item> A Go map is an association list read by \<open>mget\<close> and changed by \<open>mput\<close> and
    \<open>mdel\<close>; \<open>wf_map\<close> says that its keys are distinct. Go visits a map in an
    unspecified order: a definition that ranges over a map takes the order as an argument
    \<open>\<pi>\<close>, of which \<open>range_order\<close> only says that it returns a permutation.
  \<^item> The locale \<open>tenant_partition\<close> is the contract of a component whose commands each
    belong to one tenant (organisation); its client lemmas are non-interference statements
    about whole runs.
  \<^item> The locale \<open>bounded_history\<close> is the contract of a buffer that keeps the newest
    entries of a history.
  \<^item> The collections \<open>gomap\<close>, \<open>tables\<close> and \<open>handler\<close> gather the rewrite rules of the
    Go maps, of the database tables and of the request handlers.
\<close>

named_theorems gomap \<open>rewrite rules of the Go maps\<close>
named_theorems tables \<open>definitions of the database statements\<close>
named_theorems handler \<open>definitions of the request handlers\<close>

subsection \<open>Go maps\<close>

type_synonym ('k, 'v) gomap = "('k \<times> 'v) list"

definition mget :: "('k, 'v) gomap \<Rightarrow> 'k \<Rightarrow> 'v option" where
  "mget m k = map_of m k"

definition mput :: "'k \<Rightarrow> 'v \<Rightarrow> ('k, 'v) gomap \<Rightarrow> ('k, 'v) gomap" where
  "mput k v m = AList.update k v m"

definition mdel :: "'k \<Rightarrow> ('k, 'v) gomap \<Rightarrow> ('k, 'v) gomap" where
  "mdel k m = AList.delete k m"

definition mkeep :: "('k \<Rightarrow> 'v \<Rightarrow> bool) \<Rightarrow> ('k, 'v) gomap \<Rightarrow> ('k, 'v) gomap" where
  "mkeep P m = filter (\<lambda>(k, v). P k v) m"

definition wf_map :: "('k, 'v) gomap \<Rightarrow> bool" where
  "wf_map m \<longleftrightarrow> distinct (map fst m)"

lemma mget_empty [simp, gomap]: "mget [] k = None"
  by (simp add: mget_def)

lemma mget_Cons [gomap]: "mget ((k', v) # m) k = (if k = k' then Some v else mget m k)"
  by (simp add: mget_def)

lemma mget_mput [simp, gomap]: "mget (mput k v m) k' = (if k' = k then Some v else mget m k')"
  by (simp add: mget_def mput_def update_conv')

lemma mget_mdel [simp, gomap]: "mget (mdel k m) k' = (if k' = k then None else mget m k')"
  by (simp add: mget_def mdel_def delete_conv')

lemma wf_map_empty [simp, intro]: "wf_map []"
  by (simp add: wf_map_def)

lemma wf_map_mput [simp, intro]: "wf_map m \<Longrightarrow> wf_map (mput k v m)"
  by (simp add: wf_map_def mput_def distinct_update)

lemma wf_map_mdel [simp, intro]: "wf_map m \<Longrightarrow> wf_map (mdel k m)"
  by (simp add: wf_map_def mdel_def distinct_delete)

lemma wf_map_mkeep [simp, intro]: "wf_map m \<Longrightarrow> wf_map (mkeep P m)"
  by (simp add: wf_map_def mkeep_def distinct_map_filter)

lemma mget_mkeep [gomap]:
  "wf_map m \<Longrightarrow> mget (mkeep P m) k =
     (case mget m k of None \<Rightarrow> None | Some v \<Rightarrow> if P k v then Some v else None)"
proof (induction m)
  case (Cons p m)
  obtain k' v' where p: "p = (k', v')" by fastforce
  from Cons.prems have wf: "wf_map m" and fresh: "k' \<notin> fst ` set m"
    by (simp_all add: p wf_map_def)
  have "mget m k' = None" using fresh by (simp add: mget_def map_of_eq_None_iff)
  then show ?case using Cons.IH [OF wf]
    by (cases "k = k'") (auto simp: p mkeep_def mget_Cons split: option.splits)
qed (simp add: mkeep_def)

lemma mget_in_set: "mget m k = Some v \<Longrightarrow> (k, v) \<in> set m"
  by (simp add: mget_def map_of_SomeD)

lemma set_mget: "wf_map m \<Longrightarrow> (k, v) \<in> set m \<longleftrightarrow> mget m k = Some v"
  by (simp add: mget_def wf_map_def map_of_eq_Some_iff)

lemma snd_set_mget: "wf_map m \<Longrightarrow> v \<in> snd ` set m \<longleftrightarrow> (\<exists>k. mget m k = Some v)"
  using set_mget by force

subsection \<open>Range order\<close>

definition range_order :: "('a list \<Rightarrow> 'a list) \<Rightarrow> bool" where
  "range_order \<pi> \<longleftrightarrow> (\<forall>xs. mset (\<pi> xs) = mset xs)"

lemma range_order_id [simp]: "range_order id" "range_order (\<lambda>xs. xs)" "range_order rev"
  by (simp_all add: range_order_def)

lemma range_order_mset: "range_order \<pi> \<Longrightarrow> mset (\<pi> xs) = mset xs"
  by (simp add: range_order_def)

lemma range_order_set [simp]: "range_order \<pi> \<Longrightarrow> set (\<pi> xs) = set xs"
  by (metis range_order_mset set_mset_mset)

lemma range_order_length: "range_order \<pi> \<Longrightarrow> length (\<pi> xs) = length xs"
  by (metis range_order_mset size_mset)

lemma range_order_Nil: "range_order \<pi> \<Longrightarrow> \<pi> [] = []"
  by (simp add: range_order_def flip: mset_zero_iff)

lemma range_order_distinct_map:
  "range_order \<pi> \<Longrightarrow> distinct (map f (\<pi> xs)) \<longleftrightarrow> distinct (map f xs)"
  by (metis mset_eq_imp_distinct_iff mset_map range_order_mset)

subsection \<open>Lists\<close>

lemma foldl_invariant:
  assumes "I s" and "\<And>s x. x \<in> set xs \<Longrightarrow> I s \<Longrightarrow> I (f s x)"
  shows "I (foldl f s xs)"
  using assms by (induction xs arbitrary: s) auto

lemma distinct_map_filter_eq:
  "distinct (map f xs) \<Longrightarrow> x \<in> set xs \<Longrightarrow> f x = k \<Longrightarrow> filter (\<lambda>y. f y = k) xs = [x]"
proof (induction xs)
  case (Cons a xs)
  show ?case
  proof (cases "a = x")
    case True
    have "\<forall>y \<in> set xs. f y \<noteq> k"
      using Cons.prems(1) Cons.prems(3) True by (metis distinct.simps(2) image_eqI list.set_map list.simps(9))
    then have "filter (\<lambda>y. f y = k) xs = []" by (simp add: filter_empty_conv)
    with True Cons.prems show ?thesis by simp
  next
    case False
    with Cons.prems have "x \<in> set xs" and "f a \<noteq> k" by auto
    with Cons show ?thesis by simp
  qed
qed simp

lemma find_SomeD: "find P xs = Some x \<Longrightarrow> x \<in> set xs \<and> P x"
  by (induction xs) (auto split: if_splits)

lemma find_ex: "x \<in> set xs \<Longrightarrow> P x \<Longrightarrow> \<exists>y. find P xs = Some y"
  by (induction xs) auto

lemma mset_filter_range:
  "range_order \<pi> \<Longrightarrow> mset (filter P (\<pi> xs)) = mset (filter P xs)"
  by (simp add: range_order_mset)

subsection \<open>Tenants: commands that touch one partition only\<close>

text \<open>
  \<open>exec\<close> runs a command, \<open>owner\<close> is the organisation it belongs to, \<open>view\<close> is what an
  organisation can see of the state. The provider promises that a command changes its own
  organisation's view only, and that what it does there depends on that view alone.
\<close>

locale tenant_partition =
  fixes exec :: "'cmd \<Rightarrow> 'st \<Rightarrow> 'st"
    and owner :: "'cmd \<Rightarrow> 'org"
    and view :: "'org \<Rightarrow> 'st \<Rightarrow> 'v"
  assumes exec_other: "owner c \<noteq> org \<Longrightarrow> view org (exec c st) = view org st"
    and exec_own: "view (owner c) st = view (owner c) st' \<Longrightarrow>
      view (owner c) (exec c st) = view (owner c) (exec c st')"
begin

lemma exec_cong: "view org st = view org st' \<Longrightarrow> view org (exec c st) = view org (exec c st')"
proof (cases "owner c = org")
  case True
  assume "view org st = view org st'"
  then show ?thesis using exec_own [of c st st'] by (simp add: True)
next
  case False
  assume "view org st = view org st'"
  then show ?thesis by (simp add: exec_other [OF False])
qed

lemma run_cong:
  "view org st = view org st' \<Longrightarrow>
     view org (foldl (\<lambda>s c. exec c s) st cs) = view org (foldl (\<lambda>s c. exec c s) st' cs)"
proof (induction cs arbitrary: st st')
  case (Cons c cs)
  from Cons.prems have "view org (exec c st) = view org (exec c st')" by (rule exec_cong)
  from Cons.IH [OF this] show ?case by simp
qed simp

text \<open>A run looks to an organisation as if only its own commands had been executed.\<close>

lemma run_purge:
  "view org (foldl (\<lambda>s c. exec c s) st cs) =
   view org (foldl (\<lambda>s c. exec c s) st (filter (\<lambda>c. owner c = org) cs))"
proof (induction cs arbitrary: st)
  case (Cons c cs)
  show ?case
  proof (cases "owner c = org")
    case True
    then show ?thesis using Cons.IH by simp
  next
    case False
    then have "view org (exec c st) = view org st" by (rule exec_other)
    then have "view org (foldl (\<lambda>s c. exec c s) (exec c st) cs) =
        view org (foldl (\<lambda>s c. exec c s) st cs)" by (rule run_cong)
    with False Cons.IH show ?thesis by simp
  qed
qed simp

lemma run_foreign:
  "(\<And>c. c \<in> set cs \<Longrightarrow> owner c \<noteq> org) \<Longrightarrow> view org (foldl (\<lambda>s c. exec c s) st cs) = view org st"
  by (subst run_purge) (simp add: filter_False)

end

subsection \<open>Bounded histories\<close>

definition last_n :: "nat \<Rightarrow> 'a list \<Rightarrow> 'a list" where
  "last_n n xs = drop (length xs - n) xs"

lemma last_n_Nil [simp]: "last_n n [] = []"
  by (simp add: last_n_def)

lemma length_last_n [simp]: "length (last_n n xs) = min n (length xs)"
  by (simp add: last_n_def)

lemma last_n_all: "length xs \<le> n \<Longrightarrow> last_n n xs = xs"
  by (simp add: last_n_def)

lemma last_n_snoc: "last_n n (last_n n xs @ [x]) = last_n n (xs @ [x])"
  by (cases "length xs \<le> n") (auto simp: last_n_def min_def Suc_diff_le)

lemma set_last_n: "set (last_n n xs) \<subseteq> set xs"
  by (simp add: last_n_def set_drop_subset)

locale bounded_history =
  fixes push :: "'a \<Rightarrow> 'b \<Rightarrow> 'b"
    and contents :: "'b \<Rightarrow> 'a list"
    and cap :: nat
  assumes contents_push: "contents (push x b) = last_n cap (contents b @ [x])"
begin

text \<open>Pushing a history into an empty buffer leaves its newest \<open>cap\<close> entries.\<close>

lemma contents_run:
  assumes "contents b = last_n cap h"
  shows "contents (foldl (\<lambda>b x. push x b) b xs) = last_n cap (h @ xs)"
  using assms
proof (induction xs arbitrary: b h)
  case (Cons x xs)
  have "contents (push x b) = last_n cap (h @ [x])"
    by (simp add: contents_push Cons.prems last_n_snoc)
  then have "contents (foldl (\<lambda>b x. push x b) (push x b) xs) = last_n cap ((h @ [x]) @ xs)"
    by (rule Cons.IH)
  then show ?case by simp
qed simp

lemma contents_bounded:
  "contents b = last_n cap h \<Longrightarrow> length (contents (foldl (\<lambda>b x. push x b) b xs)) \<le> cap"
  by (simp add: contents_run)

end

subsection \<open>Credentials that can be used once\<close>

text \<open>
  \<open>exec\<close> runs an operation and tells whether it succeeded in using the credential \<open>cred\<close>
  names. The provider promises that a success spends a credential that was not spent, and
  that no operation revives a spent one; then over any run a credential is used once at most.
\<close>

locale single_use =
  fixes exec :: "'op \<Rightarrow> 'st \<Rightarrow> 'st \<times> bool"
    and cred :: "'op \<Rightarrow> 'k option"
    and spent :: "'k \<Rightarrow> 'st \<Rightarrow> bool"
  assumes exec_spends: "snd (exec op st) \<Longrightarrow> cred op = Some k \<Longrightarrow> \<not> spent k st \<and> spent k (fst (exec op st))"
    and exec_keeps: "spent k st \<Longrightarrow> spent k (fst (exec op st))"
begin

fun uses :: "'k \<Rightarrow> 'op list \<Rightarrow> 'st \<Rightarrow> nat" where
  "uses k [] st = 0"
| "uses k (op # ops) st =
     (if cred op = Some k \<and> snd (exec op st) then 1 else 0) + uses k ops (fst (exec op st))"

lemma spent_never_used: "spent k st \<Longrightarrow> uses k ops st = 0"
proof (induction ops arbitrary: st)
  case (Cons op ops)
  have "\<not> (cred op = Some k \<and> snd (exec op st))" using exec_spends Cons.prems by blast
  then show ?case using Cons.IH [OF exec_keeps [OF Cons.prems]] by simp
qed simp

lemma used_at_most_once: "uses k ops st \<le> 1"
proof (induction ops arbitrary: st)
  case (Cons op ops)
  show ?case
  proof (cases "cred op = Some k \<and> snd (exec op st)")
    case True
    then have "spent k (fst (exec op st))" using exec_spends by blast
    from spent_never_used [OF this] show ?thesis by simp
  next
    case False
    then show ?thesis using Cons.IH by auto
  qed
qed simp

end

end
