(* ===== verification/Go_Strings.thy ===== *)
theory Go_Strings
  imports MC_Prelude "HOL-Library.Char_ord" "HOL-Library.List_Lexorder"
begin

section \<open>Go strings and the functions of package strings\<close>

text \<open>
  A Go string is a sequence of bytes, so it is a HOL \<open>string\<close>; \<open>length\<close> is Go's \<open>len\<close> and
  the library's lexicographic order on lists is Go's \<open><\<close> on strings. The functions of the
  standard library the program calls are defined here. \<open>to_lower\<close> and \<open>trim_space\<close>
  treat the ASCII letters and the ASCII white space; bytes from 128 on (parts of
  UTF-8 sequences) are neither letters nor white space in the model, which differs from Go
  for cased letters and white space outside ASCII.
\<close>

text \<open>The middle dot of the messages, in UTF-8, and the wrap-around of \<open>int64\<close>.\<close>

definition middot :: string where
  "middot = [CHR 0xC2, CHR 0xB7]"

definition int64 :: "int \<Rightarrow> int" where
  "int64 x = (x + 2 ^ 63) mod 2 ^ 64 - 2 ^ 63"

lemma int64_id: "- (2 ^ 63) \<le> x \<Longrightarrow> x < 2 ^ 63 \<Longrightarrow> int64 x = x"
  by (simp add: int64_def)

lemma int64_range: "- (2 ^ 63) \<le> int64 x \<and> int64 x < 2 ^ 63"
  by (simp add: int64_def)

subsection \<open>Letters and white space\<close>

definition lower_char :: "char \<Rightarrow> char" where
  "lower_char c = (let n = of_char c :: nat in if 65 \<le> n \<and> n \<le> 90 then char_of (n + 32) else c)"

definition to_lower :: "string \<Rightarrow> string" where
  "to_lower s = map lower_char s"

definition is_space :: "char \<Rightarrow> bool" where
  "is_space c = (let n = of_char c :: nat in (9 \<le> n \<and> n \<le> 13) \<or> n = 32)"

definition trim_space :: "string \<Rightarrow> string" where
  "trim_space s = rev (dropWhile is_space (rev (dropWhile is_space s)))"

lemma lower_char_idem [simp]: "lower_char (lower_char c) = lower_char c"
  by (auto simp: lower_char_def Let_def)

lemma to_lower_idem [simp]: "to_lower (to_lower s) = to_lower s"
  by (simp add: to_lower_def)

lemma length_to_lower [simp]: "length (to_lower s) = length s"
  by (simp add: to_lower_def)

lemma is_space_lower [simp]: "is_space (lower_char c) = is_space c"
  by (auto simp: is_space_def lower_char_def Let_def)

lemma dropWhile_idem [simp]: "dropWhile P (dropWhile P xs) = dropWhile P xs"
  by (induction xs) auto

lemma dropWhile_rev_dropWhile_head:
  "dropWhile P xs = xs \<Longrightarrow> dropWhile P (rev (dropWhile P (rev xs))) = rev (dropWhile P (rev xs))"
proof (cases "rev (dropWhile P (rev xs))")
  case Nil
  then show ?thesis by (simp only: dropWhile.simps)
next
  case (Cons a as)
  assume xs: "dropWhile P xs = xs"
  have "xs = rev (dropWhile P (rev xs)) @ rev (takeWhile P (rev xs))"
    by (metis rev_append rev_rev_ident takeWhile_dropWhile_id)
  then have "xs = a # (as @ rev (takeWhile P (rev xs)))" using Cons by simp
  then have "xs \<noteq> []" and "hd xs = a" by (metis list.distinct(1), metis list.sel(1))
  then have "\<not> P a" using xs by (metis hd_dropWhile)
  then show ?thesis using Cons by simp
qed

lemma trim_space_idem [simp]: "trim_space (trim_space s) = trim_space s"
  by (simp add: trim_space_def dropWhile_rev_dropWhile_head)

lemma trim_space_to_lower: "trim_space (to_lower s) = to_lower (trim_space s)"
proof -
  have "dropWhile is_space (map lower_char xs) = map lower_char (dropWhile is_space xs)" for xs
    by (induction xs) auto
  then show ?thesis by (simp add: trim_space_def to_lower_def rev_map)
qed

lemma set_trim_space: "set (trim_space s) \<subseteq> set s"
  unfolding trim_space_def by (metis set_dropWhileD set_rev subsetI)

subsection \<open>Prefixes, suffixes, substrings\<close>

definition has_prefix :: "'a list \<Rightarrow> 'a list \<Rightarrow> bool" where
  "has_prefix s p = (take (length p) s = p)"

definition has_suffix :: "'a list \<Rightarrow> 'a list \<Rightarrow> bool" where
  "has_suffix s p = has_prefix (rev s) (rev p)"

fun contains :: "'a list \<Rightarrow> 'a list \<Rightarrow> bool" where
  "contains [] p = (p = [])"
| "contains (c # s) p = (has_prefix (c # s) p \<or> contains s p)"

lemma has_prefix_iff: "has_prefix s p \<longleftrightarrow> (\<exists>t. s = p @ t)"
  unfolding has_prefix_def by (metis append_eq_conv_conj append_take_drop_id)

lemma has_suffix_iff: "has_suffix s p \<longleftrightarrow> (\<exists>t. s = t @ p)"
  unfolding has_suffix_def has_prefix_iff by (metis rev_append rev_rev_ident)

lemma contains_iff: "contains s p \<longleftrightarrow> (\<exists>u v. s = u @ p @ v)"
proof (induction s p rule: contains.induct)
  case (2 c s p)
  have "(\<exists>u v. c # s = u @ p @ v) \<longleftrightarrow> (\<exists>v. c # s = p @ v) \<or> (\<exists>u v. s = u @ p @ v)"
    by (metis append_Cons append_Nil neq_Nil_conv list.inject)
  then show ?case using 2 by (simp add: has_prefix_iff)
qed simp

text \<open>\<open>strings.IndexByte\<close> and \<open>strings.LastIndexByte\<close>: \<open>None\<close> is Go's \<open>-1\<close>.\<close>

fun index_byte :: "'a list \<Rightarrow> 'a \<Rightarrow> nat option" where
  "index_byte [] c = None"
| "index_byte (x # xs) c = (if x = c then Some 0 else map_option Suc (index_byte xs c))"

definition last_index_byte :: "'a list \<Rightarrow> 'a \<Rightarrow> nat option" where
  "last_index_byte s c = map_option (\<lambda>i. length s - 1 - i) (index_byte (rev s) c)"

lemma index_byte_None [simp]: "index_byte s c = None \<longleftrightarrow> c \<notin> set s"
  by (induction s) auto

lemma index_byte_Some:
  "index_byte s c = Some i \<longleftrightarrow> (\<exists>t. s = take i s @ c # t \<and> c \<notin> set (take i s) \<and> i < length s)"
proof (induction s arbitrary: i)
  case (Cons x xs)
  then show ?case by (cases i) auto
qed simp

lemma index_byte_split:
  "index_byte s c = Some i \<Longrightarrow> s = take i s @ c # drop (Suc i) s \<and> c \<notin> set (take i s) \<and> i < length s"
  by (induction s arbitrary: i) (auto split: if_splits)

subsection \<open>Split and join\<close>

fun split_on :: "'a \<Rightarrow> 'a list \<Rightarrow> 'a list list" where
  "split_on c [] = [[]]"
| "split_on c (x # xs) =
     (if x = c then [] # split_on c xs
      else (case split_on c xs of [] \<Rightarrow> [[x]] | y # ys \<Rightarrow> (x # y) # ys))"

fun join :: "'a list \<Rightarrow> 'a list list \<Rightarrow> 'a list" where
  "join sep [] = []"
| "join sep [x] = x"
| "join sep (x # y # ys) = x @ sep @ join sep (y # ys)"

lemma split_on_nonempty [simp]: "split_on c s \<noteq> []"
  by (induction s) (auto split: list.splits)

lemma join_split_on: "join [c] (split_on c s) = s"
proof (induction s)
  case (Cons x xs)
  show ?case
  proof (cases "split_on c xs")
    case (Cons y ys)
    then show ?thesis using Cons.IH by (cases ys) auto
  qed (metis split_on_nonempty)
qed simp

lemma split_on_no_sep: "y \<in> set (split_on c s) \<Longrightarrow> c \<notin> set y"
proof (induction s arbitrary: y)
  case (Cons x xs)
  show ?case
  proof (cases "split_on c xs")
    case (Cons z zs)
    have "\<And>w. w \<in> set (z # zs) \<Longrightarrow> c \<notin> set w" using Cons.IH Cons by simp
    then show ?thesis using Cons Cons.prems by (auto split: if_splits)
  qed (metis split_on_nonempty)
qed simp

subsection \<open>Decimal numerals\<close>

definition digit_char :: "nat \<Rightarrow> char" where
  "digit_char d = char_of (48 + d)"

fun utoa :: "nat \<Rightarrow> string" where
  "utoa n = (if n < 10 then [digit_char n] else utoa (n div 10) @ [digit_char (n mod 10)])"

declare utoa.simps [simp del]

definition itoa :: "int \<Rightarrow> string" where
  "itoa i = (if i < 0 then ''-'' @ utoa (nat (- i)) else utoa (nat i))"

definition digit_val :: "char \<Rightarrow> nat" where
  "digit_val c = of_char c - 48"

definition undigits :: "string \<Rightarrow> nat" where
  "undigits s = foldl (\<lambda>n c. 10 * n + digit_val c) 0 s"

lemma digit_val_char [simp]: "d < 10 \<Longrightarrow> digit_val (digit_char d) = d"
  by (simp add: digit_val_def digit_char_def)

lemma undigits_utoa: "undigits (utoa n) = n"
proof (induction n rule: utoa.induct)
  case (1 n)
  show ?case
  proof (cases "n < 10")
    case True
    then show ?thesis by (subst utoa.simps) (simp add: undigits_def)
  next
    case False
    then show ?thesis using 1 by (subst utoa.simps) (simp add: undigits_def)
  qed
qed

lemma utoa_inject [simp]: "utoa m = utoa n \<longleftrightarrow> m = n"
  by (metis undigits_utoa)

lemma set_utoa: "c \<in> set (utoa n) \<Longrightarrow> 48 \<le> (of_char c :: nat) \<and> (of_char c :: nat) \<le> 57"
proof (induction n rule: utoa.induct)
  case (1 n)
  have d: "d < 10 \<Longrightarrow> 48 \<le> (of_char (digit_char d) :: nat) \<and> (of_char (digit_char d) :: nat) \<le> 57"
    for d by (simp add: digit_char_def)
  show ?case
  proof (cases "n < 10")
    case True
    with "1.prems" d show ?thesis by (subst (asm) utoa.simps) auto
  next
    case False
    with "1.prems" have "c \<in> set (utoa (n div 10)) \<or> c = digit_char (n mod 10)"
      by (subst (asm) utoa.simps) auto
    then show ?thesis using "1.IH" [OF False] d [of "n mod 10"] by auto
  qed
qed

lemma utoa_nonempty [simp]: "utoa n \<noteq> []"
  by (subst utoa.simps) simp

lemma itoa_inject [simp]: "itoa i = itoa j \<longleftrightarrow> i = j"
proof -
  have "CHR ''-'' \<notin> set (utoa n)" for n using set_utoa [of "CHR ''-''" n] by auto
  then have ne: "utoa n \<noteq> CHR ''-'' # t" for n t by (metis list.set_intros(1))
  show ?thesis
    by (cases "i < 0"; cases "j < 0") (auto simp: itoa_def ne ne [symmetric])
qed

subsection \<open>Parsing numerals (package strconv)\<close>

datatype num_error = ErrSyntax | ErrRange

fun parse_digits :: "nat \<Rightarrow> string \<Rightarrow> nat \<times> num_error option" where
  "parse_digits n [] = (n, None)"
| "parse_digits n (c # cs) =
     (let k = of_char c :: nat in
      if k < 48 \<or> 57 < k then (0, Some ErrSyntax)
      else if 2 ^ 64 - 1 < 10 * n + (k - 48) then (2 ^ 64 - 1, Some ErrRange)
      else parse_digits (10 * n + (k - 48)) cs)"

text \<open>\<open>ParseInt(s, 10, 64)\<close>: out of range it returns the nearest bound beside the error.\<close>

definition ParseInt :: "string \<Rightarrow> int \<times> num_error option" where
  "ParseInt s =
     (let (neg, t) = (case s of [] \<Rightarrow> (False, [])
            | c # cs \<Rightarrow> if c = CHR ''+'' then (False, cs)
                        else if c = CHR ''-'' then (True, cs) else (False, s));
          (un, err) = (if t = [] then (0, Some ErrSyntax) else parse_digits 0 t)
      in if err = Some ErrSyntax then (0, Some ErrSyntax)
         else if \<not> neg \<and> 2 ^ 63 \<le> un then (2 ^ 63 - 1, Some ErrRange)
         else if neg \<and> 2 ^ 63 < un then (- (2 ^ 63), Some ErrRange)
         else (if neg then - int un else int un, None))"

definition Atoi :: "string \<Rightarrow> int option" where
  "Atoi s = (case ParseInt s of (n, None) \<Rightarrow> Some n | (n, Some e) \<Rightarrow> None)"

lemma undigits_snoc: "undigits (s @ [c]) = 10 * undigits s + digit_val c"
  by (simp add: undigits_def)

lemma foldl_digits_mono: "m \<le> foldl (\<lambda>n c. 10 * n + digit_val c) m xs"
proof (induction xs arbitrary: m)
  case (Cons c xs)
  have "m \<le> 10 * m + digit_val c" by simp
  also have "\<dots> \<le> foldl (\<lambda>n c. 10 * n + digit_val c) (10 * m + digit_val c) xs" by (rule Cons.IH)
  finally show ?case by simp
qed simp

lemma parse_digits_ok:
  assumes "\<forall>c \<in> set s. 48 \<le> (of_char c :: nat) \<and> (of_char c :: nat) \<le> 57"
    and "foldl (\<lambda>n c. 10 * n + digit_val c) n s < 2 ^ 64"
  shows "parse_digits n s = (foldl (\<lambda>n c. 10 * n + digit_val c) n s, None)"
  using assms
proof (induction s arbitrary: n)
  case (Cons c cs)
  have "10 * n + digit_val c < 2 ^ 64"
    using foldl_digits_mono [of "10 * n + digit_val c" cs] Cons.prems(2) by simp
  then show ?case using Cons by (auto simp: Let_def digit_val_def)
qed simp

lemma ParseInt_range: "- (2 ^ 63) \<le> fst (ParseInt s) \<and> fst (ParseInt s) < 2 ^ 63"
  by (auto simp: ParseInt_def Let_def split: list.splits prod.splits if_splits)

lemma Atoi_itoa:
  assumes "- (2 ^ 63) \<le> i" "i < 2 ^ 63"
  shows "Atoi (itoa i) = Some i"
proof -
  have p: "parse_digits 0 (utoa n) = (n, None)" if "n < 2 ^ 64" for n
    using parse_digits_ok [of "utoa n" 0] set_utoa undigits_utoa [of n] that
    by (simp add: undigits_def)
  show ?thesis
  proof (cases "i < 0")
    case True
    then show ?thesis using assms p [of "nat (- i)"]
      by (simp add: Atoi_def ParseInt_def itoa_def)
  next
    case False
    obtain c cs where u: "utoa (nat i) = c # cs" using utoa_nonempty by (metis neq_Nil_conv)
    then have "c \<noteq> CHR ''+''" "c \<noteq> CHR ''-''" using set_utoa [of c "nat i"] by auto
    then show ?thesis using False assms p [of "nat i"] u
      by (simp add: Atoi_def ParseInt_def itoa_def)
  qed
qed

end
