(* ===== verification/Protocol.thy ===== *)
theory Protocol
  imports Go_Strings "HOL-Library.Word"
begin

unbundle bit_operations_syntax

section \<open>The wire protocol\<close>

text \<open>
  Models \<open>internal/protocol\<close>: the structs of \<open>messages.go\<close> and \<open>terminal.go\<close> as records
  (each field carries a short prefix naming its struct), the message types of
  \<open>protocol.go\<close>, the envelope and \<open>Encode\<close>.

  A Go \<open>float64\<close> is only ever copied by this program, so it is kept as its 64 IEEE bits;
  the one place that looks inside is \<open>json.Marshal\<close>, which refuses NaN and infinities
  (\<open>float_finite\<close>). Statuses, severities and kinds are string types in Go (any string can
  arrive), so they stay strings with the constants of the source. A pointer that may be nil
  is an option. A message \<open>wire\<close> is an envelope's type together with what
  \<open>protocol.As\<close> yields for the payload struct of that type: \<open>None\<close> when
  \<open>json.Unmarshal\<close> fails, so every handler keeps its early return on a decoding error.
\<close>

type_synonym float64 = "64 word"

definition float_finite :: "float64 \<Rightarrow> bool" where
  "float_finite w \<longleftrightarrow> drop_bit 52 w AND 0x7FF \<noteq> 0x7FF"

subsection \<open>Session and machine structs\<close>

abbreviation (input) "StatusRunning \<equiv> ''running''"
abbreviation (input) "StatusWaitingApproval \<equiv> ''waiting_approval''"
abbreviation (input) "StatusIdle \<equiv> ''idle''"
abbreviation (input) "StatusFinished \<equiv> ''finished''"
abbreviation (input) "StatusError \<equiv> ''error''"

record commit =
  c_Hash :: string
  c_Author :: string
  c_Message :: string
  c_TS :: int

record git_info =
  g_Repo :: string
  g_RemoteURL :: string
  g_Branch :: string
  g_Dirty :: bool
  g_ModifiedFiles :: "string list"
  g_Ahead :: int
  g_Behind :: int
  g_RecentCommits :: "commit list"

record token_usage =
  tu_Input :: int
  tu_Output :: int
  tu_CacheRead :: int
  tu_CacheCreation :: int
  tu_Total :: int

record session =
  s_ID :: string
  s_MachineID :: string
  s_Provider :: string
  s_Status :: string
  s_Repo :: string
  s_Branch :: string
  s_CWD :: string
  s_PID :: int
  s_CurrentCommand :: string
  s_Version :: string
  s_TmuxSession :: string
  s_CPUPct :: float64
  s_MemBytes :: "64 word"
  s_StartedAt :: int
  s_LastActivityAt :: int
  s_Git :: "git_info option"
  s_Tokens :: "token_usage option"

record machine =
  m_ID :: string
  m_Hostname :: string
  m_OS :: string
  m_Arch :: string
  m_CPUCores :: int
  m_TotalMem :: "64 word"
  m_AgentVersion :: string
  m_Online :: bool
  m_CPUPct :: float64
  m_MemUsedBytes :: "64 word"
  m_Load :: float64
  m_LastSeenAt :: int

text \<open>Go's zero values, returned beside a \<open>false\<close> or an error.\<close>

definition zero_session :: session where
  "zero_session = \<lparr>s_ID = '''', s_MachineID = '''', s_Provider = '''', s_Status = '''',
     s_Repo = '''', s_Branch = '''', s_CWD = '''', s_PID = 0, s_CurrentCommand = '''',
     s_Version = '''', s_TmuxSession = '''', s_CPUPct = 0, s_MemBytes = 0, s_StartedAt = 0,
     s_LastActivityAt = 0, s_Git = None, s_Tokens = None\<rparr>"

definition zero_machine :: machine where
  "zero_machine = \<lparr>m_ID = '''', m_Hostname = '''', m_OS = '''', m_Arch = '''', m_CPUCores = 0,
     m_TotalMem = 0, m_AgentVersion = '''', m_Online = False, m_CPUPct = 0,
     m_MemUsedBytes = 0, m_Load = 0, m_LastSeenAt = 0\<rparr>"

subsection \<open>Payloads\<close>

record agent_hello =
  ah_APIKey :: string
  ah_AgentID :: string
  ah_Hostname :: string
  ah_OS :: string
  ah_Arch :: string
  ah_CPUCores :: int
  ah_TotalMem :: "64 word"
  ah_AgentVersion :: string

record agent_heartbeat =
  hb_AgentID :: string
  hb_CPUPct :: float64
  hb_MemUsedBytes :: "64 word"
  hb_Load :: float64

record log_append =
  la_SessionID :: string
  la_Seq :: int
  la_Stream :: string
  la_Line :: string
  la_TS :: int

abbreviation (input) "StreamStdout \<equiv> ''stdout''"
abbreviation (input) "StreamStderr \<equiv> ''stderr''"
abbreviation (input) "StreamSystem \<equiv> ''system''"

record metric_sample =
  ms_SessionID :: string
  ms_CPUPct :: float64
  ms_MemBytes :: "64 word"
  ms_TS :: int

abbreviation (input) "ActionStop \<equiv> ''stop''"
abbreviation (input) "ActionRestart \<equiv> ''restart''"

record command_msg =
  cmd_RequestID :: string
  cmd_SessionID :: string
  cmd_Action :: string

record command_result =
  cr_RequestID :: string
  cr_SessionID :: string
  cr_OK :: bool
  cr_Error :: string

record agent_status =
  as_MachineID :: string
  as_Online :: bool

abbreviation (input) "SeverityInfo \<equiv> ''info''"
abbreviation (input) "SeveritySuccess \<equiv> ''success''"
abbreviation (input) "SeverityWarn \<equiv> ''warn''"
abbreviation (input) "SeverityError \<equiv> ''error''"

abbreviation (input) "EventSessionStarted \<equiv> ''session.started''"
abbreviation (input) "EventSessionEnded \<equiv> ''session.ended''"
abbreviation (input) "EventStatusChanged \<equiv> ''status.changed''"
abbreviation (input) "EventBranchChanged \<equiv> ''branch.changed''"
abbreviation (input) "EventCommitCreated \<equiv> ''commit.created''"
abbreviation (input) "EventCommandIssued \<equiv> ''command.issued''"
abbreviation (input) "EventFilePublished \<equiv> ''file.published''"
abbreviation (input) "EventAgentConnected \<equiv> ''agent.connected''"
abbreviation (input) "EventAgentOffline \<equiv> ''agent.disconnected''"

record event =
  e_ID :: string
  e_MachineID :: string
  e_SessionID :: string
  e_Kind :: string
  e_Message :: string
  e_Severity :: string
  e_TS :: int
  e_Meta :: "(string, string) gomap"

record snapshot =
  sn_Machines :: "machine list"
  sn_Sessions :: "session list"
  sn_Events :: "event list"

subsection \<open>Interactive terminal payloads\<close>

record terminal_open =
  to_PTYID :: string
  to_MachineID :: string
  to_Provider :: string
  to_CWD :: string
  to_InitialText :: string
  to_Cols :: int
  to_Rows :: int

record terminal_attach =
  ta_PTYID :: string
  ta_MachineID :: string
  ta_SessionID :: string
  ta_Cols :: int
  ta_Rows :: int

record terminal_data =
  td_PTYID :: string
  td_Data :: string

record terminal_resize =
  tr_PTYID :: string
  tr_Cols :: int
  tr_Rows :: int

record terminal_opened =
  tp_PTYID :: string
  tp_SessionID :: string
  tp_OK :: bool
  tp_Error :: string

record terminal_exit =
  tx_PTYID :: string
  tx_Code :: int

subsection \<open>Message types and envelopes\<close>

datatype wire =
    AgentHello "agent_hello option"
  | AgentHeartbeat "agent_heartbeat option"
  | SessionUpsert "session option"
  | SessionRemoved "string option"
  | LogAppend "log_append option"
  | MetricSample "metric_sample option"
  | CommandAck "string option"
  | CommandResult "command_result option"
  | EventReport "event option"
  | Command "command_msg option"
  | Snapshot "snapshot option"
  | MachineUpsert "machine option"
  | MachineRemoved "string option"
  | AgentStatus "agent_status option"
  | EventAppend "event option"
  | TerminalOpen "terminal_open option"
  | TerminalAttach "terminal_attach option"
  | TerminalInput "terminal_data option"
  | TerminalResize "terminal_resize option"
  | TerminalClose "string option"
  | TerminalOutput "terminal_data option"
  | TerminalOpened "terminal_opened option"
  | TerminalExit "terminal_exit option"
  | OtherType string

fun msg_type :: "wire \<Rightarrow> string" where
  "msg_type (AgentHello _) = ''agent.hello''"
| "msg_type (AgentHeartbeat _) = ''agent.heartbeat''"
| "msg_type (SessionUpsert _) = ''session.upsert''"
| "msg_type (SessionRemoved _) = ''session.removed''"
| "msg_type (LogAppend _) = ''log.append''"
| "msg_type (MetricSample _) = ''metric.sample''"
| "msg_type (CommandAck _) = ''command.ack''"
| "msg_type (CommandResult _) = ''command.result''"
| "msg_type (EventReport _) = ''event.report''"
| "msg_type (Command _) = ''command''"
| "msg_type (Snapshot _) = ''snapshot''"
| "msg_type (MachineUpsert _) = ''machine.upsert''"
| "msg_type (MachineRemoved _) = ''machine.removed''"
| "msg_type (AgentStatus _) = ''agent.status''"
| "msg_type (EventAppend _) = ''event.append''"
| "msg_type (TerminalOpen _) = ''terminal.open''"
| "msg_type (TerminalAttach _) = ''terminal.attach''"
| "msg_type (TerminalInput _) = ''terminal.input''"
| "msg_type (TerminalResize _) = ''terminal.resize''"
| "msg_type (TerminalClose _) = ''terminal.close''"
| "msg_type (TerminalOutput _) = ''terminal.output''"
| "msg_type (TerminalOpened _) = ''terminal.opened''"
| "msg_type (TerminalExit _) = ''terminal.exit''"
| "msg_type (OtherType t) = t"

record envelope =
  env_V :: int
  env_TS :: int
  env_ID :: string
  env_Msg :: wire

definition Version :: int where
  "Version = 1"

abbreviation (input) "RoleAgent \<equiv> ''agent''"
abbreviation (input) "RoleDashboard \<equiv> ''dashboard''"

text \<open>\<open>json.Marshal\<close> fails on a float that is not finite, and on nothing else sent here.\<close>

definition session_encodable :: "session \<Rightarrow> bool" where
  "session_encodable s \<longleftrightarrow> float_finite (s_CPUPct s)"

definition machine_encodable :: "machine \<Rightarrow> bool" where
  "machine_encodable m \<longleftrightarrow> float_finite (m_CPUPct m) \<and> float_finite (m_Load m)"

fun encodable :: "wire \<Rightarrow> bool" where
  "encodable (AgentHeartbeat (Some hb)) \<longleftrightarrow> float_finite (hb_CPUPct hb) \<and> float_finite (hb_Load hb)"
| "encodable (SessionUpsert (Some s)) \<longleftrightarrow> session_encodable s"
| "encodable (MetricSample (Some m)) \<longleftrightarrow> float_finite (ms_CPUPct m)"
| "encodable (MachineUpsert (Some m)) \<longleftrightarrow> machine_encodable m"
| "encodable (Snapshot (Some sn)) \<longleftrightarrow>
     list_all machine_encodable (sn_Machines sn) \<and> list_all session_encodable (sn_Sessions sn)"
| "encodable _ \<longleftrightarrow> True"

definition Encode :: "int \<Rightarrow> wire \<Rightarrow> envelope option" where
  "Encode now w =
     (if encodable w
      then Some \<lparr>env_V = Version, env_TS = now, env_ID = '''', env_Msg = w\<rparr>
      else None)"

lemma Encode_Some [simp]:
  "Encode now w = Some env \<longleftrightarrow>
     encodable w \<and> env = \<lparr>env_V = Version, env_TS = now, env_ID = '''', env_Msg = w\<rparr>"
  by (auto simp: Encode_def)

lemma float_finite_0 [simp]: "float_finite 0"
  by (simp add: float_finite_def)

lemma float_not_finite: "\<not> float_finite (0x7FF0000000000000)" "\<not> float_finite (0x7FF8000000000001)"
  by (simp_all add: float_finite_def)

end
