(* ===== verification/Live_State.thy ===== *)
theory Live_State
  imports Protocol
begin

section \<open>The live state manager\<close>

text \<open>
  Models \<open>internal/state/manager.go\<close>: the in-memory view of the fleet, one partition
  (\<open>org_state\<close>) per organisation. Every method takes and returns the manager; a method
  whose Go original returns a struct and a flag returns an option (\<open>None\<close> is the zero
  struct with \<open>false\<close>). The mutex makes each method atomic, so a concurrent execution is a
  sequence of method calls: \<open>state_op\<close> lists the mutating calls and \<open>exec_op\<close> runs one.
\<close>

definition maxRecentEvents :: nat where
  "maxRecentEvents = 200"

record org_state =
  os_machines :: "(string, machine) gomap"
  os_sessions :: "(string, session) gomap"
  os_events :: "event list"

definition newOrgState :: org_state where
  "newOrgState = \<lparr>os_machines = [], os_sessions = [], os_events = []\<rparr>"

record manager =
  orgs :: "(string, org_state) gomap"

definition new_manager :: manager where
  "new_manager = \<lparr>orgs = []\<rparr>"

text \<open>
  \<open>org\<close> returns a pointer into the map, creating the partition when it is missing;
  \<open>set_org\<close> is the write through that pointer.
\<close>

definition org :: "string \<Rightarrow> manager \<Rightarrow> manager \<times> org_state" where
  "org orgID m =
     (case mget (orgs m) orgID of
        Some os \<Rightarrow> (m, os)
      | None \<Rightarrow> (m\<lparr>orgs := mput orgID newOrgState (orgs m)\<rparr>, newOrgState))"

definition set_org :: "string \<Rightarrow> org_state \<Rightarrow> manager \<Rightarrow> manager" where
  "set_org orgID os m = m\<lparr>orgs := mput orgID os (orgs m)\<rparr>"

subsection \<open>Mutating methods\<close>

definition AddEvent :: "string \<Rightarrow> event \<Rightarrow> manager \<Rightarrow> manager" where
  "AddEvent orgID e m =
     (let (m, os) = org orgID m;
          evs = os_events os @ [e];
          evs = (if maxRecentEvents < length evs then drop (length evs - maxRecentEvents) evs
                 else evs)
      in set_org orgID (os\<lparr>os_events := evs\<rparr>) m)"

definition SeedEvent :: "string \<Rightarrow> event \<Rightarrow> manager \<Rightarrow> manager" where
  "SeedEvent orgID e m =
     (let (m, os) = org orgID m;
          evs = os_events os @ [e];
          evs = (if maxRecentEvents < length evs then drop (length evs - maxRecentEvents) evs
                 else evs)
      in set_org orgID (os\<lparr>os_events := evs\<rparr>) m)"

definition UpsertMachine :: "string \<Rightarrow> machine \<Rightarrow> manager \<Rightarrow> manager \<times> machine" where
  "UpsertMachine orgID mc m =
     (let (m, os) = org orgID m
      in (set_org orgID (os\<lparr>os_machines := mput (m_ID mc) mc (os_machines os)\<rparr>) m, mc))"

definition SetMachineOnline ::
  "string \<Rightarrow> string \<Rightarrow> bool \<Rightarrow> manager \<Rightarrow> manager \<times> machine option" where
  "SetMachineOnline orgID i online m =
     (let (m, os) = org orgID m
      in case mget (os_machines os) i of
           None \<Rightarrow> (m, None)
         | Some mc \<Rightarrow>
             (let mc = mc\<lparr>m_Online := online\<rparr>
              in (set_org orgID (os\<lparr>os_machines := mput i mc (os_machines os)\<rparr>) m, Some mc)))"

definition ApplyHeartbeat ::
  "string \<Rightarrow> agent_heartbeat \<Rightarrow> int \<Rightarrow> manager \<Rightarrow> manager \<times> machine option" where
  "ApplyHeartbeat orgID hb ts m =
     (let (m, os) = org orgID m
      in case mget (os_machines os) (hb_AgentID hb) of
           None \<Rightarrow> (m, None)
         | Some mc \<Rightarrow>
             (let mc = mc\<lparr>m_CPUPct := hb_CPUPct hb, m_MemUsedBytes := hb_MemUsedBytes hb,
                          m_Load := hb_Load hb, m_LastSeenAt := ts, m_Online := True\<rparr>
              in (set_org orgID
                    (os\<lparr>os_machines := mput (hb_AgentID hb) mc (os_machines os)\<rparr>) m, Some mc)))"

definition UpsertSession :: "string \<Rightarrow> session \<Rightarrow> manager \<Rightarrow> manager \<times> session" where
  "UpsertSession orgID s m =
     (let (m, os) = org orgID m
      in (set_org orgID (os\<lparr>os_sessions := mput (s_ID s) s (os_sessions os)\<rparr>) m, s))"

definition RemoveSession :: "string \<Rightarrow> string \<Rightarrow> manager \<Rightarrow> manager" where
  "RemoveSession orgID i m =
     (let (m, os) = org orgID m
      in set_org orgID (os\<lparr>os_sessions := mdel i (os_sessions os)\<rparr>) m)"

definition RemoveMachine :: "string \<Rightarrow> string \<Rightarrow> manager \<Rightarrow> manager" where
  "RemoveMachine orgID i m =
     (let (m, os) = org orgID m
      in set_org orgID (os\<lparr>os_machines := mdel i (os_machines os)\<rparr>) m)"

definition ApplyMetric :: "string \<Rightarrow> metric_sample \<Rightarrow> manager \<Rightarrow> manager \<times> session option" where
  "ApplyMetric orgID ms m =
     (let (m, os) = org orgID m
      in case mget (os_sessions os) (ms_SessionID ms) of
           None \<Rightarrow> (m, None)
         | Some s \<Rightarrow>
             (let s = s\<lparr>s_CPUPct := ms_CPUPct ms, s_MemBytes := ms_MemBytes ms,
                        s_LastActivityAt := ms_TS ms\<rparr>
              in (set_org orgID
                    (os\<lparr>os_sessions := mput (ms_SessionID ms) s (os_sessions os)\<rparr>) m, Some s)))"

text \<open>
  The Go loop deletes entries of the map it ranges over; each entry is visited once and
  only the visited entry is deleted, so the loop collects and deletes the same keys.
\<close>

definition RemoveMachineSessions ::
  "((string \<times> session) list \<Rightarrow> (string \<times> session) list) \<Rightarrow> string \<Rightarrow> string \<Rightarrow> manager
     \<Rightarrow> manager \<times> string list" where
  "RemoveMachineSessions \<pi> orgID machineID m =
     (let (m, os) = org orgID m;
          (sessions, removed) =
            foldl (\<lambda>(ss, rm) (i, s). if s_MachineID s = machineID then (mdel i ss, rm @ [i])
                                     else (ss, rm))
              (os_sessions os, []) (\<pi> (os_sessions os))
      in (set_org orgID (os\<lparr>os_sessions := sessions\<rparr>) m, removed))"

subsection \<open>Reading methods\<close>

definition IsMachineOnline :: "string \<Rightarrow> string \<Rightarrow> manager \<Rightarrow> bool" where
  "IsMachineOnline orgID i m =
     (case mget (orgs m) orgID of
        None \<Rightarrow> False
      | Some os \<Rightarrow> (case mget (os_machines os) i of None \<Rightarrow> False | Some mc \<Rightarrow> m_Online mc))"

definition Session :: "string \<Rightarrow> string \<Rightarrow> manager \<Rightarrow> session option" where
  "Session orgID i m =
     (case mget (orgs m) orgID of None \<Rightarrow> None | Some os \<Rightarrow> mget (os_sessions os) i)"

definition AllSessions ::
  "((string \<times> org_state) list \<Rightarrow> (string \<times> org_state) list) \<Rightarrow>
   ((string \<times> session) list \<Rightarrow> (string \<times> session) list) \<Rightarrow> manager
     \<Rightarrow> (string \<times> session list) list" where
  "AllSessions \<pi>o \<pi>s m =
     map (\<lambda>(orgID, os). (orgID, map snd (\<pi>s (os_sessions os))))
       (filter (\<lambda>(orgID, os). os_sessions os \<noteq> []) (\<pi>o (orgs m)))"

text \<open>
  \<open>sort.Slice\<close> is not stable; a stable sort of an arbitrarily ordered list covers every
  order it may give to equal keys, since the range order \<open>\<pi>s\<close> is arbitrary.
\<close>

definition Snapshot_of ::
  "((string \<times> machine) list \<Rightarrow> (string \<times> machine) list) \<Rightarrow>
   ((string \<times> session) list \<Rightarrow> (string \<times> session) list) \<Rightarrow> string \<Rightarrow> manager \<Rightarrow> snapshot" where
  "Snapshot_of \<pi>m \<pi>s orgID m =
     (case mget (orgs m) orgID of
        None \<Rightarrow> \<lparr>sn_Machines = [], sn_Sessions = [], sn_Events = []\<rparr>
      | Some os \<Rightarrow>
          \<lparr>sn_Machines = sort_key m_ID (map snd (\<pi>m (os_machines os))),
           sn_Sessions = sort_key (\<lambda>s. - s_StartedAt s) (map snd (\<pi>s (os_sessions os))),
           sn_Events = rev (os_events os)\<rparr>)"

subsection \<open>What an organisation sees\<close>

definition org_view :: "string \<Rightarrow> manager \<Rightarrow> org_state" where
  "org_view orgID m = (case mget (orgs m) orgID of None \<Rightarrow> newOrgState | Some os \<Rightarrow> os)"

definition wf_org :: "org_state \<Rightarrow> bool" where
  "wf_org os \<longleftrightarrow>
     wf_map (os_machines os) \<and> wf_map (os_sessions os) \<and>
     (\<forall>i mc. mget (os_machines os) i = Some mc \<longrightarrow> m_ID mc = i) \<and>
     (\<forall>i s. mget (os_sessions os) i = Some s \<longrightarrow> s_ID s = i) \<and>
     length (os_events os) \<le> maxRecentEvents"

definition wf_manager :: "manager \<Rightarrow> bool" where
  "wf_manager m \<longleftrightarrow> wf_map (orgs m) \<and> (\<forall>orgID os. mget (orgs m) orgID = Some os \<longrightarrow> wf_org os)"

lemma wf_newOrgState [simp]: "wf_org newOrgState"
  by (simp add: wf_org_def newOrgState_def)

lemma wf_new_manager [simp]: "wf_manager new_manager"
  by (simp add: wf_manager_def new_manager_def)

lemma org_view_new [simp]: "org_view orgID new_manager = newOrgState"
  by (simp add: org_view_def new_manager_def)

lemma Snapshot_of_view:
  assumes "range_order \<pi>m" and "range_order \<pi>s"
  shows "Snapshot_of \<pi>m \<pi>s g m = (let os = org_view g m in
    \<lparr>sn_Machines = sort_key m_ID (map snd (\<pi>m (os_machines os))),
     sn_Sessions = sort_key (\<lambda>s. - s_StartedAt s) (map snd (\<pi>s (os_sessions os))),
     sn_Events = rev (os_events os)\<rparr>)"
  using assms by (simp add: Snapshot_of_def org_view_def newOrgState_def range_order_Nil Let_def split: option.splits)

lemma wf_org_view [intro]: "wf_manager m \<Longrightarrow> wf_org (org_view orgID m)"
  by (auto simp: wf_manager_def org_view_def split: option.splits)

lemma snd_org [simp]: "snd (org orgID m) = org_view orgID m"
  by (simp add: org_def org_view_def split: option.splits)

lemma org_eq: "org orgID m = (fst (org orgID m), org_view orgID m)"
  by (simp add: prod_eq_iff)

lemma org_view_org [simp]: "org_view i (fst (org orgID m)) = org_view i m"
  by (auto simp: org_def org_view_def split: option.splits)

lemma org_view_set_org [simp]:
  "org_view i (set_org orgID os m) = (if i = orgID then os else org_view i m)"
  by (simp add: org_view_def set_org_def)

lemma wf_fst_org [intro]: "wf_manager m \<Longrightarrow> wf_manager (fst (org orgID m))"
  by (auto simp: wf_manager_def org_def split: option.splits)

lemma wf_set_org [intro]: "wf_manager m \<Longrightarrow> wf_org os \<Longrightarrow> wf_manager (set_org orgID os m)"
  by (auto simp: wf_manager_def set_org_def)

text \<open>The effect of each method on a partition, as a function of the partition alone.\<close>

lemma AddEvent_eq:
  "AddEvent orgID e m =
     set_org orgID ((org_view orgID m)\<lparr>os_events :=
       last_n maxRecentEvents (os_events (org_view orgID m) @ [e])\<rparr>) (fst (org orgID m))"
  by (subst AddEvent_def, subst org_eq) (simp add: Let_def last_n_def)

lemma SeedEvent_eq: "SeedEvent = AddEvent"
  by (intro ext) (simp add: SeedEvent_def AddEvent_def)

lemma UpsertMachine_eq:
  "UpsertMachine orgID mc m =
     (set_org orgID ((org_view orgID m)\<lparr>os_machines :=
        mput (m_ID mc) mc (os_machines (org_view orgID m))\<rparr>) (fst (org orgID m)), mc)"
  by (subst UpsertMachine_def, subst org_eq) simp

lemma UpsertSession_eq:
  "UpsertSession orgID s m =
     (set_org orgID ((org_view orgID m)\<lparr>os_sessions :=
        mput (s_ID s) s (os_sessions (org_view orgID m))\<rparr>) (fst (org orgID m)), s)"
  by (subst UpsertSession_def, subst org_eq) simp

lemma RemoveSession_eq:
  "RemoveSession orgID i m =
     set_org orgID ((org_view orgID m)\<lparr>os_sessions := mdel i (os_sessions (org_view orgID m))\<rparr>)
       (fst (org orgID m))"
  by (subst RemoveSession_def, subst org_eq) simp

lemma RemoveMachine_eq:
  "RemoveMachine orgID i m =
     set_org orgID ((org_view orgID m)\<lparr>os_machines := mdel i (os_machines (org_view orgID m))\<rparr>)
       (fst (org orgID m))"
  by (subst RemoveMachine_def, subst org_eq) simp

definition heartbeat_machine :: "agent_heartbeat \<Rightarrow> int \<Rightarrow> machine \<Rightarrow> machine" where
  "heartbeat_machine hb ts mc =
     mc\<lparr>m_CPUPct := hb_CPUPct hb, m_MemUsedBytes := hb_MemUsedBytes hb,
        m_Load := hb_Load hb, m_LastSeenAt := ts, m_Online := True\<rparr>"

lemma m_ID_heartbeat [simp]: "m_ID (heartbeat_machine hb ts mc) = m_ID mc"
  by (simp add: heartbeat_machine_def)

lemma ApplyHeartbeat_eq:
  "ApplyHeartbeat orgID hb ts m =
     (case mget (os_machines (org_view orgID m)) (hb_AgentID hb) of
        None \<Rightarrow> (fst (org orgID m), None)
      | Some mc \<Rightarrow>
          (set_org orgID ((org_view orgID m)\<lparr>os_machines :=
             mput (hb_AgentID hb) (heartbeat_machine hb ts mc) (os_machines (org_view orgID m))\<rparr>)
             (fst (org orgID m)), Some (heartbeat_machine hb ts mc)))"
  by (subst ApplyHeartbeat_def, subst org_eq)
     (simp add: Let_def heartbeat_machine_def split: option.splits)

lemma SetMachineOnline_eq:
  "SetMachineOnline orgID i online m =
     (case mget (os_machines (org_view orgID m)) i of
        None \<Rightarrow> (fst (org orgID m), None)
      | Some mc \<Rightarrow>
          (set_org orgID ((org_view orgID m)\<lparr>os_machines :=
             mput i (mc\<lparr>m_Online := online\<rparr>) (os_machines (org_view orgID m))\<rparr>)
             (fst (org orgID m)), Some (mc\<lparr>m_Online := online\<rparr>)))"
  by (subst SetMachineOnline_def, subst org_eq) (simp add: Let_def split: option.splits)

definition metric_session :: "metric_sample \<Rightarrow> session \<Rightarrow> session" where
  "metric_session ms s =
     s\<lparr>s_CPUPct := ms_CPUPct ms, s_MemBytes := ms_MemBytes ms, s_LastActivityAt := ms_TS ms\<rparr>"

lemma s_ID_metric [simp]: "s_ID (metric_session ms s) = s_ID s"
  by (simp add: metric_session_def)

lemma ApplyMetric_eq:
  "ApplyMetric orgID ms m =
     (case mget (os_sessions (org_view orgID m)) (ms_SessionID ms) of
        None \<Rightarrow> (fst (org orgID m), None)
      | Some s \<Rightarrow>
          (set_org orgID ((org_view orgID m)\<lparr>os_sessions :=
             mput (ms_SessionID ms) (metric_session ms s) (os_sessions (org_view orgID m))\<rparr>)
             (fst (org orgID m)), Some (metric_session ms s)))"
  by (subst ApplyMetric_def, subst org_eq)
     (simp add: Let_def metric_session_def split: option.splits)

text \<open>The deleting loop computes a filter of the map and the visited keys of that machine.\<close>

lemma mdel_eq: "mdel k m = filter (\<lambda>(j, v). k \<noteq> j) m"
  by (simp add: mdel_def AList.delete_eq case_prod_unfold)

lemma remove_loop:
  "foldl (\<lambda>(ss, rm) (i, s). if s_MachineID s = mid then (mdel i ss, rm @ [i]) else (ss, rm))
     (ss, rm) xs =
   (filter (\<lambda>(i, s). i \<notin> fst ` set (filter (\<lambda>(i, s). s_MachineID s = mid) xs)) ss,
    rm @ map fst (filter (\<lambda>(i, s). s_MachineID s = mid) xs))"
proof (induction xs arbitrary: ss rm)
  case Nil
  show ?case by (simp add: case_prod_unfold)
next
  case (Cons x xs)
  obtain i s where x: "x = (i, s)" by fastforce
  note IH = Cons.IH [unfolded case_prod_unfold]
  show ?case
  proof (cases "s_MachineID s = mid")
    case True
    have "filter (\<lambda>p. fst p \<notin> fst ` {x \<in> set xs. s_MachineID (snd x) = mid}) (mdel i ss) =
        filter (\<lambda>p. fst p \<noteq> i \<and> fst p \<notin> fst ` {x \<in> set xs. s_MachineID (snd x) = mid}) ss"
      unfolding mdel_eq filter_filter case_prod_unfold by (rule filter_cong) auto
    with True show ?thesis by (simp add: x IH case_prod_unfold)
  next
    case False
    then show ?thesis by (simp add: x IH case_prod_unfold)
  qed
qed

lemma RemoveMachineSessions_eq:
  assumes "wf_org (org_view orgID m)" and "range_order \<pi>"
  shows "RemoveMachineSessions \<pi> orgID mid m =
     (set_org orgID ((org_view orgID m)\<lparr>os_sessions :=
        mkeep (\<lambda>i s. s_MachineID s \<noteq> mid) (os_sessions (org_view orgID m))\<rparr>) (fst (org orgID m)),
      map fst (filter (\<lambda>(i, s). s_MachineID s = mid) (\<pi> (os_sessions (org_view orgID m)))))"
proof -
  let ?ss = "os_sessions (org_view orgID m)"
  have d: "distinct (map fst ?ss)" using assms(1) by (simp add: wf_org_def wf_map_def)
  have "(i, s) \<in> set ?ss \<Longrightarrow>
      i \<notin> fst ` set (filter (\<lambda>(i, s). s_MachineID s = mid) (\<pi> ?ss)) \<longleftrightarrow> s_MachineID s \<noteq> mid" for i s
    using d assms(2) by (force dest: eq_key_imp_eq_value)
  then have "filter (\<lambda>(i, s). i \<notin> fst ` set (filter (\<lambda>(i, s). s_MachineID s = mid) (\<pi> ?ss))) ?ss =
      mkeep (\<lambda>i s. s_MachineID s \<noteq> mid) ?ss"
    unfolding mkeep_def by (intro filter_cong) auto
  then show ?thesis
    by (subst RemoveMachineSessions_def, subst org_eq) (simp add: remove_loop)
qed

lemmas manager_eqs = AddEvent_eq SeedEvent_eq UpsertMachine_eq UpsertSession_eq RemoveSession_eq
  RemoveMachine_eq ApplyHeartbeat_eq SetMachineOnline_eq ApplyMetric_eq


subsection \<open>Runs of method calls\<close>

datatype state_op =
    OpEvent string event
  | OpSeed string event
  | OpMachine string machine
  | OpOnline string string bool
  | OpHeartbeat string agent_heartbeat int
  | OpSession string session
  | OpDropSession string string
  | OpDropMachine string string
  | OpMetric string metric_sample
  | OpDropMachineSessions string string

fun op_org :: "state_op \<Rightarrow> string" where
  "op_org (OpEvent g _) = g"
| "op_org (OpSeed g _) = g"
| "op_org (OpMachine g _) = g"
| "op_org (OpOnline g _ _) = g"
| "op_org (OpHeartbeat g _ _) = g"
| "op_org (OpSession g _) = g"
| "op_org (OpDropSession g _) = g"
| "op_org (OpDropMachine g _) = g"
| "op_org (OpMetric g _) = g"
| "op_org (OpDropMachineSessions g _) = g"

fun exec_op :: "state_op \<Rightarrow> manager \<Rightarrow> manager" where
  "exec_op (OpEvent g e) m = AddEvent g e m"
| "exec_op (OpSeed g e) m = SeedEvent g e m"
| "exec_op (OpMachine g mc) m = fst (UpsertMachine g mc m)"
| "exec_op (OpOnline g i b) m = fst (SetMachineOnline g i b m)"
| "exec_op (OpHeartbeat g hb ts) m = fst (ApplyHeartbeat g hb ts m)"
| "exec_op (OpSession g s) m = fst (UpsertSession g s m)"
| "exec_op (OpDropSession g i) m = RemoveSession g i m"
| "exec_op (OpDropMachine g i) m = RemoveMachine g i m"
| "exec_op (OpMetric g ms) m = fst (ApplyMetric g ms m)"
| "exec_op (OpDropMachineSessions g i) m = fst (RemoveMachineSessions id g i m)"

definition run_ops :: "state_op list \<Rightarrow> manager \<Rightarrow> manager" where
  "run_ops cs m = foldl (\<lambda>s c. exec_op c s) m cs"

text \<open>The partition after a call, as a function of the partition before it.\<close>

fun part_op :: "state_op \<Rightarrow> org_state \<Rightarrow> org_state" where
  "part_op (OpEvent g e) os = os\<lparr>os_events := last_n maxRecentEvents (os_events os @ [e])\<rparr>"
| "part_op (OpSeed g e) os = os\<lparr>os_events := last_n maxRecentEvents (os_events os @ [e])\<rparr>"
| "part_op (OpMachine g mc) os = os\<lparr>os_machines := mput (m_ID mc) mc (os_machines os)\<rparr>"
| "part_op (OpOnline g i b) os =
     (case mget (os_machines os) i of None \<Rightarrow> os
      | Some mc \<Rightarrow> os\<lparr>os_machines := mput i (mc\<lparr>m_Online := b\<rparr>) (os_machines os)\<rparr>)"
| "part_op (OpHeartbeat g hb ts) os =
     (case mget (os_machines os) (hb_AgentID hb) of None \<Rightarrow> os
      | Some mc \<Rightarrow> os\<lparr>os_machines :=
          mput (hb_AgentID hb) (heartbeat_machine hb ts mc) (os_machines os)\<rparr>)"
| "part_op (OpSession g s) os = os\<lparr>os_sessions := mput (s_ID s) s (os_sessions os)\<rparr>"
| "part_op (OpDropSession g i) os = os\<lparr>os_sessions := mdel i (os_sessions os)\<rparr>"
| "part_op (OpDropMachine g i) os = os\<lparr>os_machines := mdel i (os_machines os)\<rparr>"
| "part_op (OpMetric g ms) os =
     (case mget (os_sessions os) (ms_SessionID ms) of None \<Rightarrow> os
      | Some s \<Rightarrow> os\<lparr>os_sessions :=
          mput (ms_SessionID ms) (metric_session ms s) (os_sessions os)\<rparr>)"
| "part_op (OpDropMachineSessions g i) os = os\<lparr>os_sessions :=
     fst (foldl (\<lambda>(ss, rm) (j, s). if s_MachineID s = i then (mdel j ss, rm @ [j]) else (ss, rm))
       (os_sessions os, []) (os_sessions os))\<rparr>"

lemma RemoveMachineSessions_fst:
  "fst (RemoveMachineSessions id g i m) =
     set_org g ((org_view g m)\<lparr>os_sessions :=
       fst (foldl (\<lambda>(ss, rm) (j, s). if s_MachineID s = i then (mdel j ss, rm @ [j]) else (ss, rm))
         (os_sessions (org_view g m), []) (os_sessions (org_view g m)))\<rparr>) (fst (org g m))"
  by (subst RemoveMachineSessions_def, subst org_eq) (simp add: Let_def case_prod_unfold)

lemma org_view_exec_op:
  "org_view g (exec_op c m) = (if g = op_org c then part_op c (org_view g m) else org_view g m)"
  by (cases c) (auto simp: manager_eqs RemoveMachineSessions_fst split: option.splits)

interpretation live: tenant_partition exec_op op_org org_view
  by unfold_locales (simp_all add: org_view_exec_op)

interpretation ring: bounded_history "\<lambda>e. AddEvent g e" "\<lambda>m. os_events (org_view g m)" maxRecentEvents
  by unfold_locales (simp add: AddEvent_eq)

lemma part_op_drop:
  assumes "wf_org os"
  shows "part_op (OpDropMachineSessions g i) os =
    os\<lparr>os_sessions := mkeep (\<lambda>_ s. s_MachineID s \<noteq> i) (os_sessions os)\<rparr>"
proof -
  let ?m = "set_org g os new_manager"
  have "wf_org (org_view g ?m)" using assms by simp
  from arg_cong [OF RemoveMachineSessions_eq [OF this range_order_id(1), of i], of fst]
  have "org_view g (fst (RemoveMachineSessions id g i ?m)) =
      os\<lparr>os_sessions := mkeep (\<lambda>j s. s_MachineID s \<noteq> i) (os_sessions os)\<rparr>" by simp
  then show ?thesis by (simp add: RemoveMachineSessions_fst)
qed

lemma wf_org_part_op: "wf_org os \<Longrightarrow> wf_org (part_op c os)"
proof (cases c)
  case (OpDropMachineSessions g i)
  assume wf: "wf_org os"
  then show ?thesis unfolding OpDropMachineSessions part_op_drop [OF wf]
    by (auto simp: wf_org_def mget_mkeep split: option.splits if_splits)
qed (auto simp: wf_org_def metric_session_def heartbeat_machine_def split: option.splits)

lemma wf_manager_exec_op:
  assumes wf: "wf_manager m"
  shows "wf_manager (exec_op c m)"
proof -
  let ?g = "op_org c" and ?os = "org_view (op_org c) m"
  have m: "wf_manager (fst (org ?g m))" using wf by (rule wf_fst_org)
  have "wf_org (part_op c ?os)" using wf by (intro wf_org_part_op wf_org_view)
  with m have "wf_manager (set_org ?g (part_op c ?os) (fst (org ?g m)))" by (rule wf_set_org)
  with m show ?thesis
    by (cases c) (simp_all add: manager_eqs RemoveMachineSessions_fst split: option.splits)
qed

lemma wf_manager_run_ops: "wf_manager m \<Longrightarrow> wf_manager (run_ops cs m)"
  unfolding run_ops_def by (rule foldl_invariant) (simp_all add: wf_manager_exec_op)

subsection \<open>Properties\<close>

text \<open>
  Tenant non-interference of the live state: after any interleaving of method calls by
  any organisations, an organisation's partition (its machines, sessions and events) is
  exactly what its own calls alone would have produced.
\<close>

theorem live_state_noninterference:
  "org_view g (run_ops cs m) = org_view g (run_ops (filter (\<lambda>c. op_org c = g) cs) m)"
  unfolding run_ops_def by (rule live.run_purge)

text \<open>
  Invariant of the live state: after any sequence of method calls the maps have distinct
  keys, every machine and session is filed under its own id, and no event ring holds more
  than \<open>maxRecentEvents\<close> events.
\<close>

theorem live_state_invariant: "wf_manager (run_ops cs new_manager)"
  by (rule wf_manager_run_ops) simp

fun op_event :: "state_op \<Rightarrow> event list" where
  "op_event (OpEvent _ e) = [e]"
| "op_event (OpSeed _ e) = [e]"
| "op_event _ = []"

lemma os_events_part_op:
  "os_events (part_op c os) =
     (if op_event c = [] then os_events os else last_n maxRecentEvents (os_events os @ op_event c))"
  by (cases c) (auto split: option.splits)

lemma ring_run:
  "os_events (org_view g (run_ops cs new_manager)) =
     last_n maxRecentEvents (concat (map op_event (filter (\<lambda>c. op_org c = g) cs)))"
proof (induction cs rule: rev_induct)
  case Nil
  show ?case by (simp add: run_ops_def newOrgState_def)
next
  case (snoc c cs)
  obtain h where h: "h = concat (map op_event (filter (\<lambda>c. op_org c = g) cs))" by simp
  have run: "run_ops (cs @ [c]) new_manager = exec_op c (run_ops cs new_manager)"
    by (simp add: run_ops_def)
  have "op_event c = [] \<or> (\<exists>e. op_event c = [e])" by (cases c) auto
  then show ?case
    using snoc.IH by (auto simp: run org_view_exec_op os_events_part_op last_n_snoc h [symmetric])
qed

text \<open>
  C24. Refinement of the event ring: an organisation's ring always holds exactly the newest
  200 of the events recorded for it so far, oldest first, whatever other calls and other
  organisations were interleaved.
\<close>

theorem event_ring_is_newest_history:
  "os_events (org_view g (run_ops cs new_manager)) =
     last_n maxRecentEvents (concat (map op_event (filter (\<lambda>c. op_org c = g) cs)))"
  by (rule ring_run)

text \<open>Snapshots.\<close>

lemma sorted_distinct_set_eq:
  fixes f :: "'a \<Rightarrow> 'b::linorder"
  assumes "mset xs = mset ys" and "sorted (map f xs)" and "sorted (map f ys)"
    and "distinct (map f xs)"
  shows "xs = ys"
proof -
  have inj: "inj_on f (set xs)" using assms(4) by (simp add: distinct_map)
  have "map f xs = map f ys"
    using assms(1-3) by (metis mset_map sorted_sort_id properties_for_sort)
  moreover have "set xs = set ys" using assms(1) by (rule mset_eq_setD)
  ultimately show ?thesis using inj by (metis map_inj_on sup_idem)
qed

lemma sort_key_range_unique:
  fixes f :: "'a \<Rightarrow> 'b::linorder"
  assumes "distinct (map f xs)" and "mset ys = mset xs" and "mset zs = mset xs"
  shows "sort_key f ys = sort_key f zs"
proof (rule sorted_distinct_set_eq [where f = f])
  show "mset (sort_key f ys) = mset (sort_key f zs)" using assms(2,3) by simp
  have "mset (map f (sort_key f ys)) = mset (map f xs)" using assms(2) by (simp add: mset_map)
  then show "distinct (map f (sort_key f ys))" using assms(1) mset_eq_imp_distinct_iff by metis
qed simp_all

lemma mset_map_range: "range_order \<pi> \<Longrightarrow> mset (map snd (\<pi> m)) = mset (map snd m)"
  by (simp add: range_order_mset)

lemma distinct_ids:
  assumes "wf_map m" and "\<And>k v. mget m k = Some v \<Longrightarrow> f v = k"
  shows "distinct (map f (map snd m))"
proof -
  have "map f (map snd m) = map fst m"
    using assms by (auto simp: set_mget)
  then show ?thesis using assms(1) by (simp only: wf_map_def)
qed

text \<open>
  Snapshot: the machines come sorted by id and do not depend on the order in which Go
  ranges over its maps; the sessions are the live sessions, latest start first; the events
  are the ring, newest first.
\<close>

theorem snapshot_sorted_and_complete:
  assumes "wf_manager m" and "range_order \<pi>m" and "range_order \<pi>s"
  shows "sorted (map m_ID (sn_Machines (Snapshot_of \<pi>m \<pi>s g m)))
    \<and> distinct (map m_ID (sn_Machines (Snapshot_of \<pi>m \<pi>s g m)))
    \<and> set (sn_Machines (Snapshot_of \<pi>m \<pi>s g m)) = snd ` set (os_machines (org_view g m))
    \<and> sn_Machines (Snapshot_of \<pi>m \<pi>s g m) = sn_Machines (Snapshot_of id id g m)
    \<and> sorted_wrt (\<lambda>a b. s_StartedAt a \<ge> s_StartedAt b) (sn_Sessions (Snapshot_of \<pi>m \<pi>s g m))
    \<and> mset (sn_Sessions (Snapshot_of \<pi>m \<pi>s g m)) = mset (map snd (os_sessions (org_view g m)))
    \<and> sn_Events (Snapshot_of \<pi>m \<pi>s g m) = rev (os_events (org_view g m))"
proof -
  let ?os = "org_view g m"
  have wf: "wf_org ?os" using assms(1) by (rule wf_org_view)
  have snap: "Snapshot_of \<pi>m \<pi>s g m =
      \<lparr>sn_Machines = sort_key m_ID (map snd (\<pi>m (os_machines ?os))),
       sn_Sessions = sort_key (\<lambda>s. - s_StartedAt s) (map snd (\<pi>s (os_sessions ?os))),
       sn_Events = rev (os_events ?os)\<rparr>"
    if "range_order \<pi>m" "range_order \<pi>s" for \<pi>m \<pi>s
    using Snapshot_of_view [OF that] by (simp add: Let_def)
  have d: "distinct (map m_ID (map snd (os_machines ?os)))"
    using wf by (intro distinct_ids) (auto simp: wf_org_def)
  have det: "sort_key m_ID (map snd (\<pi>m (os_machines ?os))) = sort_key m_ID (map snd (os_machines ?os))"
    using d by (rule sort_key_range_unique) (simp_all only: mset_map_range assms(2))
  have "sorted (map (\<lambda>s. - s_StartedAt s) (sn_Sessions (Snapshot_of \<pi>m \<pi>s g m)))"
    by (simp add: snap assms)
  then have desc: "sorted_wrt (\<lambda>a b. s_StartedAt a \<ge> s_StartedAt b) (sn_Sessions (Snapshot_of \<pi>m \<pi>s g m))"
    by (simp add: sorted_map)
  have "distinct (map m_ID (sort_key m_ID (map snd (os_machines ?os))))"
    using d by (metis mset_eq_imp_distinct_iff mset_map mset_sort)
  with desc show ?thesis
    by (simp add: snap assms det mset_map_range range_order_mset)
qed

theorem snapshot_sorted_and_complete_witness:
  "map m_ID (sn_Machines (Snapshot_of rev rev ''o''
     (run_ops [OpMachine ''o'' (zero_machine\<lparr>m_ID := ''b''\<rparr>),
               OpMachine ''o'' (zero_machine\<lparr>m_ID := ''a''\<rparr>)] new_manager))) = [''a'', ''b'']
   \<and> sorted (map m_ID (sn_Machines (Snapshot_of rev rev ''o''
     (run_ops [OpMachine ''o'' (zero_machine\<lparr>m_ID := ''b''\<rparr>),
               OpMachine ''o'' (zero_machine\<lparr>m_ID := ''a''\<rparr>)] new_manager))))"
  (is "?l \<and> ?r")
proof
  show ?l by code_simp
  show ?r by (rule snapshot_sorted_and_complete [THEN conjunct1]) (simp_all add: wf_manager_run_ops)
qed

text \<open>
  Disconnecting a machine removes exactly its sessions from its organisation: the ids
  returned are the ids of the removed sessions, and every other session stays.
\<close>

theorem remove_machine_sessions_exact:
  assumes "wf_manager m" and "range_order \<pi>"
    and "RemoveMachineSessions \<pi> g mid m = (m', removed)"
  shows "distinct removed
    \<and> set removed = {i. \<exists>s. Session g i m = Some s \<and> s_MachineID s = mid}
    \<and> (\<forall>i. Session g i m' = (if i \<in> set removed then None else Session g i m))
    \<and> wf_manager m'"
proof -
  let ?ss = "os_sessions (org_view g m)"
  have wf: "wf_org (org_view g m)" using assms(1) by (rule wf_org_view)
  note eq = RemoveMachineSessions_eq [OF wf assms(2), of mid, unfolded assms(3)]
  from eq have m': "m' = set_org g ((org_view g m)\<lparr>os_sessions :=
      mkeep (\<lambda>i s. s_MachineID s \<noteq> mid) ?ss\<rparr>) (fst (org g m))"
    and rm: "removed = map fst (filter (\<lambda>(i, s). s_MachineID s = mid) (\<pi> ?ss))" by simp_all
  have Session: "Session g i n = mget (os_sessions (org_view g n)) i" for i n
    by (simp add: Session_def org_view_def newOrgState_def split: option.splits)
  have wm: "wf_map ?ss" using wf by (simp add: wf_org_def)
  have set: "set removed = {i. \<exists>s. mget ?ss i = Some s \<and> s_MachineID s = mid}"
    using wm assms(2) by (force simp: rm set_mget)
  have "distinct (map fst (\<pi> ?ss))"
    using wm assms(2) by (simp add: range_order_distinct_map wf_map_def)
  then have "distinct removed" by (simp add: rm distinct_map_filter)
  moreover have "Session g i m' = (if i \<in> set removed then None else Session g i m)" for i
    using wm by (auto simp: Session m' set mget_mkeep split: option.splits)
  moreover have "wf_manager m'"
    using assms(1) wf by (auto simp: m' wf_org_def mget_mkeep split: option.splits if_splits)
  ultimately show ?thesis using set by (simp add: Session)
qed

theorem remove_machine_sessions_exact_witness:
  "snd (RemoveMachineSessions rev ''o'' ''m1''
     (run_ops [OpSession ''o'' (zero_session\<lparr>s_ID := ''s1'', s_MachineID := ''m1''\<rparr>),
               OpSession ''o'' (zero_session\<lparr>s_ID := ''s2'', s_MachineID := ''m2''\<rparr>)] new_manager))
     = [''s1'']
   \<and> wf_manager (fst (RemoveMachineSessions rev ''o'' ''m1''
     (run_ops [OpSession ''o'' (zero_session\<lparr>s_ID := ''s1'', s_MachineID := ''m1''\<rparr>),
               OpSession ''o'' (zero_session\<lparr>s_ID := ''s2'', s_MachineID := ''m2''\<rparr>)] new_manager)))"
  (is "?l \<and> wf_manager (fst ?r)")
proof
  show ?l by code_simp
  have "?r = (fst ?r, snd ?r)" by simp
  from remove_machine_sessions_exact [OF wf_manager_run_ops [OF wf_new_manager] _ this]
  show "wf_manager (fst ?r)" by simp
qed

end
