(* ===== verification/Hub.thy ===== *)
theory Hub
  imports Protocol
begin

section \<open>The WebSocket hub\<close>

text \<open>
  Models \<open>internal/hub\<close>. A \<open>*Client\<close> is a reference into \<open>h_heap\<close>; its reference is its
  \<open>ID\<close> (a fresh uuid). The buffered channel \<open>send\<close> is the queue \<open>cl_send\<close> with the flag
  \<open>cl_open\<close> (cleared by \<open>close(c.send)\<close>); \<open>cl_conn\<close> tells whether the connection is open and
  \<open>cl_written\<close> is what \<open>writePump\<close> has put on it. A send on a closed channel panics in Go:
  \<open>h_panic\<close> records that this happened. The hub's methods run under its mutex or in its
  single \<open>Run\<close> goroutine, so each is one step, except \<open>SendToAgent\<close>, which gives the lock
  back between the lookup and the send.
\<close>

definition sendBuffer :: nat where
  "sendBuffer = 256"

record client =
  cl_ID :: string
  cl_Role :: string
  cl_OrgID :: string
  cl_MachineID :: string
  cl_send :: "envelope list"
  cl_open :: bool
  cl_conn :: bool
  cl_written :: "envelope list"

record hub =
  h_heap :: "(string, client) gomap"
  h_clients :: "(string, string) gomap"
  h_agentsByID :: "(string, string) gomap"
  h_panic :: bool

definition new_hub :: hub where
  "new_hub = \<lparr>h_heap = [], h_clients = [], h_agentsByID = [], h_panic = False\<rparr>"

subsection \<open>Clients\<close>

definition NewClient :: "string \<Rightarrow> string \<Rightarrow> string \<Rightarrow> string \<Rightarrow> hub \<Rightarrow> hub" where
  "NewClient uuid role orgID machineID h =
     h\<lparr>h_heap := mput uuid \<lparr>cl_ID = uuid, cl_Role = role, cl_OrgID = orgID,
        cl_MachineID = machineID, cl_send = [], cl_open = True, cl_conn = True,
        cl_written = []\<rparr> (h_heap h)\<rparr>"

text \<open>The non-blocking send: a full buffer drops the message and closes the connection.\<close>

definition deliver :: "envelope \<Rightarrow> client \<Rightarrow> client" where
  "deliver msg c =
     (if length (cl_send c) < sendBuffer then c\<lparr>cl_send := cl_send c @ [msg]\<rparr>
      else c\<lparr>cl_conn := False\<rparr>)"

definition enqueue :: "string \<Rightarrow> envelope \<Rightarrow> hub \<Rightarrow> hub" where
  "enqueue ref msg h =
     (case mget (h_heap h) ref of
        None \<Rightarrow> h
      | Some c \<Rightarrow>
          if cl_open c then h\<lparr>h_heap := mput ref (deliver msg c) (h_heap h)\<rparr>
          else h\<lparr>h_panic := True\<rparr>)"

definition client_Send :: "int \<Rightarrow> string \<Rightarrow> wire \<Rightarrow> hub \<Rightarrow> hub" where
  "client_Send now ref w h =
     (case Encode now w of None \<Rightarrow> h | Some data \<Rightarrow> enqueue ref data h)"

subsection \<open>The event loop\<close>

definition run_register :: "string \<Rightarrow> hub \<Rightarrow> hub" where
  "run_register ref h =
     (case mget (h_heap h) ref of
        None \<Rightarrow> h
      | Some c \<Rightarrow>
          (let h = h\<lparr>h_clients := mput (cl_ID c) ref (h_clients h)\<rparr>
           in if cl_Role c = RoleAgent \<and> cl_MachineID c \<noteq> ''''
              then h\<lparr>h_agentsByID := mput (cl_MachineID c) ref (h_agentsByID h)\<rparr> else h))"

definition run_unregister :: "string \<Rightarrow> hub \<Rightarrow> hub" where
  "run_unregister ref h =
     (case mget (h_heap h) ref of
        None \<Rightarrow> h
      | Some c \<Rightarrow>
          if mget (h_clients h) (cl_ID c) \<noteq> None then
            (let h = h\<lparr>h_clients := mdel (cl_ID c) (h_clients h)\<rparr>;
                 h = (if cl_Role c = RoleAgent \<and> mget (h_agentsByID h) (cl_MachineID c) = Some ref
                      then h\<lparr>h_agentsByID := mdel (cl_MachineID c) (h_agentsByID h)\<rparr> else h)
             in h\<lparr>h_heap := mput ref (c\<lparr>cl_open := False\<rparr>) (h_heap h)\<rparr>)
          else h)"

text \<open>One turn of \<open>writePump\<close>: the next message goes to the connection, if it is open.\<close>

definition write_turn :: "string \<Rightarrow> hub \<Rightarrow> hub" where
  "write_turn ref h =
     (case mget (h_heap h) ref of
        None \<Rightarrow> h
      | Some c \<Rightarrow>
          (case cl_send c of
             [] \<Rightarrow> if cl_open c then h
                   else h\<lparr>h_heap := mput ref (c\<lparr>cl_conn := False\<rparr>) (h_heap h)\<rparr>
           | msg # q \<Rightarrow>
               if cl_conn c
               then h\<lparr>h_heap := mput ref (c\<lparr>cl_send := q, cl_written := cl_written c @ [msg]\<rparr>) (h_heap h)\<rparr>
               else h))"

subsection \<open>Routing\<close>

text \<open>The loops over \<open>h.clients\<close>: \<open>\<pi>\<close> is the order in which Go visits the map.\<close>

definition send_matching ::
  "((string \<times> string) list \<Rightarrow> (string \<times> string) list) \<Rightarrow> (client \<Rightarrow> bool) \<Rightarrow> envelope \<Rightarrow> hub \<Rightarrow> hub" where
  "send_matching \<pi> P msg h =
     foldl (\<lambda>h (_, ref). case mget (h_heap h) ref of None \<Rightarrow> h
                         | Some c \<Rightarrow> if P c then enqueue ref msg h else h) h (\<pi> (h_clients h))"

definition BroadcastOrg ::
  "((string \<times> string) list \<Rightarrow> (string \<times> string) list) \<Rightarrow> string \<Rightarrow> envelope \<Rightarrow> hub \<Rightarrow> hub" where
  "BroadcastOrg \<pi> orgID msg h =
     send_matching \<pi> (\<lambda>c. cl_Role c = RoleDashboard \<and> cl_OrgID c = orgID) msg h"

definition SendToOrgAgents ::
  "((string \<times> string) list \<Rightarrow> (string \<times> string) list) \<Rightarrow> string \<Rightarrow> envelope \<Rightarrow> hub \<Rightarrow> hub" where
  "SendToOrgAgents \<pi> orgID msg h =
     send_matching \<pi> (\<lambda>c. cl_Role c = RoleAgent \<and> cl_OrgID c = orgID) msg h"

definition lookup_agent :: "string \<Rightarrow> hub \<Rightarrow> string option" where
  "lookup_agent machineID h = mget (h_agentsByID h) machineID"

definition SendToAgent :: "string \<Rightarrow> envelope \<Rightarrow> hub \<Rightarrow> hub \<times> bool" where
  "SendToAgent machineID msg h =
     (case lookup_agent machineID h of None \<Rightarrow> (h, False) | Some ref \<Rightarrow> (enqueue ref msg h, True))"

definition EmitOrg ::
  "((string \<times> string) list \<Rightarrow> (string \<times> string) list) \<Rightarrow> int \<Rightarrow> string \<Rightarrow> wire \<Rightarrow> hub \<Rightarrow> hub" where
  "EmitOrg \<pi> now orgID w h =
     (case Encode now w of None \<Rightarrow> h | Some data \<Rightarrow> BroadcastOrg \<pi> orgID data h)"

subsection \<open>Well-formed hubs\<close>

definition wf_hub :: "hub \<Rightarrow> bool" where
  "wf_hub h \<longleftrightarrow>
     wf_map (h_heap h) \<and> wf_map (h_clients h) \<and> wf_map (h_agentsByID h) \<and> \<not> h_panic h
     \<and> (\<forall>ref c. mget (h_heap h) ref = Some c \<longrightarrow> cl_ID c = ref \<and> length (cl_send c) \<le> sendBuffer)
     \<and> (\<forall>i ref. mget (h_clients h) i = Some ref \<longrightarrow>
          ref = i \<and> (\<exists>c. mget (h_heap h) ref = Some c \<and> cl_open c))
     \<and> (\<forall>m ref. mget (h_agentsByID h) m = Some ref \<longrightarrow>
          mget (h_clients h) ref = Some ref \<and> m \<noteq> ''''
          \<and> (\<exists>c. mget (h_heap h) ref = Some c \<and> cl_Role c = RoleAgent \<and> cl_MachineID c = m))"

lemma wf_new_hub [simp]: "wf_hub new_hub"
  by (simp add: wf_hub_def new_hub_def)

lemma length_deliver: "length (cl_send c) \<le> sendBuffer \<Longrightarrow> length (cl_send (deliver msg c)) \<le> sendBuffer"
  by (simp add: deliver_def)

lemma deliver_simps [simp]: "cl_ID (deliver msg c) = cl_ID c" "cl_Role (deliver msg c) = cl_Role c"
  "cl_OrgID (deliver msg c) = cl_OrgID c" "cl_MachineID (deliver msg c) = cl_MachineID c"
  "cl_open (deliver msg c) = cl_open c" "cl_written (deliver msg c) = cl_written c"
  by (simp_all add: deliver_def)

lemma wf_hub_heapD: "wf_hub h \<Longrightarrow> mget (h_heap h) ref = Some c \<Longrightarrow>
    cl_ID c = ref \<and> length (cl_send c) \<le> sendBuffer"
  by (simp add: wf_hub_def)

lemma wf_hub_clientD: "wf_hub h \<Longrightarrow> mget (h_clients h) i = Some ref \<Longrightarrow>
    ref = i \<and> (\<exists>c. mget (h_heap h) ref = Some c \<and> cl_open c)"
  by (simp add: wf_hub_def)

lemma wf_hub_agentD: "wf_hub h \<Longrightarrow> mget (h_agentsByID h) m = Some ref \<Longrightarrow>
    mget (h_clients h) ref = Some ref \<and> m \<noteq> ''''
    \<and> (\<exists>c. mget (h_heap h) ref = Some c \<and> cl_Role c = RoleAgent \<and> cl_MachineID c = m)"
  by (simp add: wf_hub_def)

lemma wf_hubI:
  assumes "wf_map (h_heap h)" "wf_map (h_clients h)" "wf_map (h_agentsByID h)" "\<not> h_panic h"
    and "\<And>ref c. mget (h_heap h) ref = Some c \<Longrightarrow> cl_ID c = ref \<and> length (cl_send c) \<le> sendBuffer"
    and "\<And>i ref. mget (h_clients h) i = Some ref \<Longrightarrow>
           ref = i \<and> (\<exists>c. mget (h_heap h) ref = Some c \<and> cl_open c)"
    and "\<And>m ref. mget (h_agentsByID h) m = Some ref \<Longrightarrow>
           mget (h_clients h) ref = Some ref \<and> m \<noteq> []
           \<and> (\<exists>c. mget (h_heap h) ref = Some c \<and> cl_Role c = RoleAgent \<and> cl_MachineID c = m)"
  shows "wf_hub h"
  using assms unfolding wf_hub_def by blast

lemma wf_hub_maps: "wf_hub h \<Longrightarrow>
    wf_map (h_heap h) \<and> wf_map (h_clients h) \<and> wf_map (h_agentsByID h) \<and> \<not> h_panic h"
  by (simp add: wf_hub_def)

lemma wf_hub_heap_update:
  assumes wf: "wf_hub h" and c: "mget (h_heap h) ref = Some c"
    and same: "cl_ID c' = cl_ID c" "cl_Role c' = cl_Role c" "cl_MachineID c' = cl_MachineID c"
    and len: "length (cl_send c') \<le> sendBuffer"
    and op: "cl_open c \<Longrightarrow> cl_open c' \<or> mget (h_clients h) ref = None"
  shows "wf_hub (h\<lparr>h_heap := mput ref c' (h_heap h)\<rparr>)"
proof -
  let ?h = "h\<lparr>h_heap := mput ref c' (h_heap h)\<rparr>"
  have "ref' = i \<and> (\<exists>c. mget (h_heap ?h) ref' = Some c \<and> cl_open c)"
    if "mget (h_clients h) i = Some ref'" for i ref'
    using wf_hub_clientD [OF wf that] op c that by auto
  moreover have "mget (h_clients h) ref' = Some ref' \<and> m \<noteq> '''' \<and>
      (\<exists>c. mget (h_heap ?h) ref' = Some c \<and> cl_Role c = RoleAgent \<and> cl_MachineID c = m)"
    if "mget (h_agentsByID h) m = Some ref'" for m ref'
    using wf_hub_agentD [OF wf that] same c by auto
  ultimately show ?thesis
    using wf same len wf_hub_heapD [OF wf c] by (auto simp: wf_hub_def)
qed

text \<open>A client of the hub can be sent to without a panic.\<close>

lemma wf_hub_enqueue:
  assumes "wf_hub h" and "\<And>c. mget (h_heap h) ref = Some c \<Longrightarrow> cl_open c"
  shows "wf_hub (enqueue ref msg h)"
proof (cases "mget (h_heap h) ref")
  case (Some c)
  have "wf_hub (h\<lparr>h_heap := mput ref (deliver msg c) (h_heap h)\<rparr>)"
    using wf_hub_heapD [OF assms(1) Some] assms(2) [OF Some]
    by (intro wf_hub_heap_update [OF assms(1) Some]) (simp_all add: length_deliver)
  then show ?thesis using Some assms(2) [OF Some] by (simp add: enqueue_def)
qed (use assms in \<open>simp add: enqueue_def\<close>)

lemma wf_hub_NewClient:
  assumes wf: "wf_hub h" and new: "mget (h_heap h) uuid = None"
  shows "wf_hub (NewClient uuid role g m h)"
proof -
  have "mget (h_clients h) i \<noteq> Some uuid" "mget (h_agentsByID h) k \<noteq> Some uuid" for i k
    using wf_hub_clientD [OF wf] wf_hub_agentD [OF wf] new by fastforce+
  then show ?thesis using wf by (fastforce simp: wf_hub_def NewClient_def)
qed

lemma wf_hub_register:
  assumes wf: "wf_hub h" and op: "\<And>c. mget (h_heap h) ref = Some c \<Longrightarrow> cl_open c"
  shows "wf_hub (run_register ref h)"
proof (cases "mget (h_heap h) ref")
  case (Some c)
  have c: "cl_ID c = ref" "cl_open c" using wf_hub_heapD [OF wf Some] op [OF Some] by simp_all
  let ?h = "h\<lparr>h_clients := mput ref ref (h_clients h)\<rparr>"
  have h1: "wf_hub ?h"
  proof (rule wf_hubI)
    fix i r assume "mget (h_clients ?h) i = Some r"
    then show "r = i \<and> (\<exists>c. mget (h_heap ?h) r = Some c \<and> cl_open c)"
      using wf_hub_clientD [OF wf, of i r] Some c by (cases "i = ref") auto
  next
    fix m r assume "mget (h_agentsByID ?h) m = Some r"
    then show "mget (h_clients ?h) r = Some r \<and> m \<noteq> [] \<and>
        (\<exists>c. mget (h_heap ?h) r = Some c \<and> cl_Role c = RoleAgent \<and> cl_MachineID c = m)"
      using wf_hub_agentD [OF wf, of m r] by simp
  next
    fix r d assume "mget (h_heap ?h) r = Some d"
    then show "cl_ID d = r \<and> length (cl_send d) \<le> sendBuffer"
      using wf_hub_heapD [OF wf, of r d] by simp
  qed (use wf_hub_maps [OF wf] in simp_all)
  have "wf_hub (?h\<lparr>h_agentsByID := mput (cl_MachineID c) ref (h_agentsByID ?h)\<rparr>)"
    if role: "cl_Role c = RoleAgent" "cl_MachineID c \<noteq> []"
  proof (rule wf_hubI, goal_cases)
    case (7 m r)
    then show ?case using wf_hub_agentD [OF h1, of m r] role Some
      by (cases "m = cl_MachineID c") auto
  next
    case (6 i r)
    then show ?case using wf_hub_clientD [OF h1, of i r] by auto
  next
    case (5 r d)
    then show ?case using wf_hub_heapD [OF h1, of r d] by simp
  qed (use wf_hub_maps [OF h1] in simp_all)
  with h1 show ?thesis by (simp add: run_register_def Some c Let_def)
qed (use wf in \<open>simp add: run_register_def\<close>)

lemma wf_hub_unregister:
  assumes wf: "wf_hub h"
  shows "wf_hub (run_unregister ref h)"
proof (cases "mget (h_heap h) ref")
  case (Some c)
  have ref: "cl_ID c = ref" and len: "length (cl_send c) \<le> sendBuffer"
    using wf_hub_heapD [OF wf Some] by simp_all
  show ?thesis
  proof (cases "mget (h_clients h) ref = None")
    case True
    then show ?thesis using wf Some ref by (simp add: run_unregister_def)
  next
    case False
    define h1 where "h1 = h\<lparr>h_clients := mdel ref (h_clients h)\<rparr>"
    define h2 where "h2 = (if cl_Role c = RoleAgent \<and> mget (h_agentsByID h1) (cl_MachineID c) = Some ref
        then h1\<lparr>h_agentsByID := mdel (cl_MachineID c) (h_agentsByID h1)\<rparr> else h1)"
    have eq: "run_unregister ref h = h2\<lparr>h_heap := mput ref (c\<lparr>cl_open := False\<rparr>) (h_heap h2)\<rparr>"
      using False by (simp add: run_unregister_def Some ref Let_def h1_def h2_def)
    have h2: "h_heap h2 = h_heap h" "h_clients h2 = mdel ref (h_clients h)"
      by (simp_all add: h1_def h2_def)
    have agents: "mget (h_agentsByID h) m = Some ref' \<and> ref' \<noteq> ref"
      if "mget (h_agentsByID h2) m = Some ref'" for m ref'
    proof -
      have m: "mget (h_agentsByID h) m = Some ref'"
        using that by (auto simp: h1_def h2_def split: if_splits)
      moreover have "ref' \<noteq> ref"
      proof
        assume r: "ref' = ref"
        with wf_hub_agentD [OF wf m] Some have "cl_Role c = RoleAgent" "cl_MachineID c = m" by auto
        with m that r show False by (simp add: h1_def h2_def)
      qed
      ultimately show ?thesis by simp
    qed
    have "wf_hub h2"
      unfolding wf_hub_def
    proof (intro conjI allI impI)
      show "wf_map (h_heap h2)" "wf_map (h_clients h2)" "wf_map (h_agentsByID h2)" "\<not> h_panic h2"
        using wf by (auto simp: wf_hub_def h1_def h2_def)
      fix r c' assume "mget (h_heap h2) r = Some c'"
      then show "cl_ID c' = r" "length (cl_send c') \<le> sendBuffer"
        using wf_hub_heapD [OF wf] by (simp_all add: h2)
    next
      fix i r assume "mget (h_clients h2) i = Some r"
      then have "mget (h_clients h) i = Some r" by (simp add: h2 split: if_splits)
      from wf_hub_clientD [OF wf this]
      show "r = i" "\<exists>c. mget (h_heap h2) r = Some c \<and> cl_open c" by (auto simp: h2)
    next
      fix m r assume "mget (h_agentsByID h2) m = Some r"
      note a = agents [OF this]
      from wf_hub_agentD [OF wf conjunct1 [OF a]] conjunct2 [OF a]
      show "mget (h_clients h2) r = Some r" "m \<noteq> ''''"
        "\<exists>c. mget (h_heap h2) r = Some c \<and> cl_Role c = RoleAgent \<and> cl_MachineID c = m"
        by (simp_all add: h2)
    qed
    then show ?thesis unfolding eq
      by (rule wf_hub_heap_update [where c = c]) (use Some len in \<open>simp_all add: h2\<close>)
  qed
qed (use wf in \<open>simp add: run_unregister_def\<close>)

lemma wf_hub_write:
  assumes wf: "wf_hub h"
  shows "wf_hub (write_turn ref h)"
proof (cases "mget (h_heap h) ref")
  case (Some c)
  note len = wf_hub_heapD [OF wf Some]
  show ?thesis
  proof (cases "cl_send c")
    case Nil
    then show ?thesis using wf wf_hub_heap_update [OF wf Some, of "c\<lparr>cl_conn := False\<rparr>"]
      by (simp add: write_turn_def Some)
  next
    case (Cons msg q)
    then show ?thesis
      using wf len wf_hub_heap_update [OF wf Some, of "c\<lparr>cl_send := q, cl_written := cl_written c @ [msg]\<rparr>"]
      by (simp add: write_turn_def Some)
  qed
qed (use wf in \<open>simp add: write_turn_def\<close>)

subsection \<open>What routing does to each client\<close>

lemma enqueue_open:
  "mget (h_heap h) ref = Some c \<Longrightarrow> cl_open c \<Longrightarrow>
     enqueue ref msg h = h\<lparr>h_heap := mput ref (deliver msg c) (h_heap h)\<rparr>"
  by (simp add: enqueue_def)

abbreviation (input) "send_one P msg \<equiv> (\<lambda>h (i :: string, ref). case mget (h_heap h) ref of None \<Rightarrow> h
     | Some c \<Rightarrow> if P c then enqueue ref msg h else h)"

lemma send_loop:
  assumes "wf_hub h" and "distinct (map snd xs)"
    and "\<And>i ref. (i, ref) \<in> set xs \<Longrightarrow> \<exists>c. mget (h_heap h) ref = Some c \<and> cl_open c"
  shows "wf_hub (foldl (send_one P msg) h xs)
    \<and> h_clients (foldl (send_one P msg) h xs) = h_clients h
    \<and> h_agentsByID (foldl (send_one P msg) h xs) = h_agentsByID h
    \<and> (\<forall>ref. mget (h_heap (foldl (send_one P msg) h xs)) ref =
        map_option (\<lambda>c. if ref \<in> snd ` set xs \<and> P c then deliver msg c else c) (mget (h_heap h) ref))"
  using assms
proof (induction xs arbitrary: h)
  case Nil
  then show ?case by (simp add: option.map_ident)
next
  case (Cons x xs)
  obtain i ref where x: "x = (i, ref)" by fastforce
  obtain c where c: "mget (h_heap h) ref = Some c" "cl_open c" using Cons.prems(3) x by auto
  define h' where "h' = (if P c then h\<lparr>h_heap := mput ref (deliver msg c) (h_heap h)\<rparr> else h)"
  have step: "send_one P msg h x = h'"
    using c by (simp add: x h'_def enqueue_open)
  have heap: "mget (h_heap h') r = (if r = ref \<and> P c then Some (deliver msg c) else mget (h_heap h) r)" for r
    by (simp add: h'_def)
  have wf: "wf_hub h'"
    using Cons.prems(1) wf_hub_enqueue [OF Cons.prems(1), of ref msg] c
    by (simp add: h'_def enqueue_open)
  have openl: "\<exists>d. mget (h_heap h') r = Some d \<and> cl_open d" if "(j, r) \<in> set xs" for j r
    using Cons.prems(3) [of j r] that c by (auto simp: heap)
  have notin: "ref \<notin> snd ` set xs" using Cons.prems(2) by (simp add: x)
  have IH: "wf_hub (foldl (send_one P msg) h' xs)
    \<and> h_clients (foldl (send_one P msg) h' xs) = h_clients h'
    \<and> h_agentsByID (foldl (send_one P msg) h' xs) = h_agentsByID h'
    \<and> (\<forall>ref. mget (h_heap (foldl (send_one P msg) h' xs)) ref =
        map_option (\<lambda>c. if ref \<in> snd ` set xs \<and> P c then deliver msg c else c) (mget (h_heap h') ref))"
    by (rule Cons.IH [OF wf _ openl]) (use Cons.prems(2) in simp_all)
  have same: "h_clients h' = h_clients h" "h_agentsByID h' = h_agentsByID h" by (simp_all add: h'_def)
  show ?case
    unfolding foldl_Cons step
  proof (intro conjI allI)
    fix r
    have "mget (h_heap (foldl (send_one P msg) h' xs)) r =
        map_option (\<lambda>c. if r \<in> snd ` set xs \<and> P c then deliver msg c else c) (mget (h_heap h') r)"
      using IH by blast
    then show "mget (h_heap (foldl (send_one P msg) h' xs)) r =
        map_option (\<lambda>c. if r \<in> snd ` set (x # xs) \<and> P c then deliver msg c else c) (mget (h_heap h) r)"
      using c notin by (cases "r = ref"; cases "P c"; cases "mget (h_heap h) r") (simp_all add: heap x)
  qed (use IH same in simp_all)
qed

lemma send_matching_spec:
  assumes wf: "wf_hub h" and "range_order \<pi>"
  shows "wf_hub (send_matching \<pi> P msg h)"
    and "h_clients (send_matching \<pi> P msg h) = h_clients h"
    and "h_agentsByID (send_matching \<pi> P msg h) = h_agentsByID h"
    and "mget (h_heap (send_matching \<pi> P msg h)) ref =
        map_option (\<lambda>c. if mget (h_clients h) ref \<noteq> None \<and> P c then deliver msg c else c)
          (mget (h_heap h) ref)"
proof -
  have eq: "r = i" if "(i, r) \<in> set (h_clients h)" for i r
    using wf_hub_clientD [OF wf] that wf_hub_maps [OF wf] by (metis set_mget)
  have "map snd (h_clients h) = map fst (h_clients h)" using eq by auto
  then have "distinct (map snd (h_clients h))"
    using wf_hub_maps [OF wf] by (simp only: wf_map_def)
  then have "distinct (map snd (\<pi> (h_clients h)))"
    using assms(2) by (simp add: range_order_distinct_map)
  moreover have "\<exists>c. mget (h_heap h) r = Some c \<and> cl_open c" if "(i, r) \<in> set (\<pi> (h_clients h))" for i r
    using that assms(2) wf_hub_clientD [OF wf, of i r] wf_hub_maps [OF wf] by (auto simp: set_mget)
  ultimately have loop: "wf_hub (send_matching \<pi> P msg h)
    \<and> h_clients (send_matching \<pi> P msg h) = h_clients h
    \<and> h_agentsByID (send_matching \<pi> P msg h) = h_agentsByID h
    \<and> (\<forall>ref. mget (h_heap (send_matching \<pi> P msg h)) ref =
        map_option (\<lambda>c. if ref \<in> snd ` set (\<pi> (h_clients h)) \<and> P c then deliver msg c else c)
          (mget (h_heap h) ref))"
    unfolding send_matching_def by (rule send_loop [OF wf])
  have "ref \<in> snd ` set (\<pi> (h_clients h)) \<longleftrightarrow> mget (h_clients h) ref \<noteq> None"
  proof
    assume "ref \<in> snd ` set (\<pi> (h_clients h))"
    then obtain i where i: "(i, ref) \<in> set (h_clients h)" using assms(2) by auto
    with eq have "(ref, ref) \<in> set (h_clients h)" by blast
    then show "mget (h_clients h) ref \<noteq> None"
      unfolding mget_def by (metis map_of_eq_None_iff image_eqI fst_conv)
  next
    assume "mget (h_clients h) ref \<noteq> None"
    then obtain r where r: "mget (h_clients h) ref = Some r" by blast
    then have "(ref, r) \<in> set (h_clients h)" by (rule mget_in_set)
    with eq have "(ref, ref) \<in> set (h_clients h)" by metis
    then show "ref \<in> snd ` set (\<pi> (h_clients h))" using assms(2) by (simp add: rev_image_eqI)
  qed
  with loop show "wf_hub (send_matching \<pi> P msg h)"
    "h_clients (send_matching \<pi> P msg h) = h_clients h"
    "h_agentsByID (send_matching \<pi> P msg h) = h_agentsByID h"
    "mget (h_heap (send_matching \<pi> P msg h)) ref =
        map_option (\<lambda>c. if mget (h_clients h) ref \<noteq> None \<and> P c then deliver msg c else c)
          (mget (h_heap h) ref)" by simp_all
qed

lemmas routing_specs = send_matching_spec [where P = "\<lambda>c. cl_Role c = RoleDashboard \<and> cl_OrgID c = g"]
    send_matching_spec [where P = "\<lambda>c. cl_Role c = RoleAgent \<and> cl_OrgID c = g"] for g

subsection \<open>Runs of the hub\<close>

datatype hub_act =
    HNew string string string string
  | HSend string envelope
  | HRegister string
  | HUnregister string
  | HBroadcast string envelope
  | HToOrgAgents string envelope
  | HToAgent string envelope
  | HWrite string

text \<open>
  \<open>HSend\<close> is \<open>c.Send\<close>, called on a connection before its registration (the snapshot) and
  from its own read loop, before that loop unregisters it.
\<close>

inductive hub_step :: "hub \<Rightarrow> hub_act \<Rightarrow> hub \<Rightarrow> bool" where
  step_new: "mget (h_heap h) uuid = None \<Longrightarrow> hub_step h (HNew uuid role g m) (NewClient uuid role g m h)"
| step_send: "mget (h_heap h) ref = Some c \<Longrightarrow> cl_open c \<Longrightarrow> hub_step h (HSend ref msg) (enqueue ref msg h)"
| step_register: "mget (h_heap h) ref = Some c \<Longrightarrow> cl_open c \<Longrightarrow> hub_step h (HRegister ref) (run_register ref h)"
| step_unregister: "hub_step h (HUnregister ref) (run_unregister ref h)"
| step_broadcast: "range_order \<pi> \<Longrightarrow> hub_step h (HBroadcast g msg) (BroadcastOrg \<pi> g msg h)"
| step_agents: "range_order \<pi> \<Longrightarrow> hub_step h (HToOrgAgents g msg) (SendToOrgAgents \<pi> g msg h)"
| step_agent: "hub_step h (HToAgent m msg) (fst (SendToAgent m msg h))"
| step_write: "hub_step h (HWrite ref) (write_turn ref h)"

inductive_cases hub_stepE: "hub_step h a h'"

inductive hub_run :: "hub_act list \<Rightarrow> hub \<Rightarrow> bool" where
  run_nil: "hub_run [] new_hub"
| run_snoc: "hub_run as h \<Longrightarrow> hub_step h a h' \<Longrightarrow> hub_run (as @ [a]) h'"

lemma wf_hub_SendToAgent: "wf_hub h \<Longrightarrow> wf_hub (fst (SendToAgent m msg h))"
  using wf_hub_agentD [of h m] wf_hub_clientD [of h]
  by (auto simp: SendToAgent_def lookup_agent_def split: option.splits intro!: wf_hub_enqueue) fastforce

lemma wf_hub_step: "hub_step h a h' \<Longrightarrow> wf_hub h \<Longrightarrow> wf_hub h'"
proof (induction rule: hub_step.induct)
  case (step_send h ref c msg)
  then show ?case by (intro wf_hub_enqueue) auto
next
  case (step_register h ref c)
  then show ?case by (intro wf_hub_register) auto
qed (simp_all add: wf_hub_NewClient wf_hub_unregister wf_hub_write
       wf_hub_SendToAgent BroadcastOrg_def SendToOrgAgents_def send_matching_spec(1))

lemma wf_hub_run: "hub_run as h \<Longrightarrow> wf_hub h"
  by (induction rule: hub_run.induct) (simp_all add: wf_hub_step)

text \<open>The messages a client has accepted so far, in the order in which it accepted them.\<close>

definition stream :: "client \<Rightarrow> envelope list" where
  "stream c = cl_written c @ cl_send c"

fun addressed :: "string \<Rightarrow> client \<Rightarrow> envelope \<Rightarrow> hub_act \<Rightarrow> bool" where
  "addressed ref c msg (HSend r m) \<longleftrightarrow> r = ref \<and> m = msg"
| "addressed ref c msg (HBroadcast g m) \<longleftrightarrow> m = msg \<and> cl_Role c = RoleDashboard \<and> cl_OrgID c = g"
| "addressed ref c msg (HToOrgAgents g m) \<longleftrightarrow> m = msg \<and> cl_Role c = RoleAgent \<and> cl_OrgID c = g"
| "addressed ref c msg (HToAgent i m) \<longleftrightarrow> m = msg \<and> cl_Role c = RoleAgent \<and> cl_MachineID c = i"
| "addressed ref c msg _ \<longleftrightarrow> False"

definition same_client :: "client \<Rightarrow> client \<Rightarrow> bool" where
  "same_client c c' \<longleftrightarrow> cl_ID c' = cl_ID c \<and> cl_Role c' = cl_Role c \<and> cl_OrgID c' = cl_OrgID c
     \<and> cl_MachineID c' = cl_MachineID c"

lemma same_client_refl [simp]: "same_client c c" "same_client c (deliver msg c)"
  by (simp_all add: same_client_def)

lemma addressed_same: "same_client c c' \<Longrightarrow> addressed ref c' msg a = addressed ref c msg a"
  by (cases a) (auto simp: same_client_def)

lemma stream_deliver: "\<exists>ms. stream (deliver msg c) = stream c @ ms \<and> (\<forall>m \<in> set ms. m = msg) \<and> length ms \<le> 1"
  by (auto simp: stream_def deliver_def)

lemma stream_enqueue:
  assumes "mget (h_heap h) ref = Some c"
  shows "\<exists>c' ms. mget (h_heap (enqueue r msg h)) ref = Some c' \<and> same_client c c'
     \<and> stream c' = stream c @ ms \<and> (\<forall>m \<in> set ms. m = msg \<and> r = ref) \<and> length ms \<le> 1"
  using assms stream_deliver [of msg c]
  by (cases "r = ref") (auto simp: enqueue_def split: option.splits)

lemma stream_matching:
  assumes "wf_hub h" "range_order \<pi>" "mget (h_heap h) ref = Some c"
  shows "\<exists>c' ms. mget (h_heap (send_matching \<pi> P msg h)) ref = Some c' \<and> same_client c c'
     \<and> stream c' = stream c @ ms \<and> (\<forall>m \<in> set ms. m = msg \<and> P c) \<and> length ms \<le> 1"
  using stream_deliver [of msg c] by (auto simp: send_matching_spec(4) [OF assms(1,2)] assms(3))

text \<open>A step appends at most one message to a client's stream, and only one addressed to it.\<close>

lemma stream_step:
  assumes "hub_step h a h'" and wf: "wf_hub h" and c: "mget (h_heap h) ref = Some c"
  shows "\<exists>c' ms. mget (h_heap h') ref = Some c' \<and> same_client c c' \<and> stream c' = stream c @ ms
     \<and> (\<forall>m \<in> set ms. addressed ref c m a) \<and> length ms \<le> 1"
  using assms(1)
proof (cases rule: hub_step.cases)
  case (step_send r d msg)
  obtain c' ms where "mget (h_heap (enqueue r msg h)) ref = Some c'" "same_client c c'"
      "stream c' = stream c @ ms" "\<forall>m \<in> set ms. m = msg \<and> r = ref" "length ms \<le> 1"
    using stream_enqueue [OF c, of r msg] by blast
  then show ?thesis using step_send by (intro exI [of _ c'] exI [of _ ms]) simp
next
  case (step_broadcast \<pi> g msg)
  let ?P = "\<lambda>c. cl_Role c = RoleDashboard \<and> cl_OrgID c = g"
  obtain c' ms where "mget (h_heap (send_matching \<pi> ?P msg h)) ref = Some c'" "same_client c c'"
      "stream c' = stream c @ ms" "\<forall>m \<in> set ms. m = msg \<and> ?P c" "length ms \<le> 1"
    using stream_matching [OF wf step_broadcast(3) c, of ?P msg] by blast
  then show ?thesis using step_broadcast by (intro exI [of _ c'] exI [of _ ms]) (simp add: BroadcastOrg_def)
next
  case (step_agents \<pi> g msg)
  let ?P = "\<lambda>c. cl_Role c = RoleAgent \<and> cl_OrgID c = g"
  obtain c' ms where "mget (h_heap (send_matching \<pi> ?P msg h)) ref = Some c'" "same_client c c'"
      "stream c' = stream c @ ms" "\<forall>m \<in> set ms. m = msg \<and> ?P c" "length ms \<le> 1"
    using stream_matching [OF wf step_agents(3) c, of ?P msg] by blast
  then show ?thesis using step_agents by (intro exI [of _ c'] exI [of _ ms]) (simp add: SendToOrgAgents_def)
next
  case (step_agent m msg)
  show ?thesis
  proof (cases "lookup_agent m h")
    case None
    then show ?thesis using step_agent c by (auto simp: SendToAgent_def)
  next
    case (Some r)
    have adr: "addressed ref c msg a" if "r = ref"
      using wf_hub_agentD [OF wf Some [unfolded lookup_agent_def]] that c step_agent by auto
    obtain c' ms where "mget (h_heap (enqueue r msg h)) ref = Some c'" "same_client c c'"
        "stream c' = stream c @ ms" "\<forall>m \<in> set ms. m = msg \<and> r = ref" "length ms \<le> 1"
      using stream_enqueue [OF c, of r msg] by blast
    then show ?thesis using step_agent Some adr
      by (intro exI [of _ c'] exI [of _ ms]) (auto simp: SendToAgent_def)
  qed
next
  case (step_write r)
  then show ?thesis using c
    by (cases "r = ref") (auto simp: write_turn_def same_client_def stream_def split: option.splits list.splits)
next
  case (step_unregister r)
  then show ?thesis using c
    by (cases "r = ref") (auto simp: run_unregister_def Let_def same_client_def stream_def split: option.splits)
next
  case (step_register r d)
  then show ?thesis using c by (auto simp: run_register_def Let_def split: option.splits)
qed (use c in \<open>auto simp: NewClient_def\<close>)

lemma enqueue_fresh: "mget (h_heap h) ref = None \<Longrightarrow> mget (h_heap (enqueue r msg h)) ref = None"
  by (cases "r = ref") (simp_all add: enqueue_def split: option.split)

lemma step_fresh:
  assumes "hub_step h a h'" "wf_hub h" "mget (h_heap h) ref = None" "mget (h_heap h') ref = Some c"
  shows "stream c = []"
  using assms(1)
proof (cases rule: hub_step.cases)
  case (step_new uuid role g m)
  then show ?thesis using assms(3,4) by (auto simp: NewClient_def stream_def split: if_splits)
next
  case (step_broadcast \<pi> g msg)
  then show ?thesis using assms(3,4) send_matching_spec(4) [OF assms(2) step_broadcast(3)]
    by (simp add: BroadcastOrg_def)
next
  case (step_agents \<pi> g msg)
  then show ?thesis using assms(3,4) send_matching_spec(4) [OF assms(2) step_agents(3)]
    by (simp add: SendToOrgAgents_def)
next
  case (step_send r d m)
  then show ?thesis using assms(3,4) enqueue_fresh [of h ref] by simp
next
  case (step_agent m msg)
  then show ?thesis using assms(3,4) enqueue_fresh [of h ref]
    by (cases "lookup_agent m h") (simp_all add: SendToAgent_def)
next
  case (step_register r d)
  then show ?thesis using assms(3,4) by (simp add: run_register_def Let_def split: if_splits)
next
  case (step_unregister r)
  then show ?thesis using assms(3,4)
    by (cases "r = ref") (simp_all add: run_unregister_def Let_def split: option.splits if_splits)
next
  case (step_write r)
  then show ?thesis using assms(3,4)
    by (cases "r = ref") (simp_all add: write_turn_def split: option.splits if_splits list.splits)
qed

subsection \<open>Properties\<close>

text \<open>
  C22. Safety of the hub: in every run of connections, registrations, disconnects, broadcasts,
  sends and writes, no message is ever sent on a closed channel, every registered client is
  open, an agent is reachable under its own machine id only while it is registered, and no
  send buffer holds more than 256 messages.
\<close>

theorem hub_invariant:
  assumes "hub_run as h"
  shows "wf_hub h"
  using assms by (rule wf_hub_run)

definition sample_msg :: envelope where
  "sample_msg = \<lparr>env_V = 1, env_TS = 0, env_ID = [], env_Msg = AgentStatus None\<rparr>"

lemma sample_run:
  "hub_run [HNew ''d'' ''dashboard'' ''o'' '''', HRegister ''d'', HBroadcast ''o'' sample_msg]
     (BroadcastOrg id ''o'' sample_msg (run_register ''d'' (NewClient ''d'' ''dashboard'' ''o'' '''' new_hub)))"
proof -
  let ?h1 = "NewClient ''d'' ''dashboard'' ''o'' '''' new_hub"
  have "hub_run ([] @ [HNew ''d'' ''dashboard'' ''o'' '''']) ?h1"
    by (rule run_snoc [OF run_nil step_new]) (simp add: new_hub_def)
  moreover have "hub_step ?h1 (HRegister ''d'') (run_register ''d'' ?h1)"
    by (rule step_register, simp add: NewClient_def new_hub_def, simp)
  ultimately have "hub_run (([] @ [HNew ''d'' ''dashboard'' ''o'' '''']) @ [HRegister ''d'']) (run_register ''d'' ?h1)"
    by (rule run_snoc)
  from run_snoc [OF this step_broadcast [OF range_order_id(1)]] show ?thesis by simp
qed

theorem hub_invariant_witness:
  "wf_hub (BroadcastOrg id ''o'' sample_msg
     (run_register ''d'' (NewClient ''d'' ''dashboard'' ''o'' '''' new_hub)))"
  by (rule hub_invariant [OF sample_run])

text \<open>
  C14. Confinement: whatever a client has been sent in any run was addressed to it: a
  dashboard only ever holds broadcasts of its own organisation (and messages sent to it
  directly), an agent only messages to its machine or to the agents of its organisation.
\<close>

theorem hub_confinement:
  assumes "hub_run as h" and "mget (h_heap h) ref = Some c" and "msg \<in> set (stream c)"
  shows "\<exists>a \<in> set as. addressed ref c msg a"
  using assms
proof (induction arbitrary: c rule: hub_run.induct)
  case run_nil
  then show ?case by (simp add: new_hub_def)
next
  case (run_snoc as h a h')
  note wf = wf_hub_run [OF run_snoc.hyps(1)]
  show ?case
  proof (cases "mget (h_heap h) ref")
    case None
    from step_fresh [OF run_snoc.hyps(2) wf None run_snoc.prems(1)] run_snoc.prems(2)
    show ?thesis by simp
  next
    case (Some d)
    obtain ms where same: "same_client d c" and ms: "stream c = stream d @ ms" "\<forall>m \<in> set ms. addressed ref d m a"
      using stream_step [OF run_snoc.hyps(2) wf Some] run_snoc.prems(1) by auto
    show ?thesis
    proof (cases "msg \<in> set (stream d)")
      case True
      from run_snoc.IH [OF Some True] show ?thesis by (auto simp: addressed_same [OF same])
    next
      case False
      then have "msg \<in> set ms" using ms(1) run_snoc.prems(2) by simp
      then show ?thesis using ms(2) by (auto simp: addressed_same [OF same])
    qed
  qed
qed

theorem hub_confinement_witness:
  "\<exists>a \<in> set [HNew ''d'' ''dashboard'' ''o'' '''', HRegister ''d'', HBroadcast ''o'' sample_msg].
     addressed ''d'' (deliver sample_msg \<lparr>cl_ID = ''d'', cl_Role = ''dashboard'', cl_OrgID = ''o'',
       cl_MachineID = '''', cl_send = [], cl_open = True, cl_conn = True, cl_written = []\<rparr>) sample_msg a"
  by (rule hub_confinement [OF sample_run]; code_simp)

text \<open>
  Messages to a client are delivered in the order in which they were accepted: no step
  removes, reorders or rewrites what a client has accepted (what is written on its
  connection followed by what is queued), it appends at most one message.
\<close>

theorem hub_fifo:
  assumes "hub_run as h" and "hub_step h a h'" and "mget (h_heap h) ref = Some c"
  shows "\<exists>c' ms. mget (h_heap h') ref = Some c' \<and> cl_written c' @ cl_send c' = (cl_written c @ cl_send c) @ ms
     \<and> length ms \<le> 1"
  using stream_step [OF assms(2) wf_hub_run [OF assms(1)] assms(3)] by (auto simp: stream_def)

theorem hub_fifo_witness:
  "\<exists>c' ms. mget (h_heap (write_turn ''d'' (BroadcastOrg id ''o'' sample_msg (run_register ''d''
       (NewClient ''d'' ''dashboard'' ''o'' '''' new_hub))))) ''d'' = Some c'
     \<and> cl_written c' @ cl_send c' = ([] @ [sample_msg]) @ ms \<and> length ms \<le> 1"
  using hub_fifo [OF sample_run step_write, of "''d''" "deliver sample_msg \<lparr>cl_ID = ''d'',
       cl_Role = ''dashboard'', cl_OrgID = ''o'', cl_MachineID = '''', cl_send = [], cl_open = True,
       cl_conn = True, cl_written = []\<rparr>" "''d''"]
  by (simp add: BroadcastOrg_def send_matching_def run_register_def NewClient_def new_hub_def mget_def
      mput_def enqueue_def deliver_def sendBuffer_def)

text \<open>
  A broadcast reaches exactly the registered dashboards of the organisation, in whatever
  order Go visits the client map: each of them gets the message, or loses its connection when
  its buffer is full; every other client is untouched.
\<close>

theorem broadcast_exact:
  assumes "hub_run as h" and "range_order \<pi>"
  shows "mget (h_heap (BroadcastOrg \<pi> g msg h)) ref =
     map_option (\<lambda>c. if mget (h_clients h) ref \<noteq> None \<and> cl_Role c = RoleDashboard \<and> cl_OrgID c = g
                      then deliver msg c else c) (mget (h_heap h) ref)"
  unfolding BroadcastOrg_def by (rule send_matching_spec(4) [OF wf_hub_run [OF assms(1)] assms(2)])

theorem broadcast_exact_witness:
  "map_option (\<lambda>c. length (cl_send c))
     (mget (h_heap (BroadcastOrg rev ''o'' sample_msg (BroadcastOrg id ''o'' sample_msg
       (run_register ''d'' (NewClient ''d'' ''dashboard'' ''o'' '''' new_hub))))) ''d'') = Some 2"
  unfolding broadcast_exact [OF sample_run range_order_id(3)]
  by code_simp

text \<open>
  The window in \<open>SendToAgent\<close>: it releases the hub's lock between finding the agent and
  sending to it. When the agent's disconnect is processed in between, the send hits a closed
  channel and panics.
\<close>

theorem send_to_agent_race:
  "\<exists>as h ref msg. hub_run as h \<and> lookup_agent ''m'' h = Some ref
     \<and> h_panic (enqueue ref msg (run_unregister ref h))"
proof (intro exI conjI)
  let ?h1 = "NewClient ''a'' ''agent'' ''o'' ''m'' new_hub"
  have "hub_run ([] @ [HNew ''a'' ''agent'' ''o'' ''m'']) ?h1"
    by (rule run_snoc [OF run_nil step_new]) (simp add: new_hub_def)
  moreover have "hub_step ?h1 (HRegister ''a'') (run_register ''a'' ?h1)"
    by (rule step_register, simp add: NewClient_def new_hub_def, simp)
  ultimately show "hub_run (([] @ [HNew ''a'' ''agent'' ''o'' ''m'']) @ [HRegister ''a'']) (run_register ''a'' ?h1)"
    by (rule run_snoc)
  show "lookup_agent ''m'' (run_register ''a'' ?h1) = Some ''a''" by code_simp
  show "h_panic (enqueue ''a'' sample_msg (run_unregister ''a'' (run_register ''a'' ?h1)))" by code_simp
qed

end
