(* ===== verification/Store.thy ===== *)
theory Store
  imports Protocol
begin

section \<open>The database\<close>

text \<open>
  Models \<open>internal/store/store.go\<close>, \<open>queries.go\<close> and \<open>push.go\<close>: a table is the list of
  its rows, a row the record of the columns the program reads. The auto-increment ids and
  the \<open>CreatedAt\<close>/\<open>UpdatedAt\<close> columns of machines, sessions and events are written by GORM
  and never read, so they are left out; SQL \<open>NULL\<close> in a text column and the empty string
  read the same in Go and are one value here. The \<open>meta\<close> column holds the map its JSON text
  denotes.

  The database engine is not part of the repository. A statement takes the engine's fault as
  an argument: \<open>Some e\<close> means that the statement fails with the engine's message \<open>e\<close> and
  changes nothing, \<open>None\<close> that it is executed; a violated primary key or unique index is an
  error of the statement too. Where SQL leaves the order of rows open (the rows a statement
  scans, the order of equal sort keys) a query takes the order \<open>scan\<close> as an argument.
  Instants are nanoseconds.
\<close>

subsection \<open>Tables\<close>

abbreviation (input) "UserStatusPending \<equiv> ''pending''"
abbreviation (input) "UserStatusActive \<equiv> ''active''"

record org_row =
  o_ID :: string
  o_Name :: string
  o_Slug :: string
  o_CreatedAt :: int

record user_row =
  u_ID :: string
  u_OrgID :: string
  u_Email :: string
  u_PasswordHash :: string
  u_Role :: string
  u_Status :: string
  u_PlatformAdmin :: bool
  u_CreatedAt :: int

record invite_row =
  i_Token :: string
  i_OrgID :: string
  i_Email :: string
  i_Role :: string
  i_InvitedBy :: string
  i_ExpiresAt :: int
  i_AcceptedAt :: "int option"
  i_CreatedAt :: int

record file_row =
  f_ID :: string
  f_OrgID :: string
  f_MachineID :: string
  f_SessionID :: string
  f_Name :: string
  f_Size :: int
  f_ContentType :: string
  f_SHA256 :: string
  f_Data :: string
  f_CreatedAt :: int

record machine_row =
  mr_ID :: string
  mr_OrgID :: string
  mr_Hostname :: string
  mr_OS :: string
  mr_Arch :: string
  mr_CPUCores :: int
  mr_TotalMem :: "64 word"
  mr_AgentVersion :: string
  mr_LastSeenAt :: int

record session_row =
  sr_ID :: string
  sr_OrgID :: string
  sr_MachineID :: string
  sr_Provider :: string
  sr_Status :: string
  sr_Repo :: string
  sr_Branch :: string
  sr_CWD :: string
  sr_PID :: int
  sr_CurrentCommand :: string
  sr_Version :: string
  sr_TmuxSession :: string
  sr_StartedAt :: int
  sr_LastActivityAt :: int
  sr_EndedAt :: "int option"

record log_row =
  ll_OrgID :: string
  ll_SessionID :: string
  ll_Seq :: int
  ll_Stream :: string
  ll_Line :: string
  ll_TS :: int

record metric_row =
  mt_OrgID :: string
  mt_SessionID :: string
  mt_CPUPct :: float64
  mt_MemBytes :: "64 word"
  mt_TS :: int

record event_row =
  er_OrgID :: string
  er_EventID :: string
  er_MachineID :: string
  er_SessionID :: string
  er_Kind :: string
  er_Message :: string
  er_Severity :: string
  er_Meta :: "(string, string) gomap"
  er_TS :: int

record token_row =
  et_Token :: string
  et_OrgID :: string
  et_Label :: string
  et_CreatedAt :: int
  et_ExpiresAt :: int
  et_UsedAt :: "int option"
  et_UsedByID :: string
  et_Revoked :: bool

record key_row =
  ak_Key :: string
  ak_OrgID :: string
  ak_MachineID :: string
  ak_Label :: string
  ak_CreatedAt :: int
  ak_Revoked :: bool

record sub_row =
  ps_ID :: string
  ps_OrgID :: string
  ps_UserID :: string
  ps_Endpoint :: string
  ps_P256dh :: string
  ps_Auth :: string
  ps_CreatedAt :: "int option"

record store =
  db_orgs :: "org_row list"
  db_users :: "user_row list"
  db_invites :: "invite_row list"
  db_files :: "file_row list"
  db_machines :: "machine_row list"
  db_sessions :: "session_row list"
  db_logs :: "log_row list"
  db_metrics :: "metric_row list"
  db_events :: "event_row list"
  db_tokens :: "token_row list"
  db_keys :: "key_row list"
  db_subs :: "sub_row list"

definition empty_store :: store where
  "empty_store = \<lparr>db_orgs = [], db_users = [], db_invites = [], db_files = [],
     db_machines = [], db_sessions = [], db_logs = [], db_metrics = [], db_events = [],
     db_tokens = [], db_keys = [], db_subs = []\<rparr>"

datatype store_error =
    ErrNotFound
  | ErrTokenInvalid
  | ErrUnique
  | ErrEngine string
  | ErrRand string
  | ErrHash string

type_synonym 'a db_result = "store_error + 'a"

definition isPostgresDSN :: "string \<Rightarrow> bool" where
  "isPostgresDSN dsn \<longleftrightarrow> has_prefix dsn ''postgres://'' \<or> has_prefix dsn ''postgresql://''"

subsection \<open>Statements\<close>

definition sql_update :: "('r \<Rightarrow> bool) \<Rightarrow> ('r \<Rightarrow> 'r) \<Rightarrow> 'r list \<Rightarrow> 'r list" where
  "sql_update P f t = map (\<lambda>r. if P r then f r else r) t"

definition sql_delete :: "('r \<Rightarrow> bool) \<Rightarrow> 'r list \<Rightarrow> 'r list" where
  "sql_delete P t = filter (\<lambda>r. \<not> P r) t"

definition rows_affected :: "('r \<Rightarrow> bool) \<Rightarrow> 'r list \<Rightarrow> nat" where
  "rows_affected P t = length (filter P t)"

text \<open>\<open>INSERT \<dots> ON CONFLICT (key) DO UPDATE\<close> of all columns.\<close>

definition sql_upsert :: "('r \<Rightarrow> 'k) \<Rightarrow> 'r \<Rightarrow> 'r list \<Rightarrow> 'r list" where
  "sql_upsert key r t =
     (if list_ex (\<lambda>x. key x = key r) t then map (\<lambda>x. if key x = key r then r else x) t
      else t @ [r])"

text \<open>GORM's \<open>First\<close>: the matching row with the least primary key.\<close>

definition sql_first :: "('r \<Rightarrow> 'k::linorder) \<Rightarrow> ('r \<Rightarrow> bool) \<Rightarrow> 'r list \<Rightarrow> 'r option" where
  "sql_first key P t = (case sort_key key (filter P t) of [] \<Rightarrow> None | r # _ \<Rightarrow> Some r)"

text \<open>
  \<open>First\<close> with its error folded into \<open>ErrNotFound\<close>, as every caller in this package does:
  an engine failure looks like a missing row.
\<close>

definition first_or :: "store_error \<Rightarrow> string option \<Rightarrow> 'r option \<Rightarrow> 'r db_result" where
  "first_or e fault r = (case fault of Some _ \<Rightarrow> Inl e
     | None \<Rightarrow> (case r of None \<Rightarrow> Inl e | Some x \<Rightarrow> Inr x))"

text \<open>A statement that changes the store and reports the rows it affected.\<close>

definition exec_stmt ::
  "string option \<Rightarrow> store \<Rightarrow> store \<Rightarrow> store \<times> unit db_result" where
  "exec_stmt fault st st' = (case fault of Some e \<Rightarrow> (st, Inl (ErrEngine e)) | None \<Rightarrow> (st', Inr ()))"

definition exec_affected ::
  "string option \<Rightarrow> nat \<Rightarrow> store \<Rightarrow> store \<Rightarrow> store \<times> unit db_result" where
  "exec_affected fault n st st' =
     (case fault of Some e \<Rightarrow> (st, Inl (ErrEngine e))
      | None \<Rightarrow> if n = 0 then (st', Inl ErrNotFound) else (st', Inr ()))"

lemmas [tables] = sql_update_def sql_delete_def rows_affected_def first_or_def exec_stmt_def
  exec_affected_def

lemma sql_first_Some:
  assumes "sql_first key P t = Some r"
  shows "r \<in> set t" "P r" "\<And>x. x \<in> set t \<Longrightarrow> P x \<Longrightarrow> key r \<le> key x"
proof -
  from assms obtain rs where s: "sort_key key (filter P t) = r # rs"
    by (auto simp: sql_first_def split: list.splits)
  then have set: "set (r # rs) = set (filter P t)" by (metis set_sort)
  then show "r \<in> set t" "P r" by auto
  have "sorted (map key (r # rs))" using s by (metis sorted_sort_key)
  then show "key r \<le> key x" if "x \<in> set t" "P x" for x using that set by auto
qed

lemma sql_first_None [simp]: "sql_first key P t = None \<longleftrightarrow> (\<forall>r \<in> set t. \<not> P r)"
proof -
  have "sql_first key P t = None \<longleftrightarrow> sort_key key (filter P t) = []"
    by (simp add: sql_first_def split: list.splits)
  also have "\<dots> \<longleftrightarrow> filter P t = []" by (metis length_0_conv length_sort)
  finally show ?thesis by (simp add: filter_empty_conv)
qed

lemma sql_first_unique:
  assumes "r \<in> set t" "P r" "\<And>x. x \<in> set t \<Longrightarrow> P x \<Longrightarrow> x = r"
  shows "sql_first key P t = Some r"
proof (cases "sql_first key P t")
  case None
  then show ?thesis using assms(1,2) by auto
next
  case (Some x)
  have "x = r" using sql_first_Some(1) [OF Some] sql_first_Some(2) [OF Some] by (rule assms(3))
  then show ?thesis by (simp only: Some)
qed

lemma set_sql_upsert:
  "x \<in> set (sql_upsert key r t) \<longleftrightarrow> x = r \<or> (x \<in> set t \<and> key x \<noteq> key r)"
  by (auto simp: sql_upsert_def list_ex_iff)

lemma keys_sql_upsert: "key ` set (sql_upsert key r t) = insert (key r) (key ` set t)"
  by (auto simp: set_sql_upsert image_iff) (metis set_sql_upsert)+

lemma keys_sql_update:
  assumes "\<And>r. key (f r) = key r"
  shows "key ` set (sql_update P f t) = key ` set t"
proof -
  have "key ` set (sql_update P f t) = set (map key (map (\<lambda>r. if P r then f r else r) t))"
    by (simp only: sql_update_def list.set_map)
  also have "map key (map (\<lambda>r. if P r then f r else r) t) = map key t" using assms by simp
  finally show ?thesis by simp
qed

lemma ball_sql_update:
  "(\<forall>r \<in> set (sql_update P f t). Q r) \<longleftrightarrow> (\<forall>r \<in> set t. if P r then Q (f r) else Q r)"
  by (auto simp: sql_update_def)

lemma distinct_sql_upsert:
  assumes "distinct (map key t)"
  shows "distinct (map key (sql_upsert key r t))"
proof (cases "list_ex (\<lambda>x. key x = key r) t")
  case True
  have "map key (map (\<lambda>x. if key x = key r then r else x) t) = map key t" by simp
  then show ?thesis using True assms by (simp add: sql_upsert_def del: map_map)
next
  case False
  then show ?thesis using assms by (auto simp: sql_upsert_def list_ex_iff)
qed

lemma distinct_sql_delete: "distinct (map key t) \<Longrightarrow> distinct (map key (sql_delete P t))"
  by (simp add: sql_delete_def distinct_map_filter)

lemma distinct_sql_update:
  "distinct (map key t) \<Longrightarrow> (\<And>r. key (f r) = key r) \<Longrightarrow> distinct (map key (sql_update P f t))"
  by (simp add: sql_update_def comp_def if_distrib cong: if_cong)

subsection \<open>Domain rows (queries.go)\<close>

definition msToTime :: "int \<Rightarrow> int" where
  "msToTime ms = ms * 1000000"

definition UnixMilli :: "int \<Rightarrow> int" where
  "UnixMilli t = t div 1000000"

lemma UnixMilli_msToTime [simp]: "UnixMilli (msToTime ms) = ms"
  by (simp add: UnixMilli_def msToTime_def)

definition machine_rec :: "string \<Rightarrow> machine \<Rightarrow> machine_row" where
  "machine_rec orgID m = \<lparr>mr_ID = m_ID m, mr_OrgID = orgID, mr_Hostname = m_Hostname m,
     mr_OS = m_OS m, mr_Arch = m_Arch m, mr_CPUCores = m_CPUCores m, mr_TotalMem = m_TotalMem m,
     mr_AgentVersion = m_AgentVersion m, mr_LastSeenAt = msToTime (m_LastSeenAt m)\<rparr>"

definition db_UpsertMachine ::
  "string option \<Rightarrow> string \<Rightarrow> machine \<Rightarrow> store \<Rightarrow> store \<times> unit db_result" where
  "db_UpsertMachine fault orgID m st =
     exec_stmt fault st (st\<lparr>db_machines := sql_upsert mr_ID (machine_rec orgID m) (db_machines st)\<rparr>)"

definition session_rec :: "string \<Rightarrow> session \<Rightarrow> session_row" where
  "session_rec orgID s = \<lparr>sr_ID = s_ID s, sr_OrgID = orgID, sr_MachineID = s_MachineID s,
     sr_Provider = s_Provider s, sr_Status = s_Status s, sr_Repo = s_Repo s,
     sr_Branch = s_Branch s, sr_CWD = s_CWD s, sr_PID = s_PID s,
     sr_CurrentCommand = s_CurrentCommand s, sr_Version = s_Version s,
     sr_TmuxSession = s_TmuxSession s, sr_StartedAt = msToTime (s_StartedAt s),
     sr_LastActivityAt = msToTime (s_LastActivityAt s),
     sr_EndedAt = (if s_Status s = StatusFinished \<or> s_Status s = StatusError
                   then Some (msToTime (s_LastActivityAt s)) else None)\<rparr>"

definition db_UpsertSession ::
  "string option \<Rightarrow> string \<Rightarrow> session \<Rightarrow> store \<Rightarrow> store \<times> unit db_result" where
  "db_UpsertSession fault orgID s st =
     exec_stmt fault st (st\<lparr>db_sessions := sql_upsert sr_ID (session_rec orgID s) (db_sessions st)\<rparr>)"

definition AppendLog ::
  "string option \<Rightarrow> string \<Rightarrow> log_append \<Rightarrow> store \<Rightarrow> store \<times> unit db_result" where
  "AppendLog fault orgID l st =
     exec_stmt fault st (st\<lparr>db_logs := db_logs st @
       [\<lparr>ll_OrgID = orgID, ll_SessionID = la_SessionID l, ll_Seq = la_Seq l,
         ll_Stream = la_Stream l, ll_Line = la_Line l, ll_TS = msToTime (la_TS l)\<rparr>]\<rparr>)"

definition AppendMetric ::
  "string option \<Rightarrow> string \<Rightarrow> metric_sample \<Rightarrow> store \<Rightarrow> store \<times> unit db_result" where
  "AppendMetric fault orgID m st =
     exec_stmt fault st (st\<lparr>db_metrics := db_metrics st @
       [\<lparr>mt_OrgID = orgID, mt_SessionID = ms_SessionID m, mt_CPUPct = ms_CPUPct m,
         mt_MemBytes = ms_MemBytes m, mt_TS = msToTime (ms_TS m)\<rparr>]\<rparr>)"

text \<open>\<open>Limit(n)\<close> of a query; GORM leaves the clause out when \<open>n\<close> is negative.\<close>

definition sql_limit :: "int \<Rightarrow> 'r list \<Rightarrow> 'r list" where
  "sql_limit n rs = (if n < 0 then rs else take (nat n) rs)"

definition LogPage ::
  "(log_row list \<Rightarrow> log_row list) \<Rightarrow> string option \<Rightarrow> string \<Rightarrow> string \<Rightarrow> int \<Rightarrow> int \<Rightarrow> store
     \<Rightarrow> log_row list db_result" where
  "LogPage scan fault orgID sessionID afterSeq limit st =
     (case fault of Some e \<Rightarrow> Inl (ErrEngine e)
      | None \<Rightarrow> Inr (sql_limit limit (sort_key ll_Seq (filter
          (\<lambda>r. ll_OrgID r = orgID \<and> ll_SessionID r = sessionID \<and> ll_Seq r > afterSeq)
          (scan (db_logs st))))))"

definition Metrics ::
  "(metric_row list \<Rightarrow> metric_row list) \<Rightarrow> string option \<Rightarrow> string \<Rightarrow> string \<Rightarrow> int \<Rightarrow> int \<Rightarrow> store
     \<Rightarrow> metric_row list db_result" where
  "Metrics scan fault orgID sessionID since limit st =
     (case fault of Some e \<Rightarrow> Inl (ErrEngine e)
      | None \<Rightarrow> Inr (sql_limit limit (sort_key mt_TS (filter
          (\<lambda>r. mt_OrgID r = orgID \<and> mt_SessionID r = sessionID \<and> mt_TS r \<ge> since)
          (scan (db_metrics st))))))"

definition SaveEvent ::
  "string option \<Rightarrow> string \<Rightarrow> event \<Rightarrow> store \<Rightarrow> store \<times> unit db_result" where
  "SaveEvent fault orgID e st =
     (let rec = \<lparr>er_OrgID = orgID, er_EventID = e_ID e, er_MachineID = e_MachineID e,
            er_SessionID = e_SessionID e, er_Kind = e_Kind e, er_Message = e_Message e,
            er_Severity = e_Severity e, er_Meta = e_Meta e, er_TS = msToTime (e_TS e)\<rparr>
      in exec_stmt fault st
           (if list_ex (\<lambda>r. er_EventID r = e_ID e) (db_events st) then st
            else st\<lparr>db_events := db_events st @ [rec]\<rparr>))"

definition toProtocol :: "event_row \<Rightarrow> event" where
  "toProtocol r = \<lparr>e_ID = er_EventID r, e_MachineID = er_MachineID r,
     e_SessionID = er_SessionID r, e_Kind = er_Kind r, e_Message = er_Message r,
     e_Severity = er_Severity r, e_TS = UnixMilli (er_TS r), e_Meta = er_Meta r\<rparr>"

record event_filter =
  ef_MachineID :: string
  ef_SessionID :: string
  ef_Kind :: string

definition event_matches :: "string \<Rightarrow> event_filter \<Rightarrow> event_row \<Rightarrow> bool" where
  "event_matches orgID f r \<longleftrightarrow>
     er_OrgID r = orgID
     \<and> (ef_MachineID f \<noteq> '''' \<longrightarrow> er_MachineID r = ef_MachineID f)
     \<and> (ef_SessionID f \<noteq> '''' \<longrightarrow> er_SessionID r = ef_SessionID f)
     \<and> (ef_Kind f \<noteq> '''' \<longrightarrow> er_Kind r = ef_Kind f)"

definition ListEvents ::
  "(event_row list \<Rightarrow> event_row list) \<Rightarrow> string option \<Rightarrow> string \<Rightarrow> event_filter \<Rightarrow> int \<Rightarrow> store
     \<Rightarrow> event list db_result" where
  "ListEvents scan fault orgID f limit st =
     (case fault of Some e \<Rightarrow> Inl (ErrEngine e)
      | None \<Rightarrow> Inr (map toProtocol (sql_limit limit
          (sort_key (\<lambda>r. - er_TS r) (filter (event_matches orgID f) (scan (db_events st)))))))"

definition RecentEvents ::
  "(event_row list \<Rightarrow> event_row list) \<Rightarrow> string option \<Rightarrow> string \<Rightarrow> int \<Rightarrow> store
     \<Rightarrow> event list db_result" where
  "RecentEvents scan fault orgID limit st =
     ListEvents scan fault orgID \<lparr>ef_MachineID = '''', ef_SessionID = '''', ef_Kind = ''''\<rparr> limit st"

definition AllRecentEvents ::
  "(event_row list \<Rightarrow> event_row list) \<Rightarrow> string option \<Rightarrow> int \<Rightarrow> store
     \<Rightarrow> (event list \<times> string list) db_result" where
  "AllRecentEvents scan fault limit st =
     (case fault of Some e \<Rightarrow> Inl (ErrEngine e)
      | None \<Rightarrow>
          (let rows = sql_limit limit (sort_key (\<lambda>r. - er_TS r) (scan (db_events st)))
           in Inr (map toProtocol rows, map er_OrgID rows)))"

definition PruneEvents :: "string option \<Rightarrow> int \<Rightarrow> store \<Rightarrow> store \<times> nat db_result" where
  "PruneEvents fault before st =
     (case fault of Some e \<Rightarrow> (st, Inl (ErrEngine e))
      | None \<Rightarrow> (st\<lparr>db_events := sql_delete (\<lambda>r. er_TS r < before) (db_events st)\<rparr>,
                 Inr (rows_affected (\<lambda>r. er_TS r < before) (db_events st))))"

definition PruneLogs :: "string option \<Rightarrow> int \<Rightarrow> store \<Rightarrow> store \<times> nat db_result" where
  "PruneLogs fault before st =
     (case fault of Some e \<Rightarrow> (st, Inl (ErrEngine e))
      | None \<Rightarrow> (st\<lparr>db_logs := sql_delete (\<lambda>r. ll_TS r < before) (db_logs st)\<rparr>,
                 Inr (rows_affected (\<lambda>r. ll_TS r < before) (db_logs st))))"

definition PruneMetrics :: "string option \<Rightarrow> int \<Rightarrow> store \<Rightarrow> store \<times> nat db_result" where
  "PruneMetrics fault before st =
     (case fault of Some e \<Rightarrow> (st, Inl (ErrEngine e))
      | None \<Rightarrow> (st\<lparr>db_metrics := sql_delete (\<lambda>r. mt_TS r < before) (db_metrics st)\<rparr>,
                 Inr (rows_affected (\<lambda>r. mt_TS r < before) (db_metrics st))))"

subsection \<open>Push subscriptions (push.go)\<close>

text \<open>
  A zero \<open>CreatedAt\<close> is \<open>None\<close>. \<open>SavePushSubscription\<close> runs two statements, so it takes
  two faults: of the lookup (a failed lookup falls through to the insert, as in the code)
  and of the write.
\<close>

definition SavePushSubscription ::
  "string option \<Rightarrow> string option \<Rightarrow> string \<Rightarrow> int \<Rightarrow> sub_row \<Rightarrow> store \<Rightarrow> store \<times> unit db_result" where
  "SavePushSubscription fault1 fault2 newID now sub st =
     (case first_or ErrNotFound fault1
             (sql_first ps_ID (\<lambda>r. ps_Endpoint r = ps_Endpoint sub) (db_subs st)) of
        Inr existing \<Rightarrow>
          exec_stmt fault2 st (st\<lparr>db_subs := sql_update (\<lambda>r. ps_ID r = ps_ID existing)
            (\<lambda>r. r\<lparr>ps_OrgID := ps_OrgID sub, ps_UserID := ps_UserID sub,
                  ps_P256dh := ps_P256dh sub, ps_Auth := ps_Auth sub\<rparr>) (db_subs st)\<rparr>)
      | Inl _ \<Rightarrow>
          (let sub = (if ps_ID sub = '''' then sub\<lparr>ps_ID := newID\<rparr> else sub);
               sub = (if ps_CreatedAt sub = None then sub\<lparr>ps_CreatedAt := Some now\<rparr> else sub)
           in if list_ex (\<lambda>r. ps_ID r = ps_ID sub \<or> ps_Endpoint r = ps_Endpoint sub) (db_subs st)
              then (st, Inl (case fault2 of Some e \<Rightarrow> ErrEngine e | None \<Rightarrow> ErrUnique))
              else exec_stmt fault2 st (st\<lparr>db_subs := db_subs st @ [sub]\<rparr>)))"

definition ListPushSubscriptionsForOrg ::
  "(sub_row list \<Rightarrow> sub_row list) \<Rightarrow> string option \<Rightarrow> string \<Rightarrow> store \<Rightarrow> sub_row list db_result" where
  "ListPushSubscriptionsForOrg scan fault orgID st =
     (case fault of Some e \<Rightarrow> Inl (ErrEngine e)
      | None \<Rightarrow> Inr (filter (\<lambda>r. ps_OrgID r = orgID) (scan (db_subs st))))"

definition ListPushSubscriptionsForUser ::
  "(sub_row list \<Rightarrow> sub_row list) \<Rightarrow> string option \<Rightarrow> string \<Rightarrow> store \<Rightarrow> sub_row list db_result" where
  "ListPushSubscriptionsForUser scan fault userID st =
     (case fault of Some e \<Rightarrow> Inl (ErrEngine e)
      | None \<Rightarrow> Inr (filter (\<lambda>r. ps_UserID r = userID) (scan (db_subs st))))"

definition DeletePushSubscription ::
  "string option \<Rightarrow> string \<Rightarrow> store \<Rightarrow> store \<times> unit db_result" where
  "DeletePushSubscription fault endpoint st =
     exec_stmt fault st (st\<lparr>db_subs := sql_delete (\<lambda>r. ps_Endpoint r = endpoint) (db_subs st)\<rparr>)"

subsection \<open>Reading a log page by page\<close>

definition log_matches :: "string \<Rightarrow> string \<Rightarrow> int \<Rightarrow> log_row \<Rightarrow> bool" where
  "log_matches g sid after r \<longleftrightarrow> ll_OrgID r = g \<and> ll_SessionID r = sid \<and> ll_Seq r > after"

lemma LogPage_matches:
  "LogPage scan None g sid after limit st =
     Inr (sql_limit limit (sort_key ll_Seq (filter (log_matches g sid after) (scan (db_logs st)))))"
proof -
  have "log_matches g sid after = (\<lambda>r. ll_OrgID r = g \<and> ll_SessionID r = sid \<and> ll_Seq r > after)"
    by (rule ext) (simp add: log_matches_def)
  then show ?thesis by (simp add: LogPage_def)
qed

text \<open>A client that follows the cursor: each page starts after the last line of the one before.\<close>

fun follow_cursor ::
  "nat \<Rightarrow> (log_row list \<Rightarrow> log_row list) \<Rightarrow> string \<Rightarrow> string \<Rightarrow> int \<Rightarrow> int \<Rightarrow> store \<Rightarrow> log_row list" where
  "follow_cursor 0 scan g sid after limit st = []"
| "follow_cursor (Suc n) scan g sid after limit st =
     (case LogPage scan None g sid after limit st of
        Inl _ \<Rightarrow> []
      | Inr page \<Rightarrow>
          if page = [] then []
          else page @ follow_cursor n scan g sid (ll_Seq (last page)) limit st)"

lemma strict_sorted_after:
  assumes "sorted_wrt (<) (map f (xs @ x # ys))"
  shows "filter (\<lambda>r. f r > (f x :: int)) (xs @ x # ys) = ys"
proof -
  have "\<forall>y \<in> set xs. f y < f x" "\<forall>y \<in> set ys. f x < f y"
    using assms by (auto simp: sorted_wrt_append)
  then show ?thesis by (auto simp: filter_empty_conv)
qed

lemma sort_filter_seq:
  assumes "distinct (map ll_Seq (filter (log_matches g sid after) rows))"
  shows "sorted_wrt (<) (map ll_Seq (sort_key ll_Seq (filter (log_matches g sid after) rows)))"
proof -
  have "mset (map ll_Seq (sort_key ll_Seq (filter (log_matches g sid after) rows))) =
      mset (map ll_Seq (filter (log_matches g sid after) rows))" by simp
  then have "distinct (map ll_Seq (sort_key ll_Seq (filter (log_matches g sid after) rows)))"
    using assms by (metis mset_eq_imp_distinct_iff)
  then show ?thesis by (simp add: strict_sorted_iff)
qed

lemma filter_sort_key: "filter P (sort_key f xs) = sort_key f (filter P xs)"
  by (rule filter_sort)

text \<open>The lines after the page are exactly the lines after its cursor.\<close>

lemma page_step:
  assumes d: "distinct (map ll_Seq (filter (log_matches g sid after) rows))"
    and page: "page = take (Suc k) (sort_key ll_Seq (filter (log_matches g sid after) rows))" "page \<noteq> []"
  shows "sort_key ll_Seq (filter (log_matches g sid after) rows) =
    page @ sort_key ll_Seq (filter (log_matches g sid (ll_Seq (last page))) rows)"
    and "ll_Seq (last page) \<ge> after"
proof -
  let ?all = "sort_key ll_Seq (filter (log_matches g sid after) rows)"
  let ?rest = "drop (Suc k) ?all"
  have all: "?all = butlast page @ last page # ?rest"
    using page by (metis append.assoc append_Cons append_Nil append_butlast_last_id append_take_drop_id)
  have last: "last page \<in> set ?all" by (subst all) simp
  then have gt: "ll_Seq (last page) > after" by (simp add: log_matches_def)
  then show "ll_Seq (last page) \<ge> after" by simp
  have "filter (\<lambda>r. ll_Seq r > ll_Seq (last page)) ?all = ?rest"
    using sort_filter_seq [OF d] all strict_sorted_after by metis
  moreover have "filter (\<lambda>r. ll_Seq r > ll_Seq (last page)) (filter (log_matches g sid after) rows) =
      filter (log_matches g sid (ll_Seq (last page))) rows"
    unfolding filter_filter using gt by (intro filter_cong) (auto simp: log_matches_def)
  ultimately have "sort_key ll_Seq (filter (log_matches g sid (ll_Seq (last page))) rows) = ?rest"
    by (simp add: filter_sort_key)
  then show "?all = page @ sort_key ll_Seq (filter (log_matches g sid (ll_Seq (last page))) rows)"
    using page(1) by (metis append_take_drop_id)
qed

lemma follow_cursor_all:
  assumes "0 < limit" and "distinct (map ll_Seq (filter (log_matches g sid after) (scan (db_logs st))))"
    and "length (filter (log_matches g sid after) (scan (db_logs st))) \<le> n"
  shows "follow_cursor (Suc n) scan g sid after limit st =
    sort_key ll_Seq (filter (log_matches g sid after) (scan (db_logs st)))"
  using assms
proof (induction n arbitrary: after)
  case 0
  then show ?case by (simp add: LogPage_matches sql_limit_def)
next
  case (Suc n)
  let ?rows = "scan (db_logs st)"
  let ?all = "\<lambda>a. sort_key ll_Seq (filter (log_matches g sid a) ?rows)"
  obtain k where k: "nat limit = Suc k" using Suc.prems(1) by (metis gr0_conv_Suc zero_less_nat_eq)
  define page where "page = take (Suc k) (?all after)"
  have lp: "LogPage scan None g sid after limit st = Inr page"
    using Suc.prems(1) by (simp add: LogPage_matches sql_limit_def k page_def)
  show ?case
  proof (cases "page = []")
    case True
    then have "?all after = []" by (simp add: page_def)
    with True show ?thesis by (simp add: lp)
  next
    case False
    note step = page_step [OF Suc.prems(2) page_def False]
    let ?a = "ll_Seq (last page)"
    have split: "filter (log_matches g sid ?a) ?rows = filter (log_matches g sid ?a) (filter (log_matches g sid after) ?rows)"
      unfolding filter_filter using step(2) by (intro filter_cong) (auto simp: log_matches_def)
    have "distinct (map ll_Seq (filter (log_matches g sid ?a) ?rows))"
      using Suc.prems(2) by (subst split) (rule distinct_map_filter)
    moreover have "length (filter (log_matches g sid after) ?rows) =
        length page + length (filter (log_matches g sid ?a) ?rows)"
      using arg_cong [OF step(1), of length] by simp
    then have "length (filter (log_matches g sid ?a) ?rows) \<le> n"
      using Suc.prems(3) False by (cases page) auto
    ultimately have "follow_cursor (Suc n) scan g sid ?a limit st = ?all ?a"
      using Suc.IH [OF Suc.prems(1)] by simp
    then show ?thesis
      unfolding follow_cursor.simps(2) [of "Suc n"] lp using False step(1) by simp
  qed
qed

subsection \<open>Recording events\<close>

definition event_rec :: "string \<Rightarrow> event \<Rightarrow> event_row" where
  "event_rec g e = \<lparr>er_OrgID = g, er_EventID = e_ID e, er_MachineID = e_MachineID e,
     er_SessionID = e_SessionID e, er_Kind = e_Kind e, er_Message = e_Message e,
     er_Severity = e_Severity e, er_Meta = e_Meta e, er_TS = msToTime (e_TS e)\<rparr>"

lemma toProtocol_event_rec [simp]: "toProtocol (event_rec g e) = e"
  by (simp add: toProtocol_def event_rec_def)

lemma er_event_rec [simp]: "er_EventID (event_rec g e) = e_ID e" "er_OrgID (event_rec g e) = g"
  by (simp_all add: event_rec_def)

definition save_all :: "(string \<times> event) list \<Rightarrow> store \<Rightarrow> store" where
  "save_all evs st = foldl (\<lambda>s (g, e). fst (SaveEvent None g e s)) st evs"

text \<open>The events whose id was not seen before.\<close>

fun new_events :: "string set \<Rightarrow> (string \<times> event) list \<Rightarrow> (string \<times> event) list" where
  "new_events seen [] = []"
| "new_events seen ((g, e) # evs) =
     (if e_ID e \<in> seen then new_events seen evs
      else (g, e) # new_events (insert (e_ID e) seen) evs)"

lemma SaveEvent_None:
  "SaveEvent None g e st = (st\<lparr>db_events := db_events st @
     (if e_ID e \<in> er_EventID ` set (db_events st) then [] else [event_rec g e])\<rparr>, Inr ())"
proof (cases "e_ID e \<in> er_EventID ` set (db_events st)")
  case True
  then have "list_ex (\<lambda>r. er_EventID r = e_ID e) (db_events st)" by (auto simp: list_ex_iff)
  with True show ?thesis by (simp add: SaveEvent_def exec_stmt_def)
next
  case False
  then have "\<not> list_ex (\<lambda>r. er_EventID r = e_ID e) (db_events st)"
    unfolding list_ex_iff by (metis (no_types) imageI)
  with False show ?thesis by (simp add: SaveEvent_def exec_stmt_def event_rec_def)
qed

lemma save_all_events:
  "save_all evs st = st\<lparr>db_events := db_events st @
     map (\<lambda>(g, e). event_rec g e) (new_events (er_EventID ` set (db_events st)) evs)\<rparr>"
proof (induction evs arbitrary: st)
  case (Cons p evs)
  obtain g e where p: "p = (g, e)" by fastforce
  have "save_all (p # evs) st = save_all evs (fst (SaveEvent None g e st))"
    by (simp add: save_all_def p)
  then show ?case by (simp add: p Cons.IH SaveEvent_None)
qed (simp add: save_all_def)

lemma new_events_seen: "e_ID ` snd ` set evs \<subseteq> seen \<Longrightarrow> new_events seen evs = []"
  by (induction seen evs rule: new_events.induct) auto

lemma new_events_ids: "e_ID ` snd ` set (new_events seen evs) = e_ID ` snd ` set evs - seen"
  by (induction seen evs rule: new_events.induct) auto

lemma new_events_distinct:
  "distinct (map (\<lambda>p. e_ID (snd p)) (new_events seen evs))"
proof (induction seen evs rule: new_events.induct)
  case (2 seen g e evs)
  have "e_ID e \<notin> e_ID ` snd ` set (new_events (insert (e_ID e) seen) evs)"
    by (simp only: new_events_ids) simp
  then show ?case using 2 by (auto simp: image_image)
qed simp

subsection \<open>Properties\<close>

text \<open>
  Recording events is idempotent on the event id: after any series of events from any
  organisations, exactly the first event of each id is stored, decoding to what was sent;
  sending the whole series again changes nothing, and the stored ids stay distinct.
\<close>

theorem save_event_idempotent:
  "map toProtocol (db_events (save_all evs empty_store)) = map snd (new_events {} evs)
   \<and> save_all (evs @ evs) st = save_all evs st
   \<and> er_EventID ` set (db_events (save_all evs st)) =
       er_EventID ` set (db_events st) \<union> e_ID ` snd ` set evs
   \<and> distinct (map er_EventID (db_events (save_all evs empty_store)))"
proof (intro conjI)
  let ?ids = "er_EventID ` set (db_events st)"
  have ids: "er_EventID ` set (db_events (save_all evs s)) =
      er_EventID ` set (db_events s) \<union> e_ID ` snd ` set evs" for s
  proof -
    have "er_EventID ` set (map (\<lambda>(g, e). event_rec g e) xs) = e_ID ` snd ` set xs" for xs
      by (force simp: image_iff)
    then show ?thesis by (simp only: save_all_events) (simp add: image_Un new_events_ids)
  qed
  then show "er_EventID ` set (db_events (save_all evs st)) = ?ids \<union> e_ID ` snd ` set evs" .
  have "save_all (evs @ evs) st = save_all evs (save_all evs st)" by (simp add: save_all_def)
  also have "\<dots> = save_all evs st"
    by (subst save_all_events) (simp add: ids new_events_seen)
  finally show "save_all (evs @ evs) st = save_all evs st" .
  show "map toProtocol (db_events (save_all evs empty_store)) = map snd (new_events {} evs)"
    by (simp add: save_all_events empty_store_def case_prod_unfold)
  show "distinct (map er_EventID (db_events (save_all evs empty_store)))"
    using new_events_distinct by (simp add: save_all_events empty_store_def case_prod_unfold comp_def)
qed


definition sample_log :: "int \<Rightarrow> string \<Rightarrow> log_row" where
  "sample_log n l = \<lparr>ll_OrgID = ''o'', ll_SessionID = ''s'', ll_Seq = n, ll_Stream = ''stdout'',
     ll_Line = l, ll_TS = 0\<rparr>"


text \<open>
  The limit of the cursor: the agent numbers the lines of a session from 1 each time it
  starts a log stream, so a restarted agent stores a second line with the same number; a
  page that ends between the two never returns the second one.
\<close>

theorem log_pagination_loses_repeated_seq:
  "\<exists>st l. l \<in> set (db_logs st) \<and> log_matches ''o'' ''s'' 0 l
     \<and> (\<forall>n. l \<notin> set (follow_cursor n id ''o'' ''s'' 0 1 st))"
proof (intro exI conjI allI)
  let ?st = "empty_store\<lparr>db_logs := [sample_log 1 ''a'', sample_log 1 ''b'']\<rparr>"
  show "sample_log 1 ''b'' \<in> set (db_logs ?st)" by simp
  show "log_matches ''o'' ''s'' 0 (sample_log 1 ''b'')" by (simp add: log_matches_def sample_log_def)
  have p1: "LogPage id None ''o'' ''s'' 0 1 ?st = Inr [sample_log 1 ''a'']"
    by (simp add: LogPage_def sample_log_def sql_limit_def)
  have p2: "LogPage id None ''o'' ''s'' 1 1 ?st = Inr []"
    by (simp add: LogPage_def sample_log_def sql_limit_def)
  have rest: "follow_cursor n id ''o'' ''s'' 1 1 ?st = []" for n
    by (cases n) (simp_all add: p2)
  have "ll_Seq (sample_log 1 ''a'') = 1" by (simp add: sample_log_def)
  then show "sample_log 1 ''b'' \<notin> set (follow_cursor n id ''o'' ''s'' 0 1 ?st)" for n
    by (cases n) (simp_all add: p1 rest, simp add: sample_log_def)
qed

end
