(* ===== verification/Tenancy.thy ===== *)
theory Tenancy
  imports Store
begin

section \<open>Organisations, users, invites, files (tenancy.go)\<close>

text \<open>
  Models \<open>internal/store/tenancy.go\<close> on the tables of \<open>Store\<close>. Generated ids, random
  tokens (\<open>None\<close> when the random source fails) and the clock are arguments. In a transaction
  the statements are numbered from 0 in the order of the code and the last number is the
  commit; \<open>fault k\<close> is the engine's failure of statement \<open>k\<close>. The code ignores the errors of
  the middle statements of \<open>DeleteMachine\<close> and \<open>ReassignMachine\<close>, and so does the model: a
  statement that failed changed nothing and the next one runs.
\<close>

subsection \<open>Organisations\<close>

definition CreateOrg ::
  "string option \<Rightarrow> string \<Rightarrow> string \<Rightarrow> string \<Rightarrow> int \<Rightarrow> store \<Rightarrow> store \<times> org_row db_result" where
  "CreateOrg fault newID name slug now st =
     (let g = \<lparr>o_ID = newID, o_Name = name, o_Slug = slug, o_CreatedAt = now\<rparr>
      in case fault of Some e \<Rightarrow> (st, Inl (ErrEngine e))
         | None \<Rightarrow>
             if list_ex (\<lambda>r. o_ID r = newID \<or> o_Slug r = slug) (db_orgs st) then (st, Inl ErrUnique)
             else (st\<lparr>db_orgs := db_orgs st @ [g]\<rparr>, Inr g))"

definition GetOrg :: "string option \<Rightarrow> string \<Rightarrow> store \<Rightarrow> org_row db_result" where
  "GetOrg fault i st = first_or ErrNotFound fault (sql_first o_ID (\<lambda>r. o_ID r = i) (db_orgs st))"

definition OrgBySlug :: "string option \<Rightarrow> string \<Rightarrow> store \<Rightarrow> org_row db_result" where
  "OrgBySlug fault slug st =
     first_or ErrNotFound fault (sql_first o_ID (\<lambda>r. o_Slug r = slug) (db_orgs st))"

definition CountUsers :: "string option \<Rightarrow> store \<Rightarrow> nat db_result" where
  "CountUsers fault st =
     (case fault of Some e \<Rightarrow> Inl (ErrEngine e) | None \<Rightarrow> Inr (length (db_users st)))"

subsection \<open>Machines and everything filed under them\<close>

text \<open>One statement of a transaction whose error the code ignores.\<close>

definition stmt :: "string option \<Rightarrow> (store \<Rightarrow> store) \<Rightarrow> store \<Rightarrow> store" where
  "stmt fault f st = (case fault of Some _ \<Rightarrow> st | None \<Rightarrow> f st)"

definition session_ids :: "(session_row \<Rightarrow> bool) \<Rightarrow> store \<Rightarrow> string list" where
  "session_ids P st = map sr_ID (filter P (db_sessions st))"

definition DeleteMachine ::
  "(nat \<Rightarrow> string option) \<Rightarrow> string \<Rightarrow> string \<Rightarrow> store \<Rightarrow> store \<times> unit db_result" where
  "DeleteMachine fault orgID machineID st =
     (case first_or ErrNotFound (fault 0)
             (sql_first mr_ID (\<lambda>r. mr_OrgID r = orgID \<and> mr_ID r = machineID) (db_machines st)) of
        Inl e \<Rightarrow> (st, Inl e)
      | Inr _ \<Rightarrow>
          (let sessionIDs = (case fault 1 of Some _ \<Rightarrow> []
                 | None \<Rightarrow> session_ids (\<lambda>r. sr_OrgID r = orgID \<and> sr_MachineID r = machineID) st);
               st1 = (if sessionIDs \<noteq> [] then
                   stmt (fault 3) (\<lambda>t. t\<lparr>db_metrics := sql_delete
                       (\<lambda>r. mt_OrgID r = orgID \<and> mt_SessionID r \<in> set sessionIDs) (db_metrics t)\<rparr>)
                   (stmt (fault 2) (\<lambda>t. t\<lparr>db_logs := sql_delete
                       (\<lambda>r. ll_OrgID r = orgID \<and> ll_SessionID r \<in> set sessionIDs) (db_logs t)\<rparr>) st)
                 else st);
               st2 = stmt (fault 4) (\<lambda>t. t\<lparr>db_sessions := sql_delete
                   (\<lambda>r. sr_OrgID r = orgID \<and> sr_MachineID r = machineID) (db_sessions t)\<rparr>) st1;
               st3 = stmt (fault 5) (\<lambda>t. t\<lparr>db_events := sql_delete
                   (\<lambda>r. er_OrgID r = orgID \<and> er_MachineID r = machineID) (db_events t)\<rparr>) st2;
               st4 = stmt (fault 6) (\<lambda>t. t\<lparr>db_files := sql_delete
                   (\<lambda>r. f_OrgID r = orgID \<and> f_MachineID r = machineID) (db_files t)\<rparr>) st3;
               st5 = stmt (fault 7) (\<lambda>t. t\<lparr>db_keys := sql_delete
                   (\<lambda>r. ak_OrgID r = orgID \<and> ak_MachineID r = machineID) (db_keys t)\<rparr>) st4
           in case fault 8 of Some e \<Rightarrow> (st, Inl (ErrEngine e))
              | None \<Rightarrow> (case fault 9 of Some e \<Rightarrow> (st, Inl (ErrEngine e))
                  | None \<Rightarrow> (st5\<lparr>db_machines := sql_delete
                      (\<lambda>r. mr_OrgID r = orgID \<and> mr_ID r = machineID) (db_machines st5)\<rparr>, Inr ()))))"

text \<open>\<open>BackfillOrg\<close> runs its statements outside a transaction and stops at the first error.\<close>

fun seq_stmts :: "(nat \<Rightarrow> string option) \<Rightarrow> nat \<Rightarrow> (store \<Rightarrow> store) list \<Rightarrow> store
    \<Rightarrow> store \<times> unit db_result" where
  "seq_stmts fault k [] st = (st, Inr ())"
| "seq_stmts fault k (f # fs) st =
     (case fault k of Some e \<Rightarrow> (st, Inl (ErrEngine e))
      | None \<Rightarrow> seq_stmts fault (Suc k) fs (f st))"

definition BackfillOrg ::
  "(nat \<Rightarrow> string option) \<Rightarrow> string \<Rightarrow> store \<Rightarrow> store \<times> unit db_result" where
  "BackfillOrg fault orgID st =
     seq_stmts fault 0
       [\<lambda>t. t\<lparr>db_machines := sql_update (\<lambda>r. mr_OrgID r = '''') (mr_OrgID_update (\<lambda>_. orgID)) (db_machines t)\<rparr>,
        \<lambda>t. t\<lparr>db_sessions := sql_update (\<lambda>r. sr_OrgID r = '''') (sr_OrgID_update (\<lambda>_. orgID)) (db_sessions t)\<rparr>,
        \<lambda>t. t\<lparr>db_logs := sql_update (\<lambda>r. ll_OrgID r = '''') (ll_OrgID_update (\<lambda>_. orgID)) (db_logs t)\<rparr>,
        \<lambda>t. t\<lparr>db_metrics := sql_update (\<lambda>r. mt_OrgID r = '''') (mt_OrgID_update (\<lambda>_. orgID)) (db_metrics t)\<rparr>,
        \<lambda>t. t\<lparr>db_events := sql_update (\<lambda>r. er_OrgID r = '''') (er_OrgID_update (\<lambda>_. orgID)) (db_events t)\<rparr>,
        \<lambda>t. t\<lparr>db_tokens := sql_update (\<lambda>r. et_OrgID r = '''') (et_OrgID_update (\<lambda>_. orgID)) (db_tokens t)\<rparr>,
        \<lambda>t. t\<lparr>db_keys := sql_update (\<lambda>r. ak_OrgID r = '''') (ak_OrgID_update (\<lambda>_. orgID)) (db_keys t)\<rparr>,
        \<lambda>t. t\<lparr>db_files := sql_update (\<lambda>r. f_OrgID r = '''') (f_OrgID_update (\<lambda>_. orgID)) (db_files t)\<rparr>] st"

record machine_with_org =
  mw_ID :: string
  mw_Hostname :: string
  mw_OrgID :: string
  mw_OrgName :: string
  mw_OS :: string
  mw_Arch :: string
  mw_LastSeenAt :: int

definition ListAllMachines ::
  "(machine_row list \<Rightarrow> machine_row list) \<Rightarrow> string option \<Rightarrow> store \<Rightarrow> machine_with_org list db_result" where
  "ListAllMachines scan fault st =
     (case fault of Some e \<Rightarrow> Inl (ErrEngine e)
      | None \<Rightarrow> Inr (map (\<lambda>r. \<lparr>mw_ID = mr_ID r, mw_Hostname = mr_Hostname r, mw_OrgID = mr_OrgID r,
            mw_OrgName = (case sql_first o_ID (\<lambda>g. o_ID g = mr_OrgID r) (db_orgs st) of
               None \<Rightarrow> '''' | Some g \<Rightarrow> o_Name g),
            mw_OS = mr_OS r, mw_Arch = mr_Arch r, mw_LastSeenAt = mr_LastSeenAt r\<rparr>)
          (sort_key mr_Hostname (scan (db_machines st)))))"

definition ReassignMachine ::
  "(nat \<Rightarrow> string option) \<Rightarrow> string \<Rightarrow> string \<Rightarrow> store \<Rightarrow> store \<times> unit db_result" where
  "ReassignMachine fault machineID newOrgID st =
     (case GetOrg (fault 0) newOrgID st of
        Inl _ \<Rightarrow> (st, Inl ErrNotFound)
      | Inr _ \<Rightarrow>
     (case first_or ErrNotFound (fault 1)
             (sql_first mr_ID (\<lambda>r. mr_ID r = machineID) (db_machines st)) of
        Inl e \<Rightarrow> (st, Inl e)
      | Inr _ \<Rightarrow>
          (let sessionIDs = (case fault 2 of Some _ \<Rightarrow> []
                 | None \<Rightarrow> session_ids (\<lambda>r. sr_MachineID r = machineID) st);
               st1 = (if sessionIDs \<noteq> [] then
                   stmt (fault 4) (\<lambda>t. t\<lparr>db_metrics := sql_update (\<lambda>r. mt_SessionID r \<in> set sessionIDs)
                       (mt_OrgID_update (\<lambda>_. newOrgID)) (db_metrics t)\<rparr>)
                   (stmt (fault 3) (\<lambda>t. t\<lparr>db_logs := sql_update (\<lambda>r. ll_SessionID r \<in> set sessionIDs)
                       (ll_OrgID_update (\<lambda>_. newOrgID)) (db_logs t)\<rparr>) st)
                 else st);
               st2 = stmt (fault 5) (\<lambda>t. t\<lparr>db_sessions := sql_update (\<lambda>r. sr_MachineID r = machineID)
                   (sr_OrgID_update (\<lambda>_. newOrgID)) (db_sessions t)\<rparr>) st1;
               st3 = stmt (fault 6) (\<lambda>t. t\<lparr>db_events := sql_update (\<lambda>r. er_MachineID r = machineID)
                   (er_OrgID_update (\<lambda>_. newOrgID)) (db_events t)\<rparr>) st2;
               st4 = stmt (fault 7) (\<lambda>t. t\<lparr>db_files := sql_update (\<lambda>r. f_MachineID r = machineID)
                   (f_OrgID_update (\<lambda>_. newOrgID)) (db_files t)\<rparr>) st3;
               st5 = stmt (fault 8) (\<lambda>t. t\<lparr>db_keys := sql_update (\<lambda>r. ak_MachineID r = machineID)
                   (ak_OrgID_update (\<lambda>_. newOrgID)) (db_keys t)\<rparr>) st4
           in case fault 9 of Some e \<Rightarrow> (st, Inl (ErrEngine e))
              | None \<Rightarrow> (case fault 10 of Some e \<Rightarrow> (st, Inl (ErrEngine e))
                  | None \<Rightarrow> (st5\<lparr>db_machines := sql_update (\<lambda>r. mr_ID r = machineID)
                      (mr_OrgID_update (\<lambda>_. newOrgID)) (db_machines st5)\<rparr>, Inr ())))))"

subsection \<open>Users\<close>

text \<open>A zero creation time is instant \<open>0\<close> here.\<close>

definition CreateUser ::
  "string option \<Rightarrow> string \<Rightarrow> int \<Rightarrow> user_row \<Rightarrow> store \<Rightarrow> store \<times> user_row db_result" where
  "CreateUser fault newID now u st =
     (let u = (if u_ID u = '''' then u\<lparr>u_ID := newID\<rparr> else u);
          u = (if u_CreatedAt u = 0 then u\<lparr>u_CreatedAt := now\<rparr> else u)
      in case fault of Some e \<Rightarrow> (st, Inl (ErrEngine e))
         | None \<Rightarrow>
             if list_ex (\<lambda>r. u_ID r = u_ID u \<or> u_Email r = u_Email u) (db_users st)
             then (st, Inl ErrUnique)
             else (st\<lparr>db_users := db_users st @ [u]\<rparr>, Inr u))"

definition UserByEmail :: "string option \<Rightarrow> string \<Rightarrow> store \<Rightarrow> user_row db_result" where
  "UserByEmail fault email st = first_or ErrNotFound fault
     (sql_first u_ID (\<lambda>r. to_lower (u_Email r) = to_lower email) (db_users st))"

definition UserByID :: "string option \<Rightarrow> string \<Rightarrow> store \<Rightarrow> user_row db_result" where
  "UserByID fault i st =
     first_or ErrNotFound fault (sql_first u_ID (\<lambda>r. u_ID r = i) (db_users st))"

definition UpdatePassword ::
  "string option \<Rightarrow> string \<Rightarrow> string \<Rightarrow> store \<Rightarrow> store \<times> unit db_result" where
  "UpdatePassword fault userID newHash st =
     exec_affected fault (rows_affected (\<lambda>r. u_ID r = userID) (db_users st)) st
       (st\<lparr>db_users := sql_update (\<lambda>r. u_ID r = userID)
          (u_PasswordHash_update (\<lambda>_. newHash)) (db_users st)\<rparr>)"

definition SetUserRole ::
  "string option \<Rightarrow> string \<Rightarrow> string \<Rightarrow> string \<Rightarrow> store \<Rightarrow> store \<times> unit db_result" where
  "SetUserRole fault orgID userID role st =
     exec_affected fault (rows_affected (\<lambda>r. u_OrgID r = orgID \<and> u_ID r = userID) (db_users st)) st
       (st\<lparr>db_users := sql_update (\<lambda>r. u_OrgID r = orgID \<and> u_ID r = userID)
          (u_Role_update (\<lambda>_. role)) (db_users st)\<rparr>)"

definition RemoveUser ::
  "string option \<Rightarrow> string \<Rightarrow> string \<Rightarrow> store \<Rightarrow> store \<times> unit db_result" where
  "RemoveUser fault orgID userID st =
     exec_affected fault (rows_affected (\<lambda>r. u_OrgID r = orgID \<and> u_ID r = userID) (db_users st)) st
       (st\<lparr>db_users := sql_delete (\<lambda>r. u_OrgID r = orgID \<and> u_ID r = userID) (db_users st)\<rparr>)"

definition ListOrgUsers ::
  "(user_row list \<Rightarrow> user_row list) \<Rightarrow> string option \<Rightarrow> string \<Rightarrow> store \<Rightarrow> user_row list db_result" where
  "ListOrgUsers scan fault orgID st =
     (case fault of Some e \<Rightarrow> Inl (ErrEngine e)
      | None \<Rightarrow> Inr (sort_key u_CreatedAt (filter (\<lambda>r. u_OrgID r = orgID) (scan (db_users st)))))"

definition ListPendingUsers ::
  "(user_row list \<Rightarrow> user_row list) \<Rightarrow> string option \<Rightarrow> store \<Rightarrow> user_row list db_result" where
  "ListPendingUsers scan fault st =
     (case fault of Some e \<Rightarrow> Inl (ErrEngine e)
      | None \<Rightarrow> Inr (sort_key u_CreatedAt
          (filter (\<lambda>r. u_Status r = UserStatusPending) (scan (db_users st)))))"

definition CountPendingUsers :: "string option \<Rightarrow> store \<Rightarrow> nat db_result" where
  "CountPendingUsers fault st =
     (case fault of Some e \<Rightarrow> Inl (ErrEngine e)
      | None \<Rightarrow> Inr (length (filter (\<lambda>r. u_Status r = UserStatusPending) (db_users st))))"

definition ApproveUser ::
  "string option \<Rightarrow> string \<Rightarrow> string \<Rightarrow> string \<Rightarrow> store \<Rightarrow> store \<times> unit db_result" where
  "ApproveUser fault userID orgID role st =
     exec_affected fault
       (rows_affected (\<lambda>r. u_ID r = userID \<and> u_Status r = UserStatusPending) (db_users st)) st
       (st\<lparr>db_users := sql_update (\<lambda>r. u_ID r = userID \<and> u_Status r = UserStatusPending)
          (\<lambda>r. r\<lparr>u_OrgID := orgID, u_Role := role, u_Status := UserStatusActive\<rparr>) (db_users st)\<rparr>)"

definition RejectUser :: "string option \<Rightarrow> string \<Rightarrow> store \<Rightarrow> store \<times> unit db_result" where
  "RejectUser fault userID st =
     exec_stmt fault st (st\<lparr>db_users := sql_delete
       (\<lambda>r. u_ID r = userID \<and> u_Status r = UserStatusPending) (db_users st)\<rparr>)"

definition ListOrgs ::
  "(org_row list \<Rightarrow> org_row list) \<Rightarrow> string option \<Rightarrow> store \<Rightarrow> org_row list db_result" where
  "ListOrgs scan fault st =
     (case fault of Some e \<Rightarrow> Inl (ErrEngine e)
      | None \<Rightarrow> Inr (sort_key o_CreatedAt (scan (db_orgs st))))"

definition SetPlatformAdmin ::
  "string option \<Rightarrow> string \<Rightarrow> bool \<Rightarrow> store \<Rightarrow> store \<times> unit db_result" where
  "SetPlatformAdmin fault userID isAdmin st =
     exec_stmt fault st (st\<lparr>db_users := sql_update (\<lambda>r. u_ID r = userID)
       (u_PlatformAdmin_update (\<lambda>_. isAdmin)) (db_users st)\<rparr>)"

definition ActivateLegacyUsers :: "string option \<Rightarrow> store \<Rightarrow> store \<times> unit db_result" where
  "ActivateLegacyUsers fault st =
     exec_stmt fault st (st\<lparr>db_users := sql_update (\<lambda>r. u_Status r = '''')
       (u_Status_update (\<lambda>_. UserStatusActive)) (db_users st)\<rparr>)"

definition MigrateOwnersToAdmin :: "string option \<Rightarrow> store \<Rightarrow> store \<times> unit db_result" where
  "MigrateOwnersToAdmin fault st =
     exec_stmt fault st (st\<lparr>db_users := sql_update (\<lambda>r. u_Role r = ''owner'')
       (u_Role_update (\<lambda>_. ''admin'')) (db_users st)\<rparr>)"

subsection \<open>Invites\<close>

definition CreateInvite ::
  "string option \<Rightarrow> string option \<Rightarrow> string \<Rightarrow> string \<Rightarrow> string \<Rightarrow> string \<Rightarrow> int \<Rightarrow> int \<Rightarrow> store
     \<Rightarrow> store \<times> invite_row db_result" where
  "CreateInvite fault rnd orgID email role invitedBy ttl now st =
     (case rnd of None \<Rightarrow> (st, Inl (ErrRand ''''))
      | Some tok \<Rightarrow>
          (let ivt = \<lparr>i_Token = tok, i_OrgID = orgID, i_Email = email, i_Role = role,
                 i_InvitedBy = invitedBy, i_ExpiresAt = now + ttl, i_AcceptedAt = None,
                 i_CreatedAt = now\<rparr>
           in case fault of Some e \<Rightarrow> (st, Inl (ErrEngine e))
              | None \<Rightarrow>
                  if list_ex (\<lambda>r. i_Token r = tok) (db_invites st) then (st, Inl ErrUnique)
                  else (st\<lparr>db_invites := db_invites st @ [ivt]\<rparr>, Inr ivt)))"

definition GetInvite :: "string option \<Rightarrow> string \<Rightarrow> store \<Rightarrow> invite_row db_result" where
  "GetInvite fault token st =
     first_or ErrNotFound fault (sql_first i_Token (\<lambda>r. i_Token r = token) (db_invites st))"

definition ListInvites ::
  "(invite_row list \<Rightarrow> invite_row list) \<Rightarrow> string option \<Rightarrow> string \<Rightarrow> store \<Rightarrow> invite_row list db_result" where
  "ListInvites scan fault orgID st =
     (case fault of Some e \<Rightarrow> Inl (ErrEngine e)
      | None \<Rightarrow> Inr (sort_key (\<lambda>r. - i_CreatedAt r)
          (filter (\<lambda>r. i_OrgID r = orgID \<and> i_AcceptedAt r = None) (scan (db_invites st)))))"

definition AcceptInvite ::
  "string option \<Rightarrow> string \<Rightarrow> int \<Rightarrow> store \<Rightarrow> store \<times> unit db_result" where
  "AcceptInvite fault token now st =
     exec_stmt fault st (st\<lparr>db_invites := sql_update (\<lambda>r. i_Token r = token)
       (i_AcceptedAt_update (\<lambda>_. Some now)) (db_invites st)\<rparr>)"

definition RevokeInvite ::
  "string option \<Rightarrow> string \<Rightarrow> string \<Rightarrow> store \<Rightarrow> store \<times> unit db_result" where
  "RevokeInvite fault orgID token st =
     exec_stmt fault st (st\<lparr>db_invites := sql_delete
       (\<lambda>r. i_OrgID r = orgID \<and> i_Token r = token) (db_invites st)\<rparr>)"

subsection \<open>Published files\<close>

definition SaveFile ::
  "string option \<Rightarrow> string \<Rightarrow> int \<Rightarrow> file_row \<Rightarrow> store \<Rightarrow> store \<times> file_row db_result" where
  "SaveFile fault newID now f st =
     (let f = (if f_ID f = '''' then f\<lparr>f_ID := newID\<rparr> else f);
          f = (if f_CreatedAt f = 0 then f\<lparr>f_CreatedAt := now\<rparr> else f)
      in case fault of Some e \<Rightarrow> (st, Inl (ErrEngine e))
         | None \<Rightarrow> if list_ex (\<lambda>r. f_ID r = f_ID f) (db_files st) then (st, Inl ErrUnique)
                   else (st\<lparr>db_files := db_files st @ [f]\<rparr>, Inr f))"

record file_meta =
  fm_ID :: string
  fm_MachineID :: string
  fm_SessionID :: string
  fm_Name :: string
  fm_Size :: int
  fm_ContentType :: string
  fm_CreatedAt :: int

definition file_meta_of :: "file_row \<Rightarrow> file_meta" where
  "file_meta_of f = \<lparr>fm_ID = f_ID f, fm_MachineID = f_MachineID f, fm_SessionID = f_SessionID f,
     fm_Name = f_Name f, fm_Size = f_Size f, fm_ContentType = f_ContentType f,
     fm_CreatedAt = f_CreatedAt f\<rparr>"

definition ListFiles ::
  "(file_row list \<Rightarrow> file_row list) \<Rightarrow> string option \<Rightarrow> string \<Rightarrow> string \<Rightarrow> string \<Rightarrow> int \<Rightarrow> store
     \<Rightarrow> file_meta list db_result" where
  "ListFiles scan fault orgID sessionID machineID limit st =
     (case fault of Some e \<Rightarrow> Inl (ErrEngine e)
      | None \<Rightarrow> Inr (map file_meta_of (sql_limit limit (sort_key (\<lambda>f. - f_CreatedAt f)
          (filter (\<lambda>f. f_OrgID f = orgID
              \<and> (sessionID \<noteq> '''' \<longrightarrow> f_SessionID f = sessionID)
              \<and> (machineID \<noteq> '''' \<longrightarrow> f_MachineID f = machineID)) (scan (db_files st)))))))"

definition GetFile :: "string option \<Rightarrow> string \<Rightarrow> string \<Rightarrow> store \<Rightarrow> file_row db_result" where
  "GetFile fault orgID i st = first_or ErrNotFound fault
     (sql_first f_ID (\<lambda>f. f_OrgID f = orgID \<and> f_ID f = i) (db_files st))"

subsection \<open>What an organisation owns\<close>

definition tenant_view :: "string \<Rightarrow> store \<Rightarrow> store" where
  "tenant_view g st = \<lparr>db_orgs = filter (\<lambda>r. o_ID r = g) (db_orgs st),
     db_users = filter (\<lambda>r. u_OrgID r = g) (db_users st),
     db_invites = filter (\<lambda>r. i_OrgID r = g) (db_invites st),
     db_files = filter (\<lambda>r. f_OrgID r = g) (db_files st),
     db_machines = filter (\<lambda>r. mr_OrgID r = g) (db_machines st),
     db_sessions = filter (\<lambda>r. sr_OrgID r = g) (db_sessions st),
     db_logs = filter (\<lambda>r. ll_OrgID r = g) (db_logs st),
     db_metrics = filter (\<lambda>r. mt_OrgID r = g) (db_metrics st),
     db_events = filter (\<lambda>r. er_OrgID r = g) (db_events st),
     db_tokens = filter (\<lambda>r. et_OrgID r = g) (db_tokens st),
     db_keys = filter (\<lambda>r. ak_OrgID r = g) (db_keys st),
     db_subs = filter (\<lambda>r. ps_OrgID r = g) (db_subs st)\<rparr>"

lemma filter_sql_delete_other:
  "(\<And>r. P r \<Longrightarrow> \<not> Q r) \<Longrightarrow> filter Q (sql_delete P t) = filter Q t"
  unfolding sql_delete_def filter_filter by (rule filter_cong) auto

lemma filter_sql_update_other:
  assumes "\<And>r. P r \<Longrightarrow> \<not> Q r" and "\<And>r. P r \<Longrightarrow> \<not> Q (f r)"
  shows "filter Q (sql_update P f t) = filter Q t"
  unfolding sql_update_def using assms by (induction t) auto

lemma filter_delete_org:
  "g \<noteq> orgID \<Longrightarrow>
     filter (\<lambda>r. key r = g) (sql_delete (\<lambda>r. key r = orgID \<and> P r) t) = filter (\<lambda>r. key r = g) t"
  by (rule filter_sql_delete_other) auto

lemma tenant_view_stmt:
  "tenant_view g (f st) = tenant_view g st \<Longrightarrow> tenant_view g (stmt fault f st) = tenant_view g st"
  by (simp add: stmt_def split: option.splits)

lemma DeleteMachine_foreign:
  assumes "g \<noteq> orgID"
  shows "tenant_view g (fst (DeleteMachine fault orgID mid st)) = tenant_view g st"
proof -
  have keep: "tenant_view g (stmt f (\<lambda>t. t\<lparr>db_metrics := sql_delete (\<lambda>r. mt_OrgID r = orgID \<and> mt_SessionID r \<in> X) (db_metrics t)\<rparr>) t) = tenant_view g t"
    "tenant_view g (stmt f (\<lambda>t. t\<lparr>db_logs := sql_delete (\<lambda>r. ll_OrgID r = orgID \<and> ll_SessionID r \<in> X) (db_logs t)\<rparr>) t) = tenant_view g t"
    "tenant_view g (stmt f (\<lambda>t. t\<lparr>db_sessions := sql_delete (\<lambda>r. sr_OrgID r = orgID \<and> sr_MachineID r = mid) (db_sessions t)\<rparr>) t) = tenant_view g t"
    "tenant_view g (stmt f (\<lambda>t. t\<lparr>db_events := sql_delete (\<lambda>r. er_OrgID r = orgID \<and> er_MachineID r = mid) (db_events t)\<rparr>) t) = tenant_view g t"
    "tenant_view g (stmt f (\<lambda>t. t\<lparr>db_files := sql_delete (\<lambda>r. f_OrgID r = orgID \<and> f_MachineID r = mid) (db_files t)\<rparr>) t) = tenant_view g t"
    "tenant_view g (stmt f (\<lambda>t. t\<lparr>db_keys := sql_delete (\<lambda>r. ak_OrgID r = orgID \<and> ak_MachineID r = mid) (db_keys t)\<rparr>) t) = tenant_view g t"
    "tenant_view g (t\<lparr>db_machines := sql_delete (\<lambda>r. mr_OrgID r = orgID \<and> mr_ID r = mid) (db_machines t)\<rparr>) = tenant_view g t"
    for f t X
    using assms by (simp_all add: tenant_view_def stmt_def filter_delete_org split: option.splits)
  show ?thesis
    by (simp add: DeleteMachine_def Let_def keep split: sum.splits option.splits)
qed

text \<open>The abstract specifications: the store without a machine, and with a machine moved.\<close>

definition machine_sessions :: "(session_row \<Rightarrow> bool) \<Rightarrow> store \<Rightarrow> string set" where
  "machine_sessions P st = sr_ID ` {s \<in> set (db_sessions st). P s}"

definition without_machine :: "string \<Rightarrow> string \<Rightarrow> store \<Rightarrow> store" where
  "without_machine g mid st =
     (let ids = machine_sessions (\<lambda>s. sr_OrgID s = g \<and> sr_MachineID s = mid) st
      in st\<lparr>db_machines := filter (\<lambda>r. \<not> (mr_OrgID r = g \<and> mr_ID r = mid)) (db_machines st),
            db_sessions := filter (\<lambda>r. \<not> (sr_OrgID r = g \<and> sr_MachineID r = mid)) (db_sessions st),
            db_events := filter (\<lambda>r. \<not> (er_OrgID r = g \<and> er_MachineID r = mid)) (db_events st),
            db_files := filter (\<lambda>r. \<not> (f_OrgID r = g \<and> f_MachineID r = mid)) (db_files st),
            db_keys := filter (\<lambda>r. \<not> (ak_OrgID r = g \<and> ak_MachineID r = mid)) (db_keys st),
            db_logs := filter (\<lambda>r. \<not> (ll_OrgID r = g \<and> ll_SessionID r \<in> ids)) (db_logs st),
            db_metrics := filter (\<lambda>r. \<not> (mt_OrgID r = g \<and> mt_SessionID r \<in> ids)) (db_metrics st)\<rparr>)"

definition moved_machine :: "string \<Rightarrow> string \<Rightarrow> store \<Rightarrow> store" where
  "moved_machine mid g st =
     (let ids = machine_sessions (\<lambda>s. sr_MachineID s = mid) st
      in st\<lparr>db_machines := map (\<lambda>r. r\<lparr>mr_OrgID := if mr_ID r = mid then g else mr_OrgID r\<rparr>) (db_machines st),
            db_sessions := map (\<lambda>r. r\<lparr>sr_OrgID := if sr_MachineID r = mid then g else sr_OrgID r\<rparr>) (db_sessions st),
            db_events := map (\<lambda>r. r\<lparr>er_OrgID := if er_MachineID r = mid then g else er_OrgID r\<rparr>) (db_events st),
            db_files := map (\<lambda>r. r\<lparr>f_OrgID := if f_MachineID r = mid then g else f_OrgID r\<rparr>) (db_files st),
            db_keys := map (\<lambda>r. r\<lparr>ak_OrgID := if ak_MachineID r = mid then g else ak_OrgID r\<rparr>) (db_keys st),
            db_logs := map (\<lambda>r. r\<lparr>ll_OrgID := if ll_SessionID r \<in> ids then g else ll_OrgID r\<rparr>) (db_logs st),
            db_metrics := map (\<lambda>r. r\<lparr>mt_OrgID := if mt_SessionID r \<in> ids then g else mt_OrgID r\<rparr>) (db_metrics st)\<rparr>)"

lemma set_session_ids: "set (session_ids P st) = machine_sessions P st"
  by (simp add: session_ids_def machine_sessions_def)

lemma session_ids_Nil: "session_ids P st = [] \<longleftrightarrow> machine_sessions P st = {}"
  by (metis set_empty set_session_ids)

lemma DeleteMachine_ok:
  assumes "\<exists>r \<in> set (db_machines st). mr_OrgID r = g \<and> mr_ID r = mid"
  shows "DeleteMachine (\<lambda>_. None) g mid st = (without_machine g mid st, Inr ())"
proof -
  obtain r where r: "sql_first mr_ID (\<lambda>r. mr_OrgID r = g \<and> mr_ID r = mid) (db_machines st) = Some r"
    using assms sql_first_None [of mr_ID "\<lambda>r. mr_OrgID r = g \<and> mr_ID r = mid" "db_machines st"]
    by (metis not_None_eq)
  show ?thesis
    by (simp add: DeleteMachine_def r first_or_def Let_def stmt_def without_machine_def sql_delete_def
        set_session_ids session_ids_Nil)
qed

lemma DeleteMachine_absent:
  assumes "\<not> (\<exists>r \<in> set (db_machines st). mr_OrgID r = g \<and> mr_ID r = mid)"
  shows "DeleteMachine fault g mid st = (st, Inl ErrNotFound)"
proof -
  have "sql_first mr_ID (\<lambda>r. mr_OrgID r = g \<and> mr_ID r = mid) (db_machines st) = None"
    using assms by auto
  then have "first_or ErrNotFound (fault 0)
      (sql_first mr_ID (\<lambda>r. mr_OrgID r = g \<and> mr_ID r = mid) (db_machines st)) = Inl ErrNotFound"
    unfolding first_or_def by (cases "fault 0") (simp_all only: option.case)
  then show ?thesis unfolding DeleteMachine_def by (simp only: sum.case)
qed

lemma ReassignMachine_ok:
  assumes "\<exists>w \<in> set (db_orgs st). o_ID w = g" and "\<exists>r \<in> set (db_machines st). mr_ID r = mid"
  shows "ReassignMachine (\<lambda>_. None) mid g st = (moved_machine mid g st, Inr ())"
proof -
  obtain r where r: "sql_first mr_ID (\<lambda>r. mr_ID r = mid) (db_machines st) = Some r"
    using assms(2) sql_first_None [of mr_ID "\<lambda>r. mr_ID r = mid" "db_machines st"] by (metis not_None_eq)
  obtain ow where ow: "sql_first o_ID (\<lambda>r. o_ID r = g) (db_orgs st) = Some ow"
    using assms(1) sql_first_None [of o_ID "\<lambda>r. o_ID r = g" "db_orgs st"] by (metis not_None_eq)
  show ?thesis
    by (simp add: ReassignMachine_def GetOrg_def ow r first_or_def Let_def stmt_def moved_machine_def
        sql_update_def set_session_ids session_ids_Nil if_distrib cong: if_cong)
qed

subsection \<open>Approving signups\<close>

datatype user_op =
    UApprove "string option" string string string
  | UReject "string option" string
  | USetRole "string option" string string string
  | URemove "string option" string string
  | UPassword "string option" string string
  | UPlatformAdmin "string option" string bool
  | UActivateLegacy "string option"
  | UMigrateOwners "string option"

text \<open>Runs an operation and tells whether it was a successful approval.\<close>

fun exec_user :: "user_op \<Rightarrow> store \<Rightarrow> store \<times> bool" where
  "exec_user (UApprove f u g r) st = (let (st', x) = ApproveUser f u g r st in (st', \<not> isl x))"
| "exec_user (UReject f u) st = (fst (RejectUser f u st), False)"
| "exec_user (USetRole f g u r) st = (fst (SetUserRole f g u r st), False)"
| "exec_user (URemove f g u) st = (fst (RemoveUser f g u st), False)"
| "exec_user (UPassword f u h) st = (fst (UpdatePassword f u h st), False)"
| "exec_user (UPlatformAdmin f u b) st = (fst (SetPlatformAdmin f u b st), False)"
| "exec_user (UActivateLegacy f) st = (fst (ActivateLegacyUsers f st), False)"
| "exec_user (UMigrateOwners f) st = (fst (MigrateOwnersToAdmin f st), False)"

fun approved_user :: "user_op \<Rightarrow> string option" where
  "approved_user (UApprove _ u _ _) = Some u"
| "approved_user _ = None"

definition not_pending :: "string \<Rightarrow> store \<Rightarrow> bool" where
  "not_pending u st \<longleftrightarrow> (\<forall>r \<in> set (db_users st). u_ID r = u \<longrightarrow> u_Status r \<noteq> UserStatusPending)"

interpretation approve_once: single_use exec_user approved_user not_pending
proof
  fix op :: user_op and st :: store and k :: string
  show "not_pending k st \<Longrightarrow> not_pending k (fst (exec_user op st))"
    by (cases op) (auto simp: not_pending_def ApproveUser_def RejectUser_def SetUserRole_def
        RemoveUser_def UpdatePassword_def SetPlatformAdmin_def ActivateLegacyUsers_def
        MigrateOwnersToAdmin_def tables split: option.splits if_splits)
  assume s: "snd (exec_user op st)" and k: "approved_user op = Some k"
  then obtain f g r where op: "op = UApprove f k g r" by (cases op) auto
  show "\<not> not_pending k st \<and> not_pending k (fst (exec_user op st))"
    using s by (auto simp: op not_pending_def ApproveUser_def tables filter_empty_conv
        split: option.splits if_splits)
qed

fun approvals :: "string \<Rightarrow> user_op list \<Rightarrow> store \<Rightarrow> nat" where
  "approvals u [] st = 0"
| "approvals u (op # ops) st =
     (if approved_user op = Some u \<and> snd (exec_user op st) then 1 else 0)
     + approvals u ops (fst (exec_user op st))"

lemma approvals_eq: "approvals u ops st = approve_once.uses u ops st"
  by (induction ops arbitrary: st) simp_all

subsection \<open>Properties\<close>

text \<open>
  Deleting a machine is confined to the caller's organisation: whatever the machine id
  and whatever statements fail, no row of any other organisation changes.
\<close>

theorem delete_machine_isolated:
  assumes "g \<noteq> orgID"
  shows "tenant_view g (fst (DeleteMachine fault orgID mid st)) = tenant_view g st"
  using assms by (rule DeleteMachine_foreign)

definition two_org_store :: store where
  "two_org_store = empty_store\<lparr>
     db_orgs := [\<lparr>o_ID = ''a'', o_Name = '''', o_Slug = ''a'', o_CreatedAt = 0\<rparr>,
                 \<lparr>o_ID = ''b'', o_Name = '''', o_Slug = ''b'', o_CreatedAt = 0\<rparr>],
     db_machines := [machine_rec ''a'' (zero_machine\<lparr>m_ID := ''m''\<rparr>)],
     db_sessions := [session_rec ''a'' (zero_session\<lparr>s_ID := ''s'', s_MachineID := ''m''\<rparr>),
                     session_rec ''b'' (zero_session\<lparr>s_ID := ''t'', s_MachineID := ''m''\<rparr>)],
     db_logs := [\<lparr>ll_OrgID = ''a'', ll_SessionID = ''s'', ll_Seq = 1, ll_Stream = '''',
                  ll_Line = ''x'', ll_TS = 0\<rparr>]\<rparr>"

theorem delete_machine_isolated_witness:
  "db_logs (fst (DeleteMachine (\<lambda>_. None) ''a'' ''m'' two_org_store)) = []
   \<and> tenant_view ''b'' (fst (DeleteMachine (\<lambda>_. None) ''a'' ''m'' two_org_store))
       = tenant_view ''b'' two_org_store"
proof
  show "db_logs (fst (DeleteMachine (\<lambda>_. None) ''a'' ''m'' two_org_store)) = []" by code_simp
  show "tenant_view ''b'' (fst (DeleteMachine (\<lambda>_. None) ''a'' ''m'' two_org_store))
       = tenant_view ''b'' two_org_store" by (rule delete_machine_isolated) simp
qed

text \<open>
  C23. The cascade of a machine deletion, refinement: without database failures the statements
  remove exactly the machine, its sessions, their log lines and metrics, its events, files
  and agent keys within the organisation, and a machine that is not the organisation's is
  reported as not found with nothing removed.
\<close>

theorem delete_machine_cascade:
  "DeleteMachine (\<lambda>_. None) orgID mid st =
     (if \<exists>r \<in> set (db_machines st). mr_OrgID r = orgID \<and> mr_ID r = mid
      then (without_machine orgID mid st, Inr ()) else (st, Inl ErrNotFound))"
  by (cases "\<exists>r \<in> set (db_machines st). mr_OrgID r = orgID \<and> mr_ID r = mid")
     (simp_all only: DeleteMachine_ok DeleteMachine_absent not_False_eq_True if_True if_False)

text \<open>
  The errors of the middle statements are dropped: when one delete of the cascade fails,
  the deletion still reports success and leaves rows of the deleted machine behind.
\<close>

theorem delete_machine_ignores_errors:
  "\<exists>fault st. snd (DeleteMachine fault ''a'' ''m'' st) = Inr ()
     \<and> (\<exists>l \<in> set (db_logs st). l \<in> set (db_logs (fst (DeleteMachine fault ''a'' ''m'' st)))
          \<and> ll_OrgID l = ''a''
          \<and> ll_SessionID l \<in> machine_sessions (\<lambda>s. sr_OrgID s = ''a'' \<and> sr_MachineID s = ''m'') st)"
proof (intro exI conjI)
  let ?f = "\<lambda>k. if k = 2 then Some ''database is locked'' else None"
  show "snd (DeleteMachine ?f ''a'' ''m'' two_org_store) = Inr ()" by code_simp
  show "\<exists>l \<in> set (db_logs two_org_store). l \<in> set (db_logs (fst (DeleteMachine ?f ''a'' ''m'' two_org_store)))
          \<and> ll_OrgID l = ''a''
          \<and> ll_SessionID l \<in> machine_sessions (\<lambda>s. sr_OrgID s = ''a'' \<and> sr_MachineID s = ''m'') two_org_store"
    unfolding set_session_ids [symmetric] by code_simp
qed

text \<open>
  Moving a machine, refinement: without database failures the machine and everything
  filed under it (sessions, their log lines and metrics, events, files, agent keys) belong
  to the new organisation afterwards and every other row is unchanged; with an unknown
  organisation or machine nothing changes.
\<close>

theorem reassign_machine_moves_all:
  "ReassignMachine (\<lambda>_. None) mid g st =
     (if (\<exists>w \<in> set (db_orgs st). o_ID w = g) \<and> (\<exists>r \<in> set (db_machines st). mr_ID r = mid)
      then (moved_machine mid g st, Inr ()) else (st, Inl ErrNotFound))"
proof (cases "\<exists>w \<in> set (db_orgs st). o_ID w = g")
  case org: True
  show ?thesis
  proof (cases "\<exists>r \<in> set (db_machines st). mr_ID r = mid")
    case True
    with org show ?thesis by (simp add: ReassignMachine_ok)
  next
    case False
    then have "sql_first mr_ID (\<lambda>r. mr_ID r = mid) (db_machines st) = None" by auto
    with False show ?thesis
      by (auto simp: ReassignMachine_def first_or_def simp del: sql_first_None split: sum.splits)
  qed
next
  case False
  then have "sql_first o_ID (\<lambda>r. o_ID r = g) (db_orgs st) = None" by auto
  with False show ?thesis
    by (auto simp: ReassignMachine_def GetOrg_def first_or_def simp del: sql_first_None)
qed

text \<open>
  A pending signup is approved at most once: in any run of user operations, with any
  database failures, at most one approval of the same user succeeds (so an approved user's
  organisation and role cannot be reset through the approval queue).
\<close>

theorem user_approved_once: "approvals u ops st \<le> 1"
  unfolding approvals_eq by (rule approve_once.used_at_most_once)

end
