(* ===== verification/Enrollment.thy ===== *)
theory Enrollment
  imports Tenancy
begin

section \<open>Enrollment tokens and agent keys (enrollment.go)\<close>

text \<open>
  Models \<open>internal/store/enrollment.go\<close>. The random tokens are arguments (\<open>None\<close> when the
  random source fails); the statements of the consuming transaction are numbered from 0 and
  the last number is the commit. The lifecycle of a token is the linear order
  active, expired, used, revoked: \<open>token_status_monotone\<close> shows that neither time nor any
  operation moves a token backwards.
\<close>

definition base62 :: string where
  "base62 = ''0123456789ABCDEFGHIJKLMNOPQRSTUVWXYZabcdefghijklmnopqrstuvwxyz''"

text \<open>\<open>rand i\<close> is the outcome of the \<open>i\<close>-th call of \<open>rand.Int\<close>, \<open>None\<close> when it fails.\<close>

definition randToken :: "(nat \<Rightarrow> nat option) \<Rightarrow> nat \<Rightarrow> string option" where
  "randToken rand n = those (map (\<lambda>i. map_option (\<lambda>k. base62 ! k) (rand i)) [0..<n])"

datatype token_status = TokenActive | TokenExpired | TokenUsed | TokenRevoked

fun status_rank :: "token_status \<Rightarrow> nat" where
  "status_rank TokenActive = 0"
| "status_rank TokenExpired = 1"
| "status_rank TokenUsed = 2"
| "status_rank TokenRevoked = 3"

fun status_text :: "token_status \<Rightarrow> string" where
  "status_text TokenActive = ''active''"
| "status_text TokenUsed = ''used''"
| "status_text TokenExpired = ''expired''"
| "status_text TokenRevoked = ''revoked''"

instantiation token_status :: linorder
begin

definition less_eq_token_status :: "token_status \<Rightarrow> token_status \<Rightarrow> bool" where
  "less_eq_token_status a b \<longleftrightarrow> status_rank a \<le> status_rank b"

definition less_token_status :: "token_status \<Rightarrow> token_status \<Rightarrow> bool" where
  "less_token_status a b \<longleftrightarrow> status_rank a < status_rank b"

lemma status_rank_inject: "status_rank a = status_rank b \<Longrightarrow> a = b"
  by (cases a; cases b) simp_all

instance
  by standard (auto simp: less_eq_token_status_def less_token_status_def dest: status_rank_inject)

end

definition Status :: "token_row \<Rightarrow> int \<Rightarrow> token_status" where
  "Status t now =
     (if et_Revoked t then TokenRevoked
      else if et_UsedAt t \<noteq> None then TokenUsed
      else if now > et_ExpiresAt t then TokenExpired
      else TokenActive)"

definition find_token :: "string \<Rightarrow> store \<Rightarrow> token_row option" where
  "find_token token st = sql_first et_Token (\<lambda>r. et_Token r = token) (db_tokens st)"

definition EnrollTokenOrg :: "string option \<Rightarrow> string \<Rightarrow> int \<Rightarrow> store \<Rightarrow> string db_result" where
  "EnrollTokenOrg fault token now st =
     (case first_or ErrTokenInvalid fault (find_token token st) of
        Inl e \<Rightarrow> Inl e
      | Inr rec \<Rightarrow> if Status rec now \<noteq> TokenActive then Inl ErrTokenInvalid else Inr (et_OrgID rec))"

definition CreateEnrollToken ::
  "string option \<Rightarrow> string option \<Rightarrow> string \<Rightarrow> string \<Rightarrow> int \<Rightarrow> int \<Rightarrow> store
     \<Rightarrow> store \<times> token_row db_result" where
  "CreateEnrollToken fault rnd orgID label ttl now st =
     (case rnd of None \<Rightarrow> (st, Inl (ErrRand ''''))
      | Some tok \<Rightarrow>
          (let rec = \<lparr>et_Token = tok, et_OrgID = orgID, et_Label = label, et_CreatedAt = now,
                 et_ExpiresAt = now + ttl, et_UsedAt = None, et_UsedByID = '''',
                 et_Revoked = False\<rparr>
           in case fault of Some e \<Rightarrow> (st, Inl (ErrEngine e))
              | None \<Rightarrow>
                  if list_ex (\<lambda>r. et_Token r = tok) (db_tokens st) then (st, Inl ErrUnique)
                  else (st\<lparr>db_tokens := db_tokens st @ [rec]\<rparr>, Inr rec)))"

definition ListEnrollTokens ::
  "(token_row list \<Rightarrow> token_row list) \<Rightarrow> string option \<Rightarrow> string \<Rightarrow> store \<Rightarrow> token_row list db_result" where
  "ListEnrollTokens scan fault orgID st =
     (case fault of Some e \<Rightarrow> Inl (ErrEngine e)
      | None \<Rightarrow> Inr (sort_key (\<lambda>r. - et_CreatedAt r)
          (filter (\<lambda>r. et_OrgID r = orgID) (scan (db_tokens st)))))"

definition RevokeEnrollToken ::
  "string option \<Rightarrow> string \<Rightarrow> string \<Rightarrow> store \<Rightarrow> store \<times> unit db_result" where
  "RevokeEnrollToken fault orgID token st =
     exec_stmt fault st (st\<lparr>db_tokens := sql_update (\<lambda>r. et_OrgID r = orgID \<and> et_Token r = token)
       (et_Revoked_update (\<lambda>_. True)) (db_tokens st)\<rparr>)"

text \<open>\<open>tx.Save\<close> writes every column of the row with that primary key.\<close>

definition ConsumeEnrollToken ::
  "(nat \<Rightarrow> string option) \<Rightarrow> string option \<Rightarrow> string \<Rightarrow> string \<Rightarrow> string \<Rightarrow> int \<Rightarrow> store
     \<Rightarrow> store \<times> key_row db_result" where
  "ConsumeEnrollToken fault rnd token machineID label now st =
     (case first_or ErrTokenInvalid (fault 0) (find_token token st) of
        Inl e \<Rightarrow> (st, Inl e)
      | Inr rec \<Rightarrow>
          if Status rec now \<noteq> TokenActive then (st, Inl ErrTokenInvalid)
          else
            (let rec = rec\<lparr>et_UsedAt := Some now, et_UsedByID := machineID\<rparr>
             in case fault 1 of Some e \<Rightarrow> (st, Inl (ErrEngine e))
                | None \<Rightarrow>
                    (let st1 = st\<lparr>db_tokens := sql_upsert et_Token rec (db_tokens st)\<rparr>
                     in case rnd of None \<Rightarrow> (st, Inl (ErrRand ''''))
                        | Some raw \<Rightarrow>
                            (let key = \<lparr>ak_Key = raw, ak_OrgID = et_OrgID rec,
                                   ak_MachineID = machineID, ak_Label = label,
                                   ak_CreatedAt = now, ak_Revoked = False\<rparr>
                             in case fault 2 of Some e \<Rightarrow> (st, Inl (ErrEngine e))
                                | None \<Rightarrow>
                                    if list_ex (\<lambda>r. ak_Key r = raw) (db_keys st1) then (st, Inl ErrUnique)
                                    else case fault 3 of Some e \<Rightarrow> (st, Inl (ErrEngine e))
                                         | None \<Rightarrow> (st1\<lparr>db_keys := db_keys st1 @ [key]\<rparr>, Inr key)))))"

definition ActiveAgentKeys ::
  "(key_row list \<Rightarrow> key_row list) \<Rightarrow> string option \<Rightarrow> store \<Rightarrow> key_row list db_result" where
  "ActiveAgentKeys scan fault st =
     (case fault of Some e \<Rightarrow> Inl (ErrEngine e)
      | None \<Rightarrow> Inr (filter (\<lambda>k. \<not> ak_Revoked k) (scan (db_keys st))))"

text \<open>Ordered by creation time, newest first, then (by \<open>First\<close>) by the primary key.\<close>

definition AgentKeyByMachine :: "string option \<Rightarrow> string \<Rightarrow> store \<Rightarrow> key_row option" where
  "AgentKeyByMachine fault machineID st =
     (case fault of Some _ \<Rightarrow> None
      | None \<Rightarrow>
          (case sort_key (\<lambda>k. - ak_CreatedAt k) (sort_key ak_Key
                  (filter (\<lambda>k. ak_MachineID k = machineID \<and> \<not> ak_Revoked k) (db_keys st))) of
             [] \<Rightarrow> None | k # _ \<Rightarrow> Some k))"

definition RevokeAgentKeysForMachine ::
  "string option \<Rightarrow> string \<Rightarrow> store \<Rightarrow> store \<times> unit db_result" where
  "RevokeAgentKeysForMachine fault machineID st =
     exec_stmt fault st (st\<lparr>db_keys := sql_update (\<lambda>k. ak_MachineID k = machineID)
       (ak_Revoked_update (\<lambda>_. True)) (db_keys st)\<rparr>)"

definition PruneExpiredTokens :: "string option \<Rightarrow> int \<Rightarrow> store \<Rightarrow> store \<times> nat db_result" where
  "PruneExpiredTokens fault before st =
     (let P = (\<lambda>r. et_UsedAt r = None \<and> et_ExpiresAt r < before)
      in case fault of Some e \<Rightarrow> (st, Inl (ErrEngine e))
         | None \<Rightarrow> (st\<lparr>db_tokens := sql_delete P (db_tokens st)\<rparr>,
                    Inr (rows_affected P (db_tokens st))))"

subsection \<open>Consuming a token\<close>

lemma find_token_Some:
  "find_token tok st = Some r \<Longrightarrow> r \<in> set (db_tokens st) \<and> et_Token r = tok"
  unfolding find_token_def using sql_first_Some(1,2) by fast

lemma ConsumeEnrollToken_error:
  "ConsumeEnrollToken fault rnd tok m label now st = (st', Inl e) \<Longrightarrow> st' = st"
  by (auto simp: ConsumeEnrollToken_def Let_def split: sum.splits option.splits if_splits)

lemma first_or_Inr: "first_or e fault r = Inr x \<longleftrightarrow> fault = None \<and> r = Some x"
  by (simp add: first_or_def split: option.splits)

lemma ConsumeEnrollToken_success:
  assumes "ConsumeEnrollToken fault rnd tok m label now st = (st', Inr key)"
  obtains rec raw where "find_token tok st = Some rec" "Status rec now = TokenActive"
    "rnd = Some raw" "raw \<notin> ak_Key ` set (db_keys st)"
    "key = \<lparr>ak_Key = raw, ak_OrgID = et_OrgID rec, ak_MachineID = m, ak_Label = label,
            ak_CreatedAt = now, ak_Revoked = False\<rparr>"
    "st' = st\<lparr>db_tokens := sql_upsert et_Token (rec\<lparr>et_UsedAt := Some now, et_UsedByID := m\<rparr>)
                (db_tokens st), db_keys := db_keys st @ [key]\<rparr>"
proof -
  obtain rec where rec: "first_or ErrTokenInvalid (fault 0) (find_token tok st) = Inr rec"
    using assms by (auto simp: ConsumeEnrollToken_def split: sum.splits)
  have active: "Status rec now = TokenActive"
    using assms by (auto simp: ConsumeEnrollToken_def rec split: if_splits)
  note eq = assms [unfolded ConsumeEnrollToken_def rec Let_def sum.case if_not_P [of "Status rec now \<noteq> TokenActive", unfolded not_not, OF active]]
  obtain raw where raw: "rnd = Some raw" using eq by (auto split: option.splits)
  have fresh: "\<not> list_ex (\<lambda>r. ak_Key r = raw) (db_keys st)"
    using eq by (auto simp: raw split: option.splits if_splits)
  show thesis
  proof (rule that [OF _ active raw])
    show "find_token tok st = Some rec" using rec by (simp add: first_or_Inr)
    show "raw \<notin> ak_Key ` set (db_keys st)" using fresh by (auto simp: list_ex_iff)
  qed (use eq fresh in \<open>auto simp: raw split: option.splits if_splits\<close>)
qed

subsection \<open>Runs of enrollment operations\<close>

datatype enroll_op =
    EnCreate "string option" "string option" string string int int
  | EnRevoke "string option" string string
  | EnConsume "nat \<Rightarrow> string option" "string option" string string string int
  | EnPrune "string option" int
  | EnRevokeKeys "string option" string

text \<open>Runs an operation and tells whether it was a successful consumption.\<close>

fun exec_enroll :: "enroll_op \<Rightarrow> store \<Rightarrow> store \<times> bool" where
  "exec_enroll (EnCreate f rnd g l ttl now) st = (fst (CreateEnrollToken f rnd g l ttl now st), False)"
| "exec_enroll (EnRevoke f g tok) st = (fst (RevokeEnrollToken f g tok st), False)"
| "exec_enroll (EnConsume f rnd tok m l now) st =
     (let (st', r) = ConsumeEnrollToken f rnd tok m l now st in (st', \<not> isl r))"
| "exec_enroll (EnPrune f before) st = (fst (PruneExpiredTokens f before st), False)"
| "exec_enroll (EnRevokeKeys f m) st = (fst (RevokeAgentKeysForMachine f m st), False)"

fun consumed_token :: "enroll_op \<Rightarrow> string option" where
  "consumed_token (EnConsume _ _ tok _ _ _) = Some tok"
| "consumed_token _ = None"

definition token_spent :: "string \<Rightarrow> store \<Rightarrow> bool" where
  "token_spent tok st \<longleftrightarrow> tok \<in> et_Token ` set (db_tokens st) \<and>
     (\<forall>r \<in> set (db_tokens st). et_Token r = tok \<longrightarrow> et_UsedAt r \<noteq> None)"

lemma consume_spends:
  assumes "ConsumeEnrollToken f rnd tok m l now st = (st', Inr key)"
  shows "\<not> token_spent tok st \<and> token_spent tok st'"
proof -
  obtain rec raw where rec: "find_token tok st = Some rec" "Status rec now = TokenActive"
    and st': "st' = st\<lparr>db_tokens := sql_upsert et_Token
      (rec\<lparr>et_UsedAt := Some now, et_UsedByID := m\<rparr>) (db_tokens st), db_keys := db_keys st @ [key]\<rparr>"
    using ConsumeEnrollToken_success [OF assms] by metis
  have "et_UsedAt rec = None" using rec(2) by (auto simp: Status_def split: if_splits)
  moreover note find_token_Some [OF rec(1)]
  ultimately show ?thesis
    by (auto simp: token_spent_def st' set_sql_upsert keys_sql_upsert)
qed

lemma token_spent_exec:
  assumes "token_spent tok st"
  shows "token_spent tok (fst (exec_enroll op st))"
proof (cases op)
  case (EnConsume f rnd tok' m l now)
  show ?thesis
  proof (cases "ConsumeEnrollToken f rnd tok' m l now st")
    case (Pair st' r)
    show ?thesis
    proof (cases r)
      case (Inl e)
      then show ?thesis using ConsumeEnrollToken_error [of f rnd tok' m l now st st' e] Pair assms EnConsume
        by simp
    next
      case (Inr key)
      note c = Pair [unfolded Inr]
      obtain rec where tok': "et_Token rec = tok'" and st': "db_tokens st' = sql_upsert et_Token
          (rec\<lparr>et_UsedAt := Some now, et_UsedByID := m\<rparr>) (db_tokens st)"
        by (rule ConsumeEnrollToken_success [OF c]) (use find_token_Some in fastforce)
      have "token_spent tok st'"
        using assms tok' by (auto simp: token_spent_def st' set_sql_upsert keys_sql_upsert)
      then show ?thesis using EnConsume Pair by simp
    qed
  qed
next
  case (EnRevoke f g tok')
  then show ?thesis using assms
    by (auto simp: token_spent_def RevokeEnrollToken_def exec_stmt_def keys_sql_update
        ball_sql_update split: option.splits)
qed (use assms in \<open>auto simp: token_spent_def CreateEnrollToken_def PruneExpiredTokens_def
       RevokeAgentKeysForMachine_def tables image_iff Let_def list_ex_iff
       split: option.splits if_splits\<close>)

interpretation enroll_once: single_use exec_enroll consumed_token token_spent
proof
  fix op :: enroll_op and st :: store and k :: string
  show "token_spent k st \<Longrightarrow> token_spent k (fst (exec_enroll op st))" by (rule token_spent_exec)
  assume s: "snd (exec_enroll op st)" and k: "consumed_token op = Some k"
  then obtain f rnd m l now where op: "op = EnConsume f rnd k m l now" by (cases op) auto
  obtain st' r where c: "ConsumeEnrollToken f rnd k m l now st = (st', r)" by fastforce
  with s op obtain key where "r = Inr key" by (cases r) auto
  with c show "\<not> token_spent k st \<and> token_spent k (fst (exec_enroll op st))"
    using consume_spends op by simp
qed

fun consumptions :: "string \<Rightarrow> enroll_op list \<Rightarrow> store \<Rightarrow> nat" where
  "consumptions tok [] st = 0"
| "consumptions tok (op # ops) st =
     (if consumed_token op = Some tok \<and> snd (exec_enroll op st) then 1 else 0)
     + consumptions tok ops (fst (exec_enroll op st))"

lemma consumptions_eq: "consumptions tok ops st = enroll_once.uses tok ops st"
  by (induction ops arbitrary: st) simp_all

subsection \<open>Keys of the token and key tables\<close>

definition wf_enroll :: "store \<Rightarrow> bool" where
  "wf_enroll st \<longleftrightarrow> distinct (map et_Token (db_tokens st)) \<and> distinct (map ak_Key (db_keys st))"

lemma find_token_iff:
  "distinct (map et_Token (db_tokens st)) \<Longrightarrow>
     find_token tok st = Some r \<longleftrightarrow> r \<in> set (db_tokens st) \<and> et_Token r = tok"
proof
  assume d: "distinct (map et_Token (db_tokens st))" and r: "r \<in> set (db_tokens st) \<and> et_Token r = tok"
  show "find_token tok st = Some r"
    unfolding find_token_def
    by (rule sql_first_unique) (use d r in \<open>auto simp: distinct_map dest: inj_onD\<close>)
qed (rule find_token_Some)

lemma wf_enroll_exec: "wf_enroll st \<Longrightarrow> wf_enroll (fst (exec_enroll op st))"
proof (cases op)
  case (EnConsume f rnd tok m l now)
  assume wf: "wf_enroll st"
  obtain st' r where c: "ConsumeEnrollToken f rnd tok m l now st = (st', r)" by fastforce
  show ?thesis
  proof (cases r)
    case (Inl e)
    with c ConsumeEnrollToken_error have "st' = st" by metis
    then show ?thesis using wf c EnConsume by simp
  next
    case (Inr key)
    note c = c [unfolded Inr]
    show ?thesis
      by (rule ConsumeEnrollToken_success [OF c])
         (use wf c EnConsume in \<open>auto simp: wf_enroll_def distinct_sql_upsert\<close>)
  qed
qed (auto simp: wf_enroll_def CreateEnrollToken_def RevokeEnrollToken_def PruneExpiredTokens_def
       RevokeAgentKeysForMachine_def exec_stmt_def Let_def list_ex_iff distinct_sql_delete
       distinct_sql_update split: option.splits)

lemma row_after_exec:
  assumes "r' \<in> set (db_tokens (fst (exec_enroll op st)))" and "consumed_token op = None"
  shows "r' \<in> set (db_tokens st) \<or> (\<exists>x \<in> set (db_tokens st). r' = x\<lparr>et_Revoked := True\<rparr>)
    \<or> et_Token r' \<notin> et_Token ` set (db_tokens st)"
proof (cases op)
  case (EnCreate f rnd g l ttl now)
  with assms show ?thesis
    by (auto simp: CreateEnrollToken_def Let_def list_ex_iff split: option.splits if_splits)
next
  case (EnRevoke f g tok)
  with assms show ?thesis
    by (auto simp: RevokeEnrollToken_def exec_stmt_def sql_update_def split: option.splits if_splits)
next
  case (EnPrune f before)
  with assms show ?thesis by (simp add: PruneExpiredTokens_def sql_delete_def Let_def split: option.splits)
next
  case (EnRevokeKeys f m)
  with assms show ?thesis by (simp add: RevokeAgentKeysForMachine_def exec_stmt_def split: option.splits)
qed (use assms in simp)

subsection \<open>Properties\<close>

text \<open>
  C4. An enrollment token is single-use: in any run of token and key operations, with any
  pattern of database failures, a token is consumed successfully at most once.
\<close>

theorem enroll_token_single_use: "consumptions tok ops st \<le> 1"
  unfolding consumptions_eq by (rule enroll_once.used_at_most_once)

text \<open>
  What a successful consumption does: the token was active, the minted key belongs to
  the token's organisation and to the given machine, is new and not revoked; the token is
  used from then on, every other token and every other key stays as it was, and no other
  table changes.
\<close>

theorem consume_token_effect:
  assumes "wf_enroll st" and "ConsumeEnrollToken fault rnd tok m label now st = (st', Inr key)"
  shows "\<exists>rec. find_token tok st = Some rec \<and> Status rec now = TokenActive
      \<and> ak_OrgID key = et_OrgID rec \<and> ak_MachineID key = m \<and> \<not> ak_Revoked key
      \<and> ak_Key key \<notin> ak_Key ` set (db_keys st) \<and> db_keys st' = db_keys st @ [key]
      \<and> (\<forall>later. map_option (\<lambda>r. Status r later) (find_token tok st') = Some TokenUsed)
      \<and> (\<forall>tok'. tok' \<noteq> tok \<longrightarrow> find_token tok' st' = find_token tok' st)
      \<and> st'\<lparr>db_tokens := db_tokens st, db_keys := db_keys st\<rparr> = st \<and> wf_enroll st'"
proof (rule ConsumeEnrollToken_success [OF assms(2)])
  fix rec :: token_row and raw
  let ?rec = "rec\<lparr>et_UsedAt := Some now, et_UsedByID := m\<rparr>"
  assume rec: "find_token tok st = Some rec" "Status rec now = TokenActive"
    and raw: "raw \<notin> ak_Key ` set (db_keys st)"
    and key: "key = \<lparr>ak_Key = raw, ak_OrgID = et_OrgID rec, ak_MachineID = m, ak_Label = label,
            ak_CreatedAt = now, ak_Revoked = False\<rparr>"
    and st': "st' = st\<lparr>db_tokens := sql_upsert et_Token ?rec (db_tokens st),
            db_keys := db_keys st @ [key]\<rparr>"
  have tok: "et_Token rec = tok" using rec(1) by (simp add: find_token_Some)
  have d: "distinct (map et_Token (db_tokens st))" using assms(1) by (simp add: wf_enroll_def)
  then have d': "distinct (map et_Token (db_tokens st'))" by (simp add: st' distinct_sql_upsert)
  have "find_token tok st' = Some ?rec"
    using tok by (subst find_token_iff [OF d']) (simp add: st' set_sql_upsert)
  moreover have "\<not> et_Revoked rec" using rec(2) by (auto simp: Status_def split: if_splits)
  ultimately have used: "map_option (\<lambda>r. Status r later) (find_token tok st') = Some TokenUsed" for later
    by (simp add: Status_def)
  have other: "find_token tok' st' = find_token tok' st" if "tok' \<noteq> tok" for tok'
  proof -
    have "find_token tok' st' = Some r \<longleftrightarrow> find_token tok' st = Some r" for r
      using that tok unfolding find_token_iff [OF d] find_token_iff [OF d']
      by (auto simp: st' set_sql_upsert)
    then show ?thesis by (metis not_Some_eq)
  qed
  have wf: "wf_enroll st'" using d' raw assms(1) by (auto simp: wf_enroll_def st' key)
  show ?thesis
    using rec raw used other wf by (intro exI [of _ rec]) (simp add: key st')
qed

theorem consume_token_effect_witness:
  "\<exists>st' key. ConsumeEnrollToken (\<lambda>_. None) (Some ''key'') ''tok'' ''m1'' ''lab'' 5
      (empty_store\<lparr>db_tokens := [\<lparr>et_Token = ''tok'', et_OrgID = ''o'', et_Label = '''',
         et_CreatedAt = 0, et_ExpiresAt = 9, et_UsedAt = None, et_UsedByID = '''',
         et_Revoked = False\<rparr>]\<rparr>) = (st', Inr key) \<and> ak_OrgID key = ''o'' \<and> wf_enroll st'"
  (is "\<exists>st' key. ?c = _ \<and> _")
proof -
  have "\<not> isl (snd ?c)" by code_simp
  then obtain key where c: "?c = (fst ?c, Inr key)" by (cases "snd ?c") (auto simp: prod_eq_iff)
  from consume_token_effect [OF _ c] have "wf_enroll (fst ?c)"
    and "\<exists>rec. find_token ''tok'' (empty_store\<lparr>db_tokens := [\<lparr>et_Token = ''tok'', et_OrgID = ''o'',
         et_Label = '''', et_CreatedAt = 0, et_ExpiresAt = 9, et_UsedAt = None, et_UsedByID = '''',
         et_Revoked = False\<rparr>]\<rparr>) = Some rec \<and> ak_OrgID key = et_OrgID rec"
    by (auto simp: wf_enroll_def empty_store_def)
  then show ?thesis using c by (auto simp: find_token_def sql_first_def)
qed

text \<open>
  A token's lifecycle only moves forward (active, expired, used, revoked): whatever
  operation runs, with whatever failures, a token that is still there afterwards has at any
  later time a status at least as far as before.
\<close>

theorem token_status_monotone:
  assumes "wf_enroll st" and "find_token tok st = Some r"
    and "find_token tok (fst (exec_enroll op st)) = Some r'" and "t \<le> t'"
  shows "Status r t \<le> Status r' t'"
proof -
  have d: "distinct (map et_Token (db_tokens st))"
    and d': "distinct (map et_Token (db_tokens (fst (exec_enroll op st))))"
    using assms(1) wf_enroll_exec [OF assms(1)] by (simp_all add: wf_enroll_def)
  have r: "r \<in> set (db_tokens st)" "et_Token r = tok"
    and r': "r' \<in> set (db_tokens (fst (exec_enroll op st)))" "et_Token r' = tok"
    using assms(2,3) by (simp_all add: find_token_Some)
  have same: "x = r" if "x \<in> set (db_tokens st)" "et_Token x = tok" for x
    using that r d by (auto simp: distinct_map dest: inj_onD)
  have "r' = r \<or> r' = r\<lparr>et_Revoked := True\<rparr> \<or>
      (Status r t \<noteq> TokenRevoked \<and> et_UsedAt r' \<noteq> None)"
  proof (cases op)
    case (EnConsume f rnd tok' m l now)
    obtain st' q where c: "ConsumeEnrollToken f rnd tok' m l now st = (st', q)" by fastforce
    show ?thesis
    proof (cases q)
      case (Inl e)
      with c ConsumeEnrollToken_error have "st' = st" by metis
      then show ?thesis using r' c EnConsume same by simp
    next
      case (Inr key)
      note c = c [unfolded Inr]
      obtain rec where rec: "find_token tok' st = Some rec" "Status rec now = TokenActive"
        and st': "db_tokens st' = sql_upsert et_Token
           (rec\<lparr>et_UsedAt := Some now, et_UsedByID := m\<rparr>) (db_tokens st)"
        by (rule ConsumeEnrollToken_success [OF c]) fastforce
      have "\<not> et_Revoked rec" using rec(2) by (auto simp: Status_def split: if_splits)
      then show ?thesis
        using r' c EnConsume same find_token_Some [OF rec(1)]
        by (auto simp: st' set_sql_upsert Status_def)
    qed
  qed (use row_after_exec [OF r'(1)] r r'(2) same in \<open>force+\<close>)
  then show ?thesis
    using assms(4) by (auto simp: Status_def less_eq_token_status_def split: if_splits)
qed

theorem token_status_monotone_witness:
  "let st = empty_store\<lparr>db_tokens := [\<lparr>et_Token = ''tok'', et_OrgID = ''o'', et_Label = '''',
         et_CreatedAt = 0, et_ExpiresAt = 9, et_UsedAt = None, et_UsedByID = '''',
         et_Revoked = False\<rparr>]\<rparr>;
       r = hd (db_tokens st); r' = r\<lparr>et_UsedAt := Some 5, et_UsedByID := ''m''\<rparr>
   in find_token ''tok'' (fst (exec_enroll (EnConsume (\<lambda>_. None) (Some ''k'') ''tok'' ''m'' '''' 5) st))
        = Some r' \<and> Status r 0 \<le> Status r' 10"
proof -
  let ?st = "empty_store\<lparr>db_tokens := [\<lparr>et_Token = ''tok'', et_OrgID = ''o'', et_Label = '''',
         et_CreatedAt = 0, et_ExpiresAt = 9, et_UsedAt = None, et_UsedByID = '''',
         et_Revoked = False\<rparr>]\<rparr>"
  let ?r = "hd (db_tokens ?st)" and ?op = "EnConsume (\<lambda>_. None) (Some ''k'') ''tok'' ''m'' '''' 5"
  let ?r' = "?r\<lparr>et_UsedAt := Some 5, et_UsedByID := ''m''\<rparr>"
  have f: "find_token ''tok'' (fst (exec_enroll ?op ?st)) = Some ?r'" by code_simp
  have wf: "wf_enroll ?st" by (simp add: wf_enroll_def empty_store_def)
  have "find_token ''tok'' ?st = Some ?r" by (simp add: find_token_def sql_first_def)
  from token_status_monotone [OF wf this f] have "Status ?r 0 \<le> Status ?r' 10" by simp
  with f show ?thesis by (simp only: Let_def)
qed

end
