(* ===== verification/Auth.thy ===== *)
theory Auth
  imports Enrollment
begin

section \<open>Passwords, tokens, roles\<close>

text \<open>
  Models \<open>internal/auth/auth.go\<close> and the request guards of \<open>internal/server/middleware.go\<close>.
  The libraries these call are not part of the repository; what they do is the record
  \<open>crypto\<close>: \<open>hash_pw\<close> is \<open>bcrypt.GenerateFromPassword\<close> (\<open>None\<close> is its error, for a
  password longer than 72 bytes), \<open>check_pw\<close> is \<open>bcrypt.CompareHashAndPassword\<close>, \<open>sign\<close> and
  \<open>parse\<close> are the signing and the validation of a JWT with the server's secret at a time.
  A response is an error with a status, a code and a message, or a status with a body.
\<close>

abbreviation (input) "RoleAdmin \<equiv> ''admin''"
abbreviation (input) "RoleMember \<equiv> ''member''"
abbreviation (input) "RoleOwner \<equiv> ''owner''"

definition IsAdmin :: "string \<Rightarrow> bool" where
  "IsAdmin role \<longleftrightarrow> role = RoleAdmin \<or> role = RoleOwner"

definition NormalizeRole :: "string \<Rightarrow> string" where
  "NormalizeRole role = (if role = RoleMember then RoleMember else RoleAdmin)"

record claims =
  cm_UserID :: string
  cm_OrgID :: string
  cm_Role :: string
  cm_Email :: string
  cm_PlatformAdmin :: bool
  cm_IssuedAt :: int
  cm_ExpiresAt :: int

record crypto =
  hash_pw :: "string \<Rightarrow> string option"
  check_pw :: "string \<Rightarrow> string \<Rightarrow> bool"
  sign :: "claims \<Rightarrow> string option"
  parse :: "int \<Rightarrow> string \<Rightarrow> claims option"

text \<open>\<open>HashPassword\<close> returns the empty string beside its error.\<close>

definition HashPassword :: "crypto \<Rightarrow> string \<Rightarrow> string \<times> bool" where
  "HashPassword lib pw = (case hash_pw lib pw of None \<Rightarrow> ('''', False) | Some h \<Rightarrow> (h, True))"

definition CheckPassword :: "crypto \<Rightarrow> string \<Rightarrow> string \<Rightarrow> bool" where
  "CheckPassword lib hash pw = check_pw lib hash pw"

definition second :: int where
  "second = 1000000000"

text \<open>\<open>NewManager(secret, ttl)\<close>: a zero lifetime becomes seven days.\<close>

definition NewManager :: "int \<Rightarrow> int" where
  "NewManager ttl = (if ttl = 0 then 7 * 24 * 3600 * second else ttl)"

definition IssueWithAdmin ::
  "crypto \<Rightarrow> int \<Rightarrow> string \<Rightarrow> string \<Rightarrow> string \<Rightarrow> string \<Rightarrow> bool \<Rightarrow> int \<Rightarrow> string option" where
  "IssueWithAdmin lib ttl userID orgID role email platformAdmin now =
     sign lib \<lparr>cm_UserID = userID, cm_OrgID = orgID, cm_Role = role, cm_Email = email,
       cm_PlatformAdmin = platformAdmin, cm_IssuedAt = now div second * second,
       cm_ExpiresAt = (now + ttl) div second * second\<rparr>"

definition Issue ::
  "crypto \<Rightarrow> int \<Rightarrow> string \<Rightarrow> string \<Rightarrow> string \<Rightarrow> string \<Rightarrow> int \<Rightarrow> string option" where
  "Issue lib ttl userID orgID role email now = IssueWithAdmin lib ttl userID orgID role email False now"

definition Verify :: "crypto \<Rightarrow> int \<Rightarrow> string \<Rightarrow> claims option" where
  "Verify lib now token = parse lib now token"

subsection \<open>Responses and guards\<close>

datatype err_msg = Text string | OfError store_error

datatype 'a response =
    Error nat string err_msg
  | Reply nat 'a

fun status :: "'a response \<Rightarrow> nat" where
  "status (Error n _ _) = n"
| "status (Reply n _) = n"

record http_request =
  r_authorization :: string
  r_token :: string
  r_api_key :: string
  r_key :: string

definition bearer :: "http_request \<Rightarrow> string" where
  "bearer r = (let h = r_authorization r
     in if 7 < length h \<and> take 7 h = ''Bearer '' then drop 7 h else r_token r)"

text \<open>A guard either answers itself or runs the next handler, here with the claims.\<close>

definition requireUser ::
  "crypto \<Rightarrow> int \<Rightarrow> http_request \<Rightarrow> (claims \<Rightarrow> 's \<Rightarrow> 's \<times> 'a response) \<Rightarrow> 's \<Rightarrow> 's \<times> 'a response" where
  "requireUser lib now r h s =
     (case Verify lib now (bearer r) of
        None \<Rightarrow> (s, Error 401 ''unauthorized'' (Text ''invalid or missing token''))
      | Some c \<Rightarrow> h c s)"

definition requireSuperadmin ::
  "claims \<Rightarrow> ('s \<Rightarrow> 's \<times> 'a response) \<Rightarrow> 's \<Rightarrow> 's \<times> 'a response" where
  "requireSuperadmin c h s =
     (if \<not> cm_PlatformAdmin c then (s, Error 403 ''forbidden'' (Text ''platform admin only''))
      else h s)"

end
