(* ===== verification/Server_Core.thy ===== *)
theory Server_Core
  imports Live_State Hub Auth
begin

section \<open>The control plane\<close>

text \<open>
  Models the server's state and its WebSocket side: \<open>server.go\<close> (keys, seeding, retention),
  \<open>events.go\<close>, \<open>agent_handler.go\<close>, \<open>ws.go\<close> and \<open>terminal.go\<close> of \<open>internal/server\<close>. A
  handler takes the server and what it gets from outside, the record \<open>ambient\<close>: the fault of
  its \<open>k\<close>-th database statement, the clock (read once per handler), fresh uuids and random
  tokens, and the orders in which Go ranges over the hub's clients and over the live maps.
\<close>

record key_info =
  ki_OrgID :: string
  ki_MachineID :: string

record server_cfg =
  cf_PublicURL :: string
  cf_AdminEmail :: string
  cf_AdminPass :: string
  cf_LogHours :: int
  cf_MetricHours :: int
  cf_BlockedNotifySeconds :: int

record server =
  sv_cfg :: server_cfg
  sv_hub :: hub
  sv_state :: manager
  sv_store :: store
  sv_agentKeys :: "(string, key_info) gomap"
  sv_termRouter :: "(string, string) gomap"

record ambient =
  am_db :: "nat \<Rightarrow> string option"
  am_now :: int
  am_uuid :: "nat \<Rightarrow> string"
  am_rand :: "nat \<Rightarrow> string option"
  am_hub :: "(string \<times> string) list \<Rightarrow> (string \<times> string) list"
  am_mach :: "(string \<times> machine) list \<Rightarrow> (string \<times> machine) list"
  am_sess :: "(string \<times> session) list \<Rightarrow> (string \<times> session) list"
  am_keys :: "key_row list \<Rightarrow> key_row list"

definition ok_ambient :: "ambient \<Rightarrow> bool" where
  "ok_ambient a \<longleftrightarrow> range_order (am_hub a) \<and> range_order (am_mach a) \<and> range_order (am_sess a)
     \<and> range_order (am_keys a)"

definition NowMillis :: "ambient \<Rightarrow> int" where
  "NowMillis a = UnixMilli (am_now a)"

definition quiet :: ambient where
  "quiet = \<lparr>am_db = \<lambda>_. None, am_now = 0, am_uuid = \<lambda>k. ''u'' @ utoa k, am_rand = \<lambda>k. Some (''r'' @ utoa k),
     am_hub = id, am_mach = id, am_sess = id, am_keys = id\<rparr>"

lemma ok_quiet [simp]: "ok_ambient quiet"
  by (simp add: ok_ambient_def quiet_def)

subsection \<open>Agent keys\<close>

definition reloadAgentKeys :: "string option \<Rightarrow> ambient \<Rightarrow> server \<Rightarrow> server" where
  "reloadAgentKeys fault a s =
     (case ActiveAgentKeys (am_keys a) fault (sv_store s) of
        Inl _ \<Rightarrow> s
      | Inr rows \<Rightarrow>
          s\<lparr>sv_agentKeys := foldl (\<lambda>m k. mput (ak_Key k)
              \<lparr>ki_OrgID = ak_OrgID k, ki_MachineID = ak_MachineID k\<rparr> m) [] rows\<rparr>)"

definition lookupAgentKey :: "string \<Rightarrow> server \<Rightarrow> key_info option" where
  "lookupAgentKey key s = mget (sv_agentKeys s) key"

definition authAgentKey :: "http_request \<Rightarrow> server \<Rightarrow> key_info option" where
  "authAgentKey r s =
     (let key = (if r_api_key r = '''' then r_key r else r_api_key r)
      in mget (sv_agentKeys s) key)"

subsection \<open>Events\<close>

definition emit :: "ambient \<Rightarrow> string \<Rightarrow> wire \<Rightarrow> server \<Rightarrow> server" where
  "emit a orgID w s = s\<lparr>sv_hub := EmitOrg (am_hub a) (NowMillis a) orgID w (sv_hub s)\<rparr>"

text \<open>\<open>k\<close> is the number of the database statement, \<open>u\<close> of the uuid.\<close>

definition recordEvent :: "nat \<Rightarrow> nat \<Rightarrow> ambient \<Rightarrow> string \<Rightarrow> event \<Rightarrow> server \<Rightarrow> server" where
  "recordEvent k u a orgID e s =
     (let e = (if e_ID e = '''' then e\<lparr>e_ID := am_uuid a u\<rparr> else e);
          e = (if e_TS e = 0 then e\<lparr>e_TS := NowMillis a\<rparr> else e);
          e = (if e_Severity e = '''' then e\<lparr>e_Severity := SeverityInfo\<rparr> else e);
          s = s\<lparr>sv_store := fst (SaveEvent (am_db a k) orgID e (sv_store s))\<rparr>;
          s = s\<lparr>sv_state := AddEvent orgID e (sv_state s)\<rparr>
      in emit a orgID (EventAppend (Some e)) s)"

definition emitServerEvent ::
  "nat \<Rightarrow> nat \<Rightarrow> ambient \<Rightarrow> string \<Rightarrow> string \<Rightarrow> string \<Rightarrow> string \<Rightarrow> string \<Rightarrow> string \<Rightarrow> server \<Rightarrow> server" where
  "emitServerEvent k u a orgID machineID sessionID kind message sev s =
     recordEvent k u a orgID
       \<lparr>e_ID = '''', e_MachineID = machineID, e_SessionID = sessionID, e_Kind = kind,
         e_Message = message, e_Severity = sev, e_TS = 0, e_Meta = []\<rparr> s"

subsection \<open>Terminal relay (terminal.go)\<close>

definition orgOwnsMachine :: "ambient \<Rightarrow> string \<Rightarrow> string \<Rightarrow> server \<Rightarrow> bool" where
  "orgOwnsMachine a orgID machineID s =
     list_ex (\<lambda>m. m_ID m = machineID) (sn_Machines (Snapshot_of (am_mach a) (am_sess a) orgID (sv_state s)))"

definition forwardToAgent :: "string \<Rightarrow> envelope \<Rightarrow> server \<Rightarrow> server" where
  "forwardToAgent machineID env s = s\<lparr>sv_hub := fst (SendToAgent machineID env (sv_hub s))\<rparr>"

definition forwardToOrgAgents :: "ambient \<Rightarrow> string \<Rightarrow> envelope \<Rightarrow> server \<Rightarrow> server" where
  "forwardToOrgAgents a orgID env s = s\<lparr>sv_hub := SendToOrgAgents (am_hub a) orgID env (sv_hub s)\<rparr>"

definition bind_pty :: "string \<Rightarrow> string \<Rightarrow> server \<Rightarrow> server" where
  "bind_pty ptyID orgID s = s\<lparr>sv_termRouter := mput ptyID orgID (sv_termRouter s)\<rparr>"

definition orgOf :: "string \<Rightarrow> server \<Rightarrow> string option" where
  "orgOf ptyID s = mget (sv_termRouter s) ptyID"

definition release_pty :: "string \<Rightarrow> server \<Rightarrow> server" where
  "release_pty ptyID s = s\<lparr>sv_termRouter := mdel ptyID (sv_termRouter s)\<rparr>"

fun terminalPTYID :: "wire \<Rightarrow> string" where
  "terminalPTYID (TerminalInput (Some p)) = td_PTYID p"
| "terminalPTYID (TerminalResize (Some p)) = tr_PTYID p"
| "terminalPTYID (TerminalClose (Some p)) = p"
| "terminalPTYID _ = ''''"

fun agentTerminalPTYID :: "wire \<Rightarrow> string" where
  "agentTerminalPTYID (TerminalOutput (Some p)) = td_PTYID p"
| "agentTerminalPTYID (TerminalOpened (Some p)) = tp_PTYID p"
| "agentTerminalPTYID (TerminalExit (Some p)) = tx_PTYID p"
| "agentTerminalPTYID _ = ''''"

fun is_input :: "wire \<Rightarrow> bool" where
  "is_input (TerminalInput _) = True"
| "is_input (TerminalResize _) = True"
| "is_input (TerminalClose _) = True"
| "is_input _ = False"

definition relay_input :: "ambient \<Rightarrow> client \<Rightarrow> envelope \<Rightarrow> server \<Rightarrow> server" where
  "relay_input a c env s =
     (let ptyID = terminalPTYID (env_Msg env)
      in if ptyID = '''' then s
         else case orgOf ptyID s of
                None \<Rightarrow> s
              | Some g \<Rightarrow>
                  if g \<noteq> cl_OrgID c then s
                  else (let s = forwardToOrgAgents a g env s
                        in case env_Msg env of TerminalClose _ \<Rightarrow> release_pty ptyID s | _ \<Rightarrow> s))"

definition onDashboardMessage :: "ambient \<Rightarrow> client \<Rightarrow> envelope \<Rightarrow> server \<Rightarrow> server" where
  "onDashboardMessage a c env s =
     (case env_Msg env of
        TerminalOpen None \<Rightarrow> s
      | TerminalOpen (Some p) \<Rightarrow>
          if \<not> orgOwnsMachine a (cl_OrgID c) (to_MachineID p) s
          then s\<lparr>sv_hub := client_Send (NowMillis a) (cl_ID c) (TerminalOpened (Some
                 \<lparr>tp_PTYID = to_PTYID p, tp_SessionID = '''', tp_OK = False,
                   tp_Error = ''machine not found in your org''\<rparr>)) (sv_hub s)\<rparr>
          else forwardToAgent (to_MachineID p) env (bind_pty (to_PTYID p) (cl_OrgID c) s)
      | TerminalAttach None \<Rightarrow> s
      | TerminalAttach (Some p) \<Rightarrow>
          if \<not> orgOwnsMachine a (cl_OrgID c) (ta_MachineID p) s then s
          else forwardToAgent (ta_MachineID p) env (bind_pty (ta_PTYID p) (cl_OrgID c) s)
      | _ \<Rightarrow> if is_input (env_Msg env) then relay_input a c env s else s)"

definition handleAgentTerminalOutput :: "ambient \<Rightarrow> envelope \<Rightarrow> server \<Rightarrow> server" where
  "handleAgentTerminalOutput a env s =
     (let ptyID = agentTerminalPTYID (env_Msg env)
      in if ptyID = '''' then s
         else case orgOf ptyID s of
                None \<Rightarrow> s
              | Some g \<Rightarrow>
                  (let s = s\<lparr>sv_hub := BroadcastOrg (am_hub a) g env (sv_hub s)\<rparr>
                   in case env_Msg env of TerminalExit _ \<Rightarrow> release_pty ptyID s | _ \<Rightarrow> s))"

subsection \<open>Messages of an agent (agent_handler.go)\<close>

definition onAgentMessage :: "ambient \<Rightarrow> client \<Rightarrow> envelope \<Rightarrow> server \<Rightarrow> server" where
  "onAgentMessage a c env s =
     (let g = cl_OrgID c in
      case env_Msg env of
        AgentHeartbeat None \<Rightarrow> s
      | AgentHeartbeat (Some hb) \<Rightarrow>
          (let (st, r) = ApplyHeartbeat g hb (env_TS env) (sv_state s); s = s\<lparr>sv_state := st\<rparr>
           in case r of None \<Rightarrow> s
              | Some m \<Rightarrow>
                  emit a g (MachineUpsert (Some m))
                    (s\<lparr>sv_store := fst (db_UpsertMachine (am_db a 0) g m (sv_store s))\<rparr>))
      | SessionUpsert None \<Rightarrow> s
      | SessionUpsert (Some p) \<Rightarrow>
          (let (st, sess) = UpsertSession g (p\<lparr>s_MachineID := cl_MachineID c\<rparr>) (sv_state s);
               s = s\<lparr>sv_state := st\<rparr>;
               s = s\<lparr>sv_store := fst (db_UpsertSession (am_db a 0) g sess (sv_store s))\<rparr>
           in emit a g (SessionUpsert (Some sess)) s)
      | SessionRemoved None \<Rightarrow> s
      | SessionRemoved (Some i) \<Rightarrow>
          emit a g (SessionRemoved (Some i)) (s\<lparr>sv_state := RemoveSession g i (sv_state s)\<rparr>)
      | LogAppend None \<Rightarrow> s
      | LogAppend (Some l) \<Rightarrow>
          emit a g (LogAppend (Some l)) (s\<lparr>sv_store := fst (AppendLog (am_db a 0) g l (sv_store s))\<rparr>)
      | MetricSample None \<Rightarrow> s
      | MetricSample (Some m) \<Rightarrow>
          (let s = s\<lparr>sv_store := fst (AppendMetric (am_db a 0) g m (sv_store s))\<rparr>;
               (st, r) = ApplyMetric g m (sv_state s); s = s\<lparr>sv_state := st\<rparr>
           in case r of None \<Rightarrow> s | Some _ \<Rightarrow> emit a g (MetricSample (Some m)) s)
      | EventReport None \<Rightarrow> s
      | EventReport (Some e) \<Rightarrow> recordEvent 0 0 a g (e\<lparr>e_MachineID := cl_MachineID c\<rparr>) s
      | TerminalOutput _ \<Rightarrow> handleAgentTerminalOutput a env s
      | TerminalOpened _ \<Rightarrow> handleAgentTerminalOutput a env s
      | TerminalExit _ \<Rightarrow> handleAgentTerminalOutput a env s
      | _ \<Rightarrow> s)"

subsection \<open>Connections (ws.go)\<close>

definition onAgentHello :: "ambient \<Rightarrow> client \<Rightarrow> agent_hello \<Rightarrow> server \<Rightarrow> server" where
  "onAgentHello a c hello s =
     (let m = \<lparr>m_ID = ah_AgentID hello, m_Hostname = ah_Hostname hello, m_OS = ah_OS hello,
            m_Arch = ah_Arch hello, m_CPUCores = ah_CPUCores hello, m_TotalMem = ah_TotalMem hello,
            m_AgentVersion = ah_AgentVersion hello, m_Online = True, m_CPUPct = 0,
            m_MemUsedBytes = 0, m_Load = 0, m_LastSeenAt = NowMillis a\<rparr>;
          s = s\<lparr>sv_state := fst (UpsertMachine (cl_OrgID c) m (sv_state s))\<rparr>;
          s = s\<lparr>sv_store := fst (db_UpsertMachine (am_db a 0) (cl_OrgID c) m (sv_store s))\<rparr>;
          s = emit a (cl_OrgID c) (MachineUpsert (Some m)) s
      in emitServerEvent 1 0 a (cl_OrgID c) (ah_AgentID hello) '''' EventAgentConnected
           (''Agent connected '' @ middot @ '' '' @ ah_Hostname hello) SeveritySuccess s)"

definition onUnregister :: "ambient \<Rightarrow> client \<Rightarrow> server \<Rightarrow> server" where
  "onUnregister a c s =
     (if cl_Role c \<noteq> RoleAgent \<or> cl_MachineID c = '''' then s
      else
        (let g = cl_OrgID c;
             (st, r) = SetMachineOnline g (cl_MachineID c) False (sv_state s);
             s = s\<lparr>sv_state := st\<rparr>;
             s = (case r of None \<Rightarrow> s
                  | Some m \<Rightarrow>
                      (let s = s\<lparr>sv_store := fst (db_UpsertMachine (am_db a 0) g m (sv_store s))\<rparr>;
                           s = emit a g (AgentStatus (Some \<lparr>as_MachineID = cl_MachineID c, as_Online = False\<rparr>)) s;
                           s = emit a g (MachineUpsert (Some m)) s
                       in emitServerEvent 1 0 a g (cl_MachineID c) '''' EventAgentOffline
                            (''Agent disconnected '' @ middot @ '' '' @ m_Hostname m) SeverityWarn s));
             (st, ids) = RemoveMachineSessions (am_sess a) g (cl_MachineID c) (sv_state s);
             s = s\<lparr>sv_state := st\<rparr>
         in foldl (\<lambda>s i. emit a g (SessionRemoved (Some i)) s) s ids))"

text \<open>The disconnect of a client: the hub's event loop, then the callback.\<close>

definition disconnect :: "ambient \<Rightarrow> string \<Rightarrow> server \<Rightarrow> server" where
  "disconnect a ref s =
     (case mget (h_heap (sv_hub s)) ref of
        None \<Rightarrow> s
      | Some c \<Rightarrow> onUnregister a c (s\<lparr>sv_hub := run_unregister ref (sv_hub s)\<rparr>))"

datatype ws_outcome =
    WSRejected nat
  | WSUpgradeFailed
  | WSClosed
  | WSConnected string

text \<open>
  \<open>upgraded\<close> tells whether the upgrade succeeded; \<open>first\<close> is the decoded first message of the
  connection, \<open>None\<close> when reading or decoding it failed.
\<close>

definition handleWS ::
  "crypto \<Rightarrow> ambient \<Rightarrow> string \<Rightarrow> http_request \<Rightarrow> bool \<Rightarrow> wire option \<Rightarrow> server
     \<Rightarrow> server \<times> ws_outcome" where
  "handleWS lib a role r upgraded first s =
     (if role \<noteq> RoleAgent \<and> role \<noteq> RoleDashboard then (s, WSRejected 400)
      else if role = RoleDashboard then
        (case Verify lib (am_now a) (bearer r) of
           None \<Rightarrow> (s, WSRejected 401)
         | Some cm \<Rightarrow>
             if \<not> upgraded then (s, WSUpgradeFailed)
             else
               (let ref = am_uuid a 1;
                    h = NewClient ref RoleDashboard (cm_OrgID cm) '''' (sv_hub s);
                    h = client_Send (NowMillis a) ref
                          (Snapshot (Some (Snapshot_of (am_mach a) (am_sess a) (cm_OrgID cm) (sv_state s)))) h
                in (s\<lparr>sv_hub := run_register ref h\<rparr>, WSConnected ref)))
      else if \<not> upgraded then (s, WSUpgradeFailed)
      else
        (case first of
           Some (AgentHello (Some hello)) \<Rightarrow>
             (case lookupAgentKey (ah_APIKey hello) s of
                None \<Rightarrow> (s, WSClosed)
              | Some info \<Rightarrow>
                  (let ref = am_uuid a 1;
                       s = s\<lparr>sv_hub := NewClient ref RoleAgent (ki_OrgID info) (ah_AgentID hello) (sv_hub s)\<rparr>
                   in case mget (h_heap (sv_hub s)) ref of
                        None \<Rightarrow> (s, WSClosed)
                      | Some c \<Rightarrow>
                          (let s = onAgentHello a c hello s
                           in (s\<lparr>sv_hub := run_register ref (sv_hub s)\<rparr>, WSConnected ref))))
         | _ \<Rightarrow> (s, WSClosed)))"

subsection \<open>Start-up and retention (server.go, auth\_handlers.go)\<close>

definition bootstrapAdmin :: "crypto \<Rightarrow> ambient \<Rightarrow> server \<Rightarrow> server" where
  "bootstrapAdmin lib a s =
     (let cfg = sv_cfg s; db = am_db a; st = sv_store s in
      if cf_AdminEmail cfg = '''' \<or> cf_AdminPass cfg = '''' then s
      else case UserByEmail (db 0) (to_lower (cf_AdminEmail cfg)) st of
        Inr existing \<Rightarrow>
          if \<not> u_PlatformAdmin existing
          then s\<lparr>sv_store := fst (SetPlatformAdmin (db 1) (u_ID existing) True st)\<rparr> else s
      | Inl _ \<Rightarrow>
          (let (st, g) = (case OrgBySlug (db 2) ''default'' st of
                 Inr g \<Rightarrow> (st, Inr g)
               | Inl _ \<Rightarrow> CreateOrg (db 3) (am_uuid a 0) ''Default'' ''default'' (am_now a) st)
           in case g of Inl _ \<Rightarrow> s\<lparr>sv_store := st\<rparr>
              | Inr g \<Rightarrow>
                  (let (hash, ok) = HashPassword lib (cf_AdminPass cfg)
                   in if \<not> ok then s\<lparr>sv_store := st\<rparr>
                      else
                        (let (st, r) = CreateUser (db 4) (am_uuid a 1) (am_now a)
                               \<lparr>u_ID = '''', u_OrgID = o_ID g, u_Email = cf_AdminEmail cfg,
                                 u_PasswordHash = hash, u_Role = RoleAdmin,
                                 u_Status = UserStatusActive, u_PlatformAdmin = True,
                                 u_CreatedAt = 0\<rparr> st
                         in case r of Inl _ \<Rightarrow> s\<lparr>sv_store := st\<rparr>
                            | Inr _ \<Rightarrow>
                                (let st = fst (BackfillOrg (\<lambda>k. db (5 + k)) (o_ID g) st)
                                 in reloadAgentKeys (db 13) a (s\<lparr>sv_store := st\<rparr>))))))"

definition seed_events :: "event list \<Rightarrow> string list \<Rightarrow> manager \<Rightarrow> manager" where
  "seed_events evs owners m = foldl (\<lambda>m (g, e). SeedEvent g e m) m (rev (zip owners evs))"

definition new_server ::
  "crypto \<Rightarrow> ambient \<Rightarrow> (event_row list \<Rightarrow> event_row list) \<Rightarrow> server_cfg \<Rightarrow> store \<Rightarrow> server" where
  "new_server lib a scan cfg st =
     (let s = \<lparr>sv_cfg = cfg, sv_hub = new_hub, sv_state = new_manager, sv_store = st,
            sv_agentKeys = [], sv_termRouter = []\<rparr>;
          s = reloadAgentKeys (am_db a 20) a s;
          s = (case AllRecentEvents scan (am_db a 21) 1000 (sv_store s) of
                 Inl _ \<Rightarrow> s
               | Inr (evs, owners) \<Rightarrow> s\<lparr>sv_state := seed_events evs owners (sv_state s)\<rparr>);
          s = bootstrapAdmin lib a s;
          s = s\<lparr>sv_store := fst (ActivateLegacyUsers (am_db a 22) (sv_store s))\<rparr>
      in s\<lparr>sv_store := fst (MigrateOwnersToAdmin (am_db a 23) (sv_store s))\<rparr>)"

definition hour :: int where
  "hour = 3600 * second"

text \<open>One tick of the retention loop.\<close>

definition retention_tick :: "ambient \<Rightarrow> server \<Rightarrow> server" where
  "retention_tick a s =
     (let cfg = sv_cfg s; now = am_now a; st = sv_store s;
          st = (if 0 < cf_LogHours cfg
                then fst (PruneLogs (am_db a 0) (now - int64 (cf_LogHours cfg * hour)) st) else st);
          st = (if 0 < cf_MetricHours cfg
                then fst (PruneMetrics (am_db a 1) (now - int64 (cf_MetricHours cfg * hour)) st) else st);
          st = fst (PruneExpiredTokens (am_db a 2) (now - hour) st);
          st = (if 0 < cf_LogHours cfg
                then fst (PruneEvents (am_db a 3) (now - int64 (cf_LogHours cfg * hour)) st) else st)
      in s\<lparr>sv_store := st\<rparr>)"

subsection \<open>Small servers for concrete runs\<close>

definition sample_token :: "string \<Rightarrow> string \<Rightarrow> token_row" where
  "sample_token tok g = \<lparr>et_Token = tok, et_OrgID = g, et_Label = '''', et_CreatedAt = 0,
     et_ExpiresAt = 9, et_UsedAt = None, et_UsedByID = '''', et_Revoked = False\<rparr>"

definition sample_server :: "token_row list \<Rightarrow> key_row list \<Rightarrow> server" where
  "sample_server toks ks = \<lparr>sv_cfg = \<lparr>cf_PublicURL = ''http://h'', cf_AdminEmail = '''',
       cf_AdminPass = '''', cf_LogHours = 0, cf_MetricHours = 0, cf_BlockedNotifySeconds = 0\<rparr>,
     sv_hub = new_hub, sv_state = new_manager,
     sv_store = empty_store\<lparr>db_tokens := toks, db_keys := ks\<rparr>,
     sv_agentKeys = [], sv_termRouter = []\<rparr>"

subsection \<open>What a handler can reach\<close>

text \<open>
  \<open>own_rows\<close> is an organisation's part of the tables whose rows are filed under the
  organisation alone; the rows of machines and sessions are filed under global ids.
\<close>

definition own_rows :: "string \<Rightarrow> store \<Rightarrow> store" where
  "own_rows g st = (tenant_view g st)\<lparr>db_machines := [], db_sessions := []\<rparr>"

definition dashboards_of :: "string \<Rightarrow> hub \<Rightarrow> string \<Rightarrow> client option" where
  "dashboards_of g h ref = (case mget (h_heap h) ref of None \<Rightarrow> None
     | Some c \<Rightarrow> if cl_OrgID c = g then Some c else None)"

lemma BroadcastOrg_other:
  assumes "wf_hub h" "range_order \<pi>" "g \<noteq> g'"
  shows "dashboards_of g' (BroadcastOrg \<pi> g msg h) = dashboards_of g' h"
proof
  fix ref
  show "dashboards_of g' (BroadcastOrg \<pi> g msg h) ref = dashboards_of g' h ref"
    using assms(3) send_matching_spec(4) [OF assms(1,2), of "\<lambda>c. cl_Role c = RoleDashboard \<and> cl_OrgID c = g" msg ref]
    by (cases "mget (h_heap h) ref") (auto simp: dashboards_of_def BroadcastOrg_def)
qed

lemma wf_BroadcastOrg: "wf_hub h \<Longrightarrow> range_order \<pi> \<Longrightarrow> wf_hub (BroadcastOrg \<pi> g msg h)"
  by (simp add: BroadcastOrg_def send_matching_spec(1))

lemma EmitOrg_other:
  "wf_hub h \<Longrightarrow> range_order \<pi> \<Longrightarrow> g \<noteq> g' \<Longrightarrow> dashboards_of g' (EmitOrg \<pi> now g w h) = dashboards_of g' h"
  "wf_hub h \<Longrightarrow> range_order \<pi> \<Longrightarrow> wf_hub (EmitOrg \<pi> now g w h)"
  by (simp_all add: EmitOrg_def BroadcastOrg_other wf_BroadcastOrg split: option.splits)

text \<open>A handler acting for organisation \<open>g\<close> that leaves every other organisation alone.\<close>

definition confined :: "string \<Rightarrow> server \<Rightarrow> server \<Rightarrow> bool" where
  "confined g s s' \<longleftrightarrow> (\<forall>g'. g' \<noteq> g \<longrightarrow>
     org_view g' (sv_state s') = org_view g' (sv_state s)
     \<and> own_rows g' (sv_store s') = own_rows g' (sv_store s)
     \<and> dashboards_of g' (sv_hub s') = dashboards_of g' (sv_hub s))"

lemma confined_refl [simp]: "confined g s s"
  by (simp add: confined_def)

lemma confined_trans: "confined g s s' \<Longrightarrow> confined g s' s'' \<Longrightarrow> confined g s s''"
  by (simp add: confined_def)

lemma confined_emit:
  assumes "wf_hub (sv_hub s)" "ok_ambient a"
  shows "confined g s (emit a g w s)" and "wf_hub (sv_hub (emit a g w s))"
    and "sv_store (emit a g w s) = sv_store s" and "sv_state (emit a g w s) = sv_state s"
  using assms by (simp_all add: confined_def emit_def EmitOrg_other ok_ambient_def)

lemma confined_state:
  "(\<And>g'. g' \<noteq> g \<Longrightarrow> org_view g' m = org_view g' (sv_state s)) \<Longrightarrow> confined g s (s\<lparr>sv_state := m\<rparr>)"
  by (simp add: confined_def)

lemma confined_store:
  "(\<And>g'. g' \<noteq> g \<Longrightarrow> own_rows g' st = own_rows g' (sv_store s)) \<Longrightarrow> confined g s (s\<lparr>sv_store := st\<rparr>)"
  by (simp add: confined_def)

lemma own_rows_writes:
  assumes "g' \<noteq> g"
  shows "own_rows g' (fst (db_UpsertMachine f g m st)) = own_rows g' st"
    and "own_rows g' (fst (db_UpsertSession f g x st)) = own_rows g' st"
    and "own_rows g' (fst (AppendLog f g l st)) = own_rows g' st"
    and "own_rows g' (fst (AppendMetric f g y st)) = own_rows g' st"
    and "own_rows g' (fst (SaveEvent f g e st)) = own_rows g' st"
  using assms by (auto simp: own_rows_def tenant_view_def db_UpsertMachine_def db_UpsertSession_def
      AppendLog_def AppendMetric_def SaveEvent_def exec_stmt_def Let_def split: option.splits)

lemma org_view_writes:
  assumes "g' \<noteq> g"
  shows "org_view g' (AddEvent g e m) = org_view g' m"
    and "org_view g' (fst (UpsertMachine g mc m)) = org_view g' m"
    and "org_view g' (fst (UpsertSession g x m)) = org_view g' m"
    and "org_view g' (RemoveSession g i m) = org_view g' m"
    and "org_view g' (fst (ApplyHeartbeat g hb ts m)) = org_view g' m"
    and "org_view g' (fst (ApplyMetric g y m)) = org_view g' m"
    and "org_view g' (fst (SetMachineOnline g i b m)) = org_view g' m"
  using assms by (simp_all add: manager_eqs split: option.splits)

lemma confined_recordEvent:
  assumes "wf_hub (sv_hub s)" "ok_ambient a"
  shows "confined g s (recordEvent k u a g e s)" and "wf_hub (sv_hub (recordEvent k u a g e s))"
  using assms
  by (auto simp: recordEvent_def Let_def confined_def emit_def EmitOrg_other ok_ambient_def
      own_rows_writes org_view_writes)

fun is_terminal_output :: "wire \<Rightarrow> bool" where
  "is_terminal_output (TerminalOutput _) = True"
| "is_terminal_output (TerminalOpened _) = True"
| "is_terminal_output (TerminalExit _) = True"
| "is_terminal_output _ = False"

lemma onAgentMessage_confined:
  assumes wf: "wf_hub (sv_hub s)" and a: "ok_ambient a" and t: "\<not> is_terminal_output (env_Msg env)"
  shows "confined (cl_OrgID c) s (onAgentMessage a c env s)"
proof (cases "env_Msg env")
  case (AgentHeartbeat p)
  show ?thesis
  proof (cases p)
    case (Some hb)
    obtain m r where r: "ApplyHeartbeat (cl_OrgID c) hb (env_TS env) (sv_state s) = (m, r)" by fastforce
    have m: "org_view g m = org_view g (sv_state s)" if "g \<noteq> cl_OrgID c" for g
      using org_view_writes [OF that, where m = "sv_state s"] r by (metis fst_conv)
    show ?thesis using wf a
      by (simp add: onAgentMessage_def AgentHeartbeat Some r Let_def confined_def emit_def EmitOrg_other
          ok_ambient_def own_rows_writes m split: option.splits)
  qed (simp add: onAgentMessage_def AgentHeartbeat)
next
  case (SessionUpsert p)
  show ?thesis
  proof (cases p)
    case (Some x)
    let ?x = "x\<lparr>s_MachineID := cl_MachineID c\<rparr>"
    obtain m r where r: "UpsertSession (cl_OrgID c) ?x (sv_state s) = (m, r)" by fastforce
    have m: "org_view g m = org_view g (sv_state s)" if "g \<noteq> cl_OrgID c" for g
      using org_view_writes [OF that, where m = "sv_state s"] r by (metis fst_conv)
    show ?thesis using wf a
      by (simp add: onAgentMessage_def SessionUpsert Some r Let_def confined_def emit_def EmitOrg_other
          ok_ambient_def own_rows_writes m)
  qed (simp add: onAgentMessage_def SessionUpsert)
next
  case (MetricSample p)
  show ?thesis
  proof (cases p)
    case (Some y)
    obtain m r where r: "ApplyMetric (cl_OrgID c) y (sv_state s) = (m, r)" by fastforce
    have m: "org_view g m = org_view g (sv_state s)" if "g \<noteq> cl_OrgID c" for g
      using org_view_writes [OF that, where m = "sv_state s"] r by (metis fst_conv)
    show ?thesis using wf a
      by (simp add: onAgentMessage_def MetricSample Some r Let_def confined_def emit_def EmitOrg_other
          ok_ambient_def own_rows_writes m split: option.splits)
  qed (simp add: onAgentMessage_def MetricSample)
next
  case (SessionRemoved p)
  then show ?thesis using wf a
    by (cases p) (simp_all add: onAgentMessage_def Let_def confined_def emit_def EmitOrg_other
        ok_ambient_def org_view_writes)
next
  case (LogAppend p)
  then show ?thesis using wf a
    by (cases p) (simp_all add: onAgentMessage_def Let_def confined_def emit_def EmitOrg_other
        ok_ambient_def own_rows_writes)
next
  case (EventReport p)
  then show ?thesis using wf a by (cases p) (simp_all add: onAgentMessage_def Let_def confined_recordEvent)
qed (use t in \<open>simp_all add: onAgentMessage_def Let_def\<close>)

subsection \<open>Seeding the event rings\<close>

lemma seed_events_run:
  "seed_events evs owners m = run_ops (map (\<lambda>(g, e). OpSeed g e) (rev (zip owners evs))) m"
proof -
  have "foldl (\<lambda>m (g, e). SeedEvent g e m) m xs = run_ops (map (\<lambda>(g, e). OpSeed g e) xs) m" for xs
    unfolding run_ops_def by (induction xs arbitrary: m) auto
  then show ?thesis by (simp add: seed_events_def)
qed

lemma seed_history:
  "concat (map op_event (filter (\<lambda>c. op_org c = g) (map (\<lambda>(g, e). OpSeed g e) xs))) =
   map snd (filter (\<lambda>p. fst p = g) xs)"
  by (induction xs) auto

lemma zip_filter_rows:
  "map snd (filter (\<lambda>p. fst p = g) (zip (map er_OrgID rows) (map toProtocol rows))) =
   map toProtocol (filter (\<lambda>r. er_OrgID r = g) rows)"
  by (induction rows) auto

subsection \<open>Properties\<close>


definition sample_client :: "string \<Rightarrow> string \<Rightarrow> string \<Rightarrow> string \<Rightarrow> client" where
  "sample_client i role g m = \<lparr>cl_ID = i, cl_Role = role, cl_OrgID = g, cl_MachineID = m,
     cl_send = [], cl_open = True, cl_conn = True, cl_written = []\<rparr>"

definition sample_env :: "wire \<Rightarrow> envelope" where
  "sample_env w = \<lparr>env_V = 1, env_TS = 7, env_ID = '''', env_Msg = w\<rparr>"


text \<open>
  Session rows are filed under a global id: an agent of one organisation that reports a
  session id of another organisation takes that organisation's stored session over.
\<close>

theorem agent_session_row_takeover:
  "\<exists>s c env r. cl_OrgID c = ''b'' \<and> r \<in> set (db_sessions (sv_store s)) \<and> sr_OrgID r = ''a''
     \<and> filter (\<lambda>r. sr_OrgID r = ''a'') (db_sessions (sv_store (onAgentMessage quiet c env s))) = []"
proof (intro exI conjI)
  let ?r = "session_rec ''a'' (zero_session\<lparr>s_ID := ''x'', s_MachineID := ''m''\<rparr>)"
  let ?s = "(sample_server [] [])\<lparr>sv_store := empty_store\<lparr>db_sessions := [?r]\<rparr>\<rparr>"
  let ?c = "sample_client ''c'' ''agent'' ''b'' ''n''"
  show "cl_OrgID ?c = ''b''" by (simp add: sample_client_def)
  show "?r \<in> set (db_sessions (sv_store ?s))" by simp
  show "sr_OrgID ?r = ''a''" by (simp add: session_rec_def)
  show "filter (\<lambda>r. sr_OrgID r = ''a'') (db_sessions (sv_store
      (onAgentMessage quiet ?c (sample_env (SessionUpsert (Some (zero_session\<lparr>s_ID := ''x''\<rparr>)))) ?s))) = []"
    by code_simp
qed

text \<open>
  C15. Terminal input is confined: keystrokes, resizes and closes of a dashboard change only
  agents of the dashboard's own organisation, and only when the terminal is bound to that
  organisation.
\<close>

theorem terminal_input_confined:
  assumes "wf_hub (sv_hub s)" and "ok_ambient a" and "is_input (env_Msg env)"
    and "mget (h_heap (sv_hub s)) ref = Some d"
    and "mget (h_heap (sv_hub (onDashboardMessage a c env s))) ref \<noteq> Some d"
  shows "cl_Role d = RoleAgent \<and> cl_OrgID d = cl_OrgID c
    \<and> orgOf (terminalPTYID (env_Msg env)) s = Some (cl_OrgID c)"
proof -
  have "onDashboardMessage a c env s = relay_input a c env s"
    using assms(3) by (cases "env_Msg env") (simp_all add: onDashboardMessage_def)
  moreover have "sv_hub (release_pty p t) = sv_hub t" for p t by (simp add: release_pty_def)
  moreover have "mget (h_heap (SendToOrgAgents (am_hub a) g env (sv_hub s))) ref =
      Some (if mget (h_clients (sv_hub s)) ref \<noteq> None \<and> cl_Role d = RoleAgent \<and> cl_OrgID d = g
            then deliver env d else d)" for g
    using send_matching_spec(4) [OF assms(1), of "am_hub a" "\<lambda>c. cl_Role c = RoleAgent \<and> cl_OrgID c = g" env ref]
      assms(2,4) by (simp add: SendToOrgAgents_def ok_ambient_def)
  ultimately show ?thesis
    using assms(4,5)
    by (auto simp: relay_input_def Let_def forwardToOrgAgents_def split: option.splits if_splits wire.splits)
qed

definition relay_server :: "client list \<Rightarrow> (string, string) gomap \<Rightarrow> server" where
  "relay_server cs router = (sample_server [] [])\<lparr>
     sv_hub := foldl (\<lambda>h c. run_register (cl_ID c)
       (NewClient (cl_ID c) (cl_Role c) (cl_OrgID c) (cl_MachineID c) h)) new_hub cs,
     sv_state := fst (UpsertMachine ''b'' (zero_machine\<lparr>m_ID := ''n''\<rparr>)
       (fst (UpsertMachine ''a'' (zero_machine\<lparr>m_ID := ''m''\<rparr>) new_manager))),
     sv_termRouter := router\<rparr>"

lemma wf_relay:
  "distinct (map cl_ID cs) \<Longrightarrow> wf_hub (sv_hub (relay_server cs router))"
proof -
  assume d: "distinct (map cl_ID cs)"
  let ?f = "\<lambda>h c. run_register (cl_ID c)
     (NewClient (cl_ID c) (cl_Role c) (cl_OrgID c) (cl_MachineID c) h)"
  have heap: "mget (h_heap (foldl ?f h cs)) i = None \<longleftrightarrow> mget (h_heap h) i = None \<and> i \<notin> cl_ID ` set cs"
    for i h and cs :: "client list"
    by (induction cs arbitrary: h) (auto simp: run_register_def NewClient_def Let_def split: option.splits)
  have "wf_hub (foldl ?f new_hub cs)"
    using d
  proof (induction cs rule: rev_induct)
    case (snoc c cs)
    have "mget (h_heap (foldl ?f new_hub cs)) (cl_ID c) = None"
      using snoc.prems by (auto simp: heap new_hub_def)
    then have "wf_hub (NewClient (cl_ID c) (cl_Role c) (cl_OrgID c) (cl_MachineID c) (foldl ?f new_hub cs))"
      using snoc by (intro wf_hub_NewClient) simp_all
    then have "wf_hub (?f (foldl ?f new_hub cs) c)"
      by (rule wf_hub_register) (simp add: NewClient_def)
    then show ?case by simp
  qed simp
  then show ?thesis by (simp add: relay_server_def)
qed

theorem terminal_input_confined_witness:
  "let s = relay_server [sample_client ''a1'' ''agent'' ''a'' ''m'', sample_client ''b1'' ''agent'' ''b'' ''n'']
         [(''p'', ''a'')];
       env = sample_env (TerminalInput (Some \<lparr>td_PTYID = ''p'', td_Data = ''eA==''\<rparr>));
       s' = onDashboardMessage quiet (sample_client ''d'' ''dashboard'' ''a'' '''') env s;
       d = sample_client ''a1'' ''agent'' ''a'' ''m''
   in mget (h_heap (sv_hub s')) ''a1'' \<noteq> Some d \<and> cl_OrgID d = ''a''"
proof -
  let ?s = "relay_server [sample_client ''a1'' ''agent'' ''a'' ''m'', sample_client ''b1'' ''agent'' ''b'' ''n'']
         [(''p'', ''a'')]"
  let ?c = "sample_client ''d'' ''dashboard'' ''a'' ''''" and ?d = "sample_client ''a1'' ''agent'' ''a'' ''m''"
  let ?env = "sample_env (TerminalInput (Some \<lparr>td_PTYID = ''p'', td_Data = ''eA==''\<rparr>))"
  let ?s' = "onDashboardMessage quiet ?c ?env ?s"
  have wf: "wf_hub (sv_hub ?s)" by (rule wf_relay) (simp add: sample_client_def)
  have inp: "is_input (env_Msg ?env)" by (simp add: sample_env_def)
  have "mget (h_heap (sv_hub ?s)) ''a1'' = Some ?d" by code_simp
  moreover have "map_option (\<lambda>c. length (cl_send c)) (mget (h_heap (sv_hub ?s')) ''a1'') = Some 1" by code_simp
  then have "mget (h_heap (sv_hub ?s')) ''a1'' \<noteq> Some ?d" by (auto simp: sample_client_def)
  ultimately show ?thesis
    using terminal_input_confined [OF wf ok_quiet inp, of "''a1''" ?d ?c] by (simp add: sample_client_def)
qed

text \<open>
  Terminal output is routed by the terminal's id alone: a dashboard of another
  organisation that opens a terminal under an id already in use takes the binding over, and
  what the first organisation's agent prints next goes to the other organisation's dashboard.
\<close>

theorem terminal_binding_takeover:
  "\<exists>s env_open env_out. orgOf ''p'' s = Some ''a''
     \<and> (let s1 = onDashboardMessage quiet (sample_client ''db'' ''dashboard'' ''b'' '''') env_open s;
            s2 = onAgentMessage quiet (sample_client ''aa'' ''agent'' ''a'' ''m'') env_out s1
        in map_option cl_send (mget (h_heap (sv_hub s2)) ''db'') = Some [env_out]
           \<and> map_option cl_send (mget (h_heap (sv_hub s2)) ''da'') = Some [])"
proof (intro exI conjI)
  let ?s = "relay_server [sample_client ''da'' ''dashboard'' ''a'' '''', sample_client ''db'' ''dashboard'' ''b'' '''',
      sample_client ''aa'' ''agent'' ''a'' ''m''] [(''p'', ''a'')]"
  let ?open = "sample_env (TerminalOpen (Some \<lparr>to_PTYID = ''p'', to_MachineID = ''n'', to_Provider = ''x'',
      to_CWD = '''', to_InitialText = '''', to_Cols = 80, to_Rows = 24\<rparr>))"
  let ?out = "sample_env (TerminalOutput (Some \<lparr>td_PTYID = ''p'', td_Data = ''eA==''\<rparr>))"
  show "orgOf ''p'' ?s = Some ''a''" by code_simp
  show "let s1 = onDashboardMessage quiet (sample_client ''db'' ''dashboard'' ''b'' '''') ?open ?s;
            s2 = onAgentMessage quiet (sample_client ''aa'' ''agent'' ''a'' ''m'') ?out s1
        in map_option cl_send (mget (h_heap (sv_hub s2)) ''db'') = Some [?out]
           \<and> map_option cl_send (mget (h_heap (sv_hub s2)) ''da'') = Some []"
    by code_simp
qed

text \<open>
  The machine id of an agent connection is the one the agent claims, not the one its key
  was minted for: a key of machine \<open>n\<close> opens a connection for machine \<open>m\<close>.
\<close>

theorem agent_claims_any_machine:
  "\<exists>s info hello ref. lookupAgentKey (ah_APIKey hello) s = Some info \<and> ki_MachineID info = ''n''
     \<and> snd (handleWS lib quiet ''agent'' r True (Some (AgentHello (Some hello))) s) = WSConnected ref
     \<and> lookup_agent ''m'' (sv_hub (fst (handleWS lib quiet ''agent'' r True (Some (AgentHello (Some hello))) s))) = Some ref"
proof (intro exI conjI)
  let ?s = "(sample_server [] [])\<lparr>sv_agentKeys := [(''k'', \<lparr>ki_OrgID = ''b'', ki_MachineID = ''n''\<rparr>)]\<rparr>"
  let ?h = "\<lparr>ah_APIKey = ''k'', ah_AgentID = ''m'', ah_Hostname = ''h'', ah_OS = '''', ah_Arch = '''',
     ah_CPUCores = 1, ah_TotalMem = 0, ah_AgentVersion = ''''\<rparr>"
  let ?w = "\<lambda>(s, w). (lookup_agent ''m'' (sv_hub s), w)"
  show "lookupAgentKey (ah_APIKey ?h) ?s = Some \<lparr>ki_OrgID = ''b'', ki_MachineID = ''n''\<rparr>" by code_simp
  show "ki_MachineID \<lparr>ki_OrgID = ''b'', ki_MachineID = ''n''\<rparr> = ''n''" by simp
  show "snd (handleWS lib quiet ''agent'' r True (Some (AgentHello (Some ?h))) ?s) = WSConnected ''u1''"
    by code_simp
  show "lookup_agent ''m'' (sv_hub (fst (handleWS lib quiet ''agent'' r True (Some (AgentHello (Some ?h))) ?s))) = Some ''u1''"
    by code_simp
qed

text \<open>
  A late disconnect of an old connection hits the new one: after a machine has
  reconnected, the end of its previous connection marks the machine offline and removes the
  sessions it reports, although the machine is connected.
\<close>

theorem stale_disconnect_marks_offline:
  "\<exists>s. lookup_agent ''m'' (sv_hub s) = Some ''new'' \<and> IsMachineOnline ''a'' ''m'' (sv_state s)
     \<and> Session ''a'' ''x'' (sv_state s) \<noteq> None
     \<and> lookup_agent ''m'' (sv_hub (disconnect quiet ''old'' s)) = Some ''new''
     \<and> \<not> IsMachineOnline ''a'' ''m'' (sv_state (disconnect quiet ''old'' s))
     \<and> Session ''a'' ''x'' (sv_state (disconnect quiet ''old'' s)) = None"
proof (intro exI conjI)
  let ?s0 = "relay_server [sample_client ''old'' ''agent'' ''a'' ''m'', sample_client ''new'' ''agent'' ''a'' ''m''] []"
  let ?s = "?s0\<lparr>sv_state := fst (UpsertSession ''a'' (zero_session\<lparr>s_ID := ''x'', s_MachineID := ''m''\<rparr>)
     (fst (SetMachineOnline ''a'' ''m'' True (sv_state ?s0))))\<rparr>"
  show "lookup_agent ''m'' (sv_hub ?s) = Some ''new''" by code_simp
  show "IsMachineOnline ''a'' ''m'' (sv_state ?s)" by code_simp
  have "map_option s_ID (Session ''a'' ''x'' (sv_state ?s)) = Some ''x''" by code_simp
  then show "Session ''a'' ''x'' (sv_state ?s) \<noteq> None" by auto
  show "lookup_agent ''m'' (sv_hub (disconnect quiet ''old'' ?s)) = Some ''new''" by code_simp
  have "IsMachineOnline ''a'' ''m'' (sv_state (disconnect quiet ''old'' ?s)) = False" by code_simp
  then show "\<not> IsMachineOnline ''a'' ''m'' (sv_state (disconnect quiet ''old'' ?s))" by simp
  have "map_option s_ID (Session ''a'' ''x'' (sv_state (disconnect quiet ''old'' ?s))) = None" by code_simp
  then show "Session ''a'' ''x'' (sv_state (disconnect quiet ''old'' ?s)) = None" by simp
qed

text \<open>
  After a restart every organisation's event ring holds its events among the latest 1000
  stored ones, oldest first, cut to the newest 200: the newest-first query result is fed in
  the right order and to the right organisations.
\<close>

theorem boot_seeds_event_rings:
  assumes "AllRecentEvents scan None 1000 st = Inr (evs, owners)"
  shows "os_events (org_view g (seed_events evs owners new_manager)) =
    last_n maxRecentEvents (rev (map toProtocol (filter (\<lambda>r. er_OrgID r = g)
      (sql_limit 1000 (sort_key (\<lambda>r. - er_TS r) (scan (db_events st)))))))"
proof -
  let ?rows = "sql_limit 1000 (sort_key (\<lambda>r. - er_TS r) (scan (db_events st)))"
  have rows: "evs = map toProtocol ?rows" "owners = map er_OrgID ?rows"
    using assms by (simp_all add: AllRecentEvents_def Let_def)
  have "os_events (org_view g (seed_events evs owners new_manager)) =
      last_n maxRecentEvents (map snd (filter (\<lambda>p. fst p = g) (rev (zip owners evs))))"
    by (simp only: seed_events_run ring_run seed_history)
  also have "map snd (filter (\<lambda>p. fst p = g) (rev (zip owners evs))) =
      rev (map snd (filter (\<lambda>p. fst p = g) (zip owners evs)))"
    by (simp only: rev_filter rev_map)
  also have "map snd (filter (\<lambda>p. fst p = g) (zip owners evs)) =
      map toProtocol (filter (\<lambda>r. er_OrgID r = g) ?rows)"
    by (simp only: rows zip_filter_rows)
  finally show ?thesis .
qed

theorem boot_seeds_event_rings_witness:
  "let r = \<lambda>g i t. \<lparr>er_OrgID = g, er_EventID = i, er_MachineID = '''', er_SessionID = '''', er_Kind = '''',
       er_Message = '''', er_Severity = '''', er_Meta = [], er_TS = t\<rparr>;
       st = empty_store\<lparr>db_events := [r ''a'' ''2'' 2, r ''b'' ''x'' 3, r ''a'' ''1'' 1]\<rparr>
   in case AllRecentEvents id None 1000 st of Inl _ \<Rightarrow> False
      | Inr (evs, owners) \<Rightarrow>
          map e_ID (os_events (org_view ''a'' (seed_events evs owners new_manager))) = [''1'', ''2'']"
proof -
  let ?r = "\<lambda>g i t. \<lparr>er_OrgID = g, er_EventID = i, er_MachineID = '''', er_SessionID = '''', er_Kind = '''',
       er_Message = '''', er_Severity = '''', er_Meta = [], er_TS = t\<rparr>"
  let ?st = "empty_store\<lparr>db_events := [?r ''a'' ''2'' 2, ?r ''b'' ''x'' 3, ?r ''a'' ''1'' 1]\<rparr>"
  obtain evs owners where q: "AllRecentEvents id None 1000 ?st = Inr (evs, owners)"
    by (simp add: AllRecentEvents_def Let_def)
  have "map e_ID (os_events (org_view ''a'' (seed_events evs owners new_manager))) = [''1'', ''2'']"
    unfolding boot_seeds_event_rings [OF q]
    by (simp add: sql_limit_def last_n_def maxRecentEvents_def toProtocol_def)
  with q show ?thesis by (simp add: Let_def)
qed

text \<open>Runs of the hub that start from any hub.\<close>

inductive hub_path :: "hub \<Rightarrow> hub_act list \<Rightarrow> hub \<Rightarrow> bool" where
  path_nil: "hub_path h [] h"
| path_snoc: "hub_path h as h' \<Longrightarrow> hub_step h' a h'' \<Longrightarrow> hub_path h (as @ [a]) h''"

lemma stream_path:
  "hub_path h as h' \<Longrightarrow> wf_hub h \<Longrightarrow> mget (h_heap h) ref = Some c \<Longrightarrow>
     wf_hub h' \<and> (\<exists>c' ms. mget (h_heap h') ref = Some c' \<and> stream c' = stream c @ ms)"
proof (induction rule: hub_path.induct)
  case (path_snoc h as h' a h'')
  then obtain c' ms where c': "wf_hub h'" "mget (h_heap h') ref = Some c'" "stream c' = stream c @ ms" by auto
  from stream_step [OF path_snoc.hyps(2) c'(1,2)] c'(3) wf_hub_step [OF path_snoc.hyps(2) c'(1)]
  show ?case by auto
qed auto

definition dash_client :: "string \<Rightarrow> string \<Rightarrow> client" where
  "dash_client u g = \<lparr>cl_ID = u, cl_Role = ''dashboard'', cl_OrgID = g, cl_MachineID = [],
     cl_send = [], cl_open = True, cl_conn = True, cl_written = []\<rparr>"

lemma connect_dashboard:
  assumes "wf_hub h" and "mget (h_heap h) u = None"
  shows "wf_hub (run_register u (enqueue u msg (NewClient u ''dashboard'' g [] h)))"
    and "mget (h_heap (run_register u (enqueue u msg (NewClient u ''dashboard'' g [] h)))) u =
      Some (deliver msg (dash_client u g))"
    and "mget (h_clients (run_register u (enqueue u msg (NewClient u ''dashboard'' g [] h)))) u = Some u"
proof -
  let ?h1 = "NewClient u ''dashboard'' g [] h"
  have h1: "mget (h_heap ?h1) u = Some (dash_client u g)" by (simp add: NewClient_def dash_client_def)
  have h2: "mget (h_heap (enqueue u msg ?h1)) u = Some (deliver msg (dash_client u g))"
    by (simp add: enqueue_def h1) (simp add: dash_client_def)
  have o: "cl_open (dash_client u g)" "cl_ID (dash_client u g) = u" "cl_Role (dash_client u g) = ''dashboard''"
    by (simp_all add: dash_client_def)
  have "wf_hub ?h1" using assms by (rule wf_hub_NewClient)
  then have "wf_hub (enqueue u msg ?h1)" by (rule wf_hub_enqueue) (use h1 o in simp)
  then show "wf_hub (run_register u (enqueue u msg ?h1))" by (rule wf_hub_register) (use h2 o in simp)
  show "mget (h_heap (run_register u (enqueue u msg ?h1))) u = Some (deliver msg (dash_client u g))"
    "mget (h_clients (run_register u (enqueue u msg ?h1))) u = Some u"
    using o by (simp_all add: run_register_def h2 Let_def)
qed

text \<open>
  A dashboard's first frame is the snapshot: when the connection of a dashboard with a
  valid token is accepted, it is registered for the token's organisation, and whatever the
  hub does afterwards, the first message it is sent is that organisation's snapshot.
\<close>

theorem snapshot_is_first_frame:
  assumes "Verify lib (am_now a) (bearer r) = Some cm" and "wf_hub (sv_hub s)"
    and "mget (h_heap (sv_hub s)) (am_uuid a 1) = None"
    and "encodable (Snapshot (Some (Snapshot_of (am_mach a) (am_sess a) (cm_OrgID cm) (sv_state s))))"
    and "handleWS lib a ''dashboard'' r True first s = (s', WSConnected ref)"
    and "hub_path (sv_hub s') as h"
  shows "\<exists>c. mget (h_heap h) ref = Some c \<and> stream c \<noteq> []
     \<and> env_Msg (hd (stream c)) = Snapshot (Some (Snapshot_of (am_mach a) (am_sess a) (cm_OrgID cm) (sv_state s)))
     \<and> mget (h_clients (sv_hub s')) ref = Some ref
     \<and> map_option cl_OrgID (mget (h_heap (sv_hub s')) ref) = Some (cm_OrgID cm)"
proof -
  define u where "u = am_uuid a 1"
  define w where "w = Snapshot (Some (Snapshot_of (am_mach a) (am_sess a) (cm_OrgID cm) (sv_state s)))"
  define msg where "msg = \<lparr>env_V = Version, env_TS = NowMillis a, env_ID = [], env_Msg = w\<rparr>"
  let ?h1 = "NewClient u ''dashboard'' (cm_OrgID cm) [] (sv_hub s)"
  have send: "client_Send (NowMillis a) u w ?h1 = enqueue u msg ?h1"
    using assms(4) by (simp add: client_Send_def Encode_def w_def msg_def)
  have "handleWS lib a ''dashboard'' r True first s =
      (s\<lparr>sv_hub := run_register u (client_Send (NowMillis a) u w ?h1)\<rparr>, WSConnected u)"
    unfolding u_def w_def by (simp add: handleWS_def assms(1) Let_def)
  then have s': "ref = u" "sv_hub s' = run_register u (enqueue u msg ?h1)"
    using assms(5) send by auto
  note con = connect_dashboard [OF assms(2,3) [folded u_def], of msg "cm_OrgID cm", folded s'(2)]
  have str: "stream (deliver msg (dash_client u (cm_OrgID cm))) = [msg]"
    by (simp add: stream_def deliver_def sendBuffer_def dash_client_def)
  obtain c ms where "mget (h_heap h) ref = Some c" "stream c = [msg] @ ms"
    using stream_path [OF assms(6) con(1,2)] str s'(1) by auto
  then show ?thesis using s'(1) con(2,3) by (simp add: msg_def w_def dash_client_def)
qed

theorem snapshot_is_first_frame_witness:
  "\<exists>c. mget (h_heap (sv_hub (fst (handleWS
        \<lparr>hash_pw = Some, check_pw = (=), sign = \<lambda>_. None, parse = \<lambda>_ t. if t = ''T'' then
           Some \<lparr>cm_UserID = ''u'', cm_OrgID = ''a'', cm_Role = ''member'', cm_Email = '''',
             cm_PlatformAdmin = False, cm_IssuedAt = 0, cm_ExpiresAt = 0\<rparr> else None\<rparr>
        quiet ''dashboard'' \<lparr>r_authorization = ''Bearer T'', r_token = '''', r_api_key = '''', r_key = ''''\<rparr>
        True None (sample_server [] []))))) ''u1'' = Some c \<and> stream c \<noteq> []"
proof -
  let ?cm = "\<lparr>cm_UserID = ''u'', cm_OrgID = ''a'', cm_Role = ''member'', cm_Email = '''',
             cm_PlatformAdmin = False, cm_IssuedAt = 0, cm_ExpiresAt = 0\<rparr>"
  let ?lib = "\<lparr>hash_pw = Some, check_pw = (=), sign = \<lambda>_. None, parse = \<lambda>_ t. if t = ''T'' then
           Some ?cm else None\<rparr>"
  let ?r = "\<lparr>r_authorization = ''Bearer T'', r_token = '''', r_api_key = '''', r_key = ''''\<rparr>"
  let ?s = "sample_server [] []"
  have v: "Verify ?lib (am_now quiet) (bearer ?r) = Some ?cm" by (simp add: Verify_def bearer_def)
  have wf: "wf_hub (sv_hub ?s)" by (simp add: sample_server_def)
  have new: "mget (h_heap (sv_hub ?s)) (am_uuid quiet 1) = None" by (simp add: sample_server_def new_hub_def)
  have enc: "encodable (Snapshot (Some (Snapshot_of (am_mach quiet) (am_sess quiet) (cm_OrgID ?cm) (sv_state ?s))))"
    by (simp add: sample_server_def new_manager_def Snapshot_of_def)
  have "snd (handleWS ?lib quiet ''dashboard'' ?r True None ?s) = WSConnected ''u1''" by code_simp
  then have h: "handleWS ?lib quiet ''dashboard'' ?r True None ?s =
      (fst (handleWS ?lib quiet ''dashboard'' ?r True None ?s), WSConnected ''u1'')" by (simp add: prod_eq_iff)
  from snapshot_is_first_frame [OF v wf new enc h path_nil] show ?thesis by blast
qed

end
