(* ===== verification/Go_Lib.thy ===== *)
theory Go_Lib
  imports Go_Strings
begin

section \<open>More of the standard library\<close>

text \<open>
  \<open>strings.Fields\<close> and \<open>filepath.Base\<close>, and what several pollers share, for the
  packages of the agent. \<open>string_fields\<close> splits at the ASCII white space of \<open>is_space\<close>.
\<close>

abbreviation (input) "newline \<equiv> CHR 0x0A"

fun split_space :: "string \<Rightarrow> string list" where
  "split_space [] = [[]]"
| "split_space (x # xs) =
     (if is_space x then [] # split_space xs
      else (case split_space xs of [] \<Rightarrow> [[x]] | y # ys \<Rightarrow> (x # y) # ys))"

definition string_fields :: "string \<Rightarrow> string list" where
  "string_fields s = filter (\<lambda>f. f \<noteq> []) (split_space s)"

definition filepath_Base :: "string \<Rightarrow> string" where
  "filepath_Base path =
     (if path = [] then ''.''
      else (let p = rev (dropWhile (\<lambda>c. c = CHR ''/'') (rev path));
                b = rev (takeWhile (\<lambda>c. c \<noteq> CHR ''/'') (rev p))
            in if b = [] then ''/'' else b))"

lemma split_space_nonempty [simp]: "split_space s \<noteq> []"
  by (cases s) (auto split: list.splits)

lemma split_space_word: "\<forall>c \<in> set w. \<not> is_space c \<Longrightarrow> split_space w = [w]"
  by (induction w) auto

lemma split_space_append:
  assumes "\<forall>c \<in> set w. \<not> is_space c" "is_space b"
  shows "split_space (w @ b # s) = w # split_space s"
  using assms(1) by (induction w) (simp_all add: assms(2))

lemma fields_word: "\<forall>c \<in> set w. \<not> is_space c \<Longrightarrow> w \<noteq> [] \<Longrightarrow> string_fields w = [w]"
  by (simp add: string_fields_def split_space_word)

lemma fields_append:
  "\<forall>c \<in> set w. \<not> is_space c \<Longrightarrow> w \<noteq> [] \<Longrightarrow> is_space b \<Longrightarrow> string_fields (w @ b # s) = w # string_fields s"
  by (simp add: string_fields_def split_space_append)

lemma split_space_words: "w \<in> set (split_space s) \<Longrightarrow> \<forall>c \<in> set w. \<not> is_space c"
proof (induction s arbitrary: w)
  case (Cons x xs)
  obtain y ys where ys: "split_space xs = y # ys" by (meson neq_Nil_conv split_space_nonempty)
  have "\<forall>v \<in> set (y # ys). \<forall>c \<in> set v. \<not> is_space c" using Cons.IH by (simp only: ys) blast
  then show ?case using Cons.prems by (cases "is_space x") (auto simp: ys)
qed simp

lemma fields_words: "w \<in> set (string_fields s) \<Longrightarrow> w \<noteq> [] \<and> (\<forall>c \<in> set w. \<not> is_space c)"
  using split_space_words by (auto simp: string_fields_def)

lemma trim_space_word:
  assumes "s = [] \<or> \<not> is_space (hd s) \<and> \<not> is_space (last s)"
  shows "trim_space s = s"
proof (cases s)
  case (Cons a t)
  have "dropWhile is_space s = s" using assms Cons by simp
  moreover have "dropWhile is_space (rev s) = rev s"
  proof -
    have "rev s = last s # rev (butlast s)" using Cons by (metis append_butlast_last_id list.distinct(1) rev_eq_Cons_iff rev_rev_ident)
    then show ?thesis using assms Cons by (metis dropWhile.simps(2) list.distinct(1))
  qed
  ultimately show ?thesis by (simp add: trim_space_def)
qed (simp add: trim_space_def)

lemma split_on_no [simp]: "c \<notin> set s \<Longrightarrow> split_on c s = [s]"
  by (induction s) auto

lemma split_on_append [simp]: "c \<notin> set s \<Longrightarrow> split_on c (s @ c # t) = s # split_on c t"
  by (induction s) auto

lemma split_on_two: "split_on c (s @ c # t) = split_on c s @ split_on c t"
proof (induction s)
  case (Cons x s)
  obtain y ys where "split_on c s = y # ys" by (meson neq_Nil_conv split_on_nonempty)
  then show ?case using Cons by simp
qed simp

lemma split_on_join:
  "ls \<noteq> [] \<Longrightarrow> \<forall>l \<in> set ls. c \<notin> set l \<Longrightarrow> split_on c (join [c] ls) = ls"
  by (induction "[c]" ls rule: join.induct) auto

lemma concat_join: "ls \<noteq> [] \<Longrightarrow> concat (map (\<lambda>l. l @ [c]) ls) = join [c] ls @ [c]"
  by (induction "[c]" ls rule: join.induct) auto

lemma join_hd: "l \<noteq> [] \<Longrightarrow> join sep (l # ls) \<noteq> [] \<and> hd (join sep (l # ls)) = hd l"
  by (cases ls) auto

lemma join_last: "sep \<noteq> [] \<Longrightarrow> ls \<noteq> [] \<Longrightarrow> last ls \<noteq> [] \<Longrightarrow> last (join sep ls) = last (last ls)"
proof (induction sep ls rule: join.induct)
  case (3 sep x y ys)
  have "join sep (y # ys) \<noteq> []"
    using "3.prems" by (cases ys) auto
  then show ?case using 3 by simp
qed auto

lemma trim_space_newline:
  assumes "s \<noteq> []" "\<not> is_space (hd s)" "\<not> is_space (last s)"
  shows "trim_space (s @ [newline]) = s"
proof -
  have "is_space newline" by (simp add: is_space_def)
  moreover have "dropWhile is_space (s @ [newline]) = s @ [newline]" using assms by (cases s) auto
  ultimately have "trim_space (s @ [newline]) = trim_space s"
    using assms by (cases s) (simp_all add: trim_space_def)
  then show ?thesis using trim_space_word [of s] assms by simp
qed

abbreviation (input) "unit_sep \<equiv> CHR 0x1F"

lemma set_itoa: "c \<in> set (itoa i) \<Longrightarrow> c = CHR ''-'' \<or> 48 \<le> (of_char c :: nat) \<and> (of_char c :: nat) \<le> 57"
  by (auto simp: itoa_def dest: set_utoa split: if_splits)

lemma itoa_plain: "newline \<notin> set (itoa i)" "unit_sep \<notin> set (itoa i)"
  using set_itoa [of newline i] set_itoa [of unit_sep i] by auto

lemma itoa_last: "itoa i \<noteq> []" "\<not> is_space (last (itoa i))"
proof -
  show ne: "itoa i \<noteq> []" by (simp add: itoa_def)
  show "\<not> is_space (last (itoa i))"
    using set_itoa [OF last_in_set [OF ne]] by (auto simp: is_space_def Let_def)
qed

subsection \<open>Emitting a value only when it changed\<close>

text \<open>
  A poller keeps the last value it emitted and emits a new one only if it differs. Over a run that
  is the list of polled values without adjacent repetitions, the initial value not counted.
\<close>

fun poll_run :: "('a \<Rightarrow> 's \<Rightarrow> 's \<times> 'b list) \<Rightarrow> 'a list \<Rightarrow> 's \<Rightarrow> 'b list" where
  "poll_run poll [] s = []"
| "poll_run poll (a # as) s = (let (s, out) = poll a s in out @ poll_run poll as s)"

lemma remdups_adj_head: "remdups_adj (v # xs) = v # tl (remdups_adj (v # xs))"
  by simp

locale change_filter =
  fixes poll :: "'a \<Rightarrow> 's \<Rightarrow> 's \<times> 'b list"
    and seen :: "'a \<Rightarrow> 'v option"
    and kept :: "'s \<Rightarrow> 'v"
    and shown :: "'v \<Rightarrow> 'b"
  assumes poll_none: "seen a = None \<Longrightarrow> poll a s = (s, [])"
    and poll_same: "seen a = Some (kept s) \<Longrightarrow> poll a s = (s, [])"
    and poll_new: "seen a = Some v \<Longrightarrow> v \<noteq> kept s \<Longrightarrow> snd (poll a s) = [shown v] \<and> kept (fst (poll a s)) = v"
begin

lemma poll_run_changes:
  "poll_run poll as s = map shown (tl (remdups_adj (kept s # List.map_filter seen as)))"
proof (induction as arbitrary: s)
  case (Cons a as)
  show ?case
  proof (cases "seen a")
    case None
    then show ?thesis using Cons.IH poll_none [OF None] by (simp add: List.map_filter_simps)
  next
    case (Some v)
    show ?thesis
    proof (cases "v = kept s")
      case True
      then show ?thesis using Cons.IH [of s] poll_same [of a s] Some by (simp add: List.map_filter_simps)
    next
      case False
      obtain s' where p: "poll a s = (s', [shown v])" "kept s' = v"
        using poll_new [OF Some False] by (metis prod.collapse)
      let ?m = "List.map_filter seen as"
      have "tl (remdups_adj (kept s # v # ?m)) = remdups_adj (v # ?m)"
        by (subst remdups_adj.simps(3)) (simp only: False [symmetric] if_False list.sel)
      also have "\<dots> = v # tl (remdups_adj (v # ?m))" by (rule remdups_adj_head)
      finally have "map shown (tl (remdups_adj (kept s # List.map_filter seen (a # as)))) =
          shown v # map shown (tl (remdups_adj (v # ?m)))"
        by (simp only: Some List.map_filter_simps option.case list.map)
      then show ?thesis using Cons.IH [of s'] p by simp
    qed
  qed
qed (simp add: List.map_filter_simps)

end

end
