(* ===== verification/Mail.thy ===== *)
theory Mail
  imports Go_Lib
begin

section \<open>Mail\<close>

text \<open>
  Models \<open>internal/email/email.go\<close> and the body of an invitation (\<open>inviteEmailHTML\<close> of \<open>auth_handlers.go\<close>). The
  delivery (\<open>smtp.SendMail\<close>) is a parameter.
\<close>

text \<open>\<open>smtp.SendMail\<close>: address, credentials, sender, recipients, message; \<open>None\<close> when it was delivered.\<close>

type_synonym smtp = "string \<Rightarrow> (string \<times> string \<times> string) option \<Rightarrow> string \<Rightarrow> string list \<Rightarrow> string \<Rightarrow> string option"

record mail_config =
  ml_Host :: string
  ml_Port :: int
  ml_Username :: string
  ml_Password :: string
  ml_From :: string

definition mail_Enabled :: "mail_config \<Rightarrow> bool" where
  "mail_Enabled cfg \<longleftrightarrow> trim_space (ml_Host cfg) \<noteq> [] \<and> ml_Port cfg \<noteq> 0 \<and> trim_space (ml_From cfg) \<noteq> []"

abbreviation (input) "crlf \<equiv> [CHR 0x0D, CHR 0x0A]"

definition buildMessage :: "string \<Rightarrow> string \<Rightarrow> string \<Rightarrow> string \<Rightarrow> string" where
  "buildMessage from to subject htmlBody =
     ''From: '' @ from @ crlf @ ''To: '' @ to @ crlf @ ''Subject: '' @ subject @ crlf
     @ ''MIME-Version: 1.0'' @ crlf @ ''Content-Type: text/html; charset=UTF-8'' @ crlf @ crlf @ htmlBody"

definition mail_Send ::
  "smtp \<Rightarrow> mail_config \<Rightarrow> string \<Rightarrow> string \<Rightarrow> string \<Rightarrow> string option" where
  "mail_Send send_mail cfg to subject htmlBody =
     (if \<not> mail_Enabled cfg then None
      else send_mail (ml_Host cfg @ '':'' @ itoa (ml_Port cfg))
             (if ml_Username cfg \<noteq> [] then Some (ml_Username cfg, ml_Password cfg, ml_Host cfg) else None)
             (ml_From cfg) [to] (buildMessage (ml_From cfg) to subject htmlBody))"

definition inviteEmailHTML :: "string \<Rightarrow> string \<Rightarrow> string" where
  "inviteEmailHTML orgName link =
     ''<div style=\"font-family:sans-serif;line-height:1.5\">''
     @ ''<h2>You've been invited to '' @ orgName @ ''</h2>''
     @ ''<p>You've been invited to join the <strong>'' @ orgName @ ''</strong> workspace on Mission Control.</p>''
     @ ''<p><a href=\"'' @ link @ ''\" style=\"background:#4f46e5;color:#fff;padding:10px 16px;border-radius:8px;text-decoration:none;display:inline-block\">Accept invite</a></p>''
     @ ''<p style=\"color:#666;font-size:13px\">Or paste this link into your browser:<br>'' @ link @ ''</p>''
     @ ''</div>''"

subsection \<open>The headers of a mail\<close>

fun crlf_lines :: "string \<Rightarrow> string list" where
  "crlf_lines [] = [[]]"
| "crlf_lines [c] = [[c]]"
| "crlf_lines (c # d # s) =
     (if c = CHR 0x0D \<and> d = CHR 0x0A then [] # crlf_lines s
      else (case crlf_lines (d # s) of [] \<Rightarrow> [[c]] | l # ls \<Rightarrow> (c # l) # ls))"

definition header_lines :: "string \<Rightarrow> string list" where
  "header_lines msg = takeWhile (\<lambda>l. l \<noteq> []) (crlf_lines msg)"

lemma crlf_lines_line: "CHR 0x0D \<notin> set l \<Longrightarrow> crlf_lines (l @ CHR 0x0D # CHR 0x0A # s) = l # crlf_lines s"
proof (induction l)
  case (Cons c l)
  then show ?case by (cases l) auto
qed simp

text \<open>A message has the five headers of the sender and no others, provided no field has a carriage return.\<close>

lemma mail_headers:
  assumes "CHR 0x0D \<notin> set from" "CHR 0x0D \<notin> set to" "CHR 0x0D \<notin> set subject"
  shows "header_lines (buildMessage from to subject body) =
    [''From: '' @ from, ''To: '' @ to, ''Subject: '' @ subject, ''MIME-Version: 1.0'', ''Content-Type: text/html; charset=UTF-8'']"
proof -
  have b: "buildMessage from to subject body =
      (''From: '' @ from) @ CHR 0x0D # CHR 0x0A # (''To: '' @ to) @ CHR 0x0D # CHR 0x0A # (''Subject: '' @ subject)
      @ CHR 0x0D # CHR 0x0A # ''MIME-Version: 1.0'' @ CHR 0x0D # CHR 0x0A # ''Content-Type: text/html; charset=UTF-8''
      @ CHR 0x0D # CHR 0x0A # [] @ CHR 0x0D # CHR 0x0A # body" by (simp add: buildMessage_def)
  show ?thesis unfolding header_lines_def b using assms
    by (subst crlf_lines_line, simp)+ simp
qed

text \<open>The subject of an invitation has the name of the organisation, which may have line breaks: it adds a header.\<close>

lemma subject_adds_header:
  "''Bcc: x'' \<in> set (header_lines (buildMessage ''a'' ''b'' (''You're invited to '' @ ''Acme'' @ crlf @ ''Bcc: x'' @ crlf @ ''X:'') []))"
  by code_simp

end
