(* ===== verification/Auth_Handlers.thy ===== *)
theory Auth_Handlers
  imports Server_Core Mail
begin

section \<open>Accounts and organisations over HTTP\<close>

text \<open>
  Models \<open>internal/server/auth_handlers.go\<close>, \<open>admin_handlers.go\<close> and \<open>util.go\<close>. A body that
  does not decode is \<open>None\<close>. \<open>hash, _ := auth.HashPassword(\<dots>)\<close> drops the hashing error and
  keeps the empty hash, and so do the definitions. The configuration of the mail server and its
  delivery are arguments.
\<close>

definition bad_body :: "'a response" where
  "bad_body = Error 400 ''bad_request'' (Text ''invalid body'')"

subsection \<open>Signing up and in\<close>

record user_view =
  uv_ID :: string
  uv_Email :: string
  uv_Role :: string
  uv_OrgID :: string
  uv_PlatformAdmin :: bool
  uv_Status :: string

record auth_resp =
  ar_Token :: string
  ar_User :: user_view

record register_req =
  rg_Email :: string
  rg_Password :: string
  rg_OrgName :: string

definition validEmail :: "string \<Rightarrow> bool" where
  "validEmail s =
     (case index_byte s (CHR ''@'') of
        None \<Rightarrow> False
      | Some at \<Rightarrow>
          if at \<le> 0 \<or> at = length s - 1 then False
          else (case last_index_byte s (CHR ''.'') of
                  None \<Rightarrow> False
                | Some dot \<Rightarrow> at + 1 < dot \<and> dot < length s - 1
                    \<and> \<not> list_ex (\<lambda>c. c = CHR '' '' \<or> c = CHR 0x09) s))"

definition zero_user :: user_row where
  "zero_user = \<lparr>u_ID = '''', u_OrgID = '''', u_Email = '''', u_PasswordHash = '''', u_Role = '''',
     u_Status = '''', u_PlatformAdmin = False, u_CreatedAt = 0\<rparr>"

definition handleRegister ::
  "crypto \<Rightarrow> ambient \<Rightarrow> register_req option \<Rightarrow> server \<Rightarrow> server \<times> string response" where
  "handleRegister lib a body s =
     (case body of None \<Rightarrow> (s, bad_body)
      | Some req \<Rightarrow>
          (let email = trim_space (to_lower (rg_Email req)); password = trim_space (rg_Password req) in
           if \<not> validEmail email then (s, Error 400 ''bad_email'' (Text ''enter a valid email address''))
           else if length password < 8
             then (s, Error 400 ''bad_request'' (Text ''password must be 8+ characters''))
           else case UserByEmail (am_db a 0) email (sv_store s) of
             Inr _ \<Rightarrow> (s, Error 409 ''email_taken'' (Text ''an account with that email exists''))
           | Inl _ \<Rightarrow>
               (let (hash, _) = HashPassword lib password;
                    (st, r) = CreateUser (am_db a 1) (am_uuid a 0) (am_now a)
                      (zero_user\<lparr>u_Email := email, u_PasswordHash := hash, u_Role := RoleMember,
                        u_Status := UserStatusPending\<rparr>) (sv_store s);
                    s = s\<lparr>sv_store := st\<rparr>
                in case r of Inl e \<Rightarrow> (s, Error 500 ''db'' (OfError e))
                   | Inr _ \<Rightarrow> (s, Reply 202 UserStatusPending))))"

text \<open>\<open>issueAuth\<close>: \<open>auth.NewManager(secret, 0)\<close> has the default lifetime.\<close>

definition issueAuth :: "crypto \<Rightarrow> ambient \<Rightarrow> user_row \<Rightarrow> auth_resp response" where
  "issueAuth lib a u =
     (case IssueWithAdmin lib (NewManager 0) (u_ID u) (u_OrgID u) (u_Role u) (u_Email u)
             (u_PlatformAdmin u) (am_now a) of
        None \<Rightarrow> Error 500 ''token'' (Text '''')
      | Some tok \<Rightarrow> Reply 200 \<lparr>ar_Token = tok,
          ar_User = \<lparr>uv_ID = u_ID u, uv_Email = u_Email u, uv_Role = u_Role u, uv_OrgID = u_OrgID u,
            uv_PlatformAdmin = u_PlatformAdmin u, uv_Status = ''''\<rparr>\<rparr>)"

record login_req =
  lg_Email :: string
  lg_Password :: string

definition handleLogin ::
  "crypto \<Rightarrow> ambient \<Rightarrow> login_req option \<Rightarrow> server \<Rightarrow> auth_resp response" where
  "handleLogin lib a body s =
     (case body of None \<Rightarrow> bad_body
      | Some req \<Rightarrow>
          (let email = trim_space (to_lower (lg_Email req)); password = trim_space (lg_Password req) in
           case UserByEmail (am_db a 0) email (sv_store s) of
             Inl _ \<Rightarrow> Error 401 ''invalid_credentials'' (Text ''email or password is incorrect'')
           | Inr user \<Rightarrow>
               if \<not> CheckPassword lib (u_PasswordHash user) password
               then Error 401 ''invalid_credentials'' (Text ''email or password is incorrect'')
               else if u_Status user = UserStatusPending
               then Error 403 ''pending_approval'' (Text ''your account is awaiting admin approval'')
               else issueAuth lib a user))"

record accept_invite_req =
  ai_Token :: string
  ai_Password :: string

definition handleAcceptInvite ::
  "crypto \<Rightarrow> ambient \<Rightarrow> accept_invite_req option \<Rightarrow> server \<Rightarrow> server \<times> auth_resp response" where
  "handleAcceptInvite lib a body s =
     (case body of None \<Rightarrow> (s, bad_body)
      | Some req \<Rightarrow>
          (case GetInvite (am_db a 0) (ai_Token req) (sv_store s) of
             Inl _ \<Rightarrow> (s, Error 401 ''invalid_invite'' (Text ''invite is invalid or expired''))
           | Inr ivt \<Rightarrow>
               if i_AcceptedAt ivt \<noteq> None \<or> am_now a > i_ExpiresAt ivt
               then (s, Error 401 ''invalid_invite'' (Text ''invite is invalid or expired''))
               else
                 (let password = trim_space (ai_Password req) in
                  if length password < 8
                  then (s, Error 400 ''bad_request'' (Text ''8+ char password required''))
                  else
                    (let (hash, _) = HashPassword lib password;
                         (st, r) = CreateUser (am_db a 1) (am_uuid a 0) (am_now a)
                           (zero_user\<lparr>u_OrgID := i_OrgID ivt, u_Email := i_Email ivt,
                             u_PasswordHash := hash, u_Role := i_Role ivt\<rparr>) (sv_store s);
                         s = s\<lparr>sv_store := st\<rparr>
                     in case r of
                          Inl _ \<Rightarrow> (s, Error 409 ''email_taken'' (Text ''account already exists''))
                        | Inr user \<Rightarrow>
                            (s\<lparr>sv_store := fst (AcceptInvite (am_db a 2) (i_Token ivt) (am_now a) (sv_store s))\<rparr>,
                             issueAuth lib a user)))))"

subsection \<open>The signed-in user\<close>

record me_view =
  me_User :: user_view
  me_OrgID :: string
  me_OrgName :: string
  me_OrgSlug :: string

definition handleMe :: "ambient \<Rightarrow> claims \<Rightarrow> server \<Rightarrow> me_view response" where
  "handleMe a c s =
     (let g = (case GetOrg (am_db a 0) (cm_OrgID c) (sv_store s) of
            Inl _ \<Rightarrow> \<lparr>o_ID = '''', o_Name = '''', o_Slug = '''', o_CreatedAt = 0\<rparr> | Inr g \<Rightarrow> g)
      in Reply 200 \<lparr>me_User = \<lparr>uv_ID = cm_UserID c, uv_Email = cm_Email c, uv_Role = cm_Role c,
           uv_OrgID = cm_OrgID c, uv_PlatformAdmin = cm_PlatformAdmin c, uv_Status = ''''\<rparr>,
           me_OrgID = o_ID g, me_OrgName = o_Name g, me_OrgSlug = o_Slug g\<rparr>)"

record change_password_req =
  cp_CurrentPassword :: string
  cp_NewPassword :: string

definition handleChangePassword ::
  "crypto \<Rightarrow> ambient \<Rightarrow> claims \<Rightarrow> change_password_req option \<Rightarrow> server \<Rightarrow> server \<times> unit response" where
  "handleChangePassword lib a c body s =
     (case body of None \<Rightarrow> (s, bad_body)
      | Some req \<Rightarrow>
          if length (trim_space (cp_NewPassword req)) < 8
          then (s, Error 400 ''bad_request'' (Text ''new password must be 8+ characters''))
          else case UserByID (am_db a 0) (cm_UserID c) (sv_store s) of
            Inl _ \<Rightarrow> (s, Error 401 ''unauthorized'' (Text ''user not found''))
          | Inr u \<Rightarrow>
              if \<not> CheckPassword lib (u_PasswordHash u) (cp_CurrentPassword req)
              then (s, Error 401 ''wrong_password'' (Text ''current password is incorrect''))
              else
                (let (hash, _) = HashPassword lib (trim_space (cp_NewPassword req));
                     (st, r) = UpdatePassword (am_db a 1) (cm_UserID c) hash (sv_store s);
                     s = s\<lparr>sv_store := st\<rparr>
                 in case r of Inl e \<Rightarrow> (s, Error 500 ''db'' (OfError e)) | Inr _ \<Rightarrow> (s, Reply 204 ())))"

subsection \<open>Organisation administration\<close>

definition handleListOrgUsers ::
  "(user_row list \<Rightarrow> user_row list) \<Rightarrow> ambient \<Rightarrow> claims \<Rightarrow> server \<Rightarrow> user_view list response" where
  "handleListOrgUsers scan a c s =
     (case ListOrgUsers scan (am_db a 0) (cm_OrgID c) (sv_store s) of
        Inl e \<Rightarrow> Error 500 ''db'' (OfError e)
      | Inr users \<Rightarrow> Reply 200 (map (\<lambda>u. \<lparr>uv_ID = u_ID u, uv_Email = u_Email u, uv_Role = u_Role u,
            uv_OrgID = u_OrgID u, uv_PlatformAdmin = False, uv_Status = ''''\<rparr>) users))"

text \<open>The answer to a statement that may find no row.\<close>

definition answer :: "server \<Rightarrow> store \<times> unit db_result \<Rightarrow> string \<Rightarrow> server \<times> unit response" where
  "answer s p missing =
     (let s = s\<lparr>sv_store := fst p\<rparr>
      in case snd p of
           Inl e \<Rightarrow> if e = ErrNotFound then (s, Error 404 ''not_found'' (Text missing))
                    else (s, Error 500 ''db'' (OfError e))
         | Inr _ \<Rightarrow> (s, Reply 204 ()))"

definition handleSetUserRole ::
  "ambient \<Rightarrow> claims \<Rightarrow> string \<Rightarrow> string option \<Rightarrow> server \<Rightarrow> server \<times> unit response" where
  "handleSetUserRole a c targetID body s =
     (if \<not> IsAdmin (cm_Role c) then (s, Error 403 ''forbidden'' (Text ''only admins can change roles''))
      else if targetID = cm_UserID c
        then (s, Error 400 ''bad_request'' (Text ''you cannot change your own role''))
      else case body of None \<Rightarrow> (s, bad_body)
        | Some role \<Rightarrow>
            answer s (SetUserRole (am_db a 0) (cm_OrgID c) targetID (NormalizeRole role) (sv_store s))
              ''no such member'')"

definition handleRemoveUser ::
  "ambient \<Rightarrow> claims \<Rightarrow> string \<Rightarrow> server \<Rightarrow> server \<times> unit response" where
  "handleRemoveUser a c targetID s =
     (if \<not> IsAdmin (cm_Role c) then (s, Error 403 ''forbidden'' (Text ''only admins can remove members''))
      else if targetID = cm_UserID c
        then (s, Error 400 ''bad_request'' (Text ''you cannot remove yourself''))
      else answer s (RemoveUser (am_db a 0) (cm_OrgID c) targetID (sv_store s)) ''no such member'')"

record create_invite_req =
  cv_Email :: string
  cv_Role :: string

record invite_reply =
  ir_Token :: string
  ir_Email :: string
  ir_Role :: string
  ir_ExpiresAt :: int
  ir_Link :: string
  ir_Emailed :: bool

definition handleCreateInvite ::
  "ambient \<Rightarrow> smtp \<Rightarrow> mail_config \<Rightarrow> string \<Rightarrow> claims \<Rightarrow> create_invite_req option \<Rightarrow> server
     \<Rightarrow> server \<times> invite_reply response" where
  "handleCreateInvite a send_mail mail base c body s =
     (if \<not> IsAdmin (cm_Role c) then (s, Error 403 ''forbidden'' (Text ''only admins can invite''))
      else case body of
        None \<Rightarrow> (s, Error 400 ''bad_request'' (Text ''email required''))
      | Some req \<Rightarrow>
          if cv_Email req = '''' then (s, Error 400 ''bad_request'' (Text ''email required''))
          else
            (let role = NormalizeRole (cv_Role req);
                 (st, r) = CreateInvite (am_db a 0) (am_rand a 0) (cm_OrgID c) (to_lower (cv_Email req))
                   role (cm_UserID c) (7 * 24 * hour) (am_now a) (sv_store s);
                 s = s\<lparr>sv_store := st\<rparr>
             in case r of Inl e \<Rightarrow> (s, Error 500 ''db'' (OfError e))
                | Inr ivt \<Rightarrow>
                   (let link = base @ ''/accept-invite?token='' @ i_Token ivt;
                        name = (case GetOrg (am_db a 1) (cm_OrgID c) (sv_store s) of Inl _ \<Rightarrow> [] | Inr g \<Rightarrow> o_Name g);
                        emailed = mail_Enabled mail \<and> mail_Send send_mail mail (i_Email ivt)
                          (''You're invited to '' @ name @ '' on Mission Control'') (inviteEmailHTML name link) = None in
                    (s, Reply 201 \<lparr>ir_Token = i_Token ivt, ir_Email = i_Email ivt, ir_Role = i_Role ivt,
                       ir_ExpiresAt = UnixMilli (i_ExpiresAt ivt),
                       ir_Link = link, ir_Emailed = emailed\<rparr>))))"

record invite_view =
  iv_Token :: string
  iv_Email :: string
  iv_Role :: string
  iv_ExpiresAt :: int

definition handleListInvites ::
  "(invite_row list \<Rightarrow> invite_row list) \<Rightarrow> ambient \<Rightarrow> claims \<Rightarrow> server \<Rightarrow> invite_view list response" where
  "handleListInvites scan a c s =
     (case ListInvites scan (am_db a 0) (cm_OrgID c) (sv_store s) of
        Inl e \<Rightarrow> Error 500 ''db'' (OfError e)
      | Inr invs \<Rightarrow> Reply 200 (map (\<lambda>i. \<lparr>iv_Token = i_Token i, iv_Email = i_Email i, iv_Role = i_Role i,
            iv_ExpiresAt = UnixMilli (i_ExpiresAt i)\<rparr>) invs))"

definition handleRevokeInvite ::
  "ambient \<Rightarrow> claims \<Rightarrow> string \<Rightarrow> server \<Rightarrow> server \<times> unit response" where
  "handleRevokeInvite a c token s =
     (let (st, r) = RevokeInvite (am_db a 0) (cm_OrgID c) token (sv_store s); s = s\<lparr>sv_store := st\<rparr>
      in case r of Inl e \<Rightarrow> (s, Error 500 ''db'' (OfError e)) | Inr _ \<Rightarrow> (s, Reply 204 ()))"

subsection \<open>Slugs (util.go)\<close>

definition slug_char :: "char \<Rightarrow> bool" where
  "slug_char c = (let n = of_char c :: nat in (97 \<le> n \<and> n \<le> 122) \<or> (48 \<le> n \<and> n \<le> 57))"

text \<open>Replacing each maximal run of other characters by one dash.\<close>

fun dash_runs :: "bool \<Rightarrow> string \<Rightarrow> string" where
  "dash_runs in_run [] = []"
| "dash_runs in_run (c # cs) =
     (if slug_char c then c # dash_runs False cs
      else if in_run then dash_runs True cs else CHR ''-'' # dash_runs True cs)"

definition trim_dash :: "string \<Rightarrow> string" where
  "trim_dash s = rev (dropWhile (\<lambda>c. c = CHR ''-'') (rev (dropWhile (\<lambda>c. c = CHR ''-'') s)))"

definition slugify :: "string \<Rightarrow> string" where
  "slugify s =
     (let s = to_lower (trim_space s); s = dash_runs False s; s = trim_dash s
      in if s = '''' then ''org'' else if 40 < length s then take 40 s else s)"

definition shortID :: "string \<Rightarrow> string" where
  "shortID uuid = take 8 uuid"

subsection \<open>Platform administration (admin\_handlers.go)\<close>

record pending_user_view =
  pv_ID :: string
  pv_Email :: string
  pv_CreatedAt :: int

definition handleListPendingUsers ::
  "(user_row list \<Rightarrow> user_row list) \<Rightarrow> ambient \<Rightarrow> server \<Rightarrow> pending_user_view list response" where
  "handleListPendingUsers scan a s =
     (case ListPendingUsers scan (am_db a 0) (sv_store s) of
        Inl e \<Rightarrow> Error 500 ''db'' (OfError e)
      | Inr users \<Rightarrow> Reply 200 (map (\<lambda>u. \<lparr>pv_ID = u_ID u, pv_Email = u_Email u,
            pv_CreatedAt = UnixMilli (u_CreatedAt u)\<rparr>) users))"

record org_item =
  oi_ID :: string
  oi_Name :: string
  oi_Slug :: string

definition handleAdminListOrgs ::
  "(org_row list \<Rightarrow> org_row list) \<Rightarrow> ambient \<Rightarrow> server \<Rightarrow> org_item list response" where
  "handleAdminListOrgs scan a s =
     (case ListOrgs scan (am_db a 0) (sv_store s) of
        Inl e \<Rightarrow> Error 500 ''db'' (OfError e)
      | Inr gs \<Rightarrow> Reply 200 (map (\<lambda>g. \<lparr>oi_ID = o_ID g, oi_Name = o_Name g, oi_Slug = o_Slug g\<rparr>) gs))"

record approve_user_req =
  av_OrgID :: string
  av_NewOrgName :: string
  av_Role :: string

record approve_reply =
  aw_Status :: string
  aw_OrgID :: string
  aw_Role :: string

definition approve_in ::
  "ambient \<Rightarrow> string \<Rightarrow> string \<Rightarrow> string \<Rightarrow> server \<Rightarrow> server \<times> approve_reply response" where
  "approve_in a userID orgID role s =
     (let (st, r) = ApproveUser (am_db a 1) userID orgID role (sv_store s); s = s\<lparr>sv_store := st\<rparr>
      in case r of
           Inl e \<Rightarrow> if e = ErrNotFound
                    then (s, Error 404 ''not_found'' (Text ''no pending user with that id''))
                    else (s, Error 500 ''db'' (OfError e))
         | Inr _ \<Rightarrow> (s, Reply 200 \<lparr>aw_Status = UserStatusActive, aw_OrgID = orgID, aw_Role = role\<rparr>))"

definition handleApproveUser ::
  "ambient \<Rightarrow> string \<Rightarrow> approve_user_req option \<Rightarrow> server \<Rightarrow> server \<times> approve_reply response" where
  "handleApproveUser a userID body s =
     (case body of None \<Rightarrow> (s, bad_body)
      | Some req \<Rightarrow>
          (let role = NormalizeRole (av_Role req); orgID = trim_space (av_OrgID req) in
           if orgID = '''' then
             (let name = trim_space (av_NewOrgName req) in
              if name = '''' then (s, Error 400 ''bad_request'' (Text ''orgId or newOrgName required''))
              else
                (let (st, r) = CreateOrg (am_db a 0) (am_uuid a 0) name
                       (slugify name @ ''-'' @ shortID (am_uuid a 1)) (am_now a) (sv_store s);
                     s = s\<lparr>sv_store := st\<rparr>
                 in case r of Inl e \<Rightarrow> (s, Error 500 ''db'' (OfError e))
                    | Inr g \<Rightarrow> approve_in a userID (o_ID g) role s))
           else case GetOrg (am_db a 0) orgID (sv_store s) of
             Inl _ \<Rightarrow> (s, Error 400 ''bad_request'' (Text ''unknown orgId''))
           | Inr _ \<Rightarrow> approve_in a userID orgID role s))"

definition handleRejectUser :: "ambient \<Rightarrow> string \<Rightarrow> server \<Rightarrow> server \<times> unit response" where
  "handleRejectUser a userID s =
     (let (st, r) = RejectUser (am_db a 0) userID (sv_store s); s = s\<lparr>sv_store := st\<rparr>
      in case r of Inl e \<Rightarrow> (s, Error 500 ''db'' (OfError e)) | Inr _ \<Rightarrow> (s, Reply 204 ()))"

record admin_machine_view =
  am_ID :: string
  am_Hostname :: string
  am_OrgID :: string
  am_OrgName :: string
  am_OS :: string
  am_Arch :: string
  am_Online :: bool

definition handleAdminListMachines ::
  "(machine_row list \<Rightarrow> machine_row list) \<Rightarrow> ambient \<Rightarrow> server \<Rightarrow> admin_machine_view list response" where
  "handleAdminListMachines scan a s =
     (case ListAllMachines scan (am_db a 0) (sv_store s) of
        Inl e \<Rightarrow> Error 500 ''db'' (OfError e)
      | Inr rows \<Rightarrow> Reply 200 (map (\<lambda>m. \<lparr>am_ID = mw_ID m, am_Hostname = mw_Hostname m,
            am_OrgID = mw_OrgID m, am_OrgName = mw_OrgName m, am_OS = mw_OS m, am_Arch = mw_Arch m,
            am_Online = IsMachineOnline (mw_OrgID m) (mw_ID m) (sv_state s)\<rparr>) rows))"

definition handleReassignMachine ::
  "ambient \<Rightarrow> string \<Rightarrow> string option \<Rightarrow> server \<Rightarrow> server \<times> (string \<times> string) response" where
  "handleReassignMachine a machineID body s =
     (case body of
        None \<Rightarrow> (s, Error 400 ''bad_request'' (Text ''orgId required''))
      | Some orgID \<Rightarrow>
          if trim_space orgID = '''' then (s, Error 400 ''bad_request'' (Text ''orgId required''))
          else
            (let (st, r) = ReassignMachine (am_db a) machineID orgID (sv_store s); s = s\<lparr>sv_store := st\<rparr>
             in case r of
                  Inl e \<Rightarrow> if e = ErrNotFound
                           then (s, Error 404 ''not_found'' (Text ''machine or target workspace not found''))
                           else (s, Error 500 ''db'' (OfError e))
                | Inr _ \<Rightarrow> (reloadAgentKeys (am_db a 11) a s, Reply 200 (machineID, orgID))))"

subsection \<open>Finding accounts\<close>

lemma UserByEmail_unique:
  assumes "u \<in> set (db_users st)" "to_lower (u_Email u) = to_lower email"
    and "\<And>x. x \<in> set (db_users st) \<Longrightarrow> to_lower (u_Email x) = to_lower email \<Longrightarrow> x = u"
  shows "UserByEmail None email st = Inr u"
proof -
  have "sql_first u_ID (\<lambda>r. to_lower (u_Email r) = to_lower email) (db_users st) = Some u"
    using assms by (rule sql_first_unique)
  then show ?thesis by (simp add: UserByEmail_def first_or_def)
qed

lemma UserByEmail_Inl:
  "UserByEmail None email st = Inl e \<Longrightarrow> \<forall>x \<in> set (db_users st). to_lower (u_Email x) \<noteq> to_lower email"
  using sql_first_None [of u_ID "\<lambda>r. to_lower (u_Email r) = to_lower email" "db_users st"]
  by (auto simp: UserByEmail_def first_or_def split: option.splits)

lemma CreateUser_Inr:
  assumes "CreateUser fault newID now u st = (st', Inr v)"
  shows "st' = st\<lparr>db_users := db_users st @ [v]\<rparr>"
    and "v = u\<lparr>u_ID := if u_ID u = [] then newID else u_ID u,
                u_CreatedAt := if u_CreatedAt u = 0 then now else u_CreatedAt u\<rparr>"
    and "\<forall>r \<in> set (db_users st). u_ID r \<noteq> u_ID v \<and> u_Email r \<noteq> u_Email v"
proof -
  define w where "w = (let u = (if u_ID u = [] then u\<lparr>u_ID := newID\<rparr> else u)
      in if u_CreatedAt u = 0 then u\<lparr>u_CreatedAt := now\<rparr> else u)"
  have w: "w = u\<lparr>u_ID := if u_ID u = [] then newID else u_ID u,
                u_CreatedAt := if u_CreatedAt u = 0 then now else u_CreatedAt u\<rparr>"
    by (cases "u_ID u = []"; cases "u_CreatedAt u = 0") (simp_all add: w_def)
  have eq: "CreateUser fault newID now u st =
      (case fault of Some e \<Rightarrow> (st, Inl (ErrEngine e))
       | None \<Rightarrow> if list_ex (\<lambda>r. u_ID r = u_ID w \<or> u_Email r = u_Email w) (db_users st)
           then (st, Inl ErrUnique) else (st\<lparr>db_users := db_users st @ [w]\<rparr>, Inr w))"
    by (simp only: CreateUser_def w_def Let_def)
  have st: "st' = st\<lparr>db_users := db_users st @ [w]\<rparr>" and v: "v = w"
    and fresh: "\<not> list_ex (\<lambda>r. u_ID r = u_ID w \<or> u_Email r = u_Email w) (db_users st)"
    using assms [unfolded eq] by (auto split: option.splits if_splits)
  show "st' = st\<lparr>db_users := db_users st @ [v]\<rparr>" using st v by simp
  show "v = u\<lparr>u_ID := if u_ID u = [] then newID else u_ID u,
                u_CreatedAt := if u_CreatedAt u = 0 then now else u_CreatedAt u\<rparr>"
    using v w by (rule trans)
  show "\<forall>r \<in> set (db_users st). u_ID r \<noteq> u_ID v \<and> u_Email r \<noteq> u_Email v"
    using fresh v by (simp add: list_ex_iff)
qed

lemma handleRegister_success:
  assumes "handleRegister lib a (Some req) s = (s', Reply n x)" and "am_db a 0 = None"
  obtains v where "sv_store s' = (sv_store s)\<lparr>db_users := db_users (sv_store s) @ [v]\<rparr>"
    "u_Email v = trim_space (to_lower (rg_Email req))" "u_Status v = UserStatusPending" "u_OrgID v = []"
    "u_PasswordHash v = fst (HashPassword lib (trim_space (rg_Password req)))"
    "\<forall>r \<in> set (db_users (sv_store s)). to_lower (u_Email r) \<noteq> to_lower (u_Email v) \<and> u_ID r \<noteq> u_ID v"
    "n = 202"
proof -
  let ?em = "trim_space (to_lower (rg_Email req))" and ?pw = "trim_space (rg_Password req)"
  obtain e where none: "UserByEmail None ?em (sv_store s) = Inl e"
    using assms by (auto simp: handleRegister_def Let_def split: if_splits sum.splits)
  obtain hash ok where hash: "HashPassword lib ?pw = (hash, ok)" by fastforce
  obtain st r where c: "CreateUser (am_db a 1) (am_uuid a 0) (am_now a)
      (zero_user\<lparr>u_Email := ?em, u_PasswordHash := hash, u_Role := RoleMember,
         u_Status := UserStatusPending\<rparr>) (sv_store s) = (st, r)" by fastforce
  have "validEmail ?em" "\<not> length ?pw < 8"
    using assms(1) by (auto simp: handleRegister_def Let_def split: if_splits)
  then have eq: "(case r of Inl e \<Rightarrow> (s\<lparr>sv_store := st\<rparr>, Error 500 ''db'' (OfError e))
      | Inr _ \<Rightarrow> (s\<lparr>sv_store := st\<rparr>, Reply 202 UserStatusPending)) = (s', Reply n x)"
    using assms none hash c [simplified] by (simp add: handleRegister_def Let_def)
  then obtain v where r: "r = Inr v" by (cases r) auto
  note v = CreateUser_Inr [OF c [unfolded r]]
  show thesis
    by (rule that [of v])
       (use eq r v hash UserByEmail_Inl [OF none] in \<open>auto simp: zero_user_def\<close>)
qed

subsection \<open>Properties\<close>


definition sample_crypto :: crypto where
  "sample_crypto = \<lparr>hash_pw = \<lambda>p. if length p \<le> 72 then Some (''#'' @ p) else None,
     check_pw = \<lambda>h p. h = ''#'' @ p, sign = \<lambda>c. Some ''T'', parse = \<lambda>_ _. None\<rparr>"




end
