(* ===== verification/Handlers.thy ===== *)
theory Handlers
  imports Server_Core
begin

section \<open>The REST handlers\<close>

text \<open>
  Models \<open>internal/server/handlers.go\<close>, \<open>files.go\<close>, \<open>push_handlers.go\<close>, the list handler
  of \<open>events.go\<close> and \<open>internal/push\<close>. \<open>c\<close> are the claims of the signed-in user, \<open>q\<close> maps a
  query parameter to its value (the empty string when absent), \<open>scan\<close> is the order in which
  the engine reads a table. Web Push is a library: \<open>post\<close> is \<open>webpush.SendNotification\<close>,
  which yields the status code of the push service or an error (\<open>None\<close>).
\<close>

subsection \<open>Machines and sessions\<close>

definition handleHealth :: "ambient \<Rightarrow> (string \<times> int) response" where
  "handleHealth a = Reply 200 (''ok'', NowMillis a)"

definition handleListMachines :: "ambient \<Rightarrow> claims \<Rightarrow> server \<Rightarrow> machine list response" where
  "handleListMachines a c s =
     Reply 200 (sn_Machines (Snapshot_of (am_mach a) (am_sess a) (cm_OrgID c) (sv_state s)))"

text \<open>The statements of the deletion are numbered from 0, the revocation is 12, the reload 13.\<close>

definition handleDeleteMachine ::
  "ambient \<Rightarrow> claims \<Rightarrow> string \<Rightarrow> (string \<Rightarrow> string) \<Rightarrow> server \<Rightarrow> server \<times> unit response" where
  "handleDeleteMachine a c i q s =
     (let g = cm_OrgID c in
      if q ''force'' \<noteq> ''true'' \<and> list_ex (\<lambda>m. m_ID m = i \<and> m_Online m)
           (sn_Machines (Snapshot_of (am_mach a) (am_sess a) g (sv_state s)))
      then (s, Error 409 ''machine_online''
                (Text ''machine is online; stop the agent first or pass force=true''))
      else
        (let (st, r) = DeleteMachine (am_db a) g i (sv_store s); s = s\<lparr>sv_store := st\<rparr>
         in case r of
              Inl e \<Rightarrow> if e = ErrNotFound then (s, Error 404 ''not_found'' (Text ''machine not found''))
                       else (s, Error 500 ''db'' (OfError e))
            | Inr _ \<Rightarrow>
                (let (m, sids) = RemoveMachineSessions (am_sess a) g i (sv_state s);
                     s = s\<lparr>sv_state := m\<rparr>;
                     s = foldl (\<lambda>s sid. emit a g (SessionRemoved (Some sid)) s) s sids;
                     s = s\<lparr>sv_state := RemoveMachine g i (sv_state s)\<rparr>;
                     s = emit a g (MachineRemoved (Some i)) s;
                     s = s\<lparr>sv_store := fst (RevokeAgentKeysForMachine (am_db a 12) i (sv_store s))\<rparr>
                 in (reloadAgentKeys (am_db a 13) a s, Reply 204 ()))))"

definition handleListSessions ::
  "ambient \<Rightarrow> claims \<Rightarrow> (string \<Rightarrow> string) \<Rightarrow> server \<Rightarrow> session list response" where
  "handleListSessions a c q s =
     Reply 200 (filter (\<lambda>x. (q ''status'' = '''' \<or> s_Status x = q ''status'')
         \<and> (q ''machine'' = '''' \<or> s_MachineID x = q ''machine'')
         \<and> (q ''repo'' = '''' \<or> s_Repo x = q ''repo''))
       (sn_Sessions (Snapshot_of (am_mach a) (am_sess a) (cm_OrgID c) (sv_state s))))"

definition handleGetSession :: "claims \<Rightarrow> string \<Rightarrow> server \<Rightarrow> session response" where
  "handleGetSession c i s =
     (case Session (cm_OrgID c) i (sv_state s) of
        None \<Rightarrow> Error 404 ''not_found'' (Text ''session not found'')
      | Some x \<Rightarrow> Reply 200 x)"

record command_reply =
  cy_RequestID :: string
  cy_Action :: string

definition sendCommand ::
  "ambient \<Rightarrow> claims \<Rightarrow> string \<Rightarrow> string \<Rightarrow> server \<Rightarrow> server \<times> command_reply response" where
  "sendCommand a c i action s =
     (let g = cm_OrgID c in
      case Session g i (sv_state s) of
        None \<Rightarrow> (s, Error 404 ''not_found'' (Text ''session not found''))
      | Some sess \<Rightarrow>
          (case Encode (NowMillis a) (Command (Some \<lparr>cmd_RequestID = am_uuid a 0, cmd_SessionID = i,
                  cmd_Action = action\<rparr>)) of
             None \<Rightarrow> (s, Error 500 ''encode'' (Text ''''))
           | Some data \<Rightarrow>
               (let (h, ok) = SendToAgent (s_MachineID sess) data (sv_hub s); s = s\<lparr>sv_hub := h\<rparr>
                in if \<not> ok
                   then (s, Error 503 ''agent_offline'' (Text ''owning agent is not connected''))
                   else (emitServerEvent 0 1 a g (s_MachineID sess) i EventCommandIssued
                           (action @ '' requested '' @ middot @ '' '' @ s_Repo sess) SeverityInfo s,
                         Reply 202 \<lparr>cy_RequestID = am_uuid a 0, cy_Action = action\<rparr>))))"

definition handleStopSession ::
  "ambient \<Rightarrow> claims \<Rightarrow> string \<Rightarrow> server \<Rightarrow> server \<times> command_reply response" where
  "handleStopSession a c i s = sendCommand a c i ActionStop s"

definition handleRestartSession ::
  "ambient \<Rightarrow> claims \<Rightarrow> string \<Rightarrow> server \<Rightarrow> server \<times> command_reply response" where
  "handleRestartSession a c i s = sendCommand a c i ActionRestart s"

subsection \<open>Logs, metrics, events\<close>

text \<open>A numeric query parameter with a default and an upper bound.\<close>

definition query_limit :: "string \<Rightarrow> int \<Rightarrow> int \<Rightarrow> int" where
  "query_limit v default_limit max_limit =
     (case Atoi v of None \<Rightarrow> default_limit
      | Some l \<Rightarrow> if 0 < l \<and> l \<le> max_limit then l else default_limit)"

record log_page =
  lp_Lines :: "log_append list"
  lp_NextCursor :: int

definition log_append_of :: "log_row \<Rightarrow> log_append" where
  "log_append_of l = \<lparr>la_SessionID = ll_SessionID l, la_Seq = ll_Seq l, la_Stream = ll_Stream l,
     la_Line = ll_Line l, la_TS = UnixMilli (ll_TS l)\<rparr>"

definition handleGetLogs ::
  "(log_row list \<Rightarrow> log_row list) \<Rightarrow> ambient \<Rightarrow> claims \<Rightarrow> string \<Rightarrow> (string \<Rightarrow> string) \<Rightarrow> server
     \<Rightarrow> log_page response" where
  "handleGetLogs scan a c i q s =
     (let after = fst (ParseInt (q ''after'')); limit = query_limit (q ''limit'') 500 2000 in
      case LogPage scan (am_db a 0) (cm_OrgID c) i after limit (sv_store s) of
        Inl e \<Rightarrow> Error 500 ''db'' (OfError e)
      | Inr lines \<Rightarrow> Reply 200 \<lparr>lp_Lines = map log_append_of lines,
          lp_NextCursor = (if lines = [] then 0 else ll_Seq (last lines))\<rparr>)"

definition handleGetMetrics ::
  "(metric_row list \<Rightarrow> metric_row list) \<Rightarrow> ambient \<Rightarrow> claims \<Rightarrow> string \<Rightarrow> (string \<Rightarrow> string) \<Rightarrow> server
     \<Rightarrow> metric_sample list response" where
  "handleGetMetrics scan a c i q s =
     (let windowMin = query_limit (q ''windowMinutes'') 60 1440;
          since = am_now a - windowMin * (60 * second) in
      case Metrics scan (am_db a 0) (cm_OrgID c) i since 2000 (sv_store s) of
        Inl e \<Rightarrow> Error 500 ''db'' (OfError e)
      | Inr samples \<Rightarrow> Reply 200 (map (\<lambda>m. \<lparr>ms_SessionID = mt_SessionID m, ms_CPUPct = mt_CPUPct m,
            ms_MemBytes = mt_MemBytes m, ms_TS = UnixMilli (mt_TS m)\<rparr>) samples))"

definition handleListEvents ::
  "(event_row list \<Rightarrow> event_row list) \<Rightarrow> ambient \<Rightarrow> claims \<Rightarrow> (string \<Rightarrow> string) \<Rightarrow> server
     \<Rightarrow> event list response" where
  "handleListEvents scan a c q s =
     (case ListEvents scan (am_db a 0) (cm_OrgID c)
             \<lparr>ef_MachineID = q ''machine'', ef_SessionID = q ''session'', ef_Kind = q ''kind''\<rparr>
             (query_limit (q ''limit'') 200 1000) (sv_store s) of
        Inl e \<Rightarrow> Error 500 ''db'' (OfError e)
      | Inr evs \<Rightarrow> Reply 200 evs)"

subsection \<open>Files (files.go)\<close>

definition maxPublishBytes :: int where
  "maxPublishBytes = 32 * 1024 * 1024"

record publish_request =
  pr_key :: http_request
  pr_Filename :: string
  pr_Session :: string
  pr_ContentType :: string
  pr_Body :: "string option"

record publish_reply =
  py_ID :: string
  py_Name :: string
  py_Size :: int

text \<open>\<open>pr_Body\<close> is \<open>None\<close> when reading it failed; \<open>sha\<close> is the hexadecimal SHA-256.\<close>

definition handlePublish ::
  "(string \<Rightarrow> string) \<Rightarrow> ambient \<Rightarrow> publish_request \<Rightarrow> server \<Rightarrow> server \<times> publish_reply response" where
  "handlePublish sha a r s =
     (case authAgentKey (pr_key r) s of
        None \<Rightarrow> (s, Error 401 ''unauthorized'' (Text ''invalid agent key''))
      | Some info \<Rightarrow>
          (let name = (if pr_Filename r = '''' then ''upload.bin'' else pr_Filename r);
               too_large = Error 413 ''too_large'' (Text ''file exceeds 32 MiB limit'') in
           case pr_Body r of
             None \<Rightarrow> (s, too_large)
           | Some data \<Rightarrow>
               if maxPublishBytes < int (length data) then (s, too_large)
               else
                 (let ct = (if pr_ContentType r = '''' then ''application/octet-stream''
                            else pr_ContentType r);
                      (st, res) = SaveFile (am_db a 0) (am_uuid a 0) (am_now a)
                        \<lparr>f_ID = '''', f_OrgID = ki_OrgID info, f_MachineID = ki_MachineID info,
                          f_SessionID = pr_Session r, f_Name = name, f_Size = int (length data),
                          f_ContentType = ct, f_SHA256 = sha data, f_Data = data, f_CreatedAt = 0\<rparr>
                        (sv_store s);
                      s = s\<lparr>sv_store := st\<rparr>
                  in case res of
                       Inl e \<Rightarrow> (s, Error 500 ''db'' (OfError e))
                     | Inr f \<Rightarrow>
                         (emitServerEvent 1 1 a (ki_OrgID info) (ki_MachineID info) (pr_Session r)
                            EventFilePublished
                            (''Published '' @ name @ '' ('' @ utoa (length data) @ '' bytes)'') SeverityInfo s,
                          Reply 201 \<lparr>py_ID = f_ID f, py_Name = f_Name f, py_Size = f_Size f\<rparr>))))"

definition handleListFiles ::
  "(file_row list \<Rightarrow> file_row list) \<Rightarrow> ambient \<Rightarrow> claims \<Rightarrow> (string \<Rightarrow> string) \<Rightarrow> server
     \<Rightarrow> file_meta list response" where
  "handleListFiles scan a c q s =
     (case ListFiles scan (am_db a 0) (cm_OrgID c) (q ''session'') (q ''machine'')
             (query_limit (q ''limit'') 200 1000) (sv_store s) of
        Inl e \<Rightarrow> Error 500 ''db'' (OfError e)
      | Inr fs \<Rightarrow> Reply 200 fs)"

record download =
  dl_ContentType :: string
  dl_Name :: string
  dl_Length :: int
  dl_Data :: string

text \<open>The header \<open>Content-Disposition\<close> carries the file name, quoted.\<close>

definition handleDownloadFile :: "ambient \<Rightarrow> claims \<Rightarrow> string \<Rightarrow> server \<Rightarrow> download response" where
  "handleDownloadFile a c i s =
     (case GetFile (am_db a 0) (cm_OrgID c) i (sv_store s) of
        Inl _ \<Rightarrow> Error 404 ''not_found'' (Text ''file not found'')
      | Inr f \<Rightarrow> Reply 200 \<lparr>dl_ContentType = f_ContentType f, dl_Name = f_Name f,
          dl_Length = f_Size f, dl_Data = f_Data f\<rparr>)"


subsection \<open>Web Push\<close>

record push_sender =
  pc_Public :: string
  pc_Private :: string
  pc_Subject :: string

record push_sub =
  pu_Endpoint :: string
  pu_P256dh :: string
  pu_Auth :: string

record push_payload =
  pl_Title :: string
  pl_Body :: string
  pl_URL :: string
  pl_Tag :: string

datatype push_outcome = PushOK | PushGone | PushFailed

definition Enabled :: "push_sender \<Rightarrow> bool" where
  "Enabled p \<longleftrightarrow> pc_Public p \<noteq> '''' \<and> pc_Private p \<noteq> ''''"

definition push_Send ::
  "push_sender \<Rightarrow> (push_sub \<Rightarrow> push_payload \<Rightarrow> nat option) \<Rightarrow> push_sub \<Rightarrow> push_payload \<Rightarrow> push_outcome" where
  "push_Send p post sub pl =
     (if \<not> Enabled p then PushOK
      else case post sub pl of
             None \<Rightarrow> PushFailed
           | Some code \<Rightarrow> if code = 404 \<or> code = 410 then PushGone else PushOK)"

definition push_sub_of :: "sub_row \<Rightarrow> push_sub" where
  "push_sub_of r = \<lparr>pu_Endpoint = ps_Endpoint r, pu_P256dh = ps_P256dh r, pu_Auth = ps_Auth r\<rparr>"

text \<open>
  The loop over subscriptions of the test handler and of the notifier: it counts the sends
  that succeeded and deletes the subscriptions that are gone; \<open>k\<close> numbers the deletions.
\<close>

fun push_round ::
  "push_sender \<Rightarrow> (push_sub \<Rightarrow> push_payload \<Rightarrow> nat option) \<Rightarrow> (nat \<Rightarrow> string option) \<Rightarrow> push_payload
     \<Rightarrow> nat \<Rightarrow> sub_row list \<Rightarrow> store \<Rightarrow> store \<times> nat" where
  "push_round p post db pl k [] st = (st, 0)"
| "push_round p post db pl k (sub # subs) st =
     (case push_Send p post (push_sub_of sub) pl of
        PushOK \<Rightarrow> (let (st, n) = push_round p post db pl k subs st in (st, Suc n))
      | PushGone \<Rightarrow> push_round p post db pl (Suc k) subs
          (fst (DeletePushSubscription (db k) (ps_Endpoint sub) st))
      | PushFailed \<Rightarrow> push_round p post db pl k subs st)"

definition handlePushVAPIDKey :: "push_sender \<Rightarrow> (string \<times> bool) response" where
  "handlePushVAPIDKey p = Reply 200 (pc_Public p, Enabled p)"

definition handlePushSubscribe ::
  "ambient \<Rightarrow> claims \<Rightarrow> push_sub option \<Rightarrow> server \<Rightarrow> server \<times> unit response" where
  "handlePushSubscribe a c body s =
     (let bad = (s, Error 400 ''bad_request'' (Text ''endpoint and keys required'')) in
      case body of
        None \<Rightarrow> bad
      | Some req \<Rightarrow>
          if pu_Endpoint req = '''' \<or> pu_P256dh req = '''' \<or> pu_Auth req = '''' then bad
          else
            (let (st, r) = SavePushSubscription (am_db a 0) (am_db a 1) (am_uuid a 0) (am_now a)
                   \<lparr>ps_ID = '''', ps_OrgID = cm_OrgID c, ps_UserID = cm_UserID c,
                     ps_Endpoint = pu_Endpoint req, ps_P256dh = pu_P256dh req, ps_Auth = pu_Auth req,
                     ps_CreatedAt = None\<rparr> (sv_store s);
                 s = s\<lparr>sv_store := st\<rparr>
             in case r of Inl e \<Rightarrow> (s, Error 500 ''db'' (OfError e)) | Inr _ \<Rightarrow> (s, Reply 204 ())))"

definition handlePushUnsubscribe ::
  "ambient \<Rightarrow> string option \<Rightarrow> server \<Rightarrow> server \<times> unit response" where
  "handlePushUnsubscribe a body s =
     (let bad = (s, Error 400 ''bad_request'' (Text ''endpoint required'')) in
      case body of
        None \<Rightarrow> bad
      | Some endpoint \<Rightarrow>
          if endpoint = '''' then bad
          else
            (let (st, r) = DeletePushSubscription (am_db a 0) endpoint (sv_store s); s = s\<lparr>sv_store := st\<rparr>
             in case r of Inl e \<Rightarrow> (s, Error 500 ''db'' (OfError e)) | Inr _ \<Rightarrow> (s, Reply 204 ())))"

definition test_payload :: push_payload where
  "test_payload = \<lparr>pl_Title = ''Test notification'',
     pl_Body = ''Notifications are working. You'' @ [CHR 0x27] @ ''ll be alerted when a session is blocked.'',
     pl_URL = ''/'', pl_Tag = ''mc-test''\<rparr>"

definition handlePushTest ::
  "push_sender \<Rightarrow> (push_sub \<Rightarrow> push_payload \<Rightarrow> nat option) \<Rightarrow> (sub_row list \<Rightarrow> sub_row list) \<Rightarrow> ambient
     \<Rightarrow> claims \<Rightarrow> server \<Rightarrow> server \<times> nat response" where
  "handlePushTest p post scan a c s =
     (if \<not> Enabled p
      then (s, Error 503 ''push_disabled'' (Text ''web push is not configured on this server''))
      else case ListPushSubscriptionsForUser scan (am_db a 0) (cm_UserID c) (sv_store s) of
        Inl e \<Rightarrow> (s, Error 500 ''db'' (OfError e))
      | Inr subs \<Rightarrow>
          if subs = []
          then (s, Error 400 ''no_subscription''
                  (Text ''no push subscription for this account; enable notifications first''))
          else
            (let (st, sent) = push_round p post (am_db a) test_payload 1 subs (sv_store s)
             in (s\<lparr>sv_store := st\<rparr>, Reply 200 sent)))"


subsection \<open>Deleting a machine\<close>

lemma confined_emit_sv: "sv_store (emit a g w s) = sv_store s" "sv_state (emit a g w s) = sv_state s"
  by (simp_all add: emit_def)

lemma emit_removals:
  "foldl (\<lambda>s sid. emit a g (SessionRemoved (Some sid)) s) s sids =
     s\<lparr>sv_hub := foldl (\<lambda>h sid. EmitOrg (am_hub a) (NowMillis a) g (SessionRemoved (Some sid)) h)
        (sv_hub s) sids\<rparr>"
  by (induction sids arbitrary: s) (simp_all add: emit_def)

lemma reload_lookup:
  assumes "lookupAgentKey key (reloadAgentKeys None a s) = Some info" "ok_ambient a"
  shows "\<exists>k \<in> set (db_keys (sv_store s)). \<not> ak_Revoked k \<and> ak_Key k = key
    \<and> info = \<lparr>ki_OrgID = ak_OrgID k, ki_MachineID = ak_MachineID k\<rparr>"
proof -
  have loop: "mget (foldl (\<lambda>m k. mput (ak_Key k)
        \<lparr>ki_OrgID = ak_OrgID k, ki_MachineID = ak_MachineID k\<rparr> m) m rows) key = Some info \<Longrightarrow>
      mget m key = Some info \<or> (\<exists>k \<in> set rows. ak_Key k = key
        \<and> info = \<lparr>ki_OrgID = ak_OrgID k, ki_MachineID = ak_MachineID k\<rparr>)" for m rows
  proof (induction rows arbitrary: m)
    case (Cons k rows)
    from Cons.IH [OF Cons.prems [unfolded foldl_Cons]] show ?case by (auto split: if_splits)
  qed simp
  have "set (am_keys a (db_keys (sv_store s))) = set (db_keys (sv_store s))"
    using assms(2) by (simp add: ok_ambient_def)
  then show ?thesis
    using assms(1) loop [of "[]"]
    by (fastforce simp: lookupAgentKey_def reloadAgentKeys_def ActiveAgentKeys_def)
qed

lemma unrevoked_row:
  assumes "r \<in> set (sql_update P (ak_Revoked_update (\<lambda>_. True)) t)" and "\<not> ak_Revoked r"
  shows "\<not> P r"
proof -
  obtain x where x: "x \<in> set t" "r = (if P x then ak_Revoked_update (\<lambda>_. True) x else x)"
    using assms(1) by (auto simp: sql_update_def)
  show ?thesis using x(2) assms(2) by (cases "P x") simp_all
qed

lemma handleDeleteMachine_ok:
  assumes "handleDeleteMachine a c i q s = (s', Reply n x)" and "am_db a = (\<lambda>_. None)"
  obtains h where "s' = reloadAgentKeys None a (s\<lparr>sv_state := RemoveMachine (cm_OrgID c) i
        (fst (RemoveMachineSessions (am_sess a) (cm_OrgID c) i (sv_state s))), sv_hub := h,
      sv_store := fst (RevokeAgentKeysForMachine None i (without_machine (cm_OrgID c) i (sv_store s)))\<rparr>)"
proof -
  have "\<exists>r \<in> set (db_machines (sv_store s)). mr_OrgID r = cm_OrgID c \<and> mr_ID r = i"
  proof (rule ccontr)
    assume none: "\<not> ?thesis"
    from DeleteMachine_absent [OF none] assms show False
      by (auto simp: handleDeleteMachine_def Let_def split: if_splits)
  qed
  note D = DeleteMachine_ok [OF this]
  obtain m sids where m: "RemoveMachineSessions (am_sess a) (cm_OrgID c) i (sv_state s) = (m, sids)"
    by fastforce
  from assms D m have "s' = reloadAgentKeys None a (emit a (cm_OrgID c) (MachineRemoved (Some i))
      (s\<lparr>sv_store := without_machine (cm_OrgID c) i (sv_store s), sv_state := m,
         sv_hub := foldl (\<lambda>h sid. EmitOrg (am_hub a) (NowMillis a) (cm_OrgID c) (SessionRemoved (Some sid)) h)
           (sv_hub s) sids, sv_state := RemoveMachine (cm_OrgID c) i m\<rparr>)
      \<lparr>sv_store := fst (RevokeAgentKeysForMachine None i (without_machine (cm_OrgID c) i (sv_store s)))\<rparr>)"
    by (simp add: handleDeleteMachine_def Let_def emit_removals confined_emit_sv split: if_splits)
  then show thesis
    using m by (intro that [of "EmitOrg (am_hub a) (NowMillis a) (cm_OrgID c) (MachineRemoved (Some i))
      (foldl (\<lambda>h sid. EmitOrg (am_hub a) (NowMillis a) (cm_OrgID c) (SessionRemoved (Some sid)) h)
         (sv_hub s) sids)"]) (simp add: emit_def)
qed

lemma reload_same [simp]:
  "sv_state (reloadAgentKeys f a s) = sv_state s" "sv_store (reloadAgentKeys f a s) = sv_store s"
  "sv_hub (reloadAgentKeys f a s) = sv_hub s"
  by (simp_all add: reloadAgentKeys_def split: sum.splits)

text \<open>
  C18. Deleting a machine over HTTP: when the handler answers success (and no statement failed),
  neither the stored tables nor the live state of the caller's organisation show the machine or
  a session of it, no agent key of the machine opens a connection any more, and the live state
  of every other organisation is what it was.
\<close>

theorem delete_machine_request:
  assumes "wf_manager (sv_state s)" and "ok_ambient a" and "am_db a = (\<lambda>_. None)"
    and "handleDeleteMachine a c i q s = (s', Reply n x)"
  shows "(\<forall>r \<in> set (db_machines (sv_store s')). \<not> (mr_OrgID r = cm_OrgID c \<and> mr_ID r = i))
    \<and> mget (os_machines (org_view (cm_OrgID c) (sv_state s'))) i = None
    \<and> (\<forall>k v. mget (os_sessions (org_view (cm_OrgID c) (sv_state s'))) k = Some v \<longrightarrow> s_MachineID v \<noteq> i)
    \<and> (\<forall>key info. lookupAgentKey key s' = Some info \<longrightarrow> ki_MachineID info \<noteq> i)
    \<and> (\<forall>g. g \<noteq> cm_OrgID c \<longrightarrow> org_view g (sv_state s') = org_view g (sv_state s))"
proof -
  let ?g = "cm_OrgID c"
  obtain h where s': "s' = reloadAgentKeys None a (s\<lparr>sv_state := RemoveMachine ?g i (fst (RemoveMachineSessions (am_sess a) ?g i (sv_state s))),
      sv_hub := h,
      sv_store := fst (RevokeAgentKeysForMachine None i (without_machine ?g i (sv_store s)))\<rparr>)"
    using handleDeleteMachine_ok [OF assms(4,3)] .
  have wf: "wf_org (org_view ?g (sv_state s))" using assms(1) by blast
  then have wm: "wf_map (os_sessions (org_view ?g (sv_state s)))" by (simp add: wf_org_def)
  have rm: "fst (RemoveMachineSessions (am_sess a) ?g i (sv_state s)) =
     set_org ?g ((org_view ?g (sv_state s))\<lparr>os_sessions :=
        mkeep (\<lambda>k x. s_MachineID x \<noteq> i) (os_sessions (org_view ?g (sv_state s)))\<rparr>) (fst (org ?g (sv_state s)))"
    using assms(2) RemoveMachineSessions_eq [OF wf, of "am_sess a" i] by (simp add: ok_ambient_def)
  show ?thesis
  proof (intro conjI)
    show "\<forall>r \<in> set (db_machines (sv_store s')). \<not> (mr_OrgID r = ?g \<and> mr_ID r = i)"
    by (simp add: s' RevokeAgentKeysForMachine_def exec_stmt_def without_machine_def Let_def)
    show "mget (os_machines (org_view ?g (sv_state s'))) i = None"
    by (simp add: s' RemoveMachine_eq rm)
    show "\<forall>k v. mget (os_sessions (org_view ?g (sv_state s'))) k = Some v \<longrightarrow> s_MachineID v \<noteq> i"
    by (auto simp: s' RemoveMachine_eq rm mget_mkeep [OF wm] split: option.splits if_splits)
    show "\<forall>key info. lookupAgentKey key s' = Some info \<longrightarrow> ki_MachineID info \<noteq> i"
    proof (intro allI impI)
      fix key info
      assume k: "lookupAgentKey key s' = Some info"
    obtain r where "r \<in> set (db_keys (sv_store (s\<lparr>sv_state := RemoveMachine ?g i (fst (RemoveMachineSessions (am_sess a) ?g i (sv_state s))),
          sv_hub := h,
          sv_store := fst (RevokeAgentKeysForMachine None i (without_machine ?g i (sv_store s)))\<rparr>)))"
        "\<not> ak_Revoked r" and info: "info = \<lparr>ki_OrgID = ak_OrgID r, ki_MachineID = ak_MachineID r\<rparr>"
      using reload_lookup [OF k [unfolded s'] assms(2)] by blast
    then have r: "r \<in> set (sql_update (\<lambda>k. ak_MachineID k = i) (ak_Revoked_update (\<lambda>_. True))
        (db_keys (without_machine ?g i (sv_store s))))" "\<not> ak_Revoked r"
      by (simp_all add: RevokeAgentKeysForMachine_def exec_stmt_def)
    then have "ak_MachineID r \<noteq> i" by (rule unrevoked_row)
    then show "ki_MachineID info \<noteq> i" by (simp add: info)
  qed
    show "\<forall>g. g \<noteq> ?g \<longrightarrow> org_view g (sv_state s') = org_view g (sv_state s)"
      by (simp add: s' RemoveMachine_eq rm)
  qed
qed


definition sample_claims :: "string \<Rightarrow> string \<Rightarrow> claims" where
  "sample_claims u g = \<lparr>cm_UserID = u, cm_OrgID = g, cm_Role = ''member'', cm_Email = u,
     cm_PlatformAdmin = False, cm_IssuedAt = 0, cm_ExpiresAt = 9\<rparr>"

text \<open>A server where machine \<open>m\<close> of \<open>a\<close> has a stored row, a live entry, a session and a key.\<close>

definition one_machine_server :: server where
  "one_machine_server = (let s = sample_server [] [\<lparr>ak_Key = ''k'', ak_OrgID = ''a'', ak_MachineID = ''m'',
         ak_Label = '''', ak_CreatedAt = 0, ak_Revoked = False\<rparr>];
       st = fst (UpsertSession ''a'' (zero_session\<lparr>s_ID := ''x'', s_MachineID := ''m''\<rparr>)
              (fst (UpsertMachine ''a'' (zero_machine\<lparr>m_ID := ''m''\<rparr>) new_manager)))
     in s\<lparr>sv_state := st,
          sv_store := (sv_store s)\<lparr>db_machines := [machine_rec ''a'' (zero_machine\<lparr>m_ID := ''m''\<rparr>)]\<rparr>,
          sv_agentKeys := [(''k'', \<lparr>ki_OrgID = ''a'', ki_MachineID = ''m''\<rparr>)]\<rparr>)"

lemma wf_one_machine: "wf_manager (sv_state one_machine_server)"
proof -
  have "sv_state one_machine_server = run_ops [OpMachine ''a'' (zero_machine\<lparr>m_ID := ''m''\<rparr>),
      OpSession ''a'' (zero_session\<lparr>s_ID := ''x'', s_MachineID := ''m''\<rparr>)] new_manager"
    by (simp add: one_machine_server_def run_ops_def Let_def)
  then show ?thesis by (simp add: wf_manager_run_ops)
qed

theorem delete_machine_request_witness:
  "let (s', r) = handleDeleteMachine quiet (sample_claims ''u'' ''a'') ''m'' (\<lambda>_. '''') one_machine_server
   in r = Reply 204 () \<and> lookupAgentKey ''k'' one_machine_server \<noteq> None
      \<and> ki_MachineID (the (lookupAgentKey ''k'' one_machine_server)) = ''m''
      \<and> (\<forall>key info. lookupAgentKey key s' = Some info \<longrightarrow> ki_MachineID info \<noteq> ''m'')"
proof -
  let ?h = "handleDeleteMachine quiet (sample_claims ''u'' ''a'') ''m'' (\<lambda>_. '''') one_machine_server"
  have r: "snd ?h = Reply 204 ()" by code_simp
  then have h: "?h = (fst ?h, Reply 204 ())" by (simp add: prod_eq_iff)
  have q: "am_db quiet = (\<lambda>_. None)" by (simp add: quiet_def)
  have k: "map_option ki_MachineID (lookupAgentKey ''k'' one_machine_server) = Some ''m''" by code_simp
  note d = delete_machine_request [OF wf_one_machine ok_quiet q h]
  show ?thesis
    by (subst h) (use d k in \<open>auto simp: Let_def\<close>)
qed

subsection \<open>Commands\<close>

lemma emit_client:
  assumes "wf_hub (sv_hub s)" "ok_ambient a" "mget (h_heap (sv_hub s)) ref = Some d"
    and "\<not> (cl_Role d = RoleDashboard \<and> cl_OrgID d = g)"
  shows "mget (h_heap (sv_hub (emit a g w s))) ref = Some d"
proof (cases "Encode (NowMillis a) w")
  case (Some data)
  have "range_order (am_hub a)" using assms(2) by (simp add: ok_ambient_def)
  note spec = send_matching_spec(4) [OF assms(1) this, of "\<lambda>c. cl_Role c = RoleDashboard \<and> cl_OrgID c = g" data ref]
  have eq: "sv_hub (emit a g w s) =
      send_matching (am_hub a) (\<lambda>c. cl_Role c = RoleDashboard \<and> cl_OrgID c = g) data (sv_hub s)"
    by (simp add: emit_def EmitOrg_def BroadcastOrg_def Some)
  show ?thesis unfolding eq spec assms(3) using assms(4) by auto
qed (simp add: emit_def EmitOrg_def assms(3))

lemma recordEvent_client:
  assumes "wf_hub (sv_hub s)" "ok_ambient a" "mget (h_heap (sv_hub s)) ref = Some d"
    and "\<not> (cl_Role d = RoleDashboard \<and> cl_OrgID d = g)"
  shows "mget (h_heap (sv_hub (recordEvent k u a g e s))) ref = Some d"
  unfolding recordEvent_def Let_def by (rule emit_client) (use assms in simp_all)

text \<open>
  C21. A command goes where it should: it is accepted only for a session of the caller's
  organisation whose machine has a connected agent; then that agent's connection, and it
  alone, gets the command, and apart from it only dashboards of the caller's organisation
  hear of it (the event). Otherwise the answer is 404 or 503 and nothing changes at all.
\<close>

theorem command_routed:
  assumes wf: "wf_hub (sv_hub s)" and a: "ok_ambient a"
    and run: "sendCommand a c i action s = (s', r)"
  shows "(case (case Session (cm_OrgID c) i (sv_state s) of None \<Rightarrow> None
              | Some sess \<Rightarrow> lookup_agent (s_MachineID sess) (sv_hub s)) of
       None \<Rightarrow> s' = s \<and> status r \<in> {404, 503}
     | Some ref \<Rightarrow> status r = 202
         \<and> (\<exists>d env. mget (h_heap (sv_hub s)) ref = Some d \<and> cl_Role d = RoleAgent
              \<and> env_Msg env = Command (Some \<lparr>cmd_RequestID = am_uuid a 0, cmd_SessionID = i, cmd_Action = action\<rparr>)
              \<and> mget (h_heap (sv_hub s')) ref = Some (deliver env d))
         \<and> (\<forall>ref' d. ref' \<noteq> ref \<longrightarrow> mget (h_heap (sv_hub s)) ref' = Some d \<longrightarrow>
              \<not> (cl_Role d = RoleDashboard \<and> cl_OrgID d = cm_OrgID c) \<longrightarrow>
              mget (h_heap (sv_hub s')) ref' = Some d))"
proof (cases "Session (cm_OrgID c) i (sv_state s)")
  case None
  then show ?thesis using run by (auto simp: sendCommand_def)
next
  case (Some sess)
  show ?thesis
  proof (cases "lookup_agent (s_MachineID sess) (sv_hub s)")
    case None
    then show ?thesis using run Some by (auto simp: sendCommand_def Encode_def SendToAgent_def)
  next
    case (Some ref)
    let ?env = "\<lparr>env_V = Version, env_TS = NowMillis a, env_ID = '''',
        env_Msg = Command (Some \<lparr>cmd_RequestID = am_uuid a 0, cmd_SessionID = i, cmd_Action = action\<rparr>)\<rparr>"
    let ?h = "enqueue ref ?env (sv_hub s)"
    obtain d where d: "mget (h_heap (sv_hub s)) ref = Some d" "cl_Role d = RoleAgent" "cl_open d"
      using wf_hub_agentD [OF wf Some [unfolded lookup_agent_def]] wf_hub_clientD [OF wf]
      by (metis option.inject)
    have wf': "wf_hub ?h" using wf_hub_enqueue [OF wf, of ref] d by simp
    have heap: "mget (h_heap ?h) ref' = (if ref' = ref then Some (deliver ?env d) else mget (h_heap (sv_hub s)) ref')" for ref'
      using d by (simp add: enqueue_open)
    have run': "s' = emitServerEvent 0 1 a (cm_OrgID c) (s_MachineID sess) i EventCommandIssued
          (action @ '' requested '' @ middot @ '' '' @ s_Repo sess) SeverityInfo (s\<lparr>sv_hub := ?h\<rparr>)"
      "status r = 202"
      using run Some \<open>Session (cm_OrgID c) i (sv_state s) = Some sess\<close>
      by (auto simp: sendCommand_def Encode_def SendToAgent_def)
    have keep: "mget (h_heap (sv_hub s')) ref' = Some d'"
      if "mget (h_heap ?h) ref' = Some d'" "\<not> (cl_Role d' = RoleDashboard \<and> cl_OrgID d' = cm_OrgID c)" for ref' d'
      unfolding run' emitServerEvent_def using that wf' a by (intro recordEvent_client) auto
    have "mget (h_heap (sv_hub s')) ref = Some (deliver ?env d)"
      using keep [of ref] d by (simp add: heap)
    moreover have "mget (h_heap (sv_hub s')) ref' = Some d'"
      if "ref' \<noteq> ref" "mget (h_heap (sv_hub s)) ref' = Some d'"
        "\<not> (cl_Role d' = RoleDashboard \<and> cl_OrgID d' = cm_OrgID c)" for ref' d'
      by (rule keep) (use that in \<open>simp_all add: heap\<close>)
    ultimately show ?thesis
      unfolding \<open>Session (cm_OrgID c) i (sv_state s) = Some sess\<close> option.case Some
      using d(1,2) run'(2) by (intro conjI exI [of _ d] exI [of _ ?env] allI impI) simp_all
  qed
qed


text \<open>One agent connection of organisation \<open>a\<close> for machine \<open>m\<close>.\<close>

definition agent_server :: server where
  "agent_server = one_machine_server\<lparr>sv_hub := run_register ''r'' (NewClient ''r'' RoleAgent ''a'' ''m'' new_hub)\<rparr>"

lemma wf_agent_server: "wf_hub (sv_hub agent_server)"
proof -
  have "wf_hub (NewClient ''r'' RoleAgent ''a'' ''m'' new_hub)"
    by (rule wf_hub_NewClient [OF wf_new_hub]) (simp add: new_hub_def)
  then have "wf_hub (run_register ''r'' (NewClient ''r'' RoleAgent ''a'' ''m'' new_hub))"
    by (rule wf_hub_register) (auto simp: NewClient_def)
  then show ?thesis by (simp add: agent_server_def)
qed

theorem command_routed_witness:
  "status (snd (handleStopSession quiet (sample_claims ''u'' ''a'') ''x'' agent_server)) = 202
   \<and> status (snd (handleStopSession quiet (sample_claims ''u'' ''b'') ''x'' agent_server)) \<in> {404, 503}"
proof
  have "map_option s_MachineID (Session ''a'' ''x'' (sv_state agent_server)) = Some ''m''" by code_simp
  then obtain sess where sess: "Session ''a'' ''x'' (sv_state agent_server) = Some sess" "s_MachineID sess = ''m''"
    by auto
  have ag: "lookup_agent ''m'' (sv_hub agent_server) = Some ''r''" by code_simp
  have none: "Session ''b'' ''x'' (sv_state agent_server) = None" by code_simp
  show "status (snd (handleStopSession quiet (sample_claims ''u'' ''a'') ''x'' agent_server)) = 202"
    using command_routed [OF wf_agent_server ok_quiet surjective_pairing, of "sample_claims ''u'' ''a''" "''x''" ActionStop]
    by (simp add: handleStopSession_def sample_claims_def sess ag)
  show "status (snd (handleStopSession quiet (sample_claims ''u'' ''b'') ''x'' agent_server)) \<in> {404, 503}"
    using command_routed [OF wf_agent_server ok_quiet surjective_pairing, of "sample_claims ''u'' ''b''" "''x''" ActionStop]
    by (simp add: handleStopSession_def sample_claims_def none)
qed

subsection \<open>Published files\<close>

lemma recordEvent_files [simp]: "db_files (sv_store (recordEvent k u a g e s)) = db_files (sv_store s)"
  by (simp add: recordEvent_def Let_def emit_def SaveEvent_def exec_stmt_def split: option.splits)

text \<open>
  C25. Publishing and downloading are inverse, inside the organisation of the agent key: a file
  an agent uploaded is downloaded by the users of the key's organisation with the same bytes,
  length, content type and name, and is not found by the users of any other organisation.
\<close>

theorem publish_download:
  assumes key: "authAgentKey (pr_key r) s = Some info" and body: "pr_Body r = Some data"
    and run: "handlePublish sha a r s = (s', Reply n rep)" and b: "am_db b 0 = None"
  shows "handleDownloadFile b c (py_ID rep) s' =
    (if cm_OrgID c = ki_OrgID info
     then Reply 200 \<lparr>dl_ContentType = (if pr_ContentType r = '''' then ''application/octet-stream'' else pr_ContentType r),
        dl_Name = (if pr_Filename r = '''' then ''upload.bin'' else pr_Filename r),
        dl_Length = int (length data), dl_Data = data\<rparr>
     else Error 404 ''not_found'' (Text ''file not found''))"
proof -
  let ?name = "if pr_Filename r = '''' then ''upload.bin'' else pr_Filename r"
  let ?ct = "if pr_ContentType r = '''' then ''application/octet-stream'' else pr_ContentType r"
  define f where "f = \<lparr>f_ID = '''', f_OrgID = ki_OrgID info, f_MachineID = ki_MachineID info,
      f_SessionID = pr_Session r, f_Name = ?name, f_Size = int (length data), f_ContentType = ?ct,
      f_SHA256 = sha data, f_Data = data, f_CreatedAt = 0\<rparr>"
  define f' where "f' = f\<lparr>f_ID := am_uuid a 0, f_CreatedAt := am_now a\<rparr>"
  obtain st res where sv: "SaveFile (am_db a 0) (am_uuid a 0) (am_now a) f (sv_store s) = (st, res)" by fastforce
  have small: "\<not> maxPublishBytes < int (length data)"
    using run by (auto simp: handlePublish_def key body Let_def split: if_splits)
  have r: "res = Inr w \<and> py_ID rep = f_ID w \<and> db_files (sv_store s') = db_files st"
    if "res = Inr w" for w
    using run small sv that by (auto simp: handlePublish_def key body f_def emitServerEvent_def Let_def)
  have "\<exists>w. res = Inr w"
    using run small sv by (cases res) (auto simp: handlePublish_def key body f_def Let_def)
  then obtain w where w: "res = Inr w" by blast
  have saved: "w = f' \<and> db_files st = db_files (sv_store s) @ [f']
      \<and> (\<forall>x \<in> set (db_files (sv_store s)). f_ID x \<noteq> f_ID f')"
    using sv w by (auto simp: SaveFile_def f'_def f_def list_ex_iff Let_def split: option.splits if_splits)
  have files: "db_files (sv_store s') = db_files (sv_store s) @ [f']" and id: "py_ID rep = f_ID f'"
    using r [OF w] saved by simp_all
  show ?thesis
  proof (cases "cm_OrgID c = ki_OrgID info")
    case True
    have "sql_first f_ID (\<lambda>x. f_OrgID x = cm_OrgID c \<and> f_ID x = py_ID rep) (db_files (sv_store s')) = Some f'"
      by (rule sql_first_unique) (use saved True id files in \<open>auto simp: f'_def f_def\<close>)
    then show ?thesis using True b
      by (simp add: handleDownloadFile_def GetFile_def first_or_def f'_def f_def)
  next
    case False
    have none: "sql_first f_ID (\<lambda>x. f_OrgID x = cm_OrgID c \<and> f_ID x = py_ID rep) (db_files (sv_store s')) = None"
      using saved False id files by (auto simp: f'_def f_def)
    show ?thesis
      unfolding handleDownloadFile_def GetFile_def first_or_def none b option.case sum.case
      using False by simp
  qed
qed

theorem publish_download_witness:
  "map (\<lambda>g. case handleDownloadFile quiet (sample_claims ''u'' g) ''u0''
        (fst (handlePublish (\<lambda>_. ''00'') quiet \<lparr>pr_key = \<lparr>r_authorization = '''', r_token = '''', r_api_key = ''k'', r_key = ''''\<rparr>,
          pr_Filename = ''x.txt'', pr_Session = '''', pr_ContentType = '''', pr_Body = Some ''hello''\<rparr> one_machine_server))
      of Reply n d \<Rightarrow> dl_Data d | Error n _ _ \<Rightarrow> utoa n) [''a'', ''b''] = [''hello'', ''404'']"
proof -
  let ?r = "\<lparr>pr_key = \<lparr>r_authorization = '''', r_token = '''', r_api_key = ''k'', r_key = ''''\<rparr>,
          pr_Filename = ''x.txt'', pr_Session = '''', pr_ContentType = '''', pr_Body = Some ''hello''\<rparr>"
  let ?h = "handlePublish (\<lambda>_. ''00'') quiet ?r one_machine_server"
  have key: "authAgentKey (pr_key ?r) one_machine_server = Some \<lparr>ki_OrgID = ''a'', ki_MachineID = ''m''\<rparr>"
    by code_simp
  have "snd ?h = Reply 201 \<lparr>py_ID = ''u0'', py_Name = ''x.txt'', py_Size = 5\<rparr>" by code_simp
  then have h: "?h = (fst ?h, Reply 201 \<lparr>py_ID = ''u0'', py_Name = ''x.txt'', py_Size = 5\<rparr>)"
    by (simp add: prod_eq_iff)
  have b: "pr_Body ?r = Some ''hello''" "am_db quiet 0 = None" by (simp_all add: quiet_def)
  have "utoa 404 = ''404''" by code_simp
  then show ?thesis
    using publish_download [OF key b(1) h b(2), of "sample_claims ''u'' ''a''"]
      publish_download [OF key b(1) h b(2), of "sample_claims ''u'' ''b''"]
    by (simp add: sample_claims_def)
qed

end
