(* ===== verification/Blocked_Notify.thy ===== *)
theory Blocked_Notify
  imports Handlers
begin

section \<open>Notifications for blocked sessions\<close>

text \<open>
  Models \<open>internal/server/blocked_notify.go\<close>: the tracker of blocked episodes, its
  reconciliation against the current sessions, the delivery of one notification and one tick of
  the notify loop. Instants are nanoseconds. The two garbage-collection loops of \<open>reconcile\<close>
  delete every key that is not a current session; here that is one filter of each map.
\<close>

record tracker =
  tk_since :: "(string, int) gomap"
  tk_notified :: "(string, bool) gomap"

definition newBlockedTracker :: tracker where
  "newBlockedTracker = \<lparr>tk_since = [], tk_notified = []\<rparr>"

definition reconcile_session ::
  "int \<Rightarrow> int \<Rightarrow> tracker \<times> session list \<Rightarrow> session \<Rightarrow> tracker \<times> session list" where
  "reconcile_session threshold now = (\<lambda>(t, toNotify) s.
     if s_Status s \<noteq> StatusWaitingApproval
     then (t\<lparr>tk_since := mdel (s_ID s) (tk_since t), tk_notified := mdel (s_ID s) (tk_notified t)\<rparr>, toNotify)
     else
       (let t = (if mget (tk_since t) (s_ID s) = None
                 then t\<lparr>tk_since := mput (s_ID s) now (tk_since t)\<rparr> else t);
            since = (case mget (tk_since t) (s_ID s) of None \<Rightarrow> 0 | Some x \<Rightarrow> x)
        in if mget (tk_notified t) (s_ID s) \<noteq> Some True \<and> now - since \<ge> threshold
           then (t\<lparr>tk_notified := mput (s_ID s) True (tk_notified t)\<rparr>, toNotify @ [s])
           else (t, toNotify)))"

definition reconcile :: "session list \<Rightarrow> int \<Rightarrow> int \<Rightarrow> tracker \<Rightarrow> tracker \<times> session list" where
  "reconcile sessions threshold now t =
     (let (t, toNotify) = foldl (reconcile_session threshold now) (t, []) sessions;
          live = s_ID ` set sessions
      in (t\<lparr>tk_since := mkeep (\<lambda>i _. i \<in> live) (tk_since t),
            tk_notified := mkeep (\<lambda>i _. i \<in> live) (tk_notified t)\<rparr>, toNotify))"

definition sessionDisplayLabel :: "session \<Rightarrow> string" where
  "sessionDisplayLabel s =
     (if s_Repo s \<noteq> '''' then
        (if s_Branch s \<noteq> '''' then s_Repo s @ '' ('' @ s_Branch s @ '')'' else s_Repo s)
      else if s_CWD s \<noteq> '''' then s_CWD s else s_ID s)"

definition blocked_payload :: "int \<Rightarrow> session \<Rightarrow> push_payload" where
  "blocked_payload secs x = \<lparr>pl_Title = ''Session blocked'',
     pl_Body = sessionDisplayLabel x @ '' has been waiting for approval for '' @ itoa secs @ ''s'',
     pl_URL = ''/sessions/'' @ s_ID x, pl_Tag = ''blocked-'' @ s_ID x\<rparr>"

definition notifyBlocked ::
  "push_sender \<Rightarrow> (push_sub \<Rightarrow> push_payload \<Rightarrow> nat option) \<Rightarrow> (sub_row list \<Rightarrow> sub_row list) \<Rightarrow> ambient
     \<Rightarrow> string \<Rightarrow> session \<Rightarrow> server \<Rightarrow> server" where
  "notifyBlocked p post scan a g x s =
     (let secs = cf_BlockedNotifySeconds (sv_cfg s) in
      case ListPushSubscriptionsForOrg scan (am_db a 0) g (sv_store s) of
        Inl _ \<Rightarrow> s
      | Inr subs \<Rightarrow>
          (let (st, sent) = push_round p post (am_db a) (blocked_payload secs x) 1 subs (sv_store s)
           in emitServerEvent (Suc (length subs)) 0 a g (s_MachineID x) (s_ID x) EventStatusChanged
                (''Blocked '' @ itoa secs @ ''s '' @ middot @ '' '' @ sessionDisplayLabel x) SeverityWarn
                (s\<lparr>sv_store := st\<rparr>)))"

definition blocked_loop_runs :: "push_sender \<Rightarrow> server_cfg \<Rightarrow> bool" where
  "blocked_loop_runs p cfg \<longleftrightarrow> \<not> (cf_BlockedNotifySeconds cfg \<le> 0 \<or> \<not> Enabled p)"

text \<open>
  One tick of \<open>blockedNotifyLoop\<close>: for each organisation with sessions, reconcile, then notify.
  \<open>av k\<close> is what the \<open>k\<close>-th notification of the tick gets from outside; all see one clock.
\<close>

definition blocked_org ::
  "push_sender \<Rightarrow> (push_sub \<Rightarrow> push_payload \<Rightarrow> nat option) \<Rightarrow> (sub_row list \<Rightarrow> sub_row list)
     \<Rightarrow> (nat \<Rightarrow> ambient) \<Rightarrow> int \<Rightarrow> server \<times> tracker \<times> nat \<Rightarrow> string \<times> session list
     \<Rightarrow> server \<times> tracker \<times> nat" where
  "blocked_org p post scan av threshold = (\<lambda>(s, t, k) (g, sessions).
     let (t, due) = reconcile sessions threshold (am_now (av 0)) t;
         (s, k) = foldl (\<lambda>(s, k) x. (notifyBlocked p post scan (av k) g x s, Suc k)) (s, k) due
     in (s, t, k))"

definition blocked_tick ::
  "push_sender \<Rightarrow> (push_sub \<Rightarrow> push_payload \<Rightarrow> nat option) \<Rightarrow> (sub_row list \<Rightarrow> sub_row list)
     \<Rightarrow> ((string \<times> org_state) list \<Rightarrow> (string \<times> org_state) list) \<Rightarrow> (nat \<Rightarrow> ambient) \<Rightarrow> server \<Rightarrow> tracker
     \<Rightarrow> server \<times> tracker" where
  "blocked_tick p post scan \<pi> av s t =
     (let threshold = cf_BlockedNotifySeconds (sv_cfg s) * second;
          (s, t, k) = foldl (blocked_org p post scan av threshold) (s, t, 0)
            (AllSessions \<pi> (am_sess (av 0)) (sv_state s))
      in (s, t))"

subsection \<open>One reconciliation, session by session\<close>

definition waiting :: "string \<Rightarrow> session list \<Rightarrow> bool" where
  "waiting i ss \<longleftrightarrow> (\<exists>s \<in> set ss. s_ID s = i \<and> s_Status s = StatusWaitingApproval)"

definition since_of :: "tracker \<Rightarrow> int \<Rightarrow> string \<Rightarrow> int" where
  "since_of t now i = (case mget (tk_since t) i of None \<Rightarrow> now | Some x \<Rightarrow> x)"

definition due :: "int \<Rightarrow> int \<Rightarrow> tracker \<Rightarrow> string \<Rightarrow> bool" where
  "due threshold now t i \<longleftrightarrow>
     mget (tk_notified t) i \<noteq> Some True \<and> threshold \<le> now - since_of t now i"

lemma reconcile_session_other:
  assumes "i \<noteq> s_ID s"
  shows "mget (tk_since (fst (reconcile_session th now p s))) i = mget (tk_since (fst p)) i"
    and "mget (tk_notified (fst (reconcile_session th now p s))) i = mget (tk_notified (fst p)) i"
  using assms by (auto simp: reconcile_session_def case_prod_unfold Let_def)

lemma reconcile_session_same:
  "mget (tk_since (fst (reconcile_session th now p s))) (s_ID s) =
     (if s_Status s = StatusWaitingApproval then Some (since_of (fst p) now (s_ID s)) else None)"
  "mget (tk_notified (fst (reconcile_session th now p s))) (s_ID s) = Some True \<longleftrightarrow>
     s_Status s = StatusWaitingApproval
     \<and> (mget (tk_notified (fst p)) (s_ID s) = Some True \<or> due th now (fst p) (s_ID s))"
  by (auto simp: reconcile_session_def case_prod_unfold Let_def since_of_def due_def split: option.splits)

lemma reconcile_session_out:
  "snd (reconcile_session th now p s) = snd p @
     (if s_Status s = StatusWaitingApproval \<and> due th now (fst p) (s_ID s) then [s] else [])"
  by (auto simp: reconcile_session_def case_prod_unfold Let_def since_of_def due_def split: option.splits)

lemma due_cong:
  "mget (tk_since t) i = mget (tk_since t') i \<Longrightarrow> mget (tk_notified t) i = mget (tk_notified t') i \<Longrightarrow>
     due th now t i = due th now t' i \<and> since_of t now i = since_of t' now i"
  by (simp add: due_def since_of_def)

lemma reconcile_loop:
  assumes "distinct (map s_ID ss)"
  shows "(i \<notin> s_ID ` set ss \<longrightarrow>
       mget (tk_since (fst (foldl (reconcile_session th now) p ss))) i = mget (tk_since (fst p)) i
       \<and> mget (tk_notified (fst (foldl (reconcile_session th now) p ss))) i = mget (tk_notified (fst p)) i)
    \<and> (i \<in> s_ID ` set ss \<longrightarrow>
       mget (tk_since (fst (foldl (reconcile_session th now) p ss))) i =
         (if waiting i ss then Some (since_of (fst p) now i) else None)
       \<and> (mget (tk_notified (fst (foldl (reconcile_session th now) p ss))) i = Some True \<longleftrightarrow>
         waiting i ss \<and> (mget (tk_notified (fst p)) i = Some True \<or> due th now (fst p) i)))
    \<and> snd (foldl (reconcile_session th now) p ss) = snd p @
       filter (\<lambda>s. s_Status s = StatusWaitingApproval \<and> due th now (fst p) (s_ID s)) ss"
  using assms
proof (induction ss arbitrary: p)
  case (Cons s ss)
  let ?p = "reconcile_session th now p s"
  have new: "s_ID s \<notin> s_ID ` set ss" and d: "distinct (map s_ID ss)" using Cons.prems by auto
  have w: "waiting i (s # ss) = (if i = s_ID s then s_Status s = StatusWaitingApproval else waiting i ss)"
    using new by (auto simp: waiting_def image_iff)
  have cong: "due th now (fst ?p) j = due th now (fst p) j \<and> since_of (fst ?p) now j = since_of (fst p) now j"
    if "j \<noteq> s_ID s" for j
    using reconcile_session_other [OF that] by (intro due_cong) simp_all
  have out: "filter (\<lambda>x. s_Status x = StatusWaitingApproval \<and> due th now (fst ?p) (s_ID x)) ss =
      filter (\<lambda>x. s_Status x = StatusWaitingApproval \<and> due th now (fst p) (s_ID x)) ss"
  proof (rule filter_cong [OF refl])
    fix x assume "x \<in> set ss"
    then have "s_ID x \<noteq> s_ID s" using new by (metis image_eqI)
    then show "(s_Status x = StatusWaitingApproval \<and> due th now (fst ?p) (s_ID x)) =
        (s_Status x = StatusWaitingApproval \<and> due th now (fst p) (s_ID x))"
      using cong by blast
  qed
  note IH = Cons.IH [OF d, of ?p]
  show ?case
  proof (intro conjI impI)
    show "snd (foldl (reconcile_session th now) p (s # ss)) = snd p @
       filter (\<lambda>s. s_Status s = StatusWaitingApproval \<and> due th now (fst p) (s_ID s)) (s # ss)"
      using IH by (simp add: out reconcile_session_out)
  next
    assume "i \<notin> s_ID ` set (s # ss)"
    then show "mget (tk_since (fst (foldl (reconcile_session th now) p (s # ss)))) i = mget (tk_since (fst p)) i"
      "mget (tk_notified (fst (foldl (reconcile_session th now) p (s # ss)))) i = mget (tk_notified (fst p)) i"
      using IH reconcile_session_other [of i s] by simp_all
  next
    assume "i \<in> s_ID ` set (s # ss)"
    then show "mget (tk_since (fst (foldl (reconcile_session th now) p (s # ss)))) i =
         (if waiting i (s # ss) then Some (since_of (fst p) now i) else None)"
      and "(mget (tk_notified (fst (foldl (reconcile_session th now) p (s # ss)))) i = Some True) =
         (waiting i (s # ss) \<and> (mget (tk_notified (fst p)) i = Some True \<or> due th now (fst p) i))"
      using IH new w cong [of i] reconcile_session_same [of th now p s] reconcile_session_other [of i s th now p]
      by (cases "i = s_ID s"; simp)+
  qed
qed simp

lemma waiting_ids: "waiting i ss \<Longrightarrow> i \<in> s_ID ` set ss"
  by (auto simp: waiting_def)

text \<open>
  After a reconciliation a session is tracked exactly when it is waiting, since the instant it
  was tracked before or else since now; it counts as notified when it was or now became due.
\<close>

lemma reconcile_step:
  assumes "distinct (map s_ID ss)" and "wf_map (tk_since t)" "wf_map (tk_notified t)"
  shows "mget (tk_since (fst (reconcile ss th now t))) i =
       (if waiting i ss then Some (since_of t now i) else None)"
    and "mget (tk_notified (fst (reconcile ss th now t))) i = Some True \<longleftrightarrow>
       waiting i ss \<and> (mget (tk_notified t) i = Some True \<or> due th now t i)"
    and "snd (reconcile ss th now t) =
       filter (\<lambda>s. s_Status s = StatusWaitingApproval \<and> due th now t (s_ID s)) ss"
    and "wf_map (tk_since (fst (reconcile ss th now t)))"
    and "wf_map (tk_notified (fst (reconcile ss th now t)))"
proof -
  obtain t' out where f: "foldl (reconcile_session th now) (t, []) ss = (t', out)" by fastforce
  have step: "wf_map (tk_since (fst (reconcile_session th now p s)))
      \<and> wf_map (tk_notified (fst (reconcile_session th now p s)))"
    if "wf_map (tk_since (fst p)) \<and> wf_map (tk_notified (fst p))" for p s
    using that by (auto simp: reconcile_session_def case_prod_unfold Let_def)
  have "wf_map (tk_since (fst (foldl (reconcile_session th now) (t, []) ss)))
      \<and> wf_map (tk_notified (fst (foldl (reconcile_session th now) (t, []) ss)))"
    by (rule foldl_invariant [where I = "\<lambda>p. wf_map (tk_since (fst p)) \<and> wf_map (tk_notified (fst p))"])
      (use assms(2,3) step in simp_all)
  then have wf: "wf_map (tk_since t')" "wf_map (tk_notified t')" by (simp_all add: f)
  have loop: "(i \<notin> s_ID ` set ss \<longrightarrow> mget (tk_since t') i = mget (tk_since t) i
        \<and> mget (tk_notified t') i = mget (tk_notified t) i)
    \<and> (i \<in> s_ID ` set ss \<longrightarrow> mget (tk_since t') i = (if waiting i ss then Some (since_of t now i) else None)
        \<and> (mget (tk_notified t') i = Some True \<longleftrightarrow>
           waiting i ss \<and> (mget (tk_notified t) i = Some True \<or> due th now t i)))
    \<and> out = filter (\<lambda>s. s_Status s = StatusWaitingApproval \<and> due th now t (s_ID s)) ss"
    using reconcile_loop [OF assms(1), of i th now "(t, [])"] by (simp add: f)
  have eq: "reconcile ss th now t = (t'\<lparr>tk_since := mkeep (\<lambda>i _. i \<in> s_ID ` set ss) (tk_since t'),
      tk_notified := mkeep (\<lambda>i _. i \<in> s_ID ` set ss) (tk_notified t')\<rparr>, out)"
    by (simp add: reconcile_def f)
  show "snd (reconcile ss th now t) =
       filter (\<lambda>s. s_Status s = StatusWaitingApproval \<and> due th now t (s_ID s)) ss"
    using loop by (simp add: eq)
  show "wf_map (tk_since (fst (reconcile ss th now t)))" "wf_map (tk_notified (fst (reconcile ss th now t)))"
    using wf by (simp_all add: eq)
  show "mget (tk_since (fst (reconcile ss th now t))) i =
       (if waiting i ss then Some (since_of t now i) else None)"
  proof (cases "i \<in> s_ID ` set ss")
    case True
    then show ?thesis using loop by (simp add: eq mget_mkeep [OF wf(1)])
  next
    case False
    then show ?thesis using waiting_ids [of i ss]
      by (auto simp: eq mget_mkeep [OF wf(1)] split: option.splits)
  qed
  show "mget (tk_notified (fst (reconcile ss th now t))) i = Some True \<longleftrightarrow>
       waiting i ss \<and> (mget (tk_notified t) i = Some True \<or> due th now t i)"
  proof (cases "i \<in> s_ID ` set ss")
    case True
    then have "mget (tk_notified (fst (reconcile ss th now t))) i = mget (tk_notified t') i"
      by (simp add: eq mget_mkeep [OF wf(2)] split: option.splits)
    then show ?thesis using loop True by simp
  next
    case False
    then show ?thesis using waiting_ids [of i ss]
      by (auto simp: eq mget_mkeep [OF wf(2)] split: option.splits)
  qed
qed

subsection \<open>A run of the loop with one organisation\<close>

text \<open>
  \<open>ticks n\<close> is the instant of the \<open>n\<close>-th tick and the sessions it saw. An episode of a session
  starts at tick \<open>k\<close> when it waits from \<open>k\<close> on but did not wait at the tick before.
\<close>

fun tracker_at :: "int \<Rightarrow> (nat \<Rightarrow> int \<times> session list) \<Rightarrow> nat \<Rightarrow> tracker \<times> session list" where
  "tracker_at th ticks 0 = reconcile (snd (ticks 0)) th (fst (ticks 0)) newBlockedTracker"
| "tracker_at th ticks (Suc n) =
     reconcile (snd (ticks (Suc n))) th (fst (ticks (Suc n))) (fst (tracker_at th ticks n))"

definition episode :: "(nat \<Rightarrow> int \<times> session list) \<Rightarrow> string \<Rightarrow> nat \<Rightarrow> nat \<Rightarrow> bool" where
  "episode ticks i k n \<longleftrightarrow> k \<le> n \<and> (\<forall>j. k \<le> j \<and> j \<le> n \<longrightarrow> waiting i (snd (ticks j)))
     \<and> (k = 0 \<or> \<not> waiting i (snd (ticks (k - 1))))"

lemma episode_0: "episode ticks i k 0 \<longleftrightarrow> k = 0 \<and> waiting i (snd (ticks 0))"
  by (auto simp: episode_def)

lemma episode_Suc:
  "episode ticks i k (Suc n) \<longleftrightarrow> waiting i (snd (ticks (Suc n)))
     \<and> (episode ticks i k n \<or> k = Suc n \<and> \<not> waiting i (snd (ticks n)))"
  by (auto simp: episode_def le_Suc_eq)

lemma episode_ex: "waiting i (snd (ticks n)) \<Longrightarrow> \<exists>k. episode ticks i k n"
proof (induction n)
  case (Suc n)
  show ?case using Suc by (cases "waiting i (snd (ticks n))") (auto simp: episode_Suc)
qed (simp add: episode_0)

lemma episode_unique: "episode ticks i k n \<Longrightarrow> episode ticks i k' n \<Longrightarrow> k = k'"
proof (induction n)
  case (Suc n)
  have "episode ticks i k n \<Longrightarrow> waiting i (snd (ticks n))" for k by (simp add: episode_def)
  then show ?case using Suc by (auto simp: episode_Suc)
qed (simp add: episode_0)

lemma episode_waits: "episode ticks i k n \<Longrightarrow> waiting i (snd (ticks n)) \<and> k \<le> n"
  by (simp add: episode_def)


definition tracks :: "int \<Rightarrow> (nat \<Rightarrow> int \<times> session list) \<Rightarrow> nat \<Rightarrow> tracker \<Rightarrow> bool" where
  "tracks th ticks n t \<longleftrightarrow> wf_map (tk_since t) \<and> wf_map (tk_notified t)
     \<and> (\<forall>i k. episode ticks i k n \<longrightarrow> mget (tk_since t) i = Some (fst (ticks k))
          \<and> (mget (tk_notified t) i = Some True \<longleftrightarrow>
              (\<exists>j. k \<le> j \<and> j \<le> n \<and> th \<le> fst (ticks j) - fst (ticks k))))
     \<and> (\<forall>i. \<not> waiting i (snd (ticks n)) \<longrightarrow>
          mget (tk_since t) i = None \<and> mget (tk_notified t) i \<noteq> Some True)"

lemma tracks_prev:
  assumes t: "tracks th ticks n t" and e: "episode ticks i k (Suc n)"
  shows "since_of t (fst (ticks (Suc n))) i = fst (ticks k)"
    and "mget (tk_notified t) i = Some True \<longleftrightarrow>
      (\<exists>j. k \<le> j \<and> j \<le> n \<and> th \<le> fst (ticks j) - fst (ticks k))"
proof -
  have cases: "episode ticks i k n \<or> k = Suc n \<and> \<not> waiting i (snd (ticks n))"
    using e by (simp add: episode_Suc)
  then show "since_of t (fst (ticks (Suc n))) i = fst (ticks k)"
    using t by (auto simp: tracks_def since_of_def)
  from cases
  show "mget (tk_notified t) i = Some True \<longleftrightarrow>
      (\<exists>j. k \<le> j \<and> j \<le> n \<and> th \<le> fst (ticks j) - fst (ticks k))"
    using t by (auto simp: tracks_def)
qed

text \<open>The tracker before the first tick, as the tick before an episode of length one.\<close>

lemma tracks_step:
  assumes d: "distinct (map s_ID (snd (ticks n)))" and wf: "wf_map (tk_since t)" "wf_map (tk_notified t)"
    and since: "\<And>i k. episode ticks i k n \<Longrightarrow> since_of t (fst (ticks n)) i = fst (ticks k)"
    and noted: "\<And>i k. episode ticks i k n \<Longrightarrow> mget (tk_notified t) i = Some True \<longleftrightarrow>
      (\<exists>j. k \<le> j \<and> j < n \<and> th \<le> fst (ticks j) - fst (ticks k))"
  shows "tracks th ticks n (fst (reconcile (snd (ticks n)) th (fst (ticks n)) t))"
    and "i \<in> s_ID ` set (snd (reconcile (snd (ticks n)) th (fst (ticks n)) t)) \<longleftrightarrow>
      (\<exists>k. episode ticks i k n \<and> th \<le> fst (ticks n) - fst (ticks k)
        \<and> (\<forall>j. k \<le> j \<and> j < n \<longrightarrow> fst (ticks j) - fst (ticks k) < th))"
proof -
  note step = reconcile_step [OF d wf, where th = th and now = "fst (ticks n)"]
  have due: "due th (fst (ticks n)) t i \<longleftrightarrow> th \<le> fst (ticks n) - fst (ticks k)
        \<and> (\<forall>j. k \<le> j \<and> j < n \<longrightarrow> fst (ticks j) - fst (ticks k) < th)"
    if e: "episode ticks i k n" for i k
    using since [OF e] noted [OF e] by (auto simp: due_def not_le)
  have n: "(\<exists>j. k \<le> j \<and> j \<le> n \<and> P j) \<longleftrightarrow> P n \<or> (\<exists>j. k \<le> j \<and> j < n \<and> P j)"
    if "k \<le> n" for k and P :: "nat \<Rightarrow> bool"
    using that by (metis le_neq_implies_less less_imp_le order_refl)
  show "tracks th ticks n (fst (reconcile (snd (ticks n)) th (fst (ticks n)) t))"
    unfolding tracks_def
  proof (intro conjI allI impI)
    fix i k assume e: "episode ticks i k n"
    then have w: "waiting i (snd (ticks n))" and "k \<le> n" using episode_waits by blast+
    show "mget (tk_since (fst (reconcile (snd (ticks n)) th (fst (ticks n)) t))) i = Some (fst (ticks k))"
      using step(1) [of i] w since [OF e] by simp
    show "(mget (tk_notified (fst (reconcile (snd (ticks n)) th (fst (ticks n)) t))) i = Some True) =
        (\<exists>j. k \<le> j \<and> j \<le> n \<and> th \<le> fst (ticks j) - fst (ticks k))"
      unfolding step(2) n [OF \<open>k \<le> n\<close>, where P = "\<lambda>j. th \<le> fst (ticks j) - fst (ticks k)"]
      using w noted [OF e] due [OF e] by (auto simp: not_le)
  qed (use step in simp_all)
  show "i \<in> s_ID ` set (snd (reconcile (snd (ticks n)) th (fst (ticks n)) t)) \<longleftrightarrow>
      (\<exists>k. episode ticks i k n \<and> th \<le> fst (ticks n) - fst (ticks k)
        \<and> (\<forall>j. k \<le> j \<and> j < n \<longrightarrow> fst (ticks j) - fst (ticks k) < th))"
  proof -
    have "i \<in> s_ID ` set (snd (reconcile (snd (ticks n)) th (fst (ticks n)) t)) \<longleftrightarrow>
        waiting i (snd (ticks n)) \<and> due th (fst (ticks n)) t i"
      unfolding step(3) by (auto simp: waiting_def)
    then show ?thesis using due episode_ex [of i ticks n] episode_waits by blast
  qed
qed

lemma tracks_run:
  assumes d: "\<And>n. distinct (map s_ID (snd (ticks n)))"
  shows "tracks th ticks n (fst (tracker_at th ticks n))
    \<and> (i \<in> s_ID ` set (snd (tracker_at th ticks n)) \<longleftrightarrow>
      (\<exists>k. episode ticks i k n \<and> th \<le> fst (ticks n) - fst (ticks k)
        \<and> (\<forall>j. k \<le> j \<and> j < n \<longrightarrow> fst (ticks j) - fst (ticks k) < th)))"
proof (induction n)
  case 0
  have "wf_map (tk_since newBlockedTracker)" "wf_map (tk_notified newBlockedTracker)"
    by (simp_all add: newBlockedTracker_def wf_map_def)
  moreover have "since_of newBlockedTracker (fst (ticks 0)) i = fst (ticks k)"
    if "episode ticks i k 0" for i k
    using that by (simp add: episode_0 since_of_def newBlockedTracker_def)
  ultimately show ?case
    unfolding tracker_at.simps
    by (intro conjI tracks_step [OF d]) (simp_all add: newBlockedTracker_def)
next
  case (Suc n)
  let ?t = "fst (tracker_at th ticks n)"
  have t: "tracks th ticks n ?t" using Suc by blast
  then have wf: "wf_map (tk_since ?t)" "wf_map (tk_notified ?t)" by (simp_all add: tracks_def)
  show ?case
    unfolding tracker_at.simps
    by (intro conjI tracks_step [OF d wf]) (use tracks_prev [OF t] in \<open>simp_all add: less_Suc_eq_le\<close>)
qed

subsection \<open>Properties\<close>

text \<open>
  C20. Notifications of blocked sessions, with one organisation: a tick notifies a session
  exactly when the session is in an episode of waiting for approval, the episode has lasted for
  the threshold, and it had not at any earlier tick of the episode. So each episode is notified
  once at most, at the first tick that can, and a session that stops waiting is armed again.
\<close>

theorem blocked_notified_once_per_episode:
  assumes "\<And>n. distinct (map s_ID (snd (ticks n)))"
  shows "i \<in> s_ID ` set (snd (tracker_at th ticks n)) \<longleftrightarrow>
    (\<exists>k. episode ticks i k n \<and> th \<le> fst (ticks n) - fst (ticks k)
      \<and> (\<forall>j. k \<le> j \<and> j < n \<longrightarrow> fst (ticks j) - fst (ticks k) < th))"
  using tracks_run [of ticks th n i] assms by blast

definition blocked_ticks :: "nat \<Rightarrow> int \<times> session list" where
  "blocked_ticks n = (5 * int n, [zero_session\<lparr>s_ID := ''x'', s_Status := StatusWaitingApproval\<rparr>])"

theorem blocked_notified_once_per_episode_witness:
  "map (\<lambda>n. ''x'' \<in> s_ID ` set (snd (tracker_at 10 blocked_ticks n))) [0, 1, 2, 3] = [False, False, True, False]"
proof -
  have w: "waiting ''x'' (snd (blocked_ticks n))" for n by (simp add: waiting_def blocked_ticks_def)
  have e: "episode blocked_ticks ''x'' k n \<longleftrightarrow> k = 0" for k n
    using w by (auto simp: episode_def)
  have d: "\<And>n. distinct (map s_ID (snd (blocked_ticks n)))" by (simp add: blocked_ticks_def)
  have two: "2 \<le> m \<and> (\<forall>j<m. j < 2) \<longleftrightarrow> m = 2" for m :: nat by presburger
  have "''x'' \<in> s_ID ` set (snd (tracker_at 10 blocked_ticks n)) \<longleftrightarrow> n = 2" for n
    unfolding blocked_notified_once_per_episode [of blocked_ticks, OF d] e
    using two [of n] by (simp add: blocked_ticks_def)
  then show ?thesis by simp
qed


subsection \<open>The loop with several organisations\<close>

definition aged :: "int \<Rightarrow> tracker \<Rightarrow> bool" where
  "aged lo t \<longleftrightarrow> wf_map (tk_since t) \<and> wf_map (tk_notified t)
     \<and> (\<forall>i x. mget (tk_since t) i = Some x \<longrightarrow> lo \<le> x)"

text \<open>Nothing is due while all tracked instants are recent; only current sessions stay tracked.\<close>

lemma reconcile_aged:
  assumes "distinct (map s_ID ss)" "aged lo t" "lo \<le> now" "now - lo < th"
  shows "snd (reconcile ss th now t) = []" and "aged lo (fst (reconcile ss th now t))"
    and "mget (tk_since (fst (reconcile ss th now t))) i = Some x \<Longrightarrow> i \<in> s_ID ` set ss"
    and "(\<And>i. i \<in> s_ID ` set ss \<Longrightarrow> mget (tk_since t) i = None) \<Longrightarrow> aged now (fst (reconcile ss th now t))"
proof -
  have wf: "wf_map (tk_since t)" "wf_map (tk_notified t)" using assms(2) by (simp_all add: aged_def)
  note step = reconcile_step [OF assms(1) wf, where th = th and now = now]
  have lo: "lo \<le> since_of t now j" for j
    using assms(2,3) by (auto simp: since_of_def aged_def split: option.splits)
  then have "\<not> th \<le> now - since_of t now j" for j using assms(4) lo [of j] by linarith
  then have "\<not> due th now t j" for j by (simp add: due_def)
  then show "snd (reconcile ss th now t) = []" unfolding step(3) by simp
  show "aged lo (fst (reconcile ss th now t))"
    unfolding aged_def using step(1,4,5) lo by (auto split: if_splits)
  show "mget (tk_since (fst (reconcile ss th now t))) i = Some x \<Longrightarrow> i \<in> s_ID ` set ss"
    using waiting_ids [of i ss] by (simp add: step(1) split: if_splits)
  show "aged now (fst (reconcile ss th now t))" if "\<And>i. i \<in> s_ID ` set ss \<Longrightarrow> mget (tk_since t) i = None"
    unfolding aged_def using step(1,4,5) that waiting_ids
    by (auto simp: since_of_def split: if_splits)
qed

lemma blocked_org_quiet:
  assumes "distinct (map s_ID ss)" "aged lo t" "lo \<le> am_now (av 0)" "am_now (av 0) - lo < th"
  shows "blocked_org p post scan av th (s, t, k) (g, ss) = (s, fst (reconcile ss th (am_now (av 0)) t), k)"
  using reconcile_aged(1) [OF assms] by (simp add: blocked_org_def case_prod_unfold)

lemma blocked_fold_quiet:
  assumes "\<forall>x \<in> set L. distinct (map s_ID (snd x))"
    and "aged lo t" "lo \<le> am_now (av 0)" "am_now (av 0) - lo < th"
  shows "\<exists>t'. foldl (blocked_org p post scan av th) (s, t, k) L = (s, t', k) \<and> aged lo t'"
  using assms(1,2)
proof (induction L arbitrary: t)
  case (Cons o1 L)
  obtain g ss where o1: "o1 = (g, ss)" by fastforce
  have d: "distinct (map s_ID ss)" and dL: "\<forall>x \<in> set L. distinct (map s_ID (snd x))"
    using Cons.prems(1) by (simp_all add: o1)
  have t: "aged lo (fst (reconcile ss th (am_now (av 0)) t))"
    by (rule reconcile_aged(2) [OF d Cons.prems(2) assms(3,4)])
  show ?case
    using Cons.IH [OF dL t] by (simp add: o1 blocked_org_quiet [where lo = lo and av = av, OF d Cons.prems(2) assms(3,4)])
qed simp

lemma blocked_fold_resets:
  assumes d: "\<forall>x \<in> set (L @ [(g1, s1), (g2, s2)]). distinct (map s_ID (snd x))"
    and t: "aged lo t" "lo \<le> am_now (av 0)" "am_now (av 0) - lo < th"
    and disj: "s_ID ` set s1 \<inter> s_ID ` set s2 = {}"
  shows "\<exists>t'. foldl (blocked_org p post scan av th) (s, t, k) (L @ [(g1, s1), (g2, s2)]) = (s, t', k)
    \<and> aged (am_now (av 0)) t'"
proof -
  let ?now = "am_now (av 0)"
  obtain t1 where t1: "foldl (blocked_org p post scan av th) (s, t, k) L = (s, t1, k)" "aged lo t1"
    using blocked_fold_quiet [of L lo t av th p post scan s k] d t by auto
  have d1: "distinct (map s_ID s1)" and d2: "distinct (map s_ID s2)" using d by auto
  let ?t2 = "fst (reconcile s1 th ?now t1)"
  have t2: "aged lo ?t2" by (rule reconcile_aged(2) [OF d1 t1(2) t(2,3)])
  have "mget (tk_since ?t2) i = None" if "i \<in> s_ID ` set s2" for i
  proof (cases "mget (tk_since ?t2) i")
    case (Some x)
    then have "i \<in> s_ID ` set s1" by (rule reconcile_aged(3) [OF d1 t1(2) t(2,3)])
    then show ?thesis using disj that by blast
  qed simp
  then have "aged ?now (fst (reconcile s2 th ?now ?t2))" by (rule reconcile_aged(4) [OF d2 t2 t(2,3)])
  then show ?thesis
    by (simp add: t1 blocked_org_quiet [where av = av, OF d1 t1(2) t(2,3)] blocked_org_quiet [where av = av, OF d2 t2 t(2,3)])
qed

fun loop_tracker ::
  "push_sender \<Rightarrow> (push_sub \<Rightarrow> push_payload \<Rightarrow> nat option) \<Rightarrow> (sub_row list \<Rightarrow> sub_row list)
     \<Rightarrow> ((string \<times> org_state) list \<Rightarrow> (string \<times> org_state) list) \<Rightarrow> (nat \<Rightarrow> nat \<Rightarrow> ambient) \<Rightarrow> (nat \<Rightarrow> server)
     \<Rightarrow> nat \<Rightarrow> tracker" where
  "loop_tracker p post scan \<pi> av sv 0 = newBlockedTracker"
| "loop_tracker p post scan \<pi> av sv (Suc n) =
     snd (blocked_tick p post scan \<pi> (av n) (sv n) (loop_tracker p post scan \<pi> av sv n))"

text \<open>Two organisations have sessions, and no session id is live in two organisations.\<close>

definition two_orgs :: "manager \<Rightarrow> bool" where
  "two_orgs m \<longleftrightarrow> wf_manager m \<and> 2 \<le> length (filter (\<lambda>(g, os). os_sessions os \<noteq> []) (orgs m))
     \<and> (\<forall>g os g' os'. (g, os) \<in> set (orgs m) \<longrightarrow> (g', os') \<in> set (orgs m) \<longrightarrow> g \<noteq> g' \<longrightarrow>
          fst ` set (os_sessions os) \<inter> fst ` set (os_sessions os') = {})"

lemma last_two:
  assumes "2 \<le> length xs"
  shows "\<exists>ys x y. xs = ys @ [x, y]"
proof -
  obtain zs y where xs: "xs = zs @ [y]" using assms by (cases xs rule: rev_cases) auto
  then obtain ys x where "zs = ys @ [x]" using assms by (cases zs rule: rev_cases) auto
  then show ?thesis using xs by simp
qed

lemma AllSessions_two:
  assumes m: "two_orgs m" and r: "range_order \<pi>" "range_order \<sigma>"
  obtains L g1 s1 g2 s2 where "AllSessions \<pi> \<sigma> m = L @ [(g1, s1), (g2, s2)]"
    and "\<forall>x \<in> set (AllSessions \<pi> \<sigma> m). distinct (map s_ID (snd x))"
    and "s_ID ` set s1 \<inter> s_ID ` set s2 = {}"
proof -
  let ?A = "AllSessions \<pi> \<sigma> m" and ?P = "\<lambda>(g :: string, os). os_sessions os \<noteq> []"
  have wf: "wf_manager m" using m by (simp add: two_orgs_def)
  then have wm: "wf_map (orgs m)" by (simp add: wf_manager_def)
  have elem: "\<exists>os. (g, os) \<in> set (orgs m) \<and> ss = map snd (\<sigma> (os_sessions os))" if "(g, ss) \<in> set ?A" for g ss
    using that r(1) by (auto simp: AllSessions_def)
  have part: "wf_org os" if "(g, os) \<in> set (orgs m)" for g os
    using wf that set_mget [OF wm] by (auto simp: wf_manager_def)
  have ids: "map s_ID (map snd (os_sessions os)) = map fst (os_sessions os)" if "wf_org os" for os
    using that by (auto simp: wf_org_def set_mget)
  have d: "distinct (map s_ID (snd x))" if "x \<in> set ?A" for x
  proof -
    obtain g ss where x: "x = (g, ss)" by fastforce
    then obtain os where os: "(g, os) \<in> set (orgs m)" "ss = map snd (\<sigma> (os_sessions os))"
      using elem [of g ss] \<open>x \<in> set ?A\<close> by blast
    have "distinct (map s_ID (map snd (os_sessions os)))"
      using ids [OF part [OF os(1)]] part [OF os(1)] by (simp only: wf_org_def wf_map_def)
    then show ?thesis using r(2) by (simp add: x os(2) range_order_distinct_map)
  qed
  have set_ids: "s_ID ` set ss = fst ` set (os_sessions os)"
    if "(g, os) \<in> set (orgs m)" "ss = map snd (\<sigma> (os_sessions os))" for g os ss
  proof -
    have "s_ID ` set ss = set (map s_ID (map snd (os_sessions os)))" using r(2) that(2) by (simp add: image_image)
    also have "\<dots> = set (map fst (os_sessions os))" by (simp only: ids [OF part [OF that(1)]])
    finally show ?thesis by simp
  qed
  have "mset (filter ?P (\<pi> (orgs m))) = mset (filter ?P (orgs m))" by (rule mset_filter_range [OF r(1)])
  then have "length (filter ?P (\<pi> (orgs m))) = length (filter ?P (orgs m))" by (rule mset_eq_length)
  then have "length ?A = length (filter ?P (orgs m))" by (simp only: AllSessions_def length_map)
  then have "2 \<le> length ?A" using m by (simp add: two_orgs_def)
  then obtain L x y where xy: "?A = L @ [x, y]" using last_two by blast
  obtain g1 s1 g2 s2 where "x = (g1, s1)" "y = (g2, s2)" by fastforce
  with xy have split: "?A = L @ [(g1, s1), (g2, s2)]" by simp
  have "distinct (map fst (filter ?P (\<pi> (orgs m))))"
    using wm r(1) by (simp add: distinct_map_filter range_order_distinct_map wf_map_def)
  then have "distinct (map fst ?A)" by (simp add: AllSessions_def comp_def case_prod_unfold)
  then have "g1 \<noteq> g2" by (simp add: split)
  obtain o1 o2 where o: "(g1, o1) \<in> set (orgs m)" "s1 = map snd (\<sigma> (os_sessions o1))"
      "(g2, o2) \<in> set (orgs m)" "s2 = map snd (\<sigma> (os_sessions o2))"
    using elem [of g1 s1] elem [of g2 s2] by (auto simp: split)
  then have "s_ID ` set s1 \<inter> s_ID ` set s2 = {}"
    unfolding set_ids [OF o(1,2)] set_ids [OF o(3,4)] using m \<open>g1 \<noteq> g2\<close> unfolding two_orgs_def by blast
  with that [OF split] d show thesis by blast
qed

text \<open>
  With two organisations nobody is notified: the one tracker is reconciled against each
  organisation's sessions in turn and forgets the sessions of the others, so at every tick the
  server sends nothing and records nothing, however long sessions have been waiting, as long as
  two ticks are less than the threshold apart (the loop ticks every five seconds).
\<close>

theorem blocked_never_notified_with_two_orgs:
  assumes "\<And>n. two_orgs (sv_state (sv n))" and "range_order \<pi>" and "\<And>n. ok_ambient (av n 0)"
    and "\<And>n. 0 < cf_BlockedNotifySeconds (sv_cfg (sv n))"
    and "\<And>n. am_now (av n 0) \<le> am_now (av (Suc n) 0)"
    and "\<And>n. am_now (av (Suc n) 0) - am_now (av n 0) < cf_BlockedNotifySeconds (sv_cfg (sv n)) * second"
    and "\<And>n. sv_cfg (sv n) = cfg"
  shows "fst (blocked_tick p post scan \<pi> (av n) (sv n) (loop_tracker p post scan \<pi> av sv n)) = sv n"
proof -
  let ?th = "cf_BlockedNotifySeconds cfg * second"
  have tick: "fst (blocked_tick p post scan \<pi> (av n) (sv n) t) = sv n
      \<and> aged (am_now (av n 0)) (snd (blocked_tick p post scan \<pi> (av n) (sv n) t))"
    if t: "aged lo t" "lo \<le> am_now (av n 0)" "am_now (av n 0) - lo < ?th" for n t lo
  proof -
    have r: "range_order (am_sess (av n 0))" using assms(3) by (simp add: ok_ambient_def)
    obtain L g1 s1 g2 s2 where A: "AllSessions \<pi> (am_sess (av n 0)) (sv_state (sv n)) = L @ [(g1, s1), (g2, s2)]"
      and d: "\<forall>x \<in> set (L @ [(g1, s1), (g2, s2)]). distinct (map s_ID (snd x))"
      and disj: "s_ID ` set s1 \<inter> s_ID ` set s2 = {}"
      using AllSessions_two [OF assms(1) [of n] assms(2) r] by metis
    obtain t' where "foldl (blocked_org p post scan (av n) ?th) (sv n, t, 0) (L @ [(g1, s1), (g2, s2)]) = (sv n, t', 0)"
      "aged (am_now (av n 0)) t'"
      using blocked_fold_resets [where av = "av n" and th = ?th, OF d t disj] by blast
    then show ?thesis by (simp only: blocked_tick_def A assms(7) Let_def case_prod_conv fst_conv snd_conv)
  qed
  have gap: "am_now (av (Suc n) 0) - am_now (av n 0) < ?th" for n using assms(6) [of n] by (simp add: assms(7))
  have pos: "0 < ?th" using assms(4) [of 0] by (simp add: assms(7) second_def)
  have new: "aged lo newBlockedTracker" for lo by (simp add: aged_def newBlockedTracker_def wf_map_def)
  have "aged (am_now (av n 0)) (loop_tracker p post scan \<pi> av sv (Suc n))" for n
  proof (induction n)
    case 0
    show ?case using tick [OF new, of "am_now (av 0 0)" 0] pos by simp
  next
    case (Suc n)
    show ?case
      using tick [OF Suc.IH assms(5) gap] by (simp only: loop_tracker.simps)
  qed
  then have "\<exists>lo. aged lo (loop_tracker p post scan \<pi> av sv n) \<and> lo \<le> am_now (av n 0) \<and> am_now (av n 0) - lo < ?th"
    using new pos assms(5) gap by (cases n) (metis loop_tracker.simps(1) diff_self order_refl, metis)
  then show ?thesis using tick by blast
qed

definition blocked_session :: "string \<Rightarrow> session" where
  "blocked_session i = zero_session\<lparr>s_ID := i, s_Status := StatusWaitingApproval\<rparr>"

definition two_org_server :: server where
  "two_org_server = (sample_server [] [])\<lparr>
     sv_state := run_ops [OpSession ''a'' (blocked_session ''x''), OpSession ''b'' (blocked_session ''y'')] new_manager,
     sv_cfg := (sv_cfg (sample_server [] []))\<lparr>cf_BlockedNotifySeconds := 60\<rparr>\<rparr>"

lemma two_orgs_sample: "two_orgs (sv_state two_org_server)"
proof -
  let ?os = "\<lambda>i. newOrgState\<lparr>os_sessions := [(i, blocked_session i)]\<rparr>"
  have s: "orgs (sv_state two_org_server) = [(''a'', ?os ''x''), (''b'', ?os ''y'')]" by code_simp
  have "wf_manager (sv_state two_org_server)" by (simp add: two_org_server_def wf_manager_run_ops)
  then show ?thesis unfolding two_orgs_def s by simp
qed

definition sample_push :: push_sender where
  "sample_push = \<lparr>pc_Public = ''pub'', pc_Private = ''key'', pc_Subject = ''mailto:x''\<rparr>"

theorem blocked_never_notified_with_two_orgs_witness:
  "(\<forall>n. fst (blocked_tick sample_push (\<lambda>_ _. Some 201) id id (\<lambda>_. quiet\<lparr>am_now := 5 * int n * second\<rparr>) two_org_server
      (loop_tracker sample_push (\<lambda>_ _. Some 201) id id (\<lambda>n _. quiet\<lparr>am_now := 5 * int n * second\<rparr>)
        (\<lambda>_. two_org_server) n)) = two_org_server)
   \<and> waiting ''x'' (sn_Sessions (Snapshot_of id id ''a'' (sv_state two_org_server)))"
proof (intro conjI allI)
  show "waiting ''x'' (sn_Sessions (Snapshot_of id id ''a'' (sv_state two_org_server)))"
    unfolding waiting_def by code_simp
  fix n
  show "fst (blocked_tick sample_push (\<lambda>_ _. Some 201) id id (\<lambda>_. quiet\<lparr>am_now := 5 * int n * second\<rparr>) two_org_server
      (loop_tracker sample_push (\<lambda>_ _. Some 201) id id (\<lambda>n _. quiet\<lparr>am_now := 5 * int n * second\<rparr>)
        (\<lambda>_. two_org_server) n)) = two_org_server"
    by (rule blocked_never_notified_with_two_orgs [where av = "\<lambda>n _. quiet\<lparr>am_now := 5 * int n * second\<rparr>"
          and sv = "\<lambda>_. two_org_server" and cfg = "sv_cfg two_org_server"])
       (rule two_orgs_sample | simp add: ok_ambient_def quiet_def two_org_server_def second_def)+
qed

end
