(* ===== verification/Agent_Events.thy ===== *)
theory Agent_Events
  imports Protocol
begin

section \<open>Activity events of a session\<close>

text \<open>
  Models the detection of \<open>internal/agent/events.go\<close>: which events the agent reports when a poll
  finds a session in a new state. The events carry no id, machine or time; \<open>emitEvent\<close> of the
  runtime stamps them. \<open>right_arrow\<close> is the arrow of the messages in UTF-8.
\<close>

definition right_arrow :: string where
  "right_arrow = [CHR 0xE2, CHR 0x86, CHR 0x92]"

definition sessionLabel :: "session \<Rightarrow> string" where
  "sessionLabel s =
     (if s_Repo s \<noteq> '''' then
        (if s_Branch s \<noteq> '''' then s_Repo s @ '' ('' @ s_Branch s @ '')'' else s_Repo s)
      else if s_CWD s \<noteq> '''' then s_CWD s else s_ID s)"

definition severityForStatus :: "string \<Rightarrow> string" where
  "severityForStatus status =
     (if status = StatusError then SeverityError
      else if status = StatusWaitingApproval then SeverityWarn
      else if status = StatusFinished then SeveritySuccess else SeverityInfo)"

definition newestCommit :: "session \<Rightarrow> string" where
  "newestCommit s =
     (case s_Git s of None \<Rightarrow> ''''
      | Some g \<Rightarrow> (case g_RecentCommits g of [] \<Rightarrow> '''' | c # _ \<Rightarrow> c_Hash c))"

definition commitSubject :: "session \<Rightarrow> string" where
  "commitSubject s =
     (case s_Git s of None \<Rightarrow> ''''
      | Some g \<Rightarrow> (case g_RecentCommits g of [] \<Rightarrow> '''' | c # _ \<Rightarrow> c_Message c))"

definition orNone :: "string \<Rightarrow> string" where
  "orNone s = (if s = '''' then ''(none)'' else s)"

definition mk_event :: "session \<Rightarrow> string \<Rightarrow> string \<Rightarrow> string \<Rightarrow> (string, string) gomap \<Rightarrow> event" where
  "mk_event cur kind msg sev meta =
     \<lparr>e_ID = '''', e_MachineID = '''', e_SessionID = s_ID cur, e_Kind = kind, e_Message = msg,
       e_Severity = sev, e_TS = 0, e_Meta = meta\<rparr>"

definition diffSessionEvents :: "session \<Rightarrow> session \<Rightarrow> bool \<Rightarrow> event list" where
  "diffSessionEvents prev cur existed =
     (let label = sessionLabel cur in
      if \<not> existed then
        [mk_event cur EventSessionStarted (''Session started '' @ middot @ '' '' @ label) SeveritySuccess
           [(''repo'', s_Repo cur), (''branch'', s_Branch cur), (''pid'', itoa (s_PID cur))]]
      else
        (let out = [];
             out = (if s_Status prev \<noteq> s_Status cur
                    then out @ [mk_event cur EventStatusChanged
                           (s_Status prev @ '' '' @ right_arrow @ '' '' @ s_Status cur @ '' '' @ middot @ '' '' @ label)
                           (severityForStatus (s_Status cur))
                           [(''from'', s_Status prev), (''to'', s_Status cur)]]
                    else out);
             out = (if s_Branch prev \<noteq> s_Branch cur \<and> s_Branch cur \<noteq> ''''
                    then out @ [mk_event cur EventBranchChanged
                           (''Switched branch '' @ orNone (s_Branch prev) @ '' '' @ right_arrow @ '' '' @ s_Branch cur
                              @ '' '' @ middot @ '' '' @ s_Repo cur)
                           SeverityInfo [(''from'', s_Branch prev), (''to'', s_Branch cur)]]
                    else out);
             h = newestCommit cur;
             out = (if h \<noteq> '''' \<and> h \<noteq> newestCommit prev
                    then out @ [mk_event cur EventCommitCreated
                           (''New commit on '' @ s_Branch cur @ '' '' @ middot @ '' '' @ commitSubject cur)
                           SeveritySuccess [(''hash'', h), (''branch'', s_Branch cur)]]
                    else out)
         in out))"

lemma diff_session_ids: "\<forall>e \<in> set (diffSessionEvents prev cur existed). e_SessionID e = s_ID cur"
  by (simp add: diffSessionEvents_def mk_event_def Let_def)

lemma diff_kinds:
  "map e_Kind (diffSessionEvents prev cur True) =
     (if s_Status prev \<noteq> s_Status cur then [EventStatusChanged] else [])
     @ (if s_Branch prev \<noteq> s_Branch cur \<and> s_Branch cur \<noteq> '''' then [EventBranchChanged] else [])
     @ (if newestCommit cur \<noteq> '''' \<and> newestCommit cur \<noteq> newestCommit prev then [EventCommitCreated] else [])"
  by (simp add: diffSessionEvents_def mk_event_def Let_def)

text \<open>
  Polling a session that did not change reports nothing, and the statuses reported over a sequence of
  polls chain up: each change starts at the status the previous one ended at.
\<close>

lemma diff_unchanged: "diffSessionEvents s s True = []"
  by (simp add: diffSessionEvents_def Let_def)

definition status_changes :: "session list \<Rightarrow> (string \<times> string) list" where
  "status_changes ss =
     map (\<lambda>e. (the (mget (e_Meta e) ''from''), the (mget (e_Meta e) ''to'')))
       (filter (\<lambda>e. e_Kind e = EventStatusChanged)
          (concat (map (\<lambda>(p, c). diffSessionEvents p c True) (zip ss (tl ss)))))"

lemma status_changes_Cons:
  "status_changes (p # c # ss) =
     (if s_Status p \<noteq> s_Status c then [(s_Status p, s_Status c)] else []) @ status_changes (c # ss)"
  by (auto simp: status_changes_def diffSessionEvents_def mk_event_def Let_def mget_Cons)

text \<open>
  The status events of a run of polls are exactly the steps of the sequence of statuses without its
  repetitions.
\<close>

theorem status_events_trace:
  "status_changes ss =
     (let st = remdups_adj (map s_Status ss) in zip st (tl st))"
proof (induction ss rule: induct_list012)
  case (3 p c ss)
  obtain xs where xs: "remdups_adj (map s_Status (c # ss)) = s_Status c # xs"
    using remdups_adj_Cons_alt [of "s_Status c" "map s_Status ss"] by (metis list.simps(9))
  then have "remdups_adj (map s_Status (p # c # ss)) =
      (if s_Status p = s_Status c then [] else [s_Status p]) @ s_Status c # xs" by simp
  then show ?case using 3(2) xs by (simp add: status_changes_Cons Let_def)
qed (simp_all add: status_changes_def)

end
