(* ===== verification/Go_Base64.thy ===== *)
theory Go_Base64
  imports Go_Lib
begin

section \<open>Standard base64\<close>

text \<open>
  \<open>base64.StdEncoding\<close> of Go's library: terminal data travels in this encoding. Decoding skips
  carriage returns and newlines, wants full quanta with padding, and ignores trailing bits.
\<close>

definition b64_alphabet :: string where
  "b64_alphabet = ''ABCDEFGHIJKLMNOPQRSTUVWXYZabcdefghijklmnopqrstuvwxyz0123456789+/''"

definition enc6 :: "nat \<Rightarrow> char" where
  "enc6 n = b64_alphabet ! (n mod 64)"

definition dec6 :: "char \<Rightarrow> nat option" where
  "dec6 c = index_byte b64_alphabet c"

fun b64_encode :: "string \<Rightarrow> string" where
  "b64_encode [] = []"
| "b64_encode [x] =
     (let a = of_char x :: nat in [enc6 (a div 4), enc6 (a mod 4 * 16), CHR ''='', CHR ''=''])"
| "b64_encode [x, y] =
     (let a = of_char x :: nat; b = of_char y
      in [enc6 (a div 4), enc6 (a mod 4 * 16 + b div 16), enc6 (b mod 16 * 4), CHR ''=''])"
| "b64_encode (x # y # z # s) =
     (let a = of_char x :: nat; b = of_char y; c = of_char z
      in [enc6 (a div 4), enc6 (a mod 4 * 16 + b div 16), enc6 (b mod 16 * 4 + c div 64), enc6 (c mod 64)]
         @ b64_encode s)"

fun b64_quanta :: "string \<Rightarrow> string option" where
  "b64_quanta [] = Some []"
| "b64_quanta (p # q # r # t # s) =
     (case (dec6 p, dec6 q) of
        (Some a, Some b) \<Rightarrow>
          (if r = CHR ''='' \<and> t = CHR ''='' then (if s = [] then Some [char_of (a * 4 + b div 16)] else None)
           else case dec6 r of None \<Rightarrow> None
             | Some c \<Rightarrow>
                 if t = CHR ''=''
                 then (if s = [] then Some [char_of (a * 4 + b div 16), char_of (b mod 16 * 16 + c div 4)] else None)
                 else (case (dec6 t, b64_quanta s) of
                         (Some d, Some rest) \<Rightarrow>
                           Some (char_of (a * 4 + b div 16) # char_of (b mod 16 * 16 + c div 4)
                                 # char_of (c mod 4 * 64 + d) # rest)
                       | _ \<Rightarrow> None))
      | _ \<Rightarrow> None)"
| "b64_quanta _ = None"

definition b64_decode :: "string \<Rightarrow> string option" where
  "b64_decode s = b64_quanta (filter (\<lambda>c. c \<noteq> CHR 0x0D \<and> c \<noteq> CHR 0x0A) s)"

lemma alphabet_all:
  "list_all (\<lambda>n. dec6 (enc6 n) = Some n \<and> enc6 n \<noteq> CHR ''='' \<and> enc6 n \<noteq> CHR 0x0D \<and> enc6 n \<noteq> CHR 0x0A) [0..<64]"
  by code_simp

lemma enc6_facts:
  assumes "n < 64"
  shows "dec6 (enc6 n) = Some n" "enc6 n \<noteq> CHR ''=''" "enc6 n \<noteq> CHR 0x0D" "enc6 n \<noteq> CHR 0x0A"
  using alphabet_all assms by (auto simp: list_all_iff)

lemmas of_char_256 = nat_of_char_less_256

lemma sextets:
  fixes a b c :: nat
  assumes "b < 256" "c < 256"
  shows "a div 4 * 4 + (a mod 4 * 16 + b div 16) div 16 = a"
    and "(a mod 4 * 16 + b div 16) mod 16 * 16 + b mod 16 * 4 div 4 = b"
    and "(a mod 4 * 16 + b div 16) mod 16 * 16 + (b mod 16 * 4 + c div 64) div 4 = b"
    and "(b mod 16 * 4 + c div 64) mod 4 * 64 + c mod 64 = c"
proof -
  have digits: "(k * n + m) div n = k" "(k * n + m) mod n = m" if "m < n" for k n m :: nat using that by simp_all
  have lt: "b div 16 < 16" "c div 64 < 4" using assms by linarith+
  show "a div 4 * 4 + (a mod 4 * 16 + b div 16) div 16 = a"
    by (simp only: digits(1) [OF lt(1)] div_mult_mod_eq)
  show "(a mod 4 * 16 + b div 16) mod 16 * 16 + b mod 16 * 4 div 4 = b"
    by (simp only: digits(2) [OF lt(1)] div_mult_mod_eq) simp
  show "(a mod 4 * 16 + b div 16) mod 16 * 16 + (b mod 16 * 4 + c div 64) div 4 = b"
    by (simp only: digits(2) [OF lt(1)] digits(1) [OF lt(2)] div_mult_mod_eq)
  show "(b mod 16 * 4 + c div 64) mod 4 * 64 + c mod 64 = c"
    by (simp only: digits(2) [OF lt(2)] div_mult_mod_eq)
qed

lemma b64_plain: "\<forall>c \<in> set (b64_encode s). c \<noteq> CHR 0x0D \<and> c \<noteq> CHR 0x0A"
proof (induction s rule: b64_encode.induct)
  case (4 x y z s)
  have "enc6 n \<noteq> CHR 0x0D \<and> enc6 n \<noteq> CHR 0x0A" for n
    using enc6_facts [of "n mod 64"] by (simp add: enc6_def)
  then show ?case using 4 by (auto simp: Let_def)
next
  case (2 x)
  have "enc6 n \<noteq> CHR 0x0D \<and> enc6 n \<noteq> CHR 0x0A" for n
    using enc6_facts [of "n mod 64"] by (simp add: enc6_def)
  then show ?case by (auto simp: Let_def)
next
  case (3 x y)
  have "enc6 n \<noteq> CHR 0x0D \<and> enc6 n \<noteq> CHR 0x0A" for n
    using enc6_facts [of "n mod 64"] by (simp add: enc6_def)
  then show ?case by (auto simp: Let_def)
qed simp

lemma b64_quanta_encode: "b64_quanta (b64_encode s) = Some s"
proof (induction s rule: b64_encode.induct)
  case (2 x)
  let ?a = "of_char x :: nat"
  have "?a div 4 < 64" "?a mod 4 * 16 < 64" using of_char_256 [of x] by linarith+
  moreover have "?a div 4 * 4 + ?a mod 4 * 16 div 16 = ?a" by simp
  ultimately show ?case by (simp add: Let_def enc6_facts)
next
  case (3 x y)
  let ?a = "of_char x :: nat" and ?b = "of_char y :: nat"
  have lt: "?a div 4 < 64" "?a mod 4 * 16 + ?b div 16 < 64" "?b mod 16 * 4 < 64"
    using of_char_256 [of x] of_char_256 [of y] by linarith+
  have eq: "?a div 4 * 4 + (?a mod 4 * 16 + ?b div 16) div 16 = ?a"
    "(?a mod 4 * 16 + ?b div 16) mod 16 * 16 + ?b mod 16 * 4 div 4 = ?b"
    using sextets(1,2) [OF of_char_256 of_char_256] by blast+
  show ?case by (simp only: b64_encode.simps Let_def b64_quanta.simps enc6_facts [OF lt(1)]
      enc6_facts [OF lt(2)] enc6_facts [OF lt(3)] option.case prod.case eq if_False if_True simp_thms char_of_char)
next
  case (4 x y z s)
  let ?a = "of_char x :: nat" and ?b = "of_char y :: nat" and ?c = "of_char z :: nat"
  have lt: "?a div 4 < 64" "?a mod 4 * 16 + ?b div 16 < 64" "?b mod 16 * 4 + ?c div 64 < 64" "?c mod 64 < 64"
    using of_char_256 [of x] of_char_256 [of y] of_char_256 [of z] by linarith+
  have eq: "?a div 4 * 4 + (?a mod 4 * 16 + ?b div 16) div 16 = ?a"
    "(?a mod 4 * 16 + ?b div 16) mod 16 * 16 + (?b mod 16 * 4 + ?c div 64) div 4 = ?b"
    "(?b mod 16 * 4 + ?c div 64) mod 4 * 64 + ?c mod 64 = ?c"
    using sextets(1,3,4) [OF of_char_256 of_char_256] by blast+
  show ?case
    by (simp only: b64_encode.simps Let_def append_Cons append_Nil b64_quanta.simps enc6_facts [OF lt(1)]
      enc6_facts [OF lt(2)] enc6_facts [OF lt(3)] enc6_facts [OF lt(4)] option.case prod.case eq if_False
      simp_thms char_of_char 4)
qed simp

lemma b64_roundtrip [simp]: "b64_decode (b64_encode s) = Some s"
proof -
  have "filter (\<lambda>c. c \<noteq> CHR 0x0D \<and> c \<noteq> CHR 0x0A) (b64_encode s) = b64_encode s"
    using b64_plain [of s] by (simp add: filter_id_conv)
  then show ?thesis by (simp add: b64_decode_def b64_quanta_encode)
qed

end
