(* ===== verification/Agent_Terminal.thy ===== *)
theory Agent_Terminal
  imports Go_Base64 "HOL-Library.Word"
begin

section \<open>The agent's terminals\<close>

text \<open>
  Models \<open>internal/agent/terminal.go\<close>: the pseudo-terminals and tmux mirrors an agent runs. A
  session is an object on a heap, its handle is its index; the manager's map names the current
  session of a terminal id. The goroutines of a session are operations of their own: a read of the
  pty, its end, a frame of the mirror, the re-assertion of its size. Each operation returns the
  callbacks it makes; what it does to processes and panes is appended to a trace.
\<close>

datatype pty_kind = KindPty | KindTmux string

record pty_session =
  ps_id :: string
  ps_kind :: pty_kind
  ps_closed :: bool
  ps_ended :: bool
  ps_desired :: "int \<times> int"
  ps_reassert :: "int option"

datatype term_fx =
    FxStart nat "string list" string "string list" "16 word" "16 word"
  | FxWrite nat string
  | FxSetsize nat "16 word" "16 word"
  | FxKeys string string
  | FxResize string int int
  | FxStop nat
  | FxKill nat

datatype term_cb =
    CbOpened string string bool string
  | CbOutput string string
  | CbExit string int

record term_mgr =
  tm_heap :: "pty_session list"
  tm_sessions :: "(string, nat) gomap"
  tm_fx :: "term_fx list"

definition newTermManager :: term_mgr where
  "newTermManager = \<lparr>tm_heap = [], tm_sessions = [], tm_fx = []\<rparr>"

definition tm_do :: "term_fx list \<Rightarrow> term_mgr \<Rightarrow> term_mgr" where
  "tm_do fx m = m\<lparr>tm_fx := tm_fx m @ fx\<rparr>"

definition set_ps :: "nat \<Rightarrow> pty_session \<Rightarrow> term_mgr \<Rightarrow> term_mgr" where
  "set_ps h p m = m\<lparr>tm_heap := (tm_heap m)[h := p]\<rparr>"

definition new_ps :: "string \<Rightarrow> pty_kind \<Rightarrow> pty_session" where
  "new_ps i k = \<lparr>ps_id = i, ps_kind = k, ps_closed = False, ps_ended = False, ps_desired = (0, 0),
     ps_reassert = None\<rparr>"

definition setDesired :: "int \<Rightarrow> int \<Rightarrow> pty_session \<Rightarrow> pty_session" where
  "setDesired cols rows p = p\<lparr>ps_desired := (cols, rows)\<rparr>"

definition getDesired :: "pty_session \<Rightarrow> int \<times> int" where
  "getDesired p = ps_desired p"

text \<open>\<open>close\<close>: once, stop the goroutines, and kill the process of a pty.\<close>

definition ps_close :: "nat \<Rightarrow> term_mgr \<Rightarrow> term_mgr" where
  "ps_close h m =
     (let p = tm_heap m ! h in
      if length (tm_heap m) \<le> h \<or> ps_closed p then m
      else tm_do (FxStop h # (if ps_kind p = KindPty then [FxKill h] else []))
             (set_ps h (p\<lparr>ps_closed := True\<rparr>) m))"

text \<open>\<open>start\<close> is the error of \<open>pty.StartWithSize\<close>.\<close>

definition term_Open ::
  "string option \<Rightarrow> string \<Rightarrow> string \<Rightarrow> string list \<Rightarrow> string \<Rightarrow> string list \<Rightarrow> int \<Rightarrow> int \<Rightarrow> term_mgr
     \<Rightarrow> term_mgr \<times> term_cb list" where
  "term_Open start ptyID sessionID argv cwd extraEnv cols rows m =
     (if argv = [] then (m, [CbOpened ptyID sessionID False ''empty command''])
      else case start of
        Some e \<Rightarrow> (m, [CbOpened ptyID sessionID False e])
      | None \<Rightarrow>
          (let h = length (tm_heap m);
               m = tm_do [FxStart h argv cwd extraEnv (word_of_int cols) (word_of_int rows)] m;
               m = m\<lparr>tm_heap := tm_heap m @ [new_ps ptyID KindPty]\<rparr>
           in (m\<lparr>tm_sessions := mput ptyID h (tm_sessions m)\<rparr>, [CbOpened ptyID sessionID True ''''])))"

definition term_remove :: "string \<Rightarrow> term_mgr \<Rightarrow> term_mgr \<times> nat option" where
  "term_remove ptyID m = (m\<lparr>tm_sessions := mdel ptyID (tm_sessions m)\<rparr>, mget (tm_sessions m) ptyID)"

definition term_live :: "nat \<Rightarrow> term_mgr \<Rightarrow> bool" where
  "term_live h m \<longleftrightarrow> h < length (tm_heap m) \<and> \<not> ps_ended (tm_heap m ! h)"

text \<open>A read of the pty that returned bytes.\<close>

definition pty_read :: "nat \<Rightarrow> string \<Rightarrow> term_mgr \<Rightarrow> term_mgr \<times> term_cb list" where
  "pty_read h chunk m =
     (if term_live h m \<and> ps_kind (tm_heap m ! h) = KindPty \<and> chunk \<noteq> []
      then (m, [CbOutput (ps_id (tm_heap m ! h)) chunk]) else (m, []))"

text \<open>The result of waiting for the process: success, an exit code, another error.\<close>

datatype wait_result = WaitOK | WaitExit int | WaitError

definition exit_code :: "wait_result \<Rightarrow> int" where
  "exit_code w = (case w of WaitOK \<Rightarrow> 0 | WaitExit c \<Rightarrow> c | WaitError \<Rightarrow> 1)"

definition pty_end :: "nat \<Rightarrow> wait_result \<Rightarrow> term_mgr \<Rightarrow> term_mgr \<times> term_cb list" where
  "pty_end h w m =
     (if \<not> (term_live h m \<and> ps_kind (tm_heap m ! h) = KindPty) then (m, [])
      else (let p = tm_heap m ! h; m = set_ps h (p\<lparr>ps_ended := True\<rparr>) m
            in (fst (term_remove (ps_id p) m), [CbExit (ps_id p) (exit_code w)])))"

subsection \<open>Mirrors of tmux panes\<close>

definition AttachTmux ::
  "bool \<Rightarrow> string \<Rightarrow> string \<Rightarrow> string \<Rightarrow> int \<Rightarrow> int \<Rightarrow> term_mgr \<Rightarrow> term_mgr \<times> term_cb list" where
  "AttachTmux exists ptyID sessionID target cols rows m =
     (if \<not> exists then (m, [CbOpened ptyID sessionID False ''tmux session not found''])
      else
        (let h = length (tm_heap m);
             p = setDesired cols rows (new_ps ptyID (KindTmux target));
             m = m\<lparr>tm_heap := tm_heap m @ [p]\<rparr>;
             m = m\<lparr>tm_sessions := mput ptyID h (tm_sessions m)\<rparr>;
             m = (if 0 < cols \<and> 0 < rows then tm_do [FxResize target cols rows] m else m)
         in (m, [CbOpened ptyID sessionID True ''''])))"

definition second_nanos :: int where
  "second_nanos = 1000000000"

definition tmux_reassert :: "int \<Rightarrow> nat \<Rightarrow> term_mgr \<Rightarrow> term_mgr" where
  "tmux_reassert now h m =
     (let p = tm_heap m ! h in
      case ps_kind p of
        KindPty \<Rightarrow> m
      | KindTmux target \<Rightarrow>
          if \<not> term_live h m \<or> (case ps_reassert p of None \<Rightarrow> False | Some t \<Rightarrow> now - t < second_nanos) then m
          else (let m = set_ps h (p\<lparr>ps_reassert := Some now\<rparr>) m; (cw, rw) = getDesired p
                in if 0 < cw \<and> 0 < rw then tm_do [FxResize target cw rw] m else m))"

definition tmux_frame :: "nat \<Rightarrow> string \<Rightarrow> term_mgr \<Rightarrow> term_mgr \<times> term_cb list" where
  "tmux_frame h frame m =
     (if term_live h m \<and> ps_kind (tm_heap m ! h) \<noteq> KindPty
      then (m, [CbOutput (ps_id (tm_heap m ! h)) frame]) else (m, []))"

text \<open>The capture loop returns once its context is done.\<close>

definition tmux_done :: "nat \<Rightarrow> term_mgr \<Rightarrow> term_mgr" where
  "tmux_done h m =
     (let p = tm_heap m ! h in
      if term_live h m \<and> ps_kind p \<noteq> KindPty \<and> ps_closed p then set_ps h (p\<lparr>ps_ended := True\<rparr>) m else m)"

subsection \<open>Input, size, closing\<close>

definition term_Input :: "string \<Rightarrow> string \<Rightarrow> term_mgr \<Rightarrow> term_mgr" where
  "term_Input ptyID b64 m =
     (case mget (tm_sessions m) ptyID of None \<Rightarrow> m
      | Some h \<Rightarrow>
          (case b64_decode b64 of None \<Rightarrow> m
           | Some data \<Rightarrow>
               (case ps_kind (tm_heap m ! h) of
                  KindTmux target \<Rightarrow> tm_do [FxKeys target data] m
                | KindPty \<Rightarrow> tm_do [FxWrite h data] m)))"

definition term_Resize :: "string \<Rightarrow> int \<Rightarrow> int \<Rightarrow> term_mgr \<Rightarrow> term_mgr" where
  "term_Resize ptyID cols rows m =
     (case mget (tm_sessions m) ptyID of None \<Rightarrow> m
      | Some h \<Rightarrow>
          (let p = tm_heap m ! h in
           case ps_kind p of
             KindTmux target \<Rightarrow> tm_do [FxResize target cols rows] (set_ps h (setDesired cols rows p) m)
           | KindPty \<Rightarrow> tm_do [FxSetsize h (word_of_int cols) (word_of_int rows)] m))"

definition term_Close :: "string \<Rightarrow> term_mgr \<Rightarrow> term_mgr" where
  "term_Close ptyID m =
     (case term_remove ptyID m of (m, None) \<Rightarrow> m | (m, Some h) \<Rightarrow> ps_close h m)"

text \<open>\<open>\<pi>\<close> is the order in which Go ranges over the sessions.\<close>

definition CloseAll :: "((string \<times> nat) list \<Rightarrow> (string \<times> nat) list) \<Rightarrow> term_mgr \<Rightarrow> term_mgr" where
  "CloseAll \<pi> m =
     (let all = map snd (\<pi> (tm_sessions m)); m = m\<lparr>tm_sessions := []\<rparr>
      in foldl (\<lambda>m h. ps_close h m) m all)"

subsection \<open>Runs\<close>

datatype term_op =
    TOpen "string option" string string "string list" string "string list" int int
  | TAttach bool string string string int int
  | TRead nat string
  | TEnd nat wait_result
  | TReassert int nat
  | TFrame nat string
  | TDone nat
  | TInput string string
  | TResize string int int
  | TClose string

fun exec_term :: "term_op \<Rightarrow> term_mgr \<Rightarrow> term_mgr" where
  "exec_term (TOpen e i sid argv cwd env c r) m = fst (term_Open e i sid argv cwd env c r m)"
| "exec_term (TAttach x i sid t c r) m = fst (AttachTmux x i sid t c r m)"
| "exec_term (TRead h d) m = fst (pty_read h d m)"
| "exec_term (TEnd h w) m = fst (pty_end h w m)"
| "exec_term (TReassert now h) m = tmux_reassert now h m"
| "exec_term (TFrame h f) m = fst (tmux_frame h f m)"
| "exec_term (TDone h) m = tmux_done h m"
| "exec_term (TInput i b) m = term_Input i b m"
| "exec_term (TResize i c r) m = term_Resize i c r m"
| "exec_term (TClose i) m = term_Close i m"

definition run_term :: "term_op list \<Rightarrow> term_mgr \<Rightarrow> term_mgr" where
  "run_term ops m = foldl (\<lambda>m op. exec_term op m) m ops"

fun opened_id :: "term_op \<Rightarrow> string list" where
  "opened_id (TOpen e i sid argv cwd env c r) = [i]"
| "opened_id (TAttach x i sid t c r) = [i]"
| "opened_id _ = []"

text \<open>
  Every session that is neither closed nor ended is the one its id names, and exactly the closed
  ptys have been killed.
\<close>

definition wf_term :: "term_mgr \<Rightarrow> bool" where
  "wf_term m \<longleftrightarrow> wf_map (tm_sessions m) \<and> distinct (map ps_id (tm_heap m))
     \<and> (\<forall>k h. mget (tm_sessions m) k = Some h \<longrightarrow> h < length (tm_heap m) \<and> ps_id (tm_heap m ! h) = k)
     \<and> (\<forall>h < length (tm_heap m). \<not> ps_closed (tm_heap m ! h) \<and> \<not> ps_ended (tm_heap m ! h) \<longrightarrow>
          mget (tm_sessions m) (ps_id (tm_heap m ! h)) = Some h)
     \<and> (\<forall>h. FxKill h \<in> set (tm_fx m) \<longleftrightarrow>
          h < length (tm_heap m) \<and> ps_kind (tm_heap m ! h) = KindPty \<and> ps_closed (tm_heap m ! h))"

lemma wf_termD:
  assumes "wf_term m"
  shows "wf_map (tm_sessions m)" "distinct (map ps_id (tm_heap m))"
    "\<And>k h. mget (tm_sessions m) k = Some h \<Longrightarrow> h < length (tm_heap m) \<and> ps_id (tm_heap m ! h) = k"
    "\<And>h. h < length (tm_heap m) \<Longrightarrow> \<not> ps_closed (tm_heap m ! h) \<Longrightarrow> \<not> ps_ended (tm_heap m ! h) \<Longrightarrow>
          mget (tm_sessions m) (ps_id (tm_heap m ! h)) = Some h"
    "\<And>h. FxKill h \<in> set (tm_fx m) \<longleftrightarrow>
          h < length (tm_heap m) \<and> ps_kind (tm_heap m ! h) = KindPty \<and> ps_closed (tm_heap m ! h)"
  using assms unfolding wf_term_def by blast+

lemma wf_termI:
  assumes "wf_map (tm_sessions m)" "distinct (map ps_id (tm_heap m))"
    "\<And>k h. mget (tm_sessions m) k = Some h \<Longrightarrow> h < length (tm_heap m) \<and> ps_id (tm_heap m ! h) = k"
    "\<And>h. h < length (tm_heap m) \<Longrightarrow> \<not> ps_closed (tm_heap m ! h) \<Longrightarrow> \<not> ps_ended (tm_heap m ! h) \<Longrightarrow>
          mget (tm_sessions m) (ps_id (tm_heap m ! h)) = Some h"
    "\<And>h. FxKill h \<in> set (tm_fx m) \<longleftrightarrow>
          h < length (tm_heap m) \<and> ps_kind (tm_heap m ! h) = KindPty \<and> ps_closed (tm_heap m ! h)"
  shows "wf_term m"
  using assms unfolding wf_term_def by blast

lemma set_ps_simps [simp]:
  "tm_sessions (set_ps h p m) = tm_sessions m" "tm_fx (set_ps h p m) = tm_fx m"
  "tm_heap (set_ps h p m) = (tm_heap m)[h := p]"
  "tm_sessions (tm_do fx m) = tm_sessions m" "tm_heap (tm_do fx m) = tm_heap m" "tm_fx (tm_do fx m) = tm_fx m @ fx"
  by (simp_all add: set_ps_def tm_do_def)

lemma wf_tm_do: "wf_term m \<Longrightarrow> \<forall>h. FxKill h \<notin> set fx \<Longrightarrow> wf_term (tm_do fx m)"
  by (simp add: wf_term_def)

lemma map_ps_id_update:
  "h < length xs \<Longrightarrow> ps_id p = ps_id (xs ! h) \<Longrightarrow> map ps_id (xs[h := p]) = map ps_id xs"
  by (simp add: map_update list_update_same_conv)

lemma wf_set_ps:
  assumes "wf_term m" "h < length (tm_heap m)" "ps_id p = ps_id (tm_heap m ! h)"
    "ps_kind p = ps_kind (tm_heap m ! h)" "ps_closed p = ps_closed (tm_heap m ! h)"
    "\<not> ps_closed p \<Longrightarrow> \<not> ps_ended p \<Longrightarrow> \<not> ps_ended (tm_heap m ! h)"
  shows "wf_term (set_ps h p m)"
proof (rule wf_termI)
  show "distinct (map ps_id (tm_heap (set_ps h p m)))"
    using wf_termD(2) [OF assms(1)] by (simp add: map_ps_id_update [OF assms(2,3)])
qed (use assms wf_termD [OF assms(1)] in \<open>auto simp: nth_list_update split: if_splits\<close>)

text \<open>Removing the name of a session that has just been closed or has just ended.\<close>

lemma wf_retire:
  assumes "wf_term m" "h < length (tm_heap m)" "ps_id p = ps_id (tm_heap m ! h)" "ps_kind p = ps_kind (tm_heap m ! h)"
    "ps_closed p \<or> ps_ended p" "tm_sessions m' = mdel (ps_id p) (tm_sessions m)"
    "tm_heap m' = (tm_heap m)[h := p]"
    "\<And>k. FxKill k \<in> set (tm_fx m') \<longleftrightarrow>
       (if k = h then ps_kind p = KindPty \<and> ps_closed p else FxKill k \<in> set (tm_fx m))"
  shows "wf_term m'"
proof (rule wf_termI)
  note wf = wf_termD [OF assms(1)]
  have other: "ps_id (tm_heap m ! k) \<noteq> ps_id p" if "k < length (tm_heap m)" "k \<noteq> h" for k
    using wf(2) that assms(2,3) by (simp add: distinct_conv_nth)
  show "wf_map (tm_sessions m')" using wf(1) assms(6) by simp
  show "distinct (map ps_id (tm_heap m'))" using wf(2) by (simp add: assms(7) map_ps_id_update [OF assms(2,3)])
  show "k < length (tm_heap m') \<and> ps_id (tm_heap m' ! k) = i" if "mget (tm_sessions m') i = Some k" for i k
  proof -
    have "mget (tm_sessions m) i = Some k" "i \<noteq> ps_id p" using that assms(6) by (auto split: if_splits)
    then show ?thesis using wf(3) [of i k] assms(2,3,7) by (auto simp: nth_list_update)
  qed
  show "mget (tm_sessions m') (ps_id (tm_heap m' ! k)) = Some k"
    if "k < length (tm_heap m')" "\<not> ps_closed (tm_heap m' ! k)" "\<not> ps_ended (tm_heap m' ! k)" for k
  proof -
    have "k \<noteq> h" using that assms(2,5,7) by auto
    then show ?thesis using that wf(4) [of k] other [of k] assms(6,7) by (simp add: nth_list_update)
  qed
  show "FxKill k \<in> set (tm_fx m') \<longleftrightarrow>
      k < length (tm_heap m') \<and> ps_kind (tm_heap m' ! k) = KindPty \<and> ps_closed (tm_heap m' ! k)" for k
    using assms(2,8) wf(5) [of k] by (auto simp: assms(7) nth_list_update)
qed

lemma wf_open:
  assumes "wf_term m" "ps_id p \<notin> set (map ps_id (tm_heap m))" "\<not> ps_closed p"
    "tm_heap m' = tm_heap m @ [p]" "tm_sessions m' = mput (ps_id p) (length (tm_heap m)) (tm_sessions m)"
    "\<And>k. FxKill k \<in> set (tm_fx m') \<longleftrightarrow> FxKill k \<in> set (tm_fx m)"
  shows "wf_term m'"
proof (rule wf_termI)
  note wf = wf_termD [OF assms(1)]
  show "wf_map (tm_sessions m')" using wf(1) assms(5) by simp
  show "distinct (map ps_id (tm_heap m'))" using wf(2) assms(2) by (simp add: assms(4))
  have fresh: "ps_id (tm_heap m ! k) \<noteq> ps_id p" if "k < length (tm_heap m)" for k
    using assms(2) that by (metis in_set_conv_nth length_map nth_map)
  show "k < length (tm_heap m') \<and> ps_id (tm_heap m' ! k) = i" if "mget (tm_sessions m') i = Some k" for i k
    using that wf(3) [of i k] assms(4,5) by (auto simp: nth_append split: if_splits)
  show "mget (tm_sessions m') (ps_id (tm_heap m' ! k)) = Some k"
    if "k < length (tm_heap m')" "\<not> ps_closed (tm_heap m' ! k)" "\<not> ps_ended (tm_heap m' ! k)" for k
    using that wf(4) [of k] fresh [of k] assms(4,5) by (auto simp: nth_append split: if_splits)
  show "FxKill k \<in> set (tm_fx m') \<longleftrightarrow>
      k < length (tm_heap m') \<and> ps_kind (tm_heap m' ! k) = KindPty \<and> ps_closed (tm_heap m' ! k)" for k
    using assms(3,4,6) wf(5) [of k] by (auto simp: nth_append)
qed

lemma wf_term_Close:
  assumes "wf_term m"
  shows "wf_term (term_Close i m)"
proof (cases "mget (tm_sessions m) i")
  case None
  then have "term_Close i m = m\<lparr>tm_sessions := mdel i (tm_sessions m)\<rparr>"
    by (simp add: term_Close_def term_remove_def)
  moreover have "wf_term (m\<lparr>tm_sessions := mdel i (tm_sessions m)\<rparr>)"
    using wf_termD [OF assms] None by (intro wf_termI) (auto split: if_splits)
  ultimately show ?thesis by simp
next
  case (Some h)
  let ?p = "tm_heap m ! h" and ?m = "m\<lparr>tm_sessions := mdel i (tm_sessions m)\<rparr>"
  have h: "h < length (tm_heap m)" "ps_id ?p = i" using wf_termD(3) [OF assms Some] by simp_all
  have m: "term_Close i m = ps_close h ?m" using Some by (simp add: term_Close_def term_remove_def)
  show ?thesis
  proof (rule wf_retire [OF assms h(1), where p = "?p\<lparr>ps_closed := True\<rparr>"])
    show "tm_heap (term_Close i m) = (tm_heap m)[h := ?p\<lparr>ps_closed := True\<rparr>]"
    proof (cases "ps_closed ?p")
      case True
      then have p: "?p\<lparr>ps_closed := True\<rparr> = ?p" by simp
      show ?thesis using True by (simp add: m ps_close_def Let_def) (simp only: p list_update_id)
    qed (use h in \<open>simp add: m ps_close_def Let_def\<close>)
    show "FxKill k \<in> set (tm_fx (term_Close i m)) \<longleftrightarrow> (if k = h
        then ps_kind (?p\<lparr>ps_closed := True\<rparr>) = KindPty \<and> ps_closed (?p\<lparr>ps_closed := True\<rparr>)
        else FxKill k \<in> set (tm_fx m))" for k
      using h wf_termD(5) [OF assms, of k] by (auto simp: m ps_close_def Let_def)
  qed (use h in \<open>auto simp: m ps_close_def Let_def\<close>)
qed

lemma wf_exec_term:
  assumes "wf_term m" "\<forall>i \<in> set (opened_id op). i \<notin> set (map ps_id (tm_heap m))"
  shows "wf_term (exec_term op m)"
proof (cases op)
  case (TOpen e i sid argv cwd env c r)
  have "wf_term (fst (term_Open None i sid argv cwd env c r m))" if "argv \<noteq> []"
    using assms(2) that by (intro wf_open [OF assms(1), where p = "new_ps i KindPty"])
      (auto simp: TOpen term_Open_def tm_do_def new_ps_def Let_def)
  then show ?thesis using assms(1) by (cases e) (auto simp: TOpen term_Open_def)
next
  case (TAttach x i sid t c r)
  have "wf_term (fst (AttachTmux True i sid t c r m))"
    using assms(2) by (intro wf_open [OF assms(1), where p = "setDesired c r (new_ps i (KindTmux t))"])
      (auto simp: TAttach AttachTmux_def setDesired_def tm_do_def new_ps_def Let_def)
  then show ?thesis using assms(1) by (cases x) (auto simp: TAttach AttachTmux_def)
next
  case (TEnd h w)
  show ?thesis
  proof (cases "term_live h m \<and> ps_kind (tm_heap m ! h) = KindPty")
    case True
    note live = True
    let ?p = "(tm_heap m ! h)\<lparr>ps_ended := True\<rparr>" and ?m = "fst (pty_end h w m)"
    have m: "tm_heap ?m = (tm_heap m)[h := ?p]" "tm_sessions ?m = mdel (ps_id ?p) (tm_sessions m)"
      "tm_fx ?m = tm_fx m" using live by (simp_all add: pty_end_def Let_def term_remove_def)
    have "wf_term ?m"
    proof (rule wf_retire [OF assms(1), where h = h and p = ?p])
      show "FxKill k \<in> set (tm_fx ?m) \<longleftrightarrow>
          (if k = h then ps_kind ?p = KindPty \<and> ps_closed ?p else FxKill k \<in> set (tm_fx m))" for k
        using live wf_termD(5) [OF assms(1), of h] by (simp add: m(3) term_live_def)
    qed (use live m in \<open>simp_all add: term_live_def\<close>)
    then show ?thesis by (simp add: TEnd)
  qed (use assms(1) in \<open>auto simp: TEnd pty_end_def\<close>)
next
  case (TReassert now h)
  have upd: "wf_term (set_ps h ((tm_heap m ! h)\<lparr>ps_reassert := Some now\<rparr>) m)" if "term_live h m"
    using that by (intro wf_set_ps [OF assms(1)]) (auto simp: term_live_def)
  then show ?thesis using assms(1)
    by (auto simp: TReassert tmux_reassert_def Let_def intro!: wf_tm_do split: pty_kind.splits prod.splits)
next
  case (TDone h)
  have "wf_term (set_ps h ((tm_heap m ! h)\<lparr>ps_ended := True\<rparr>) m)" if "term_live h m"
    using that by (intro wf_set_ps [OF assms(1)]) (auto simp: term_live_def)
  then show ?thesis using assms(1) by (auto simp: TDone tmux_done_def Let_def)
next
  case (TResize i c r)
  have "wf_term (set_ps h (setDesired c r (tm_heap m ! h)) m)" if "mget (tm_sessions m) i = Some h" for h
    using wf_termD(3) [OF assms(1) that] by (intro wf_set_ps [OF assms(1)]) (auto simp: setDesired_def)
  then show ?thesis using assms(1)
    by (auto simp: TResize term_Resize_def Let_def intro!: wf_tm_do split: option.splits pty_kind.splits)
next
  case (TClose i)
  then show ?thesis using wf_term_Close [OF assms(1)] by simp
qed (use assms(1) in \<open>auto simp: pty_read_def tmux_frame_def term_Input_def intro!: wf_tm_do
       split: option.splits pty_kind.splits\<close>)

lemma same_ids:
  "h < length (tm_heap m) \<Longrightarrow> ps_id p = ps_id (tm_heap m ! h) \<Longrightarrow>
     map ps_id ((tm_heap m)[h := p]) = map ps_id (tm_heap m)"
  by (rule map_ps_id_update)

lemma ids_ps_close: "map ps_id (tm_heap (ps_close h m)) = map ps_id (tm_heap m)"
  by (simp add: ps_close_def Let_def same_ids)

lemma ids_exec_term:
  assumes "wf_term m"
  shows "set (map ps_id (tm_heap (exec_term op m))) \<subseteq> set (opened_id op) \<union> set (map ps_id (tm_heap m))"
proof (cases "opened_id op = []")
  case True
  have map: "h < length (tm_heap m)" if "mget (tm_sessions m) i = Some h" for i h
    using wf_termD(3) [OF assms that] by simp
  have "map ps_id (tm_heap (exec_term op m)) = map ps_id (tm_heap m)"
  proof (cases op)
    case (TClose i)
    then show ?thesis by (simp add: term_Close_def term_remove_def ids_ps_close split: option.splits)
  next
    case (TReassert now h)
    then show ?thesis
      by (auto simp: tmux_reassert_def Let_def term_live_def same_ids split: pty_kind.splits prod.splits)
  next
    case (TResize i c r)
    then show ?thesis
      by (auto simp: term_Resize_def Let_def setDesired_def map same_ids split: option.splits pty_kind.splits)
  qed (use True in \<open>auto simp: pty_end_def tmux_done_def pty_read_def tmux_frame_def term_Input_def term_remove_def
        Let_def term_live_def same_ids split: option.splits pty_kind.splits\<close>)
  then have "set (map ps_id (tm_heap (exec_term op m))) = set (map ps_id (tm_heap m))" by (simp only:)
  then show ?thesis by simp
next
  case False
  then show ?thesis
    by (cases op) (auto simp: term_Open_def AttachTmux_def Let_def new_ps_def setDesired_def split: option.splits)
qed

lemma wf_run_term:
  "wf_term m \<Longrightarrow> distinct (concat (map opened_id ops)) \<Longrightarrow>
     set (concat (map opened_id ops)) \<inter> set (map ps_id (tm_heap m)) = {} \<Longrightarrow> wf_term (run_term ops m)"
proof (induction ops arbitrary: m)
  case (Cons op ops)
  have "wf_term (exec_term op m)" using Cons.prems by (intro wf_exec_term) auto
  moreover have "set (concat (map opened_id ops)) \<inter> set (map ps_id (tm_heap (exec_term op m))) = {}"
    using Cons.prems(2,3) ids_exec_term [OF Cons.prems(1), of op]
    unfolding list.map concat.simps set_append distinct_append by blast
  ultimately have "wf_term (run_term ops (exec_term op m))" using Cons.prems(2) by (intro Cons.IH) auto
  then show ?case by (simp add: run_term_def)
qed (simp add: run_term_def)

definition kills_ok :: "term_mgr \<Rightarrow> bool" where
  "kills_ok m \<longleftrightarrow> (\<forall>h. FxKill h \<in> set (tm_fx m) \<longleftrightarrow>
     h < length (tm_heap m) \<and> ps_kind (tm_heap m ! h) = KindPty \<and> ps_closed (tm_heap m ! h))"

lemma ps_close_spec:
  "length (tm_heap (ps_close h m)) = length (tm_heap m)"
  "k < length (tm_heap m) \<Longrightarrow> tm_heap (ps_close h m) ! k =
     (if k = h then (tm_heap m ! k)\<lparr>ps_closed := True\<rparr> else tm_heap m ! k)"
  "kills_ok m \<Longrightarrow> kills_ok (ps_close h m)"
proof -
  show "length (tm_heap (ps_close h m)) = length (tm_heap m)" by (simp add: ps_close_def Let_def)
  show heap: "tm_heap (ps_close h m) ! k = (if k = h then (tm_heap m ! k)\<lparr>ps_closed := True\<rparr> else tm_heap m ! k)"
    if "k < length (tm_heap m)" for k
    using that by (auto simp: ps_close_def Let_def nth_list_update)
  show "kills_ok (ps_close h m)" if "kills_ok m"
    using that by (auto simp: kills_ok_def ps_close_def Let_def nth_list_update)
qed

lemma close_fold:
  "let m' = foldl (\<lambda>m h. ps_close h m) m hs
   in length (tm_heap m') = length (tm_heap m) \<and> (kills_ok m \<longrightarrow> kills_ok m')
      \<and> (\<forall>k < length (tm_heap m). ps_ended (tm_heap m' ! k) = ps_ended (tm_heap m ! k)
           \<and> (ps_closed (tm_heap m' ! k) \<longleftrightarrow> ps_closed (tm_heap m ! k) \<or> k \<in> set hs))"
proof (induction hs arbitrary: m)
  case (Cons h hs)
  show ?case using Cons.IH [of "ps_close h m"] ps_close_spec [where h = h and m = m] by (auto simp: Let_def)
qed (simp add: Let_def)


definition sample_ops :: "term_op list" where
  "sample_ops = [TOpen None ''a'' ''s'' [''claude''] ''/w'' [] 80 24, TAttach True ''b'' ''t'' ''main:0'' 100 40,
     TInput ''a'' (b64_encode ''hi''), TOpen None ''c'' ''u'' [''codex''] ''/w'' [] 70000 24,
     TRead 0 ''x'', TEnd 2 (WaitExit 3), TResize ''b'' 90 30, TClose ''a'']"


text \<open>
  An id that is opened again while it is in use, or before the process of a closed terminal has
  ended, drops the newer session from the map: nothing can close it any more, not even \<open>CloseAll\<close>.
\<close>

lemma reopened_terminal_leaks:
  "let open = TOpen None ''a'' ''s'' [''claude''] ''/w'' [] 80 24;
       m = CloseAll id (run_term [open, TClose ''a'', open, TEnd 0 WaitError] newTermManager)
   in tm_sessions m = [] \<and> \<not> ps_closed (tm_heap m ! 1) \<and> \<not> ps_ended (tm_heap m ! 1)"
  by code_simp

text \<open>What a dashboard types reaches the current session of its terminal, byte by byte.\<close>

lemma input_delivered:
  "mget (tm_sessions m) i = Some h \<Longrightarrow> ps_kind (tm_heap m ! h) = KindPty \<Longrightarrow>
     term_Input i (b64_encode data) m = tm_do [FxWrite h data] m"
  by (simp add: term_Input_def)

end
