(* ===== verification/Ws_Client.thy ===== *)
theory Ws_Client
  imports Protocol
begin

section \<open>The agent's connection to the server\<close>

text \<open>
  Models \<open>internal/agent/wsclient.go\<close>: the URL it dials, one connection from dialling to the read
  loop, the reconnect loop with its waits, and \<open>send\<close>. The callbacks \<open>setConn\<close>, \<open>send\<close> and
  \<open>onMessage\<close> are arguments over a state \<open>'s\<close> that contains the client. What the network does
  during a connection is a script: the result of dialling and what each pass of the read loop meets.
  Durations are nanoseconds.
\<close>

subsection \<open>Sending\<close>

text \<open>\<open>wc_net k\<close> tells whether the \<open>k\<close>-th write on the socket succeeds, \<open>wc_writes\<close> counts them.\<close>

record ws_client =
  wc_conn :: bool
  wc_sent :: "envelope list"
  wc_writes :: nat
  wc_net :: "nat \<Rightarrow> bool"

definition ws_setConn :: "bool \<Rightarrow> ws_client \<Rightarrow> ws_client" where
  "ws_setConn c ws = ws\<lparr>wc_conn := c\<rparr>"

text \<open>The result is \<open>True\<close> when \<open>send\<close> returned no error.\<close>

definition ws_send :: "int \<Rightarrow> wire \<Rightarrow> ws_client \<Rightarrow> ws_client \<times> bool" where
  "ws_send now w ws =
     (case Encode now w of None \<Rightarrow> (ws, False)
      | Some env \<Rightarrow>
          if \<not> wc_conn ws then (ws, False)
          else (let k = wc_writes ws; ws = ws\<lparr>wc_writes := Suc k\<rparr>
                in if wc_net ws k then (ws\<lparr>wc_sent := wc_sent ws @ [env]\<rparr>, True) else (ws, False)))"

subsection \<open>The URL\<close>

text \<open>A parsed URL; \<open>url_parse\<close> and the rendering are package \<open>net/url\<close>.\<close>

record go_url =
  url_Scheme :: string
  url_Host :: string
  url_Path :: string
  url_Query :: "(string, string list) gomap"

definition dialURL :: "(string \<Rightarrow> go_url option) \<Rightarrow> string \<Rightarrow> go_url option" where
  "dialURL url_parse serverURL =
     (case url_parse serverURL of None \<Rightarrow> None
      | Some u \<Rightarrow>
          (let u = (if url_Scheme u = ''http'' then u\<lparr>url_Scheme := ''ws''\<rparr>
                    else if url_Scheme u = ''https'' then u\<lparr>url_Scheme := ''wss''\<rparr> else u);
               u = u\<lparr>url_Path := ''/ws''\<rparr>
           in Some (u\<lparr>url_Query := mput ''role'' [RoleAgent] (url_Query u)\<rparr>)))"

subsection \<open>One connection\<close>

datatype read_step =
    ReadCancelled
  | ReadFailed string
  | ReadFrame "envelope option"

text \<open>
  The read loop over the passes of a script; \<open>None\<close> means that it is still reading when the script
  ends, otherwise the error it returned.
\<close>

fun read_loop :: "(envelope \<Rightarrow> 's \<Rightarrow> 's) \<Rightarrow> read_step list \<Rightarrow> 's \<Rightarrow> 's \<times> string option" where
  "read_loop onMessage [] s = (s, None)"
| "read_loop onMessage (ReadCancelled # rs) s = (s, Some ''context canceled'')"
| "read_loop onMessage (ReadFailed e # rs) s = (s, Some e)"
| "read_loop onMessage (ReadFrame None # rs) s = read_loop onMessage rs s"
| "read_loop onMessage (ReadFrame (Some env) # rs) s = read_loop onMessage rs (onMessage env s)"

record conn_script =
  cn_dial :: "string option"
  cn_reads :: "read_step list"

datatype conn_result = Reading | Returned "string option"

definition connect ::
  "(bool \<Rightarrow> 's \<Rightarrow> 's) \<Rightarrow> (wire \<Rightarrow> 's \<Rightarrow> 's \<times> bool) \<Rightarrow> (envelope \<Rightarrow> 's \<Rightarrow> 's) \<Rightarrow> agent_hello
     \<Rightarrow> go_url option \<Rightarrow> conn_script \<Rightarrow> 's \<Rightarrow> 's \<times> conn_result" where
  "connect setConn send onMessage hello url scr s =
     (case url of None \<Rightarrow> (s, Returned (Some ''parse''))
      | Some _ \<Rightarrow>
          (case cn_dial scr of Some e \<Rightarrow> (s, Returned (Some e))
           | None \<Rightarrow>
               (let s = setConn True s;
                    (s, ok) = send (AgentHello (Some hello)) s
                in if \<not> ok then (setConn False s, Returned (Some ''write''))
                   else (case read_loop onMessage (cn_reads scr) s of
                           (s, None) \<Rightarrow> (s, Reading)
                         | (s, Some e) \<Rightarrow> (setConn False s, Returned (Some e))))))"

subsection \<open>The reconnect loop\<close>

definition second_ns :: int where
  "second_ns = 1000000000"

definition maxBackoff :: int where
  "maxBackoff = 30 * second_ns"

text \<open>
  A pass of the loop: whether the context was done at its start, the connection, and whether the
  context ended the wait. The result are the waits, with the error that caused each.
\<close>

fun run_ws ::
  "('c \<Rightarrow> 's \<Rightarrow> 's \<times> conn_result) \<Rightarrow> (bool \<times> 'c \<times> bool) list \<Rightarrow> int \<Rightarrow> 's \<Rightarrow> 's \<times> (string \<times> int) list" where
  "run_ws conn [] backoff s = (s, [])"
| "run_ws conn ((done, scr, stop) # ps) backoff s =
     (if done then (s, [])
      else (case conn scr s of
              (s, Reading) \<Rightarrow> (s, [])
            | (s, Returned None) \<Rightarrow> run_ws conn ps second_ns s
            | (s, Returned (Some e)) \<Rightarrow>
                if stop then (s, [(e, backoff)])
                else (let backoff' = (if backoff < maxBackoff then backoff * 2 else backoff);
                          (s, ws) = run_ws conn ps backoff' s
                      in (s, (e, backoff) # ws))))"

lemma connect_returns_error:
  "snd (connect setConn send onMessage hello url scr s) \<noteq> Returned None"
  by (auto simp: connect_def Let_def split: option.splits prod.splits)

definition backoff_at :: "nat \<Rightarrow> int" where
  "backoff_at n = min (2 ^ n) 32 * second_ns"

lemma backoff_step:
  "(if backoff_at n < maxBackoff then backoff_at n * 2 else backoff_at n) = backoff_at (Suc n)"
proof (cases "n < 5")
  case True
  then have "n = 0 \<or> n = 1 \<or> n = 2 \<or> n = 3 \<or> n = 4" by linarith
  then show ?thesis by (auto simp: backoff_at_def maxBackoff_def second_ns_def)
next
  case False
  then have "(2 :: int) ^ 5 \<le> 2 ^ n" by (intro power_increasing) auto
  then show ?thesis by (simp add: backoff_at_def maxBackoff_def second_ns_def)
qed

lemma run_ws_waits:
  assumes "\<And>scr s. snd (conn scr s) \<noteq> Returned None"
  shows "map snd (snd (run_ws conn ps (backoff_at n) s)) =
    map (\<lambda>i. backoff_at (n + i)) [0..<length (snd (run_ws conn ps (backoff_at n) s))]"
proof (induction ps arbitrary: n s)
  case (Cons p ps)
  obtain d scr stop where p: "p = (d, scr, stop)" by (cases p) auto
  obtain s' r where c: "conn scr s = (s', r)" by fastforce
  have IH: "map snd (snd (run_ws conn ps (backoff_at (Suc n)) s')) =
      map (\<lambda>i. backoff_at (Suc n + i)) [0..<length (snd (run_ws conn ps (backoff_at (Suc n)) s'))]"
    by (rule Cons.IH)
  show ?case
  proof (cases "d \<or> r = Reading")
    case True
    then show ?thesis by (auto simp: p c)
  next
    case False
    then obtain e where r: "r = Returned (Some e)"
      using assms [of scr s] c by (cases r) (auto split: option.splits)
    obtain s'' ws where rec: "run_ws conn ps (backoff_at (Suc n)) s' = (s'', ws)" by fastforce
    have "map (\<lambda>i. backoff_at (n + i)) [0..<Suc (length ws)] =
        backoff_at n # map (\<lambda>i. backoff_at (Suc n + i)) [0..<length ws]"
      by (rule nth_equalityI) (auto simp: nth_Cons simp del: upt_Suc split: nat.splits)
    then show ?thesis using IH False by (simp add: p c r rec Let_def backoff_step)
  qed
qed simp


end
