(* ===== verification/Tmux.thy ===== *)
theory Tmux
  imports Go_Lib "HOL-Library.Monad_Syntax"
begin

section \<open>Driving and mirroring tmux panes\<close>

text \<open>
  Models \<open>internal/tmux/tmux.go\<close>: the translation of terminal input to \<open>tmux send-keys\<close> commands,
  the repaint frames, the capture loop and the tail of a pane, and the parsing of tmux's listings.
  The tmux program is a parameter: each call is given what the command answered, \<open>None\<close> when it
  failed.
\<close>

subsection \<open>Terminal input\<close>

definition flush_lit :: "string \<Rightarrow> string \<Rightarrow> string list list \<Rightarrow> string list list" where
  "flush_lit target lit out =
     (if lit \<noteq> [] then out @ [[''send-keys'', ''-t'', target, ''-l'', lit]] else out)"

definition special_key :: "string \<Rightarrow> string \<Rightarrow> string \<Rightarrow> string list list \<Rightarrow> string list list" where
  "special_key target key lit out = flush_lit target lit out @ [[''send-keys'', ''-t'', target, key]]"

definition arrow_key :: "char \<Rightarrow> string option" where
  "arrow_key c =
     (if c = CHR ''A'' then Some ''Up'' else if c = CHR ''B'' then Some ''Down''
      else if c = CHR ''C'' then Some ''Right'' else if c = CHR ''D'' then Some ''Left'' else None)"

definition control_key :: "char \<Rightarrow> string option" where
  "control_key b =
     (if b = CHR 0x0D \<or> b = CHR 0x0A then Some ''Enter''
      else if b = CHR 0x03 then Some ''C-c''
      else if b = CHR 0x04 then Some ''C-d''
      else if b = CHR 0x09 then Some ''Tab''
      else if b = CHR 0x7F \<or> b = CHR 0x08 then Some ''BSpace'' else None)"

text \<open>The loop over the input; \<open>lit\<close> is the run of printable bytes not flushed yet.\<close>

function send_keys_loop :: "string \<Rightarrow> string \<Rightarrow> string \<Rightarrow> string list list \<Rightarrow> string list list" where
  "send_keys_loop target [] lit out = flush_lit target lit out"
| "send_keys_loop target (b # data) lit out =
     (case control_key b of
        Some k \<Rightarrow> send_keys_loop target data [] (special_key target k lit out)
      | None \<Rightarrow>
          if b = CHR 0x1B then
            (if 2 \<le> length data \<and> data ! 0 = CHR ''[''
             then (case arrow_key (data ! 1) of
                     Some k \<Rightarrow> send_keys_loop target (drop 2 data) [] (special_key target k lit out)
                   | None \<Rightarrow> send_keys_loop target data [] (special_key target ''Escape'' lit out))
             else send_keys_loop target data [] (special_key target ''Escape'' lit out))
          else if 0x20 \<le> (of_char b :: nat) then send_keys_loop target data (lit @ [b]) out
          else send_keys_loop target data lit out)"
  by pat_completeness auto
termination
  by (relation "measure (\<lambda>(target, data, lit, out). length data)") auto

declare send_keys_loop.simps(2) [simp del]

definition SendKeysArgs :: "string \<Rightarrow> string \<Rightarrow> string list list" where
  "SendKeysArgs target data = send_keys_loop target data [] []"

text \<open>\<open>SendKeys\<close> runs the commands until one fails; it returns those run and whether all succeeded.\<close>

fun run_commands :: "(string list \<Rightarrow> bool) \<Rightarrow> string list list \<Rightarrow> string list list \<times> bool" where
  "run_commands tmux [] = ([], True)"
| "run_commands tmux (c # cs) =
     (if \<not> tmux c then ([c], False) else (let (ran, ok) = run_commands tmux cs in (c # ran, ok)))"

definition SendKeys :: "(string list \<Rightarrow> bool) \<Rightarrow> string \<Rightarrow> string \<Rightarrow> string list list \<times> bool" where
  "SendKeys tmux target data = run_commands tmux (SendKeysArgs target data)"

subsection \<open>Frames\<close>

text \<open>The loop of \<open>splitLines\<close> over indices, as the bytes since the last newline.\<close>

fun splitLines_from :: "string \<Rightarrow> string \<Rightarrow> string list \<Rightarrow> string list" where
  "splitLines_from [] cur ls = ls @ [cur]"
| "splitLines_from (b # bs) cur ls =
     (if b = newline then splitLines_from bs [] (ls @ [cur]) else splitLines_from bs (cur @ [b]) ls)"

definition splitLines :: "string \<Rightarrow> string list" where
  "splitLines b = splitLines_from b [] []"

definition esc :: string where
  "esc = [CHR 0x1B]"

fun frame_lines :: "string list \<Rightarrow> string" where
  "frame_lines [] = []"
| "frame_lines (l # ls) = l @ esc @ ''[K'' @ (if ls \<noteq> [] then [CHR 0x0D, CHR 0x0A] else []) @ frame_lines ls"

definition renderFrame :: "string \<Rightarrow> int \<Rightarrow> int \<Rightarrow> string" where
  "renderFrame buf cx cy =
     esc @ ''[H'' @ frame_lines (splitLines buf) @ esc @ ''[0m'' @ esc @ ''[J''
     @ (if 0 \<le> cx \<and> 0 \<le> cy then esc @ ''['' @ itoa (cy + 1) @ '';'' @ itoa (cx + 1) @ ''H'' else [])"

definition bytesEqual :: "string \<Rightarrow> string \<Rightarrow> bool" where
  "bytesEqual a b =
     (if length a \<noteq> length b then False else list_all (\<lambda>i. a ! i = b ! i) [0..<length a])"

definition cursorPos :: "string option \<Rightarrow> int \<times> int" where
  "cursorPos out =
     (case out of None \<Rightarrow> (-1, -1)
      | Some s \<Rightarrow>
          (case string_fields (trim_space s) of
             [a, b] \<Rightarrow> (case (Atoi a, Atoi b) of (Some x, Some y) \<Rightarrow> (x, y) | _ \<Rightarrow> (-1, -1))
           | _ \<Rightarrow> (-1, -1)))"

text \<open>One \<open>emit\<close> of \<open>CaptureLoop\<close>: the captured pane and the answer to the cursor query.\<close>

definition capture_emit ::
  "string option \<times> string option \<Rightarrow> string \<times> int \<times> int \<Rightarrow> (string \<times> int \<times> int) \<times> string list" where
  "capture_emit = (\<lambda>(pane, cur) (lst, lastCx, lastCy).
     case pane of None \<Rightarrow> ((lst, lastCx, lastCy), [])
     | Some out \<Rightarrow>
         (let (cx, cy) = cursorPos cur in
          if bytesEqual out lst \<and> cx = lastCx \<and> cy = lastCy then ((lst, lastCx, lastCy), [])
          else ((out, cx, cy), [renderFrame out cx cy])))"

definition CaptureLoop :: "(string option \<times> string option) list \<Rightarrow> string list" where
  "CaptureLoop polls = poll_run capture_emit polls ([], -2, -2)"

subsection \<open>Sessions and panes\<close>

definition ResizeWindow :: "string \<Rightarrow> int \<Rightarrow> int \<Rightarrow> string list list" where
  "ResizeWindow target cols rows =
     (if cols \<le> 0 \<or> rows \<le> 0 then []
      else [[''set-window-option'', ''-t'', target, ''window-size'', ''manual''],
            [''resize-window'', ''-t'', target, ''-x'', itoa cols, ''-y'', itoa rows]])"

definition SessionExists :: "(string list \<Rightarrow> bool) \<Rightarrow> string \<Rightarrow> bool" where
  "SessionExists tmux target =
     (let name = (case index_byte target (CHR '':'') of None \<Rightarrow> target | Some i \<Rightarrow> take i target)
      in tmux [''has-session'', ''-t'', name])"

definition SessionForPID :: "string option \<Rightarrow> int \<Rightarrow> string" where
  "SessionForPID out pid =
     (case out of None \<Rightarrow> []
      | Some s \<Rightarrow>
          (case find (\<lambda>f. length f = 2 \<and> f ! 1 = itoa pid)
                  (map (split_on unit_sep) (split_on newline (trim_space s))) of
             None \<Rightarrow> [] | Some f \<Rightarrow> f ! 0))"

text \<open>
  One tick of \<open>TailPane\<close>: \<open>lines\<close> is what the scanner of the captured pane delivers, \<open>None\<close> when
  the capture failed.
\<close>

definition tail_pane_tick :: "string list option \<Rightarrow> string \<Rightarrow> string \<times> string list" where
  "tail_pane_tick lines lastLine =
     (case lines of None \<Rightarrow> (lastLine, [])
      | Some ls \<Rightarrow>
          if ls = [] then (lastLine, [])
          else if last ls = lastLine then (lastLine, []) else (last ls, [last ls]))"

definition TailPane :: "string list option list \<Rightarrow> string list" where
  "TailPane polls = poll_run tail_pane_tick polls []"

subsection \<open>Input reaches the pane as typed\<close>

text \<open>Keys, the bytes a terminal sends for them, and the keys a tmux command types.\<close>

datatype key = Text char | Enter | CtrlC | CtrlD | Tab | BSpace | Escape | Up | Down | Right | Left

fun key_bytes :: "key \<Rightarrow> string" where
  "key_bytes (Text c) = [c]"
| "key_bytes Enter = [CHR 0x0D]"
| "key_bytes CtrlC = [CHR 0x03]"
| "key_bytes CtrlD = [CHR 0x04]"
| "key_bytes Tab = [CHR 0x09]"
| "key_bytes BSpace = [CHR 0x7F]"
| "key_bytes Escape = esc"
| "key_bytes Up = esc @ ''[A''"
| "key_bytes Down = esc @ ''[B''"
| "key_bytes Right = esc @ ''[C''"
| "key_bytes Left = esc @ ''[D''"

definition key_names :: "(string \<times> key) list" where
  "key_names = [(''Enter'', Enter), (''C-c'', CtrlC), (''C-d'', CtrlD), (''Tab'', Tab), (''BSpace'', BSpace),
     (''Escape'', Escape), (''Up'', Up), (''Down'', Down), (''Right'', Right), (''Left'', Left)]"

definition typed :: "string list \<Rightarrow> key list" where
  "typed cmd =
     (case cmd of
        [a, b, t, flag, s] \<Rightarrow> map Text s
      | [a, b, t, k] \<Rightarrow> (case map_of key_names k of Some x \<Rightarrow> [x] | None \<Rightarrow> [])
      | _ \<Rightarrow> [])"

fun printable :: "key \<Rightarrow> bool" where
  "printable (Text c) \<longleftrightarrow> 0x20 \<le> (of_char c :: nat) \<and> c \<noteq> CHR 0x7F"
| "printable _ \<longleftrightarrow> True"

text \<open>An escape key directly before the text of an arrow sequence is read as the arrow key.\<close>

fun starts_arrow :: "key list \<Rightarrow> bool" where
  "starts_arrow (Text c # Text d # ks) \<longleftrightarrow> c = CHR ''['' \<and> arrow_key d \<noteq> None"
| "starts_arrow _ \<longleftrightarrow> False"

fun unambiguous :: "key list \<Rightarrow> bool" where
  "unambiguous [] \<longleftrightarrow> True"
| "unambiguous (k # ks) \<longleftrightarrow> \<not> (k = Escape \<and> starts_arrow ks) \<and> unambiguous ks"

lemma typed_flush: "concat (map typed (flush_lit target lit out)) = concat (map typed out) @ map Text lit"
  by (simp add: flush_lit_def typed_def)

lemma typed_special:
  "concat (map typed (special_key target k lit out)) =
     concat (map typed out) @ map Text lit @ (case map_of key_names k of Some x \<Rightarrow> [x] | None \<Rightarrow> [])"
  by (simp add: special_key_def typed_flush) (simp add: typed_def)

lemma control_key_text:
  assumes "printable (Text c)"
  shows "control_key c = None \<and> c \<noteq> CHR 0x1B"
proof -
  have ne: "c \<noteq> d" if "(of_char d :: nat) < 0x20" for d
  proof
    assume "c = d"
    then show False using assms that by simp
  qed
  have "c \<noteq> CHR 0x0D" "c \<noteq> CHR 0x0A" "c \<noteq> CHR 0x03" "c \<noteq> CHR 0x04" "c \<noteq> CHR 0x09"
    "c \<noteq> CHR 0x08" "c \<noteq> CHR 0x1B" by (rule ne, simp)+
  then show ?thesis using assms by (simp add: control_key_def)
qed

lemma first_bracket: "key_bytes k @ xs = CHR ''['' # ys \<Longrightarrow> k = Text (CHR ''['') \<and> xs = ys"
  by (cases k) (auto simp: esc_def)

lemma first_arrow: "key_bytes k @ xs = d # ys \<Longrightarrow> arrow_key d \<noteq> None \<Longrightarrow> k = Text d"
  by (cases k) (auto simp: esc_def arrow_key_def)

lemma escape_not_arrow:
  assumes "unambiguous (Escape # ks)" "2 \<le> length (concat (map key_bytes ks))"
    "concat (map key_bytes ks) ! 0 = CHR ''[''"
  shows "arrow_key (concat (map key_bytes ks) ! 1) = None"
proof (rule ccontr)
  assume arrow: "arrow_key (concat (map key_bytes ks) ! 1) \<noteq> None"
  obtain d ys where d: "concat (map key_bytes ks) = CHR ''['' # d # ys"
    using assms(2,3) by (cases "concat (map key_bytes ks)"; cases "tl (concat (map key_bytes ks))") auto
  then obtain k ks' where ks: "ks = k # ks'" by (cases ks) auto
  with d first_bracket have k: "k = Text (CHR ''['')" "concat (map key_bytes ks') = d # ys" by auto
  then obtain k' ks'' where ks': "ks' = k' # ks''" by (cases ks') auto
  with k(2) arrow d have "k' = Text d" using first_arrow by auto
  then show False using assms(1) arrow d ks k(1) ks' by simp
qed

lemma send_keys_typed:
  "\<forall>k \<in> set ks. printable k \<Longrightarrow> unambiguous ks \<Longrightarrow>
   concat (map typed (send_keys_loop target (concat (map key_bytes ks)) lit out)) =
     concat (map typed out) @ map Text lit @ ks"
proof (induction ks arbitrary: lit out)
  case Nil
  show ?case by (simp add: typed_flush)
next
  case (Cons k ks)
  have IH: "concat (map typed (send_keys_loop target (concat (map key_bytes ks)) l x)) =
     concat (map typed x) @ map Text l @ ks" for l x
    using Cons.prems by (intro Cons.IH) auto
  show ?case
  proof (cases k)
    case (Text c)
    then have "control_key c = None" "c \<noteq> CHR 0x1B" "0x20 \<le> (of_char c :: nat)"
      using control_key_text [of c] Cons.prems(1) by auto
    then show ?thesis by (simp add: Text send_keys_loop.simps IH)
  next
    case Escape
    then have "arrow_key (concat (map key_bytes ks) ! 1) = None"
      if "2 \<le> length (concat (map key_bytes ks))" "concat (map key_bytes ks) ! 0 = CHR ''[''"
      using escape_not_arrow that Cons.prems(2) by blast
    then have "send_keys_loop target (concat (map key_bytes (k # ks))) lit out =
        send_keys_loop target (concat (map key_bytes ks)) [] (special_key target ''Escape'' lit out)"
      by (auto simp: Escape esc_def send_keys_loop.simps(2) control_key_def)
    then show ?thesis by (simp add: IH typed_special key_names_def Escape)
  qed (simp_all add: esc_def send_keys_loop.simps(2) control_key_def arrow_key_def IH typed_special key_names_def)
qed



subsection \<open>The helpers against the library\<close>

lemma splitLines_split_on: "splitLines b = split_on newline b"
proof -
  have "splitLines_from b cur ls = ls @ (case split_on newline b of [] \<Rightarrow> [cur] | y # ys \<Rightarrow> (cur @ y) # ys)"
    for cur ls
  proof (induction b arbitrary: cur ls)
    case (Cons x b)
    obtain y ys where "split_on newline b = y # ys" by (meson neq_Nil_conv split_on_nonempty)
    then show ?case by (simp add: Cons.IH)
  qed simp
  then show ?thesis by (simp add: splitLines_def split: list.splits)
qed

lemma bytesEqual_eq [simp]: "bytesEqual a b \<longleftrightarrow> a = b"
  by (auto simp: bytesEqual_def list_all_iff intro: nth_equalityI)

subsection \<open>Frames and lines are emitted when the picture changes\<close>

definition picture :: "string option \<times> string option \<Rightarrow> (string \<times> int \<times> int) option" where
  "picture = (\<lambda>(pane, cur). map_option (\<lambda>out. (out, cursorPos cur)) pane)"

interpretation capture: change_filter capture_emit picture "\<lambda>s. s" "\<lambda>(out, cx, cy). renderFrame out cx cy"
proof
  fix a s
  show "picture a = None \<Longrightarrow> capture_emit a s = (s, [])"
    by (auto simp: picture_def capture_emit_def split: prod.splits)
  show "picture a = Some s \<Longrightarrow> capture_emit a s = (s, [])"
    by (auto simp: picture_def capture_emit_def split: prod.splits)
  fix v
  show "picture a = Some v \<Longrightarrow> v \<noteq> s \<Longrightarrow>
      snd (capture_emit a s) = [(case v of (out, cx, cy) \<Rightarrow> renderFrame out cx cy)] \<and> fst (capture_emit a s) = v"
    by (auto simp: picture_def capture_emit_def split: prod.splits if_splits)
qed

definition last_line :: "string list option \<Rightarrow> string option" where
  "last_line lines = (case lines of None \<Rightarrow> None | Some ls \<Rightarrow> if ls = [] then None else Some (last ls))"

interpretation pane: change_filter tail_pane_tick last_line "\<lambda>s. s" "\<lambda>l. l"
  by unfold_locales (auto simp: last_line_def tail_pane_tick_def split: option.splits if_splits)

text \<open>
  The mirror of a pane paints a frame exactly when the captured text or the cursor differs from the
  last frame: its output is the sequence of captured pictures without adjacent repetitions.
\<close>

theorem capture_paints_changes:
  "CaptureLoop polls =
     map (\<lambda>(out, cx, cy). renderFrame out cx cy)
       (tl (remdups_adj (([], -2, -2) # List.map_filter picture polls)))"
  unfolding CaptureLoop_def by (rule capture.poll_run_changes)

lemma tail_pane_changes:
  "TailPane polls = tl (remdups_adj ([] # List.map_filter last_line polls))"
  unfolding TailPane_def using pane.poll_run_changes [of polls "[]"] by simp

subsection \<open>Reading tmux's listings\<close>

text \<open>The listing of panes tmux prints for the format of \<open>SessionForPID\<close>.\<close>

definition pane_line :: "string \<times> int \<Rightarrow> string" where
  "pane_line = (\<lambda>(name, pid). name @ [unit_sep] @ itoa pid)"

definition pane_listing :: "(string \<times> int) list \<Rightarrow> string" where
  "pane_listing ps = concat (map (\<lambda>p. pane_line p @ [newline]) ps)"

text \<open>
  \<open>SessionForPID\<close> reads the listing back: it returns the name of the first pane that runs the
  process, and nothing when no pane does.
\<close>

theorem session_for_pid:
  assumes "\<forall>(name, p) \<in> set ps. newline \<notin> set name \<and> unit_sep \<notin> set name \<and> name \<noteq> []"
    and "ps \<noteq> [] \<Longrightarrow> \<not> is_space (hd (fst (hd ps)))"
  shows "SessionForPID (Some (pane_listing ps)) pid =
    (case find (\<lambda>(name, p). p = pid) ps of None \<Rightarrow> [] | Some (name, p) \<Rightarrow> name)"
proof (cases "ps = []")
  case True
  then show ?thesis by (simp add: SessionForPID_def pane_listing_def trim_space_def)
next
  case False
  let ?text = "join [newline] (map pane_line ps)"
  obtain p ps' where ps: "ps = p # ps'" using False by (cases ps) auto
  have p: "fst p \<noteq> []" "\<not> is_space (hd (fst p))" using assms ps by (auto simp: case_prod_beta)
  have "?text \<noteq> []" "hd ?text = hd (fst p)" using p(1) join_hd [of "pane_line p" "[newline]" "map pane_line ps'"]
    by (auto simp: ps pane_line_def case_prod_beta)
  moreover have "last ?text = last (itoa (snd (last ps)))"
    using join_last [of "[newline]" "map pane_line ps"] False itoa_last(1)
    by (simp add: last_map pane_line_def case_prod_beta)
  ultimately have ends: "?text \<noteq> []" "\<not> is_space (hd ?text)" "\<not> is_space (last ?text)"
    using p itoa_last(2) by simp_all
  have "pane_listing ps = ?text @ [newline]"
    using False concat_join [of "map pane_line ps" newline] by (simp add: pane_listing_def comp_def)
  then have trim: "trim_space (pane_listing ps) = ?text" using trim_space_newline [OF ends] by simp
  have lines: "split_on newline ?text = map pane_line ps"
    using False assms(1) itoa_plain by (intro split_on_join) (auto simp: pane_line_def)
  have "map (split_on unit_sep) (map pane_line ps) = map (\<lambda>(name, p). [name, itoa p]) ps"
    using assms(1) itoa_plain by (auto simp: pane_line_def)
  then have "SessionForPID (Some (pane_listing ps)) pid =
      (case find (\<lambda>f. length f = 2 \<and> f ! 1 = itoa pid) (map (\<lambda>(name, p). [name, itoa p]) ps) of
         None \<Rightarrow> [] | Some f \<Rightarrow> f ! 0)"
    by (simp only: SessionForPID_def option.case trim lines)
  also have "\<dots> = (case find (\<lambda>(name, p). p = pid) ps of None \<Rightarrow> [] | Some (name, p) \<Rightarrow> name)"
    by (induction ps) auto
  finally show ?thesis .
qed

lemma session_for_pid_witness:
  "SessionForPID (Some (pane_listing [(''main'', 41), (''my work'', 7)])) 7 = ''my work''"
  using session_for_pid [of "[(''main'', 41), (''my work'', 7)]" 7] by (simp add: is_space_def)

end
