(* ===== verification/Agent_Runtime.thy ===== *)
theory Agent_Runtime
  imports Agent_Events Agent_Terminal Ws_Client Tmux
begin

section \<open>The agent daemon\<close>

text \<open>
  Models \<open>internal/agent/runtime.go\<close> and \<open>emitEvent\<close> of \<open>events.go\<close>: the daemon's state, the poll
  of the providers, the log streams, metrics and heartbeats, and the messages of the server. A
  provider is the record of what its methods answer at the moment of the operation; the clock
  (milliseconds, read once per operation) and fresh uuids are part of the state. A log stream is a
  goroutine on a heap; each line it delivers and its end are operations of their own.
\<close>

record launch_spec =
  ls_Argv :: "string list"
  ls_CWD :: string
  ls_Env :: "string list"

record provider =
  pv_Name :: string
  pv_Discover :: "string + session list"
  pv_Metrics :: "session \<Rightarrow> string + metric_sample"
  pv_Logs :: "session \<Rightarrow> bool"
  pv_Control :: "session \<Rightarrow> string \<Rightarrow> string option"
  pv_Launch :: "(string \<Rightarrow> string + launch_spec) option"

record log_stream =
  st_Session :: string
  st_seq :: int
  st_cancelled :: bool
  st_ended :: bool

record runtime =
  rt_AgentID :: string
  rt_hello :: agent_hello
  rt_ws :: ws_client
  rt_term :: term_mgr
  rt_sessions :: "(string, session) gomap"
  rt_logCtx :: "(string, nat) gomap"
  rt_streams :: "log_stream list"
  rt_pending :: "(string \<times> string) list"
  rt_controls :: "(string \<times> string \<times> string) list"
  rt_now :: int
  rt_uuid :: "nat \<Rightarrow> string"
  rt_taken :: nat

subsection \<open>Identity\<close>

fun index_str :: "string \<Rightarrow> string \<Rightarrow> nat option" where
  "index_str p [] = (if p = [] then Some 0 else None)"
| "index_str p (c # s) = (if has_prefix (c # s) p then Some 0 else map_option Suc (index_str p s))"

text \<open>\<open>url_host\<close> is the host of \<open>url.Parse\<close>, \<open>None\<close> on an error.\<close>

definition serverHost :: "(string \<Rightarrow> string option) \<Rightarrow> string \<Rightarrow> string" where
  "serverHost url_host serverURL =
     (let s = trim_space serverURL in
      if s = '''' then ''''
      else case url_host s of
        Some (c # h) \<Rightarrow> to_lower (c # h)
      | _ \<Rightarrow>
          (let s = (case index_str ''://'' s of None \<Rightarrow> s | Some i \<Rightarrow> drop (i + 3) s);
               s = takeWhile (\<lambda>c. c \<noteq> CHR ''/'' \<and> c \<noteq> CHR ''?'') s
           in to_lower s))"

text \<open>
  \<open>hostID\<close> is the id of the host, empty when it is unavailable; \<open>sha256_hex\<close> the hexadecimal digest.
\<close>

definition DeriveAgentIDForServer ::
  "(string \<Rightarrow> string option) \<Rightarrow> (string \<Rightarrow> string) \<Rightarrow> string \<Rightarrow> string \<Rightarrow> string \<Rightarrow> string" where
  "DeriveAgentIDForServer url_host sha256_hex uuid hostID serverURL =
     (let base = (if hostID \<noteq> '''' then ''mc-'' @ hostID else ''mc-'' @ uuid);
          h = serverHost url_host serverURL
      in if h = '''' then base else base @ ''-'' @ take 8 (sha256_hex h))"

definition DeriveAgentID :: "(string \<Rightarrow> string option) \<Rightarrow> (string \<Rightarrow> string) \<Rightarrow> string \<Rightarrow> string \<Rightarrow> string" where
  "DeriveAgentID url_host sha256_hex uuid hostID = DeriveAgentIDForServer url_host sha256_hex uuid hostID ''''"

text \<open>The fields of \<open>config.Agent\<close> the runtime reads, and what it asks of the host.\<close>

record agent_cfg =
  ac_ServerURL :: string
  ac_APIKey :: string
  ac_AgentID :: string
  ac_HostnameOverride :: string

record host_facts =
  hf_Hostname :: string
  hf_OS :: string
  hf_Arch :: string
  hf_NumCPU :: int
  hf_TotalMem :: "64 word option"

definition AgentVersion :: string where
  "AgentVersion = ''0.1.2''"

definition New_runtime ::
  "(string \<Rightarrow> string) \<Rightarrow> host_facts \<Rightarrow> (nat \<Rightarrow> bool) \<Rightarrow> (nat \<Rightarrow> string) \<Rightarrow> int \<Rightarrow> agent_cfg \<Rightarrow> runtime" where
  "New_runtime derive hf net uuid now cfg =
     (let i = (if ac_AgentID cfg = '''' then derive (ac_ServerURL cfg) else ac_AgentID cfg);
          hostname = (if ac_HostnameOverride cfg = '''' then hf_Hostname hf else ac_HostnameOverride cfg);
          totalMem = (case hf_TotalMem hf of None \<Rightarrow> 0 | Some m \<Rightarrow> m)
      in \<lparr>rt_AgentID = i,
           rt_hello = \<lparr>ah_APIKey = ac_APIKey cfg, ah_AgentID = i, ah_Hostname = hostname, ah_OS = hf_OS hf,
             ah_Arch = hf_Arch hf, ah_CPUCores = hf_NumCPU hf, ah_TotalMem = totalMem,
             ah_AgentVersion = AgentVersion\<rparr>,
           rt_ws = \<lparr>wc_conn = False, wc_sent = [], wc_writes = 0, wc_net = net\<rparr>,
           rt_term = newTermManager, rt_sessions = [], rt_logCtx = [], rt_streams = [],
           rt_pending = [], rt_controls = [], rt_now = now, rt_uuid = uuid, rt_taken = 0\<rparr>)"

subsection \<open>Sending\<close>

definition rt_send :: "wire \<Rightarrow> runtime \<Rightarrow> runtime" where
  "rt_send w rt = rt\<lparr>rt_ws := fst (ws_send (rt_now rt) w (rt_ws rt))\<rparr>"

definition emitEvent :: "event \<Rightarrow> runtime \<Rightarrow> runtime" where
  "emitEvent ev rt =
     (let i = rt_uuid rt (rt_taken rt); rt = rt\<lparr>rt_taken := Suc (rt_taken rt)\<rparr>
      in rt_send (EventReport (Some (ev\<lparr>e_ID := i, e_MachineID := rt_AgentID rt, e_TS := rt_now rt\<rparr>))) rt)"

fun term_callback :: "term_cb \<Rightarrow> runtime \<Rightarrow> runtime" where
  "term_callback (CbOpened i sid ok err) rt =
     rt_send (TerminalOpened (Some \<lparr>tp_PTYID = i, tp_SessionID = sid, tp_OK = ok, tp_Error = err\<rparr>)) rt"
| "term_callback (CbOutput i data) rt =
     rt_send (TerminalOutput (Some \<lparr>td_PTYID = i, td_Data = b64_encode data\<rparr>)) rt"
| "term_callback (CbExit i code) rt = rt_send (TerminalExit (Some \<lparr>tx_PTYID = i, tx_Code = code\<rparr>)) rt"

definition rt_term_do :: "(term_mgr \<Rightarrow> term_mgr \<times> term_cb list) \<Rightarrow> runtime \<Rightarrow> runtime" where
  "rt_term_do f rt =
     (let (m, cbs) = f (rt_term rt) in foldl (\<lambda>rt cb. term_callback cb rt) (rt\<lparr>rt_term := m\<rparr>) cbs)"

subsection \<open>Polling the providers\<close>

definition detectSessionEvents :: "session \<Rightarrow> session \<Rightarrow> bool \<Rightarrow> runtime \<Rightarrow> runtime" where
  "detectSessionEvents prev cur existed rt =
     foldl (\<lambda>rt ev. emitEvent ev rt) rt (diffSessionEvents prev cur existed)"

definition startLogStream :: "provider \<Rightarrow> session \<Rightarrow> runtime \<Rightarrow> runtime" where
  "startLogStream p s rt =
     (if \<not> pv_Logs p s then rt
      else rt\<lparr>rt_logCtx := mput (s_ID s) (length (rt_streams rt)) (rt_logCtx rt),
              rt_streams := rt_streams rt @
                [\<lparr>st_Session = s_ID s, st_seq = 0, st_cancelled = False, st_ended = False\<rparr>]\<rparr>)"

definition upsertSession :: "provider \<Rightarrow> session \<Rightarrow> runtime \<Rightarrow> runtime" where
  "upsertSession p s rt =
     (let prev = mget (rt_sessions rt) (s_ID s);
          rt = rt\<lparr>rt_sessions := mput (s_ID s) s (rt_sessions rt)\<rparr>;
          rt = detectSessionEvents (case prev of None \<Rightarrow> zero_session | Some x \<Rightarrow> x) s (prev \<noteq> None) rt;
          rt = rt_send (SessionUpsert (Some s)) rt
      in if prev = None then startLogStream p s rt else rt)"

definition discover_provider :: "runtime \<times> string list \<Rightarrow> provider \<Rightarrow> runtime \<times> string list" where
  "discover_provider = (\<lambda>(rt, seen) p.
     case pv_Discover p of Inl _ \<Rightarrow> (rt, seen)
     | Inr sessions \<Rightarrow>
         foldl (\<lambda>(rt, seen) s. let s = s\<lparr>s_MachineID := rt_AgentID rt\<rparr>
                                in (upsertSession p s rt, seen @ [s_ID s])) (rt, seen) sessions)"

definition cancel_stream :: "nat \<Rightarrow> runtime \<Rightarrow> runtime" where
  "cancel_stream h rt = rt\<lparr>rt_streams := (rt_streams rt)[h := (rt_streams rt ! h)\<lparr>st_cancelled := True\<rparr>]\<rparr>"

definition forget_session :: "session \<Rightarrow> runtime \<Rightarrow> runtime" where
  "forget_session s rt =
     (let rt = rt\<lparr>rt_sessions := mdel (s_ID s) (rt_sessions rt)\<rparr>
      in case mget (rt_logCtx rt) (s_ID s) of None \<Rightarrow> rt
         | Some h \<Rightarrow> (cancel_stream h rt)\<lparr>rt_logCtx := mdel (s_ID s) (rt_logCtx rt)\<rparr>)"

definition announce_removed :: "session \<Rightarrow> runtime \<Rightarrow> runtime" where
  "announce_removed s rt =
     rt_send (SessionRemoved (Some (s_ID s)))
       (emitEvent (mk_event s EventSessionEnded (''Session ended '' @ middot @ '' '' @ sessionLabel s) SeverityInfo
          [(''repo'', s_Repo s), (''branch'', s_Branch s)]) rt)"

text \<open>\<open>\<pi>\<close> is the order in which Go ranges over the known sessions.\<close>

definition discover ::
  "((string \<times> session) list \<Rightarrow> (string \<times> session) list) \<Rightarrow> provider list \<Rightarrow> runtime \<Rightarrow> runtime" where
  "discover \<pi> providers rt =
     (let (rt, seen) = foldl discover_provider (rt, []) providers;
          removed = map snd (filter (\<lambda>(i, _). i \<notin> set seen) (\<pi> (rt_sessions rt)));
          rt = foldl (\<lambda>rt s. forget_session s rt) rt removed
      in foldl (\<lambda>rt s. announce_removed s rt) rt removed)"

text \<open>The loop polls at once and then at every tick until its context is done.\<close>

definition discoverLoop ::
  "((string \<times> session) list \<Rightarrow> (string \<times> session) list) \<times> provider list
     \<Rightarrow> (((string \<times> session) list \<Rightarrow> (string \<times> session) list) \<times> provider list) list \<Rightarrow> runtime \<Rightarrow> runtime" where
  "discoverLoop first ticks rt = foldl (\<lambda>rt (\<pi>, providers). discover \<pi> providers rt) rt (first # ticks)"

subsection \<open>Log streams, metrics, heartbeats\<close>

definition stream_line :: "nat \<Rightarrow> string \<Rightarrow> string \<Rightarrow> string \<Rightarrow> int \<Rightarrow> runtime \<Rightarrow> runtime" where
  "stream_line h sid stream line ts rt =
     (if length (rt_streams rt) \<le> h \<or> st_ended (rt_streams rt ! h) then rt
      else (let st = rt_streams rt ! h; seq = st_seq st + 1;
                rt = rt\<lparr>rt_streams := (rt_streams rt)[h := st\<lparr>st_seq := seq\<rparr>]\<rparr>
            in rt_send (LogAppend (Some \<lparr>la_SessionID = sid, la_Seq = seq, la_Stream = stream,
                 la_Line = line, la_TS = ts\<rparr>)) rt))"

text \<open>The goroutine returns when its context is done or the channel is closed.\<close>

definition stream_end :: "nat \<Rightarrow> bool \<Rightarrow> runtime \<Rightarrow> runtime" where
  "stream_end h closed rt =
     (if h < length (rt_streams rt) \<and> (closed \<or> st_cancelled (rt_streams rt ! h))
      then rt\<lparr>rt_streams := (rt_streams rt)[h := (rt_streams rt ! h)\<lparr>st_ended := True\<rparr>]\<rparr> else rt)"

definition metrics_tick ::
  "((string \<times> session) list \<Rightarrow> (string \<times> session) list) \<Rightarrow> provider list \<Rightarrow> runtime \<Rightarrow> runtime" where
  "metrics_tick \<pi> providers rt =
     foldl (\<lambda>rt s. foldl (\<lambda>rt p. if pv_Name p \<noteq> s_Provider s then rt
                               else case pv_Metrics p s of Inl _ \<Rightarrow> rt
                                    | Inr sample \<Rightarrow> rt_send (MetricSample (Some sample)) rt) rt providers)
       rt (map snd (\<pi> (rt_sessions rt)))"

definition heartbeat_tick :: "float64 option \<Rightarrow> 64 word option \<Rightarrow> float64 option \<Rightarrow> runtime \<Rightarrow> runtime" where
  "heartbeat_tick cpu vmem load rt =
     (let hb = \<lparr>hb_AgentID = rt_AgentID rt, hb_CPUPct = 0, hb_MemUsedBytes = 0, hb_Load = 0\<rparr>;
          hb = (case cpu of None \<Rightarrow> hb | Some x \<Rightarrow> hb\<lparr>hb_CPUPct := x\<rparr>);
          hb = (case vmem of None \<Rightarrow> hb | Some x \<Rightarrow> hb\<lparr>hb_MemUsedBytes := x\<rparr>);
          hb = (case load of None \<Rightarrow> hb | Some x \<Rightarrow> hb\<lparr>hb_Load := x\<rparr>)
      in rt_send (AgentHeartbeat (Some hb)) rt)"

subsection \<open>Messages of the server\<close>

definition control_all :: "provider list \<Rightarrow> session \<Rightarrow> string \<Rightarrow> command_result \<times> runtime \<Rightarrow> command_result \<times> runtime" where
  "control_all providers s action start =
     foldl (\<lambda>(res, rt) p.
        if pv_Name p \<noteq> s_Provider s then (res, rt)
        else (let rt = rt\<lparr>rt_controls := rt_controls rt @ [(pv_Name p, s_ID s, action)]\<rparr>
              in case pv_Control p s action of
                   Some e \<Rightarrow> (res\<lparr>cr_Error := e\<rparr>, rt)
                 | None \<Rightarrow> (res\<lparr>cr_OK := True\<rparr>, rt))) start providers"

definition handleCommand :: "provider list \<Rightarrow> command_msg option \<Rightarrow> runtime \<Rightarrow> runtime" where
  "handleCommand providers cmd rt =
     (case cmd of None \<Rightarrow> rt
      | Some cmd \<Rightarrow>
          (let rt = rt_send (CommandAck (Some (cmd_RequestID cmd))) rt;
               res = \<lparr>cr_RequestID = cmd_RequestID cmd, cr_SessionID = cmd_SessionID cmd, cr_OK = False, cr_Error = ''''\<rparr>
           in case mget (rt_sessions rt) (cmd_SessionID cmd) of
                None \<Rightarrow> rt_send (CommandResult (Some (res\<lparr>cr_Error := ''session not found''\<rparr>))) rt
              | Some s \<Rightarrow>
                  (let (res, rt) = control_all providers s (cmd_Action cmd) (res, rt)
                   in rt_send (CommandResult (Some res)) rt)))"

text \<open>\<open>start\<close> is what \<open>pty.StartWithSize\<close> answers for the launched command.\<close>

definition handleTerminalOpen ::
  "string option \<Rightarrow> provider list \<Rightarrow> terminal_open option \<Rightarrow> runtime \<Rightarrow> runtime" where
  "handleTerminalOpen start providers msg rt =
     (case msg of None \<Rightarrow> rt
      | Some p \<Rightarrow>
          (case find (\<lambda>pv. pv_Name pv = to_Provider p) providers of
             None \<Rightarrow> term_callback (CbOpened (to_PTYID p) '''' False (''unknown provider '' @ to_Provider p)) rt
           | Some pv \<Rightarrow>
               (case pv_Launch pv of
                  None \<Rightarrow> term_callback (CbOpened (to_PTYID p) '''' False
                            ''provider does not support interactive launch'') rt
                | Some launch \<Rightarrow>
                    (case launch (to_CWD p) of
                       Inl e \<Rightarrow> term_callback (CbOpened (to_PTYID p) '''' False e) rt
                     | Inr spec \<Rightarrow>
                         (let cols = (if to_Cols p = 0 then 80 else to_Cols p);
                              rows = (if to_Rows p = 0 then 24 else to_Rows p);
                              sessionID = ''pty-'' @ to_PTYID p;
                              rt = rt_term_do (term_Open start (to_PTYID p) sessionID (ls_Argv spec) (ls_CWD spec)
                                     (ls_Env spec) cols rows) rt
                          in if to_InitialText p \<noteq> ''''
                             then rt\<lparr>rt_pending := rt_pending rt @ [(to_PTYID p, to_InitialText p)]\<rparr> else rt)))))"

text \<open>The goroutine that types an initial prompt, once its sleep is over.\<close>

definition type_initial :: "nat \<Rightarrow> runtime \<Rightarrow> runtime" where
  "type_initial k rt =
     (if length (rt_pending rt) \<le> k then rt
      else (let (i, text) = rt_pending rt ! k;
                rt = rt\<lparr>rt_pending := take k (rt_pending rt) @ drop (Suc k) (rt_pending rt)\<rparr>
            in rt\<lparr>rt_term := term_Input i (b64_encode text) (rt_term rt)\<rparr>))"

definition handleTerminalAttach ::
  "(string list \<Rightarrow> bool) \<Rightarrow> terminal_attach option \<Rightarrow> runtime \<Rightarrow> runtime" where
  "handleTerminalAttach tmux msg rt =
     (case msg of None \<Rightarrow> rt
      | Some p \<Rightarrow>
          (case mget (rt_sessions rt) (ta_SessionID p) of
             None \<Rightarrow> term_callback (CbOpened (ta_PTYID p) (ta_SessionID p) False
               ''session is not interactive (only tmux-backed sessions can be driven)'') rt
           | Some sess \<Rightarrow>
               if s_TmuxSession sess = ''''
               then term_callback (CbOpened (ta_PTYID p) (ta_SessionID p) False
                      ''session is not interactive (only tmux-backed sessions can be driven)'') rt
               else rt_term_do (AttachTmux (SessionExists tmux (s_TmuxSession sess)) (ta_PTYID p) (ta_SessionID p)
                      (s_TmuxSession sess) (ta_Cols p) (ta_Rows p)) rt))"

definition handleServerMessage ::
  "string option \<Rightarrow> (string list \<Rightarrow> bool) \<Rightarrow> provider list \<Rightarrow> envelope \<Rightarrow> runtime \<Rightarrow> runtime" where
  "handleServerMessage start tmux providers env rt =
     (case env_Msg env of
        Command c \<Rightarrow> handleCommand providers c rt
      | TerminalOpen p \<Rightarrow> handleTerminalOpen start providers p rt
      | TerminalAttach p \<Rightarrow> handleTerminalAttach tmux p rt
      | TerminalInput (Some p) \<Rightarrow> rt\<lparr>rt_term := term_Input (td_PTYID p) (td_Data p) (rt_term rt)\<rparr>
      | TerminalResize (Some p) \<Rightarrow> rt\<lparr>rt_term := term_Resize (tr_PTYID p) (tr_Cols p) (tr_Rows p) (rt_term rt)\<rparr>
      | TerminalClose (Some i) \<Rightarrow> rt\<lparr>rt_term := term_Close i (rt_term rt)\<rparr>
      | _ \<Rightarrow> rt)"

text \<open>Stopping the agent closes every terminal; the connection of the agent over this state.\<close>

definition stop_agent :: "((string \<times> nat) list \<Rightarrow> (string \<times> nat) list) \<Rightarrow> runtime \<Rightarrow> runtime" where
  "stop_agent \<pi> rt = rt\<lparr>rt_term := CloseAll \<pi> (rt_term rt)\<rparr>"

definition agent_connect ::
  "string option \<Rightarrow> (string list \<Rightarrow> bool) \<Rightarrow> provider list \<Rightarrow> go_url option \<Rightarrow> conn_script \<Rightarrow> runtime
     \<Rightarrow> runtime \<times> conn_result" where
  "agent_connect start tmux providers url scr rt =
     connect (\<lambda>c rt. rt\<lparr>rt_ws := ws_setConn c (rt_ws rt)\<rparr>)
       (\<lambda>w rt. let (ws, ok) = ws_send (rt_now rt) w (rt_ws rt) in (rt\<lparr>rt_ws := ws\<rparr>, ok))
       (handleServerMessage start tmux providers) (rt_hello rt) url scr rt"

subsection \<open>What the operations leave alone\<close>

lemma rt_send_simps [simp]:
  "rt_AgentID (rt_send w rt) = rt_AgentID rt" "rt_hello (rt_send w rt) = rt_hello rt"
  "rt_term (rt_send w rt) = rt_term rt" "rt_sessions (rt_send w rt) = rt_sessions rt"
  "rt_logCtx (rt_send w rt) = rt_logCtx rt" "rt_streams (rt_send w rt) = rt_streams rt"
  "rt_pending (rt_send w rt) = rt_pending rt" "rt_controls (rt_send w rt) = rt_controls rt"
  "rt_now (rt_send w rt) = rt_now rt"
  by (simp_all add: rt_send_def)

lemma emitEvent_simps [simp]:
  "rt_AgentID (emitEvent e rt) = rt_AgentID rt" "rt_sessions (emitEvent e rt) = rt_sessions rt"
  "rt_logCtx (emitEvent e rt) = rt_logCtx rt" "rt_streams (emitEvent e rt) = rt_streams rt"
  by (simp_all add: emitEvent_def Let_def)

lemma detectSessionEvents_simps [simp]:
  "rt_AgentID (detectSessionEvents p c x rt) = rt_AgentID rt"
  "rt_sessions (detectSessionEvents p c x rt) = rt_sessions rt"
  "rt_logCtx (detectSessionEvents p c x rt) = rt_logCtx rt"
  "rt_streams (detectSessionEvents p c x rt) = rt_streams rt"
proof -
  have "rt_AgentID (foldl (\<lambda>rt ev. emitEvent ev rt) rt es) = rt_AgentID rt
      \<and> rt_sessions (foldl (\<lambda>rt ev. emitEvent ev rt) rt es) = rt_sessions rt
      \<and> rt_logCtx (foldl (\<lambda>rt ev. emitEvent ev rt) rt es) = rt_logCtx rt
      \<and> rt_streams (foldl (\<lambda>rt ev. emitEvent ev rt) rt es) = rt_streams rt" for es
    by (induction es arbitrary: rt) simp_all
  then show "rt_AgentID (detectSessionEvents p c x rt) = rt_AgentID rt"
    "rt_sessions (detectSessionEvents p c x rt) = rt_sessions rt"
    "rt_logCtx (detectSessionEvents p c x rt) = rt_logCtx rt"
    "rt_streams (detectSessionEvents p c x rt) = rt_streams rt"
    by (simp_all add: detectSessionEvents_def)
qed

lemma upsertSession_simps [simp]:
  "rt_AgentID (upsertSession p s rt) = rt_AgentID rt"
  "rt_sessions (upsertSession p s rt) = mput (s_ID s) s (rt_sessions rt)"
  by (simp_all add: upsertSession_def Let_def startLogStream_def)

lemma upsertSession_streams:
  "rt_logCtx (upsertSession p s rt) =
     (if mget (rt_sessions rt) (s_ID s) = None \<and> pv_Logs p s
      then mput (s_ID s) (length (rt_streams rt)) (rt_logCtx rt) else rt_logCtx rt)"
  "rt_streams (upsertSession p s rt) =
     (if mget (rt_sessions rt) (s_ID s) = None \<and> pv_Logs p s
      then rt_streams rt @ [\<lparr>st_Session = s_ID s, st_seq = 0, st_cancelled = False, st_ended = False\<rparr>]
      else rt_streams rt)"
  by (simp_all add: upsertSession_def Let_def startLogStream_def)

subsection \<open>A poll as one list of sessions\<close>

definition found_by :: "string \<Rightarrow> provider \<Rightarrow> (provider \<times> session) list" where
  "found_by aid p = (case pv_Discover p of Inl _ \<Rightarrow> []
     | Inr ss \<Rightarrow> map (\<lambda>s. (p, s\<lparr>s_MachineID := aid\<rparr>)) ss)"

definition found :: "string \<Rightarrow> provider list \<Rightarrow> (provider \<times> session) list" where
  "found aid ps = concat (map (found_by aid) ps)"

definition upsert_all :: "(provider \<times> session) list \<Rightarrow> runtime \<Rightarrow> runtime" where
  "upsert_all xs rt = foldl (\<lambda>rt (p, s). upsertSession p s rt) rt xs"

definition found_ids :: "(provider \<times> session) list \<Rightarrow> string list" where
  "found_ids xs = map (\<lambda>(p, s). s_ID s) xs"

lemma upsert_all_simps [simp]:
  "upsert_all [] rt = rt" "upsert_all ((p, s) # xs) rt = upsert_all xs (upsertSession p s rt)"
  "upsert_all (xs @ ys) rt = upsert_all ys (upsert_all xs rt)"
  by (simp_all add: upsert_all_def)

lemma AgentID_upsert_all [simp]: "rt_AgentID (upsert_all xs rt) = rt_AgentID rt"
  by (induction xs arbitrary: rt) (auto simp: upsert_all_def)

lemma discover_provider_eq:
  "discover_provider (rt, seen) p =
     (upsert_all (found_by (rt_AgentID rt) p) rt, seen @ found_ids (found_by (rt_AgentID rt) p))"
proof (cases "pv_Discover p")
  case (Inr ss)
  have "foldl (\<lambda>(rt, seen) s. let s = s\<lparr>s_MachineID := rt_AgentID rt\<rparr>
            in (upsertSession p s rt, seen @ [s_ID s])) (rt, seen) ss =
      (upsert_all (map (\<lambda>s. (p, s\<lparr>s_MachineID := rt_AgentID rt\<rparr>)) ss) rt, seen @ map s_ID ss)"
    by (induction ss arbitrary: rt seen) (simp_all add: Let_def)
  then show ?thesis by (simp add: discover_provider_def Inr found_by_def found_ids_def comp_def)
qed (simp add: discover_provider_def found_by_def found_ids_def)

lemma discover_providers_eq:
  "foldl discover_provider (rt, seen) ps =
     (upsert_all (found (rt_AgentID rt) ps) rt, seen @ found_ids (found (rt_AgentID rt) ps))"
  by (induction ps arbitrary: rt seen) (simp_all add: found_def found_ids_def discover_provider_eq)

definition vanished ::
  "((string \<times> session) list \<Rightarrow> (string \<times> session) list) \<Rightarrow> string list \<Rightarrow> runtime \<Rightarrow> session list" where
  "vanished \<pi> ids rt = map snd (filter (\<lambda>(i, _). i \<notin> set ids) (\<pi> (rt_sessions rt)))"

definition forget_all :: "session list \<Rightarrow> runtime \<Rightarrow> runtime" where
  "forget_all ss rt = foldl (\<lambda>rt s. forget_session s rt) rt ss"

definition announce_all :: "session list \<Rightarrow> runtime \<Rightarrow> runtime" where
  "announce_all ss rt = foldl (\<lambda>rt s. announce_removed s rt) rt ss"

lemma discover_eq:
  "discover \<pi> ps rt =
     (let xs = found (rt_AgentID rt) ps; rt = upsert_all xs rt; gone = vanished \<pi> (found_ids xs) rt
      in announce_all gone (forget_all gone rt))"
  by (simp add: discover_def discover_providers_eq vanished_def forget_all_def announce_all_def Let_def)

lemma announce_all_simps [simp]:
  "rt_AgentID (announce_all ss rt) = rt_AgentID rt" "rt_sessions (announce_all ss rt) = rt_sessions rt"
  "rt_logCtx (announce_all ss rt) = rt_logCtx rt" "rt_streams (announce_all ss rt) = rt_streams rt"
proof -
  have "rt_AgentID (announce_all ss rt) = rt_AgentID rt \<and> rt_sessions (announce_all ss rt) = rt_sessions rt
    \<and> rt_logCtx (announce_all ss rt) = rt_logCtx rt \<and> rt_streams (announce_all ss rt) = rt_streams rt"
    unfolding announce_all_def by (induction ss arbitrary: rt) (simp_all add: announce_removed_def)
  then show "rt_AgentID (announce_all ss rt) = rt_AgentID rt" "rt_sessions (announce_all ss rt) = rt_sessions rt"
    "rt_logCtx (announce_all ss rt) = rt_logCtx rt" "rt_streams (announce_all ss rt) = rt_streams rt" by simp_all
qed

lemma forget_session_simps [simp]:
  "rt_AgentID (forget_session s rt) = rt_AgentID rt" "rt_ws (forget_session s rt) = rt_ws rt"
  "rt_sessions (forget_session s rt) = mdel (s_ID s) (rt_sessions rt)"
  by (simp_all add: forget_session_def Let_def cancel_stream_def split: option.splits)

lemma forget_all_simps [simp]:
  "rt_AgentID (forget_all ss rt) = rt_AgentID rt" "rt_ws (forget_all ss rt) = rt_ws rt"
  "mget (rt_sessions (forget_all ss rt)) i = (if i \<in> s_ID ` set ss then None else mget (rt_sessions rt) i)"
proof -
  have "rt_AgentID (forget_all ss rt) = rt_AgentID rt \<and> rt_ws (forget_all ss rt) = rt_ws rt
    \<and> mget (rt_sessions (forget_all ss rt)) i = (if i \<in> s_ID ` set ss then None else mget (rt_sessions rt) i)"
    unfolding forget_all_def by (induction ss arbitrary: rt) auto
  then show "rt_AgentID (forget_all ss rt) = rt_AgentID rt" "rt_ws (forget_all ss rt) = rt_ws rt"
    "mget (rt_sessions (forget_all ss rt)) i = (if i \<in> s_ID ` set ss then None else mget (rt_sessions rt) i)"
    by simp_all
qed

subsection \<open>The invariant of the daemon\<close>

text \<open>
  The known sessions are filed under their ids and belong to this machine; the log streams that have
  not been cancelled are exactly those the table names, at most one for each known session.
\<close>

definition sessions_ok :: "runtime \<Rightarrow> bool" where
  "sessions_ok rt \<longleftrightarrow> wf_map (rt_sessions rt)
     \<and> (\<forall>i s. mget (rt_sessions rt) i = Some s \<longrightarrow> s_ID s = i \<and> s_MachineID s = rt_AgentID rt)"

definition streams_ok :: "runtime \<Rightarrow> bool" where
  "streams_ok rt \<longleftrightarrow>
     (\<forall>i h. mget (rt_logCtx rt) i = Some h \<longrightarrow> mget (rt_sessions rt) i \<noteq> None \<and> h < length (rt_streams rt)
        \<and> \<not> st_cancelled (rt_streams rt ! h) \<and> st_Session (rt_streams rt ! h) = i)
     \<and> (\<forall>h < length (rt_streams rt). \<not> st_cancelled (rt_streams rt ! h) \<longrightarrow>
          mget (rt_logCtx rt) (st_Session (rt_streams rt ! h)) = Some h)"

definition wf_runtime :: "runtime \<Rightarrow> bool" where
  "wf_runtime rt \<longleftrightarrow> sessions_ok rt \<and> streams_ok rt"

lemma sessions_okD:
  "sessions_ok rt \<Longrightarrow> mget (rt_sessions rt) i = Some s \<Longrightarrow> s_ID s = i \<and> s_MachineID s = rt_AgentID rt"
  by (simp add: sessions_ok_def)

lemma streams_okD:
  assumes "streams_ok rt"
  shows "\<And>i h. mget (rt_logCtx rt) i = Some h \<Longrightarrow> mget (rt_sessions rt) i \<noteq> None \<and> h < length (rt_streams rt)
        \<and> \<not> st_cancelled (rt_streams rt ! h) \<and> st_Session (rt_streams rt ! h) = i"
    and "\<And>h. h < length (rt_streams rt) \<Longrightarrow> \<not> st_cancelled (rt_streams rt ! h) \<Longrightarrow>
          mget (rt_logCtx rt) (st_Session (rt_streams rt ! h)) = Some h"
  using assms unfolding streams_ok_def by blast+

lemma wf_runtime_cong:
  assumes "rt_AgentID rt' = rt_AgentID rt" "rt_sessions rt' = rt_sessions rt" "rt_logCtx rt' = rt_logCtx rt"
    and "rt_streams rt' = rt_streams rt"
  shows "wf_runtime rt' \<longleftrightarrow> wf_runtime rt"
  by (simp add: wf_runtime_def sessions_ok_def streams_ok_def assms)

lemma wf_runtime_send [simp]: "wf_runtime (rt_send w rt) \<longleftrightarrow> wf_runtime rt"
  by (rule wf_runtime_cong) simp_all

lemma wf_upsertSession:
  assumes "wf_runtime rt" "s_MachineID s = rt_AgentID rt"
  shows "wf_runtime (upsertSession p s rt)"
proof -
  note ok = assms(1) [unfolded wf_runtime_def]
  have "sessions_ok (upsertSession p s rt)" using ok assms(2) by (auto simp: sessions_ok_def)
  moreover have "streams_ok (upsertSession p s rt)"
  proof (cases "mget (rt_sessions rt) (s_ID s) = None \<and> pv_Logs p s")
    case True
    note st = upsertSession_streams [of p s rt]
    have none: "mget (rt_logCtx rt) (s_ID s) = None"
      using True streams_okD(1) [OF conjunct2 [OF ok], of "s_ID s"] by (cases "mget (rt_logCtx rt) (s_ID s)") auto
    have other: "st_Session (rt_streams rt ! h) \<noteq> s_ID s"
      if "h < length (rt_streams rt)" "\<not> st_cancelled (rt_streams rt ! h)" for h
      using streams_okD(2) [OF conjunct2 [OF ok] that] none by auto
    show ?thesis unfolding streams_ok_def
    proof (intro conjI allI impI)
      fix i h
      assume "mget (rt_logCtx (upsertSession p s rt)) i = Some h"
      then show "mget (rt_sessions (upsertSession p s rt)) i \<noteq> None"
        "h < length (rt_streams (upsertSession p s rt))"
        "\<not> st_cancelled (rt_streams (upsertSession p s rt) ! h)"
        "st_Session (rt_streams (upsertSession p s rt) ! h) = i"
        using True streams_okD(1) [OF conjunct2 [OF ok], of i h]
        by (auto simp: st nth_append split: if_splits)
    next
      fix h
      assume "h < length (rt_streams (upsertSession p s rt))" "\<not> st_cancelled (rt_streams (upsertSession p s rt) ! h)"
      then show "mget (rt_logCtx (upsertSession p s rt)) (st_Session (rt_streams (upsertSession p s rt) ! h)) = Some h"
        using True streams_okD(2) [OF conjunct2 [OF ok], of h] other [of h]
        by (auto simp: st nth_append split: if_splits)
    qed
  next
    case False
    then have "rt_logCtx (upsertSession p s rt) = rt_logCtx rt" "rt_streams (upsertSession p s rt) = rt_streams rt"
      by (auto simp: upsertSession_streams)
    then show ?thesis using conjunct2 [OF ok] unfolding streams_ok_def
      by (simp only: upsertSession_simps mget_mput) (metis option.distinct(1))
  qed
  ultimately show ?thesis by (simp add: wf_runtime_def)
qed

lemma found_machine: "(p, s) \<in> set (found aid ps) \<Longrightarrow> s_MachineID s = aid"
  by (auto simp: found_def found_by_def split: sum.splits)

lemma wf_upsert_all:
  "wf_runtime rt \<Longrightarrow> \<forall>(p, s) \<in> set xs. s_MachineID s = rt_AgentID rt \<Longrightarrow> wf_runtime (upsert_all xs rt)"
proof (induction xs arbitrary: rt)
  case (Cons x xs)
  obtain p s where x: "x = (p, s)" by fastforce
  have "wf_runtime (upsertSession p s rt)" using Cons.prems by (intro wf_upsertSession) (auto simp: x)
  then show ?case using Cons.prems by (simp add: x Cons.IH)
qed simp

lemma forget_session_streams:
  "rt_logCtx (forget_session s rt) = mdel (s_ID s) (rt_logCtx rt)"
  "rt_streams (forget_session s rt) = (case mget (rt_logCtx rt) (s_ID s) of None \<Rightarrow> rt_streams rt
     | Some h \<Rightarrow> (rt_streams rt)[h := (rt_streams rt ! h)\<lparr>st_cancelled := True\<rparr>])"
proof -
  have "mdel (s_ID s) m = m" if "mget m (s_ID s) = None" for m :: "(string, nat) gomap"
    using that by (simp add: mdel_def mget_def delete_id map_of_eq_None_iff)
  then show "rt_logCtx (forget_session s rt) = mdel (s_ID s) (rt_logCtx rt)"
    by (auto simp: forget_session_def Let_def cancel_stream_def split: option.splits)
qed (simp add: forget_session_def Let_def cancel_stream_def split: option.splits)

lemma wf_forget_session:
  assumes "wf_runtime rt"
  shows "wf_runtime (forget_session s rt)"
proof -
  note ok = assms [unfolded wf_runtime_def] and st = forget_session_streams [of s rt]
  note S = streams_okD [OF conjunct2 [OF ok]]
  have "sessions_ok (forget_session s rt)" using ok by (auto simp: sessions_ok_def split: if_splits)
  moreover have "streams_ok (forget_session s rt)" unfolding streams_ok_def
  proof (intro conjI allI impI)
    fix i h
    assume "mget (rt_logCtx (forget_session s rt)) i = Some h"
    then have i: "mget (rt_logCtx rt) i = Some h" "i \<noteq> s_ID s" by (auto simp: st split: if_splits)
    have "mget (rt_logCtx rt) (s_ID s) \<noteq> Some h" using S(1) [OF i(1)] i(2) S(1) [of "s_ID s" h] by auto
    then show "mget (rt_sessions (forget_session s rt)) i \<noteq> None"
      "h < length (rt_streams (forget_session s rt))" "\<not> st_cancelled (rt_streams (forget_session s rt) ! h)"
      "st_Session (rt_streams (forget_session s rt) ! h) = i"
      using S(1) [OF i(1)] i(2) by (auto simp: st nth_list_update split: option.splits)
  next
    fix h
    assume h: "h < length (rt_streams (forget_session s rt))" "\<not> st_cancelled (rt_streams (forget_session s rt) ! h)"
    have len: "h < length (rt_streams rt)" using h(1) by (auto simp: st split: option.splits)
    have ne: "mget (rt_logCtx rt) (s_ID s) \<noteq> Some h" using h(2) len by (auto simp: st split: option.splits)
    then have same: "rt_streams (forget_session s rt) ! h = rt_streams rt ! h"
      by (auto simp: st nth_list_update split: option.splits)
    then have "mget (rt_logCtx rt) (st_Session (rt_streams rt ! h)) = Some h" using S(2) len h(2) by simp
    then show "mget (rt_logCtx (forget_session s rt)) (st_Session (rt_streams (forget_session s rt) ! h)) = Some h"
      using ne by (simp only: same st(1) mget_mdel) auto
  qed
  ultimately show ?thesis by (simp add: wf_runtime_def)
qed

lemma wf_forget_all: "wf_runtime rt \<Longrightarrow> wf_runtime (forget_all ss rt)"
  unfolding forget_all_def by (induction ss arbitrary: rt) (auto intro: wf_forget_session)

lemma wf_discover: "wf_runtime rt \<Longrightarrow> wf_runtime (discover \<pi> ps rt)"
proof -
  assume "wf_runtime rt"
  then have "wf_runtime (upsert_all (found (rt_AgentID rt) ps) rt)"
    by (rule wf_upsert_all) (auto dest: found_machine)
  then have "wf_runtime (forget_all ss (upsert_all (found (rt_AgentID rt) ps) rt))" for ss
    by (rule wf_forget_all)
  moreover have "wf_runtime (announce_all ss rt') \<longleftrightarrow> wf_runtime rt'" for ss rt'
    by (rule wf_runtime_cong) simp_all
  ultimately show ?thesis by (simp add: discover_eq Let_def)
qed

subsection \<open>Every step keeps the invariant\<close>

text \<open>Two daemons that agree on the parts the invariant speaks of.\<close>

definition same_core :: "runtime \<Rightarrow> runtime \<Rightarrow> bool" where
  "same_core rt rt' \<longleftrightarrow> rt_AgentID rt' = rt_AgentID rt \<and> rt_sessions rt' = rt_sessions rt
     \<and> rt_logCtx rt' = rt_logCtx rt \<and> rt_streams rt' = rt_streams rt"

lemma same_core_refl [simp]: "same_core rt rt"
  by (simp add: same_core_def)

lemma same_core_trans: "same_core rt rt' \<Longrightarrow> same_core rt' rt'' \<Longrightarrow> same_core rt rt''"
  by (simp add: same_core_def)

lemma same_core_wf: "same_core rt rt' \<Longrightarrow> wf_runtime rt \<Longrightarrow> wf_runtime rt'"
  using wf_runtime_cong [of rt' rt] by (simp add: same_core_def)

lemma same_core_send [simp]: "same_core rt (rt_send w rt') \<longleftrightarrow> same_core rt rt'"
  by (simp add: same_core_def)

lemma same_core_foldl: "(\<And>s x. same_core s (f s x)) \<Longrightarrow> same_core rt (foldl f rt xs)"
  by (induction xs arbitrary: rt) (auto intro: same_core_trans)

lemma same_core_updates [simp]:
  "same_core rt (rt'\<lparr>rt_term := m\<rparr>) \<longleftrightarrow> same_core rt rt'"
  "same_core rt (rt'\<lparr>rt_ws := w\<rparr>) \<longleftrightarrow> same_core rt rt'"
  "same_core rt (rt'\<lparr>rt_pending := ps\<rparr>) \<longleftrightarrow> same_core rt rt'"
  "same_core rt (rt'\<lparr>rt_now := t\<rparr>) \<longleftrightarrow> same_core rt rt'"
  "same_core rt (rt'\<lparr>rt_controls := cs\<rparr>) \<longleftrightarrow> same_core rt rt'"
  by (simp_all add: same_core_def)

lemma same_core_callback [simp]: "same_core rt (term_callback cb rt') \<longleftrightarrow> same_core rt rt'"
  by (cases cb) simp_all

lemma same_core_term_do: "same_core rt (rt_term_do f rt)"
proof -
  obtain m cbs where f: "f (rt_term rt) = (m, cbs)" by fastforce
  have "same_core (rt\<lparr>rt_term := m\<rparr>) (foldl (\<lambda>rt cb. term_callback cb rt) (rt\<lparr>rt_term := m\<rparr>) cbs)"
    by (rule same_core_foldl) simp
  then show ?thesis by (simp add: rt_term_do_def f same_core_def)
qed

lemma same_core_control: "same_core rt (snd (control_all ps s action (res, rt)))"
proof -
  have "same_core rt (snd (control_all ps s action (res, rt')))" if "same_core rt rt'" for rt' res
    using that
  proof (induction ps arbitrary: rt' res)
    case (Cons p ps)
    show ?case
      using Cons.prems Cons.IH [of "rt'\<lparr>rt_controls := rt_controls rt' @ [(pv_Name p, s_ID s, action)]\<rparr>"]
        Cons.IH [of rt' res]
      by (auto simp: control_all_def Let_def split: option.splits)
  qed (simp add: control_all_def)
  then show ?thesis by simp
qed

lemma same_core_message: "same_core rt (handleServerMessage start tmux ps env rt)"
proof -
  have cmd: "same_core rt (handleCommand ps c rt)" for c
  proof (cases c)
    case (Some cmd)
    let ?rt = "rt_send (CommandAck (Some (cmd_RequestID cmd))) rt"
    have "same_core rt (snd (control_all ps s a (res, ?rt)))" for s a res
      using same_core_control [of ?rt ps s a res] by (simp add: same_core_def)
    then show ?thesis
      by (auto simp: handleCommand_def Some Let_def case_prod_beta split: option.splits)
  qed (simp add: handleCommand_def)
  have "same_core rt (handleTerminalOpen start ps p rt)" "same_core rt (handleTerminalAttach tmux q rt)" for p q
    by (auto simp: handleTerminalOpen_def handleTerminalAttach_def Let_def same_core_term_do
        split: option.splits sum.splits)
  then show ?thesis using cmd by (auto simp: handleServerMessage_def split: wire.splits option.splits)
qed

inductive agent_step :: "runtime \<Rightarrow> runtime \<Rightarrow> bool" where
  poll: "range_order \<pi> \<Longrightarrow> agent_step rt (discover \<pi> ps rt)"
| line: "agent_step rt (stream_line h sid stream l ts rt)"
| line_end: "agent_step rt (stream_end h closed rt)"
| metrics: "range_order \<pi> \<Longrightarrow> agent_step rt (metrics_tick \<pi> ps rt)"
| heartbeat: "agent_step rt (heartbeat_tick cpu vmem load rt)"
| message: "agent_step rt (handleServerMessage start tmux ps env rt)"
| initial: "agent_step rt (type_initial k rt)"
| pty_out: "agent_step rt (rt_term_do (pty_read h chunk) rt)"
| pty_exit: "agent_step rt (rt_term_do (pty_end h w) rt)"
| mirror: "agent_step rt (rt_term_do (tmux_frame h frame) rt)"
| reassert: "agent_step rt (rt\<lparr>rt_term := tmux_reassert t h (rt_term rt)\<rparr>)"
| mirror_end: "agent_step rt (rt\<lparr>rt_term := tmux_done h (rt_term rt)\<rparr>)"
| connection: "agent_step rt (rt\<lparr>rt_ws := ws_setConn c (rt_ws rt)\<rparr>)"
| clock: "agent_step rt (rt\<lparr>rt_now := t\<rparr>)"

inductive_cases agent_stepE: "agent_step rt rt'"

lemma wf_stream_update:
  assumes "wf_runtime rt" "st_Session st = st_Session (rt_streams rt ! h)" "st_cancelled st = st_cancelled (rt_streams rt ! h)"
  shows "wf_runtime (rt\<lparr>rt_streams := (rt_streams rt)[h := st]\<rparr>)"
proof -
  have "(rt_streams rt)[h := st] ! k = (if k = h \<and> k < length (rt_streams rt) then st else rt_streams rt ! k)" for k
    by (cases "h < length (rt_streams rt)") (auto simp: nth_list_update list_update_beyond)
  then show ?thesis using assms unfolding wf_runtime_def sessions_ok_def streams_ok_def by auto
qed

lemma same_core_metrics: "same_core rt (metrics_tick \<pi> ps rt)"
  unfolding metrics_tick_def by (intro same_core_foldl) (auto split: sum.splits)

lemma wf_agent_step: "agent_step rt rt' \<Longrightarrow> wf_runtime rt \<Longrightarrow> wf_runtime rt'"
proof (induction rule: agent_step.induct)
  case (poll \<pi> rt ps)
  show ?case by (rule wf_discover [OF poll(2)])
next
  case (line rt h sid stream l ts)
  then show ?case by (auto simp: stream_line_def Let_def intro!: wf_stream_update)
next
  case (line_end rt h closed)
  then show ?case by (auto simp: stream_end_def intro!: wf_stream_update)
next
  case (metrics \<pi> rt ps)
  then show ?case using same_core_wf same_core_metrics by blast
next
  case (heartbeat rt cpu vmem load)
  then show ?case by (simp add: heartbeat_tick_def Let_def)
next
  case (message rt start tmux ps env)
  then show ?case using same_core_message same_core_wf by blast
next
  case (initial rt k)
  have "same_core rt (type_initial k rt)" by (simp add: type_initial_def Let_def case_prod_beta)
  then show ?case using initial same_core_wf by blast
qed (erule same_core_wf [rotated], simp add: same_core_term_do)+

text \<open>The identity of an agent never changes.\<close>

lemma AgentID_agent_step: "agent_step rt rt' \<Longrightarrow> rt_AgentID rt' = rt_AgentID rt"
proof (induction rule: agent_step.induct)
  case (poll \<pi> rt ps)
  show ?case by (simp add: discover_eq Let_def)
next
  case (line rt h sid stream l ts)
  show ?case by (simp add: stream_line_def Let_def)
next
  case (line_end rt h closed)
  show ?case by (simp add: stream_end_def)
next
  case (metrics \<pi> rt ps)
  show ?case using same_core_metrics by (simp add: same_core_def)
next
  case (heartbeat rt cpu vmem load)
  show ?case by (simp add: heartbeat_tick_def Let_def)
next
  case (message rt start tmux ps env)
  show ?case using same_core_message [of rt start tmux ps env] by (simp add: same_core_def)
next
  case (initial rt k)
  show ?case by (simp add: type_initial_def Let_def case_prod_beta)
qed (use same_core_term_do in \<open>simp_all add: same_core_def\<close>)

lemma reachable_agent: "agent_step\<^sup>*\<^sup>* rt rt' \<Longrightarrow> wf_runtime rt \<Longrightarrow> wf_runtime rt' \<and> rt_AgentID rt' = rt_AgentID rt"
  by (induction rule: rtranclp_induct) (auto intro: wf_agent_step simp: AgentID_agent_step)

subsection \<open>What a poll leaves\<close>

lemma find_snoc: "find P (ys @ [y]) = (case find P ys of Some z \<Rightarrow> Some z | None \<Rightarrow> if P y then Some y else None)"
  by (induction ys) auto

lemma sessions_upsert_all:
  "mget (rt_sessions (upsert_all xs rt)) i =
     (case find (\<lambda>(p, s). s_ID s = i) (rev xs) of Some (p, s) \<Rightarrow> Some s | None \<Rightarrow> mget (rt_sessions rt) i)"
proof (induction xs arbitrary: rt)
  case (Cons x xs)
  obtain p s where x: "x = (p, s)" by fastforce
  show ?case
    by (cases "find (\<lambda>(p, s). s_ID s = i) (rev xs)") (auto simp: x Cons.IH find_snoc)
qed simp

lemma found_ids_find: "i \<in> set (found_ids xs) \<longleftrightarrow> find (\<lambda>(p, s). s_ID s = i) (rev xs) \<noteq> None"
  by (auto simp: found_ids_def find_None_iff)

lemma set_vanished:
  assumes "range_order \<pi>" "sessions_ok rt"
  shows "s_ID ` set (vanished \<pi> ids rt) = {i. i \<notin> set ids \<and> mget (rt_sessions rt) i \<noteq> None}"
proof -
  have "set (vanished \<pi> ids rt) = snd ` {x \<in> set (rt_sessions rt). fst x \<notin> set ids}"
    using range_order_set [OF assms(1)] by (simp add: vanished_def case_prod_beta)
  moreover have "(i, s) \<in> set (rt_sessions rt) \<longleftrightarrow> mget (rt_sessions rt) i = Some s" for i s
    using assms(2) by (simp add: sessions_ok_def set_mget)
  ultimately have v: "s \<in> set (vanished \<pi> ids rt) \<longleftrightarrow> (\<exists>i. i \<notin> set ids \<and> mget (rt_sessions rt) i = Some s)" for s
    by (auto simp: image_iff Bex_def)
  have key: "mget (rt_sessions rt) i = Some s \<Longrightarrow> s_ID s = i" for i s
    using sessions_okD [OF assms(2)] by blast
  show ?thesis
  proof (intro equalityI subsetI)
    fix i assume "i \<in> s_ID ` set (vanished \<pi> ids rt)"
    then obtain s where s: "i = s_ID s" "s \<in> set (vanished \<pi> ids rt)" by blast
    then obtain j where "j \<notin> set ids" "mget (rt_sessions rt) j = Some s" using v by blast
    with s(1) key [of j s] show "i \<in> {i. i \<notin> set ids \<and> mget (rt_sessions rt) i \<noteq> None}" by simp
  next
    fix i assume "i \<in> {i. i \<notin> set ids \<and> mget (rt_sessions rt) i \<noteq> None}"
    then obtain s where s: "i \<notin> set ids" "mget (rt_sessions rt) i = Some s" by auto
    then have "s \<in> set (vanished \<pi> ids rt)" using v by blast
    then show "i \<in> s_ID ` set (vanished \<pi> ids rt)" using key [OF s(2)] by blast
  qed
qed

lemma sessions_discover:
  assumes "wf_runtime rt" "range_order \<pi>"
  shows "mget (rt_sessions (discover \<pi> ps rt)) i =
    map_option snd (find (\<lambda>(p, s). s_ID s = i) (rev (found (rt_AgentID rt) ps)))"
proof -
  let ?xs = "found (rt_AgentID rt) ps"
  let ?rt = "upsert_all ?xs rt"
  have "wf_runtime ?rt" using assms(1) by (rule wf_upsert_all) (auto dest: found_machine)
  then have "s_ID ` set (vanished \<pi> (found_ids ?xs) ?rt) =
      {i. i \<notin> set (found_ids ?xs) \<and> mget (rt_sessions ?rt) i \<noteq> None}"
    by (intro set_vanished [OF assms(2)]) (simp add: wf_runtime_def)
  then show ?thesis
    using found_ids_find [of i ?xs] sessions_upsert_all [of ?xs rt i]
    by (cases "find (\<lambda>(p, s). s_ID s = i) (rev ?xs)") (auto simp: discover_eq Let_def)
qed

subsection \<open>A concrete agent\<close>

definition claude_at :: "(string \<times> string) list \<Rightarrow> provider" where
  "claude_at ss = \<lparr>pv_Name = ''claude-code'',
     pv_Discover = Inr (map (\<lambda>(i, st). zero_session\<lparr>s_ID := i, s_Provider := ''claude-code'', s_Status := st\<rparr>) ss),
     pv_Metrics = \<lambda>s. Inl ''gone'', pv_Logs = \<lambda>s. True, pv_Control = \<lambda>s a. None, pv_Launch = None\<rparr>"

definition sample_agent :: runtime where
  "sample_agent = New_runtime (\<lambda>u. ''mc-1'') \<lparr>hf_Hostname = ''box'', hf_OS = ''linux'', hf_Arch = ''amd64'',
     hf_NumCPU = 8, hf_TotalMem = None\<rparr> (\<lambda>k. True) (\<lambda>k. ''e'' @ utoa k) 5
     \<lparr>ac_ServerURL = ''wss://h'', ac_APIKey = ''k'', ac_AgentID = ''m1'', ac_HostnameOverride = ''''\<rparr>"

definition online :: "runtime \<Rightarrow> runtime" where
  "online rt = rt\<lparr>rt_ws := ws_setConn True (rt_ws rt)\<rparr>"

definition after_first_poll :: runtime where
  "after_first_poll = discover id [claude_at [(''a'', ''running''), (''b'', ''idle'')]] (online sample_agent)"

definition after_second_poll :: runtime where
  "after_second_poll = discover id [claude_at [(''a'', ''idle'')]] after_first_poll"

lemma wf_sample: "wf_runtime sample_agent" "wf_runtime (online sample_agent)" "wf_runtime after_first_poll"
proof -
  show w: "wf_runtime sample_agent"
    by (simp add: wf_runtime_def sessions_ok_def streams_ok_def sample_agent_def New_runtime_def Let_def)
  have "same_core sample_agent (online sample_agent)" by (simp add: online_def)
  then show o: "wf_runtime (online sample_agent)" using w by (rule same_core_wf)
  then show "wf_runtime after_first_poll" unfolding after_first_poll_def by (rule wf_discover)
qed

subsection \<open>The properties\<close>

text \<open>
  C30. Whatever the agent does, from its start: the sessions it knows are filed under their own ids and
  belong to its machine, and the log streams still running are exactly one for each table entry, all
  of known sessions; a session that vanished leaves no stream behind.
\<close>

theorem agent_invariant:
  assumes "agent_step\<^sup>*\<^sup>* (New_runtime derive hf net uuid now cfg) rt"
  shows "(\<forall>(i, s) \<in> set (rt_sessions rt). s_ID s = i \<and> s_MachineID s = rt_AgentID rt)
    \<and> (\<forall>h < length (rt_streams rt). st_cancelled (rt_streams rt ! h) = False \<longleftrightarrow>
         mget (rt_logCtx rt) (st_Session (rt_streams rt ! h)) = Some h)
    \<and> (\<forall>i. mget (rt_sessions rt) i = None \<longrightarrow> mget (rt_logCtx rt) i = None)"
proof -
  have new: "wf_runtime (New_runtime derive hf net uuid now cfg)"
    by (simp add: wf_runtime_def sessions_ok_def streams_ok_def New_runtime_def Let_def)
  from assms have wf: "wf_runtime rt"
    by (induction rule: rtranclp_induct) (use new in \<open>auto intro: wf_agent_step\<close>)
  then have S: "streams_ok rt" "wf_map (rt_sessions rt)" by (simp_all add: wf_runtime_def sessions_ok_def)
  show ?thesis
  proof (intro conjI ballI allI impI)
    fix x assume "x \<in> set (rt_sessions rt)"
    moreover obtain i s where x: "x = (i, s)" by fastforce
    ultimately have "mget (rt_sessions rt) i = Some s" using S(2) by (simp add: set_mget)
    then show "case x of (i, s) \<Rightarrow> s_ID s = i \<and> s_MachineID s = rt_AgentID rt"
      using sessions_okD [of rt i s] wf by (simp add: x wf_runtime_def)
  next
    fix h assume "h < length (rt_streams rt)"
    then show "st_cancelled (rt_streams rt ! h) = False \<longleftrightarrow>
        mget (rt_logCtx rt) (st_Session (rt_streams rt ! h)) = Some h"
      using streams_okD [OF S(1)] by blast
  next
    fix i assume "mget (rt_sessions rt) i = None"
    then show "mget (rt_logCtx rt) i = None" using streams_okD(1) [OF S(1), of i] by (cases "mget (rt_logCtx rt) i") auto
  qed
qed

lemma agent_invariant_witness:
  "list_all (\<lambda>(i, s). s_ID s = i \<and> s_MachineID s = rt_AgentID after_first_poll) (rt_sessions after_first_poll)"
proof -
  have "agent_step sample_agent (online sample_agent)" unfolding online_def by (rule agent_step.connection)
  moreover have "agent_step (online sample_agent) after_first_poll"
    unfolding after_first_poll_def by (rule agent_step.poll) simp
  ultimately have "agent_step\<^sup>*\<^sup>* sample_agent after_first_poll" by simp
  from agent_invariant [OF this [unfolded sample_agent_def]] show ?thesis by (simp add: list_all_iff)
qed

text \<open>
  After a poll the agent knows exactly what its providers found, each session in the state reported
  last, filed under this machine; a provider that failed has found nothing.
\<close>

theorem discover_exact:
  assumes "wf_runtime rt" "range_order \<pi>"
  shows "mget (rt_sessions (discover \<pi> ps rt)) i =
    map_option snd (find (\<lambda>(p, s). s_ID s = i) (rev (found (rt_AgentID rt) ps)))"
  by (rule sessions_discover [OF assms])

lemma discover_exact_witness: "mget (rt_sessions after_second_poll) ''b'' = None"
  using discover_exact [OF wf_sample(3), of id "[claude_at [(''a'', ''idle'')]]" "''b''"]
  by (simp add: after_second_poll_def found_def found_by_def claude_at_def)

end
