(* ===== verification/Agent_Sync.thy ===== *)
theory Agent_Sync
  imports Agent_Runtime Server_Core
begin

section \<open>The agent and the server agree on the sessions\<close>

text \<open>
  Composes \<open>discover\<close> of the agent with \<open>onAgentMessage\<close> of the server: what a poll sends over an
  open connection, and what the server's live state holds for the machine once it has handled it.
\<close>

definition connected :: "runtime \<Rightarrow> bool" where
  "connected rt \<longleftrightarrow> wc_conn (rt_ws rt) \<and> (\<forall>k. wc_net (rt_ws rt) k)"

definition wires :: "runtime \<Rightarrow> wire list" where
  "wires rt = map env_Msg (wc_sent (rt_ws rt))"

fun session_wire :: "wire \<Rightarrow> bool" where
  "session_wire (SessionUpsert (Some s)) \<longleftrightarrow> True"
| "session_wire (SessionRemoved (Some i)) \<longleftrightarrow> True"
| "session_wire _ \<longleftrightarrow> False"

fun poll_wire :: "wire \<Rightarrow> bool" where
  "poll_wire (EventReport (Some e)) \<longleftrightarrow> True"
| "poll_wire w \<longleftrightarrow> session_wire w"

text \<open>From \<open>rt\<close> to \<open>rt'\<close> the messages of a poll were sent, those about sessions being \<open>ws\<close>.\<close>

definition polled :: "runtime \<Rightarrow> wire list \<Rightarrow> runtime \<Rightarrow> bool" where
  "polled rt ws rt' \<longleftrightarrow> connected rt' \<and>
     (\<exists>new. wires rt' = wires rt @ new \<and> list_all poll_wire new \<and> filter session_wire new = ws)"

lemma polled_refl: "connected rt \<Longrightarrow> rt_ws rt' = rt_ws rt \<Longrightarrow> polled rt [] rt'"
  by (simp add: polled_def connected_def wires_def)

lemma polled_trans: "polled rt ws rt' \<Longrightarrow> polled rt' ws' rt'' \<Longrightarrow> polled rt (ws @ ws') rt''"
  unfolding polled_def by auto

lemma polled_conn: "polled rt ws rt' \<Longrightarrow> connected rt'"
  by (simp add: polled_def)

lemma polled_ws: "polled rt ws rt' \<Longrightarrow> rt_ws rt'' = rt_ws rt' \<Longrightarrow> polled rt ws rt''"
  by (simp add: polled_def connected_def wires_def)

lemma polled_ws_left: "polled rt ws rt' \<Longrightarrow> rt_ws rt = rt_ws rt'' \<Longrightarrow> polled rt'' ws rt'"
  by (simp add: polled_def wires_def)

lemma polled_send:
  assumes "connected rt" "encodable w" "poll_wire w"
  shows "polled rt (filter session_wire [w]) (rt_send w rt)"
proof -
  have "wires (rt_send w rt) = wires rt @ [w]" "connected (rt_send w rt)"
    using assms(1,2) by (simp_all add: rt_send_def ws_send_def wires_def connected_def Encode_def Let_def)
  then show ?thesis using assms(3) by (simp add: polled_def)
qed

lemma polled_event: "connected rt \<Longrightarrow> polled rt [] (rt_send (EventReport (Some e)) rt)"
  using polled_send [of rt "EventReport (Some e)"] by simp

lemma polled_emitEvent:
  assumes "connected rt"
  shows "polled rt [] (emitEvent e rt)"
proof -
  let ?rt = "rt\<lparr>rt_taken := Suc (rt_taken rt)\<rparr>"
  have "connected ?rt" using assms by (simp add: connected_def)
  then have "polled ?rt [] (emitEvent e rt)"
    using polled_event [of ?rt] by (simp add: emitEvent_def Let_def)
  then show ?thesis by (rule polled_ws_left) simp
qed

lemma polled_foldl:
  assumes "connected rt" "\<And>rt x. connected rt \<Longrightarrow> x \<in> set xs \<Longrightarrow> polled rt (ws x) (f rt x)"
  shows "polled rt (concat (map ws xs)) (foldl f rt xs)"
  using assms
proof (induction xs arbitrary: rt)
  case (Cons x xs)
  have 1: "polled rt (ws x) (f rt x)" using Cons.prems by simp
  have 2: "polled (f rt x) (concat (map ws xs)) (foldl f (f rt x) xs)"
    using polled_conn [OF 1] Cons.prems by (intro Cons.IH) auto
  show ?case using polled_trans [OF 1 2] by simp
qed (simp add: polled_refl)

lemma concat_replicate_Nil [simp]: "concat (map (\<lambda>x. []) xs) = []"
  by (induction xs) auto

lemma polled_events:
  assumes "connected rt"
  shows "polled rt [] (foldl (\<lambda>rt ev. emitEvent ev rt) rt es)"
proof -
  have "polled rt (concat (map (\<lambda>_. []) es)) (foldl (\<lambda>rt ev. emitEvent ev rt) rt es)"
    by (rule polled_foldl [OF assms]) (rule polled_emitEvent)
  then show ?thesis by simp
qed

lemma polled_upsertSession:
  assumes "connected rt" "session_encodable s"
  shows "polled rt [SessionUpsert (Some s)] (upsertSession p s rt)"
proof -
  let ?rt = "rt\<lparr>rt_sessions := mput (s_ID s) s (rt_sessions rt)\<rparr>"
  let ?prev = "mget (rt_sessions rt) (s_ID s)"
  let ?d = "detectSessionEvents (case ?prev of None \<Rightarrow> zero_session | Some x \<Rightarrow> x) s (?prev \<noteq> None) ?rt"
  have c: "connected ?rt" using assms(1) by (simp add: connected_def)
  have "polled ?rt [] ?d"
    unfolding detectSessionEvents_def using polled_events [OF c] by blast
  from polled_trans [OF this polled_send [OF polled_conn [OF this], of "SessionUpsert (Some s)"]]
  have "polled ?rt [SessionUpsert (Some s)] (rt_send (SessionUpsert (Some s)) ?d)" using assms(2) by simp
  then have "polled ?rt [SessionUpsert (Some s)] (upsertSession p s rt)"
    by (rule polled_ws) (simp add: upsertSession_def startLogStream_def Let_def)
  then show ?thesis by (rule polled_ws_left) simp
qed

lemma polled_upsert_all:
  assumes "connected rt" "\<forall>(p, s) \<in> set xs. session_encodable s"
  shows "polled rt (map (\<lambda>(p, s). SessionUpsert (Some s)) xs) (upsert_all xs rt)"
proof -
  have "polled rt (concat (map (\<lambda>(p, s). [SessionUpsert (Some s)]) xs)) (upsert_all xs rt)"
    unfolding upsert_all_def
    using assms by (intro polled_foldl) (auto intro: polled_upsertSession)
  moreover have "concat (map (\<lambda>(p, s). [SessionUpsert (Some s)]) xs) = map (\<lambda>(p, s). SessionUpsert (Some s)) xs"
    by (induction xs) auto
  ultimately show ?thesis by simp
qed

lemma polled_announce_all:
  assumes "connected rt"
  shows "polled rt (map (\<lambda>s. SessionRemoved (Some (s_ID s))) ss) (announce_all ss rt)"
proof -
  have "polled rt [SessionRemoved (Some (s_ID s))] (announce_removed s rt)" if "connected rt" for rt s
    unfolding announce_removed_def
    using polled_trans [OF polled_emitEvent [OF that] polled_send [OF polled_conn [OF polled_emitEvent [OF that]], of "SessionRemoved (Some (s_ID s))"]]
    by simp
  then have "polled rt (concat (map (\<lambda>s. [SessionRemoved (Some (s_ID s))]) ss)) (announce_all ss rt)"
    unfolding announce_all_def by (intro polled_foldl [OF assms])
  moreover have "concat (map (\<lambda>s. [SessionRemoved (Some (s_ID s))]) ss) = map (\<lambda>s. SessionRemoved (Some (s_ID s))) ss"
    by (induction ss) auto
  ultimately show ?thesis by simp
qed

text \<open>The messages of a poll about sessions: the sessions found, then those that vanished.\<close>

lemma polled_discover:
  assumes "connected rt" "\<forall>(p, s) \<in> set (found (rt_AgentID rt) ps). session_encodable s"
  shows "polled rt (map (\<lambda>(p, s). SessionUpsert (Some s)) (found (rt_AgentID rt) ps)
      @ map (\<lambda>s. SessionRemoved (Some (s_ID s)))
          (vanished \<pi> (found_ids (found (rt_AgentID rt) ps)) (upsert_all (found (rt_AgentID rt) ps) rt)))
    (discover \<pi> ps rt)"
proof -
  let ?xs = "found (rt_AgentID rt) ps"
  let ?u = "upsert_all ?xs rt"
  let ?gone = "vanished \<pi> (found_ids ?xs) ?u"
  note u = polled_upsert_all [OF assms]
  have "connected (forget_all ?gone ?u)" using polled_conn [OF u] by (simp add: connected_def)
  note a = polled_ws_left [OF polled_announce_all [OF this, of ?gone], of ?u]
  show ?thesis unfolding discover_eq Let_def by (rule polled_trans [OF u a]) simp
qed

subsection \<open>The server's side\<close>

fun session_effect :: "string \<Rightarrow> wire \<Rightarrow> (string, session) gomap \<Rightarrow> (string, session) gomap" where
  "session_effect mid (SessionUpsert (Some p)) m = mput (s_ID p) (p\<lparr>s_MachineID := mid\<rparr>) m"
| "session_effect mid (SessionRemoved (Some i)) m = mdel i m"
| "session_effect mid _ m = m"

definition live_sessions :: "string \<Rightarrow> server \<Rightarrow> (string, session) gomap" where
  "live_sessions g s = os_sessions (org_view g (sv_state s))"

lemma live_sessions_message:
  assumes "poll_wire (env_Msg env)"
  shows "live_sessions (cl_OrgID c) (onAgentMessage a c env s) =
    session_effect (cl_MachineID c) (env_Msg env) (live_sessions (cl_OrgID c) s)"
proof (cases "env_Msg env")
  case (SessionUpsert p)
  then obtain x where "p = Some x" using assms by (cases p) auto
  then show ?thesis
    by (simp add: SessionUpsert onAgentMessage_def Let_def UpsertSession_eq emit_def live_sessions_def case_prod_beta)
next
  case (SessionRemoved p)
  then obtain x where "p = Some x" using assms by (cases p) auto
  then show ?thesis
    by (simp add: SessionRemoved onAgentMessage_def Let_def RemoveSession_eq emit_def live_sessions_def)
next
  case (EventReport p)
  then obtain x where "p = Some x" using assms by (cases p) auto
  then show ?thesis
    by (simp add: EventReport onAgentMessage_def recordEvent_def Let_def AddEvent_eq emit_def live_sessions_def)
qed (use assms in auto)

text \<open>The server handles envelopes of one client, each with its own surroundings.\<close>

definition serve :: "client \<Rightarrow> (ambient \<times> envelope) list \<Rightarrow> server \<Rightarrow> server" where
  "serve c msgs s = foldl (\<lambda>s (a, env). onAgentMessage a c env s) s msgs"

lemma live_sessions_serve:
  "list_all poll_wire (map (\<lambda>(a, env). env_Msg env) msgs) \<Longrightarrow>
   live_sessions (cl_OrgID c) (serve c msgs s) =
     foldl (\<lambda>m w. session_effect (cl_MachineID c) w m) (live_sessions (cl_OrgID c) s)
       (filter session_wire (map (\<lambda>(a, env). env_Msg env) msgs))"
proof (induction msgs arbitrary: s)
  case (Cons x msgs)
  obtain a env where x: "x = (a, env)" by fastforce
  have skip: "session_effect m w y = y" if "\<not> session_wire w" for m w y
    using that by (cases "(m, w, y)" rule: session_effect.cases) auto
  have "poll_wire (env_Msg env)" using Cons.prems by (simp add: x)
  from live_sessions_message [OF this, of c a s] Cons show ?case
    by (auto simp: x serve_def skip)
qed (simp add: serve_def)

subsection \<open>Agreement after a poll\<close>

lemma effects_upserts:
  "mget (foldl (\<lambda>m w. session_effect aid w m) m (map (\<lambda>(p, s). SessionUpsert (Some s)) xs)) i =
     (case find (\<lambda>(p, s). s_ID s = i) (rev xs) of
        Some (p, s) \<Rightarrow> Some (s\<lparr>s_MachineID := aid\<rparr>) | None \<Rightarrow> mget m i)"
proof (induction xs arbitrary: m)
  case (Cons x xs)
  obtain p s where x: "x = (p, s)" by fastforce
  show ?case
    by (cases "find (\<lambda>(p, s). s_ID s = i) (rev xs)") (auto simp: x Cons.IH find_snoc)
qed simp

lemma effects_removals:
  "mget (foldl (\<lambda>m w. session_effect aid w m) m (map (\<lambda>s. SessionRemoved (Some (s_ID s))) ss)) i =
     (if i \<in> s_ID ` set ss then None else mget m i)"
  by (induction ss arbitrary: m) auto

text \<open>
  C29. An agent whose connection is open polls its providers, and the server handles what it sent. If
  every session the server holds for the machine is known to the agent, as after a fresh connection
  or an earlier poll, then afterwards the server holds for the machine exactly the sessions the
  agent knows, each in the same state, whatever other machines of the organisation have.
\<close>

theorem poll_syncs_server:
  assumes "wf_runtime rt" "range_order \<pi>" "connected rt"
    and "\<forall>(p, s) \<in> set (found (rt_AgentID rt) ps). session_encodable s"
    and "cl_MachineID c = rt_AgentID rt"
    and "\<forall>(i, s) \<in> set (live_sessions (cl_OrgID c) srv).
           s_MachineID s = rt_AgentID rt \<longrightarrow> mget (rt_sessions rt) i \<noteq> None"
    and "wc_sent (rt_ws (discover \<pi> ps rt)) = wc_sent (rt_ws rt) @ map snd msgs"
  shows "(mget (live_sessions (cl_OrgID c) (serve c msgs srv)) i = Some s \<and> s_MachineID s = rt_AgentID rt)
    \<longleftrightarrow> mget (rt_sessions (discover \<pi> ps rt)) i = Some s"
proof -
  let ?aid = "rt_AgentID rt" and ?g = "cl_OrgID c"
  let ?xs = "found ?aid ps"
  let ?u = "upsert_all ?xs rt"
  let ?gone = "vanished \<pi> (found_ids ?xs) ?u"
  let ?hit = "find (\<lambda>(p, s). s_ID s = i) (rev ?xs)"
  have "(\<lambda>(a, env). env_Msg env) = env_Msg \<circ> (snd :: ambient \<times> envelope \<Rightarrow> envelope)" by auto
  then have new: "list_all poll_wire (map (\<lambda>(a, env). env_Msg env) msgs)"
    "filter session_wire (map (\<lambda>(a, env). env_Msg env) msgs) =
       map (\<lambda>(p, s). SessionUpsert (Some s)) ?xs @ map (\<lambda>s. SessionRemoved (Some (s_ID s))) ?gone"
    using polled_discover [OF assms(3,4), of \<pi>] assms(7) by (simp_all add: polled_def wires_def)
  have "wf_runtime ?u" using assms(1) by (rule wf_upsert_all) (auto dest: found_machine)
  then have gone: "s_ID ` set ?gone = {i. i \<notin> set (found_ids ?xs) \<and> mget (rt_sessions ?u) i \<noteq> None}"
    by (intro set_vanished [OF assms(2)]) (simp add: wf_runtime_def)
  have srv: "mget (live_sessions ?g (serve c msgs srv)) i =
      (if i \<in> s_ID ` set ?gone then None
       else case ?hit of Some (p, s) \<Rightarrow> Some (s\<lparr>s_MachineID := ?aid\<rparr>) | None \<Rightarrow> mget (live_sessions ?g srv) i)"
    unfolding live_sessions_serve [OF new(1)] new(2) by (simp add: effects_removals effects_upserts assms(5))
  have after_poll: "mget (rt_sessions (discover \<pi> ps rt)) i = map_option snd ?hit"
    by (rule sessions_discover [OF assms(1,2)])
  show ?thesis
  proof (cases ?hit)
    case None
    then have "i \<notin> set (found_ids ?xs)" using found_ids_find [of i ?xs] by simp
    then have "i \<in> s_ID ` set ?gone \<longleftrightarrow> mget (rt_sessions rt) i \<noteq> None"
      using sessions_upsert_all [of ?xs rt i] by (simp add: gone None)
    moreover have "mget (rt_sessions rt) i \<noteq> None"
      if "mget (live_sessions ?g srv) i = Some s" "s_MachineID s = ?aid"
      using bspec [OF assms(6) mget_in_set [OF that(1)]] that(2) by simp
    ultimately show ?thesis using srv after_poll None by auto
  next
    case (Some ps')
    obtain p x where ps': "ps' = (p, x)" by fastforce
    have "i \<in> set (found_ids ?xs)" using found_ids_find [of i ?xs] Some by simp
    then have "i \<notin> s_ID ` set ?gone" by (simp add: gone)
    moreover have "(p, x) \<in> set (rev ?xs)" using find_SomeD [OF Some] by (simp add: ps')
    then have "x\<lparr>s_MachineID := ?aid\<rparr> = x" using found_machine [of p x ?aid ps] by simp
    ultimately show ?thesis
      using srv after_poll found_machine [of p x ?aid ps] \<open>(p, x) \<in> set (rev ?xs)\<close>
      by (auto simp: Some ps')
  qed
qed

subsection \<open>A concrete poll\<close>

definition poll_server :: server where
  "poll_server = (sample_server [] [])\<lparr>sv_state :=
     fst (UpsertSession ''g'' (zero_session\<lparr>s_ID := ''b'', s_MachineID := ''m1''\<rparr>)
       (fst (UpsertSession ''g'' (zero_session\<lparr>s_ID := ''c'', s_MachineID := ''m2''\<rparr>) new_manager)))\<rparr>"

definition second_poll_msgs :: "(ambient \<times> envelope) list" where
  "second_poll_msgs = map (Pair quiet)
     (drop (length (wc_sent (rt_ws after_first_poll))) (wc_sent (rt_ws after_second_poll)))"

definition idle_a :: session where
  "idle_a = zero_session\<lparr>s_ID := ''a'', s_MachineID := ''m1'', s_Provider := ''claude-code'', s_Status := ''idle''\<rparr>"

lemma sample_poll_facts:
  "take (length (wc_sent (rt_ws after_first_poll))) (wc_sent (rt_ws after_second_poll))
     = wc_sent (rt_ws after_first_poll)"
  "list_all (\<lambda>(i, s). s_MachineID s \<noteq> ''m1'' \<or> mget (rt_sessions after_first_poll) i \<noteq> None)
     (live_sessions ''g'' poll_server)"
  "rt_AgentID after_first_poll = ''m1''" "mget (rt_sessions after_second_poll) ''a'' = Some idle_a"
  by code_simp+

lemma poll_syncs_server_witness:
  "mget (live_sessions ''g'' (serve (sample_client ''x'' ''agent'' ''g'' ''m1'') second_poll_msgs poll_server)) ''a''
      = Some idle_a"
proof -
  have "connected (online sample_agent)"
    by (simp add: connected_def online_def ws_setConn_def sample_agent_def New_runtime_def Let_def)
  then have conn: "connected after_first_poll" unfolding after_first_poll_def
    by (intro polled_conn [OF polled_discover])
      (auto simp: found_def found_by_def claude_at_def session_encodable_def zero_session_def)
  have sent: "wc_sent (rt_ws after_second_poll) = wc_sent (rt_ws after_first_poll) @ map snd second_poll_msgs"
    using append_take_drop_id [of "length (wc_sent (rt_ws after_first_poll))" "wc_sent (rt_ws after_second_poll)"]
    by (simp add: second_poll_msgs_def sample_poll_facts(1) comp_def)
  show ?thesis
    using poll_syncs_server [OF wf_sample(3), of id "[claude_at [(''a'', ''idle'')]]"
        "sample_client ''x'' ''agent'' ''g'' ''m1''" poll_server second_poll_msgs "''a''" idle_a]
      sent [unfolded after_second_poll_def] sample_poll_facts(2,3) conn
      sample_poll_facts(4) [unfolded after_second_poll_def]
    by (simp add: found_def found_by_def claude_at_def session_encodable_def zero_session_def
        sample_client_def list_all_iff case_prod_beta)
qed

subsection \<open>Commands\<close>

lemma control_all_result:
  "let (r, rt') = control_all ps s a (res, rt)
   in rt_ws rt' = rt_ws rt \<and> rt_now rt' = rt_now rt \<and> cr_RequestID r = cr_RequestID res \<and> cr_SessionID r = cr_SessionID res
      \<and> (cr_OK r \<longleftrightarrow> cr_OK res \<or> list_ex (\<lambda>p. pv_Name p = s_Provider s \<and> pv_Control p s a = None) ps)"
proof (induction ps arbitrary: res rt)
  case (Cons p ps)
  let ?rt = "rt\<lparr>rt_controls := rt_controls rt @ [(pv_Name p, s_ID s, a)]\<rparr>"
  have step: "control_all (p # ps) s a (res, rt) =
      control_all ps s a (if pv_Name p \<noteq> s_Provider s then (res, rt)
        else case pv_Control p s a of Some e \<Rightarrow> (res\<lparr>cr_Error := e\<rparr>, ?rt) | None \<Rightarrow> (res\<lparr>cr_OK := True\<rparr>, ?rt))"
    by (simp add: control_all_def Let_def split: option.split)
  show ?case
    using Cons.IH [of res rt] Cons.IH [of "res\<lparr>cr_OK := True\<rparr>" ?rt] Cons.IH [of "res\<lparr>cr_Error := e\<rparr>" ?rt for e]
    by (simp add: step case_prod_beta Let_def split: option.splits) auto
qed (simp add: control_all_def)

text \<open>
  C31. Every command that arrives over an open connection is acknowledged and answered exactly once, in
  that order; the answer is a success exactly when the session is known and a provider of its kind
  carried the action out.
\<close>

theorem command_answered:
  assumes "connected rt"
  shows "\<exists>r. wires (handleCommand ps (Some cmd) rt) =
      wires rt @ [CommandAck (Some (cmd_RequestID cmd)), CommandResult (Some r)]
    \<and> cr_RequestID r = cmd_RequestID cmd \<and> cr_SessionID r = cmd_SessionID cmd
    \<and> (cr_OK r \<longleftrightarrow> (case mget (rt_sessions rt) (cmd_SessionID cmd) of None \<Rightarrow> False
         | Some s \<Rightarrow> list_ex (\<lambda>p. pv_Name p = s_Provider s \<and> pv_Control p s (cmd_Action cmd) = None) ps))"
proof -
  have send: "wires (rt_send w rt) = wires rt @ [w]" "connected (rt_send w rt)" if "connected rt" "encodable w" for w rt
    using that by (simp_all add: rt_send_def ws_send_def wires_def connected_def Encode_def Let_def)
  let ?rt = "rt_send (CommandAck (Some (cmd_RequestID cmd))) rt"
  let ?res = "\<lparr>cr_RequestID = cmd_RequestID cmd, cr_SessionID = cmd_SessionID cmd, cr_OK = False, cr_Error = ''''\<rparr>"
  have ack: "wires ?rt = wires rt @ [CommandAck (Some (cmd_RequestID cmd))]" "connected ?rt"
    using send [OF assms] by simp_all
  show ?thesis
  proof (cases "mget (rt_sessions rt) (cmd_SessionID cmd)")
    case None
    then show ?thesis using send(1) [OF ack(2)] ack(1) by (simp add: handleCommand_def Let_def)
  next
    case (Some s)
    obtain r rt' where c: "control_all ps s (cmd_Action cmd) (?res, ?rt) = (r, rt')" by fastforce
    note res = control_all_result [of ps s "cmd_Action cmd" ?res ?rt, unfolded c]
    have "wires rt' = wires ?rt" "connected rt'" using res ack(2) by (simp_all add: wires_def connected_def)
    then have "wires (rt_send (CommandResult (Some r)) rt') = wires rt @ [CommandAck (Some (cmd_RequestID cmd)), CommandResult (Some r)]"
      using send(1) [of rt'] ack(1) by simp
    moreover have "handleCommand ps (Some cmd) rt = rt_send (CommandResult (Some r)) rt'"
      using Some c by (simp add: handleCommand_def Let_def)
    ultimately show ?thesis using res Some by (intro exI [of _ r]) simp
  qed
qed

lemma command_answered_witness:
  "\<exists>r. wires (handleCommand [claude_at []] (Some \<lparr>cmd_RequestID = ''q'', cmd_SessionID = ''a'', cmd_Action = ActionStop\<rparr>)
        (online sample_agent)) = wires (online sample_agent) @ [CommandAck (Some ''q''), CommandResult (Some r)]
     \<and> cr_RequestID r = ''q'' \<and> cr_SessionID r = ''a'' \<and> \<not> cr_OK r"
proof -
  have "connected (online sample_agent)" "rt_sessions (online sample_agent) = []"
    by (simp_all add: connected_def online_def ws_setConn_def sample_agent_def New_runtime_def Let_def)
  then show ?thesis
    using command_answered [of "online sample_agent" "[claude_at []]"
        "\<lparr>cmd_RequestID = ''q'', cmd_SessionID = ''a'', cmd_Action = ActionStop\<rparr>"] by simp
qed

end
