(* ===== verification/Go_Path.thy ===== *)
theory Go_Path
  imports Go_Lib
begin

section \<open>Package filepath\<close>

text \<open>
  \<open>Clean\<close>, \<open>Join\<close> and \<open>Dir\<close> of \<open>path/filepath\<close> on Unix, and when a joined path stays below a
  directory. A clean path is a list of names, parents only at the front of a relative one.
\<close>

subsection \<open>Paths\<close>

text \<open>\<open>filepath.Clean\<close>, \<open>Join\<close> and \<open>Dir\<close> on Unix.\<close>

definition clean_step :: "bool \<Rightarrow> string list \<Rightarrow> string \<Rightarrow> string list" where
  "clean_step rooted acc w =
     (if w = [] \<or> w = ''.'' then acc
      else if w = ''..'' then
        (if acc \<noteq> [] \<and> last acc \<noteq> ''..'' then butlast acc
         else if rooted then acc else acc @ [''..''])
      else acc @ [w])"

definition path_Clean :: "string \<Rightarrow> string" where
  "path_Clean p =
     (let rooted = has_prefix p ''/'';
          s = (if rooted then ''/'' else []) @ join ''/'' (foldl (clean_step rooted) [] (split_on (CHR ''/'') p))
      in if s = [] then ''.'' else s)"

definition path_Join :: "string list \<Rightarrow> string" where
  "path_Join ps = (case dropWhile (\<lambda>p. p = []) ps of [] \<Rightarrow> [] | qs \<Rightarrow> path_Clean (join ''/'' qs))"

definition path_Dir :: "string \<Rightarrow> string" where
  "path_Dir p = path_Clean (rev (dropWhile (\<lambda>c. c \<noteq> CHR ''/'') (rev p)))"

subsection \<open>Clean paths\<close>

definition plain_name :: "string \<Rightarrow> bool" where
  "plain_name w \<longleftrightarrow> w \<noteq> [] \<and> w \<noteq> ''.'' \<and> w \<noteq> ''..'' \<and> CHR ''/'' \<notin> set w"

definition clean_names :: "bool \<Rightarrow> string list \<Rightarrow> bool" where
  "clean_names rooted ws \<longleftrightarrow>
     (\<exists>k ps. ws = replicate k ''..'' @ ps \<and> (rooted \<longrightarrow> k = 0) \<and> (\<forall>p \<in> set ps. plain_name p))"

definition path_of :: "bool \<Rightarrow> string list \<Rightarrow> string" where
  "path_of rooted ws =
     (let s = (if rooted then ''/'' else []) @ join ''/'' ws in if s = [] then ''.'' else s)"

definition names_of :: "string \<Rightarrow> string list" where
  "names_of p = foldl (clean_step (has_prefix p ''/'')) [] (split_on (CHR ''/'') p)"

lemma path_Clean_eq: "path_Clean p = path_of (has_prefix p ''/'') (names_of p)"
  by (simp add: path_Clean_def path_of_def names_of_def Let_def)

lemma clean_names_step:
  assumes "clean_names rooted ws" "CHR ''/'' \<notin> set w"
  shows "clean_names rooted (clean_step rooted ws w)"
proof -
  obtain k ps where ws: "ws = replicate k ''..'' @ ps" "rooted \<longrightarrow> k = 0" "\<forall>p \<in> set ps. plain_name p"
    using assms(1) by (auto simp: clean_names_def)
  have keep: "clean_names rooted (replicate j ''..'' @ qs)" if "rooted \<longrightarrow> j = 0" "\<forall>p \<in> set qs. plain_name p" for j qs
    using that by (auto simp: clean_names_def)
  show ?thesis
  proof (cases "w = ''..''")
    case False
    then have "plain_name w" if "\<not> (w = [] \<or> w = ''.'')" using that assms(2) by (simp add: plain_name_def)
    then show ?thesis using assms(1) False keep [of k "ps @ [w]"] ws by (auto simp: clean_step_def)
  next
    case True
    show ?thesis
    proof (cases "ps = []")
      case False
      then have "last ps \<noteq> ''..''" using ws(3) by (auto simp: plain_name_def)
      then show ?thesis using True False ws keep [of k "butlast ps"]
        by (auto simp: clean_step_def butlast_append dest: in_set_butlastD)
    next
      case Nil: True
      have "replicate k ''..'' @ [''..''] = replicate (Suc k) ''..'' @ []" by (simp add: replicate_append_same)
      moreover have "k = 0 \<or> last (replicate k ''..'') = ''..''" by (cases k) (simp_all add: replicate_append_same [symmetric])
      ultimately show ?thesis using True Nil ws keep [of "Suc k" "[]"] keep [of k "[]"]
        by (cases rooted) (auto simp: clean_step_def)
    qed
  qed
qed

lemma clean_names_fold:
  "clean_names rooted ws \<Longrightarrow> \<forall>w \<in> set vs. CHR ''/'' \<notin> set w \<Longrightarrow> clean_names rooted (foldl (clean_step rooted) ws vs)"
  by (induction vs arbitrary: ws) (simp_all add: clean_names_step)

lemma clean_names_of: "clean_names (has_prefix p ''/'') (names_of p)"
  unfolding names_of_def
  by (intro clean_names_fold ballI) (auto simp: clean_names_def dest: split_on_no_sep)

lemma clean_step_plain: "plain_name w \<Longrightarrow> clean_step rooted ws w = ws @ [w]"
  by (simp add: clean_step_def plain_name_def)

lemma clean_fold_plain: "\<forall>p \<in> set ps. plain_name p \<Longrightarrow> foldl (clean_step rooted) ws ps = ws @ ps"
  by (induction ps arbitrary: ws) (simp_all add: clean_step_plain)

lemma clean_fold_dots: "foldl (clean_step False) (replicate j ''..'') (replicate k ''..'') = replicate (j + k) ''..''"
proof (induction k arbitrary: j)
  case (Suc k)
  have "j = 0 \<or> last (replicate j ''..'') = ''..''" by (cases j) (simp_all add: replicate_append_same [symmetric])
  then have "clean_step False (replicate j ''..'') ''..'' = replicate (Suc j) ''..''"
    by (auto simp: clean_step_def replicate_append_same)
  then show ?case using Suc [of "Suc j"] by simp
qed simp

lemma clean_fold_id: "clean_names rooted ws \<Longrightarrow> foldl (clean_step rooted) [] ws = ws"
proof -
  assume "clean_names rooted ws"
  then obtain k ps where ws: "ws = replicate k ''..'' @ ps" "rooted \<longrightarrow> k = 0" "\<forall>p \<in> set ps. plain_name p"
    by (auto simp: clean_names_def)
  then show ?thesis using clean_fold_dots [of 0 k] by (cases rooted) (simp_all add: clean_fold_plain)
qed

lemma clean_names_chars:
  assumes "clean_names rooted ws" "w \<in> set ws"
  shows "w \<noteq> [] \<and> CHR ''/'' \<notin> set w"
proof -
  obtain k ps where "ws = replicate k ''..'' @ ps" "\<forall>p \<in> set ps. plain_name p"
    using assms(1) unfolding clean_names_def by blast
  then have "w = ''..'' \<or> plain_name w" using assms(2) by (metis Un_iff in_set_replicate set_append)
  then show ?thesis by (elim disjE) (simp_all add: plain_name_def)
qed

lemma join_snoc: "us \<noteq> [] \<Longrightarrow> join sep (us @ [n]) = join sep us @ sep @ n"
  by (induction sep us rule: join.induct) simp_all

lemma path_of_split:
  assumes "ws \<noteq> []" "clean_names rooted ws"
  shows "split_on (CHR ''/'') (path_of rooted ws) = (if rooted then [] # ws else ws)"
    "has_prefix (path_of rooted ws) ''/'' = rooted"
proof -
  note names = clean_names_chars [OF assms(2)]
  have j: "split_on (CHR ''/'') (join ''/'' ws) = ws" using names split_on_join [OF assms(1)] by simp
  obtain v vs where ws: "ws = v # vs" using assms(1) by (cases ws) auto
  then have hd: "join ''/'' ws \<noteq> [] \<and> hd (join ''/'' ws) = hd v" using names [of v] join_hd [of v "''/''" vs] by simp
  then show "split_on (CHR ''/'') (path_of rooted ws) = (if rooted then [] # ws else ws)"
    using j by (simp add: path_of_def Let_def)
  have "hd v \<noteq> CHR ''/''" using names [of v] ws by (cases v) auto
  then have "\<not> has_prefix (join ''/'' ws) ''/''" using hd by (cases "join ''/'' ws") (auto simp: has_prefix_def)
  then show "has_prefix (path_of rooted ws) ''/'' = rooted"
    using hd by (auto simp: path_of_def Let_def has_prefix_def)
qed

lemma path_of_snoc:
  assumes "clean_names rooted ws" "ws \<noteq> []"
  shows "path_of rooted (ws @ [n]) = path_of rooted ws @ ''/'' @ n"
proof -
  obtain v vs where ws: "ws = v # vs" using assms(2) by (cases ws) auto
  then have "join ''/'' ws \<noteq> []"
    using clean_names_chars [OF assms(1), of v] join_hd [of v "''/''" vs] by simp
  then show ?thesis using join_snoc [OF assms(2), of "''/''" n] by (simp add: path_of_def Let_def)
qed

text \<open>Joining a plain name to a clean path adds one component, nothing else.\<close>

lemma path_Join_plain:
  assumes "clean_names rooted ws" "ws \<noteq> []" "plain_name n"
  shows "path_Join [path_of rooted ws, n] = path_of rooted ws @ ''/'' @ n"
    and "path_Join [path_of rooted ws, n] = path_of rooted (ws @ [n])"
    and "clean_names rooted (ws @ [n])"
proof -
  let ?b = "path_of rooted ws"
  have ne: "?b \<noteq> []" by (simp add: path_of_def Let_def)
  have pre: "has_prefix (?b @ ''/'' @ n) ''/'' = rooted"
    using path_of_split(2) [OF assms(2,1)] ne by (cases ?b) (auto simp: has_prefix_def)
  have "split_on (CHR ''/'') (?b @ ''/'' @ n) = (if rooted then [] # ws else ws) @ [n]"
    using path_of_split(1) [OF assms(2,1)] assms(3) by (simp add: split_on_two plain_name_def)
  then have "names_of (?b @ ''/'' @ n) = ws @ [n]"
    unfolding names_of_def pre using clean_fold_id [OF assms(1)] clean_step_plain [OF assms(3)]
    by (cases rooted) (simp_all add: clean_step_def)
  then have "path_Clean (?b @ ''/'' @ n) = path_of rooted (ws @ [n])" unfolding path_Clean_eq pre by simp
  then show j: "path_Join [?b, n] = path_of rooted (ws @ [n])" using ne by (simp add: path_Join_def)
  then show "path_Join [?b, n] = ?b @ ''/'' @ n" using path_of_snoc [OF assms(1,2)] by simp
  have "clean_names rooted (clean_step rooted ws n)"
    using assms by (intro clean_names_step) (simp_all add: plain_name_def)
  then show "clean_names rooted (ws @ [n])" using clean_step_plain [OF assms(3)] by simp
qed

lemma path_Join_ends:
  assumes "plain_name n"
  shows "\<exists>rooted ws. path_Join (ps @ [n]) = path_of rooted (ws @ [n]) \<and> clean_names rooted (ws @ [n])"
proof -
  have "\<exists>q. path_Join (ps @ [n]) = path_Clean (q @ n) \<and> (q = [] \<or> last q = CHR ''/'')"
  proof (cases "dropWhile (\<lambda>p. p = []) ps")
    case Nil
    then have "\<forall>p \<in> set ps. p = []" by simp
    then have "path_Join (ps @ [n]) = path_Clean ([] @ n)"
      using assms by (simp add: path_Join_def dropWhile_append2 plain_name_def)
    then show ?thesis by blast
  next
    case (Cons q qs)
    have "dropWhile (\<lambda>p. p = []) (ps @ [n]) = (if dropWhile (\<lambda>p. p = []) ps = [] then dropWhile (\<lambda>p. p = []) [n]
        else dropWhile (\<lambda>p. p = []) ps @ [n])" by (induction ps) simp_all
    then have "dropWhile (\<lambda>p. p = []) (ps @ [n]) = (q # qs) @ [n]" using Cons by (simp only:) simp
    then have "path_Join (ps @ [n]) = path_Clean (join ''/'' ((q # qs) @ [n]))" by (simp add: path_Join_def)
    then have "path_Join (ps @ [n]) = path_Clean ((join ''/'' (q # qs) @ ''/'') @ n)"
      by (subst (asm) join_snoc) simp_all
    then show ?thesis by (metis last_snoc)
  qed
  then obtain q where q: "path_Join (ps @ [n]) = path_Clean (q @ n)" "q = [] \<or> last q = CHR ''/''" by blast
  have "split_on (CHR ''/'') (q @ n) = butlast (split_on (CHR ''/'') q) @ [n]"
  proof (cases "q = []")
    case False
    then obtain q' where "q = q' @ ''/''" using q(2) by (metis append_butlast_last_id)
    then show ?thesis using assms by (simp add: split_on_two plain_name_def butlast_append)
  qed (use assms in \<open>simp add: plain_name_def\<close>)
  then have "\<exists>ws. names_of (q @ n) = ws @ [n]"
    using clean_step_plain [OF assms] by (simp add: names_of_def)
  then show ?thesis using q(1) clean_names_of [of "q @ n"] by (metis path_Clean_eq)
qed

end
