(* ===== verification/Enroll_Handlers.thy ===== *)
theory Enroll_Handlers
  imports Server_Core
begin

section \<open>Enrollment over HTTP (enroll.go)\<close>

text \<open>
  Models \<open>internal/server/enroll.go\<close>. A body that does not decode is \<open>None\<close>; where the code
  ignores the decoding error, the handler goes on with the zero request.
\<close>

definition defaultTokenTTL :: int where
  "defaultTokenTTL = 30 * 60 * second"

record http_base =
  hb_TLS :: bool
  hb_ForwardedProto :: string
  hb_Host :: string

definition trim_right_slash :: "string \<Rightarrow> string" where
  "trim_right_slash s = rev (dropWhile (\<lambda>c. c = CHR ''/'') (rev s))"

definition publicBase :: "server_cfg \<Rightarrow> http_base \<Rightarrow> string" where
  "publicBase cfg r =
     (if cf_PublicURL cfg \<noteq> '''' then trim_right_slash (cf_PublicURL cfg)
      else (let scheme = (if hb_TLS r \<or> hb_ForwardedProto r = ''https'' then ''https'' else ''http'')
            in scheme @ ''://'' @ hb_Host r))"

text \<open>\<open>quote\<close> stands for the \<open>%q\<close> verb of \<open>fmt\<close>.\<close>

definition enrollCommand :: "(string \<Rightarrow> string) \<Rightarrow> string \<Rightarrow> string \<Rightarrow> string" where
  "enrollCommand quote base token =
     ''curl -fsSL '' @ base @ ''/install.sh | MC_SERVER_URL='' @ quote base
       @ '' MC_ENROLL_TOKEN='' @ quote token @ '' sh''"

definition arrow :: string where
  "arrow = [CHR 0xE2, CHR 0x86, CHR 0x92]"

record create_token_req =
  ct_Label :: string
  ct_TTLMinutes :: int

record token_reply =
  tk_token :: string
  tk_serverUrl :: string
  tk_expiresAt :: int
  tk_command :: string

definition token_ttl :: "int \<Rightarrow> int" where
  "token_ttl ttlMinutes =
     (if 0 < ttlMinutes then int64 (ttlMinutes * (60 * second)) else defaultTokenTTL)"

definition handleCreateEnrollToken ::
  "(string \<Rightarrow> string) \<Rightarrow> ambient \<Rightarrow> http_base \<Rightarrow> claims \<Rightarrow> create_token_req option \<Rightarrow> server
     \<Rightarrow> server \<times> token_reply response" where
  "handleCreateEnrollToken quote a hb c body s =
     (let req = (case body of None \<Rightarrow> \<lparr>ct_Label = '''', ct_TTLMinutes = 0\<rparr> | Some r \<Rightarrow> r);
          (st, r) = CreateEnrollToken (am_db a 0) (am_rand a 0) (cm_OrgID c) (ct_Label req)
                      (token_ttl (ct_TTLMinutes req)) (am_now a) (sv_store s);
          s = s\<lparr>sv_store := st\<rparr>
      in case r of Inl e \<Rightarrow> (s, Error 500 ''db'' (OfError e))
         | Inr tok \<Rightarrow>
             (let base = publicBase (sv_cfg s) hb
              in (s, Reply 201 \<lparr>tk_token = et_Token tok, tk_serverUrl = base,
                    tk_expiresAt = UnixMilli (et_ExpiresAt tok),
                    tk_command = enrollCommand quote base (et_Token tok)\<rparr>)))"

record token_view =
  tv_token :: string
  tv_label :: string
  tv_createdAt :: int
  tv_expiresAt :: int
  tv_status :: string

definition handleListEnrollTokens ::
  "(token_row list \<Rightarrow> token_row list) \<Rightarrow> ambient \<Rightarrow> claims \<Rightarrow> server \<Rightarrow> token_view list response" where
  "handleListEnrollTokens scan a c s =
     (case ListEnrollTokens scan (am_db a 0) (cm_OrgID c) (sv_store s) of
        Inl e \<Rightarrow> Error 500 ''db'' (OfError e)
      | Inr rows \<Rightarrow> Reply 200 (map (\<lambda>t. \<lparr>tv_token = et_Token t, tv_label = et_Label t,
            tv_createdAt = UnixMilli (et_CreatedAt t), tv_expiresAt = UnixMilli (et_ExpiresAt t),
            tv_status = status_text (Status t (am_now a))\<rparr>) rows))"

definition handleRevokeEnrollToken ::
  "ambient \<Rightarrow> claims \<Rightarrow> string \<Rightarrow> server \<Rightarrow> server \<times> unit response" where
  "handleRevokeEnrollToken a c token s =
     (let (st, r) = RevokeEnrollToken (am_db a 0) (cm_OrgID c) token (sv_store s);
          s = s\<lparr>sv_store := st\<rparr>
      in case r of Inl e \<Rightarrow> (s, Error 500 ''db'' (OfError e)) | Inr _ \<Rightarrow> (s, Reply 204 ()))"

record enroll_request =
  eq_Token :: string
  eq_MachineID :: string
  eq_Hostname :: string
  eq_OS :: string
  eq_Arch :: string

record enroll_response =
  ep_AgentID :: string
  ep_AgentKey :: string
  ep_ServerURL :: string

definition enroll_machine_id :: "ambient \<Rightarrow> enroll_request \<Rightarrow> string" where
  "enroll_machine_id a req =
     (let m = trim_space (eq_MachineID req) in if m = '''' then ''mc-'' @ am_uuid a 0 else m)"

text \<open>The second half of \<open>handleEnroll\<close>: consume the token, reload the keys, answer.\<close>

definition enroll_consume ::
  "ambient \<Rightarrow> http_base \<Rightarrow> enroll_request \<Rightarrow> string \<Rightarrow> server \<Rightarrow> server \<times> enroll_response response" where
  "enroll_consume a hb req machineID s =
     (let (st, r) = ConsumeEnrollToken (\<lambda>k. am_db a (2 + k)) (am_rand a 0) (eq_Token req) machineID
                      (eq_Hostname req) (am_now a) (sv_store s);
          s = s\<lparr>sv_store := st\<rparr>
      in case r of
           Inl e \<Rightarrow>
             if e = ErrTokenInvalid
             then (s, Error 401 ''invalid_token''
                     (Text ''enrollment token is invalid, expired, used, or revoked''))
             else (s, Error 500 ''db'' (OfError e))
         | Inr key \<Rightarrow>
             (let s = reloadAgentKeys (am_db a 6) a s;
                  s = s\<lparr>sv_store := fst (db_UpsertMachine (am_db a 7) (ak_OrgID key)
                        (zero_machine\<lparr>m_ID := machineID, m_Hostname := eq_Hostname req,
                           m_OS := eq_OS req, m_Arch := eq_Arch req, m_LastSeenAt := NowMillis a\<rparr>)
                        (sv_store s))\<rparr>
              in (s, Reply 200 \<lparr>ep_AgentID = machineID, ep_AgentKey = ak_Key key,
                    ep_ServerURL = publicBase (sv_cfg s) hb\<rparr>)))"

text \<open>
  The statements: 0 the token's organisation, 1 the machine's key, 2 to 5 the consuming
  transaction, 6 the reload of the keys, 7 the machine row.
\<close>

definition handleEnroll ::
  "ambient \<Rightarrow> http_base \<Rightarrow> enroll_request option \<Rightarrow> server \<Rightarrow> server \<times> enroll_response response" where
  "handleEnroll a hb body s =
     (case body of
        None \<Rightarrow> (s, Error 400 ''bad_request'' (Text ''invalid body''))
      | Some req \<Rightarrow>
          if eq_Token req = '''' then (s, Error 400 ''bad_request'' (Text ''token required''))
          else
            (let machineID = enroll_machine_id a req in
             case EnrollTokenOrg (am_db a 0) (eq_Token req) (am_now a) (sv_store s) of
               Inl _ \<Rightarrow> (s, Error 401 ''invalid_token''
                   (Text ''enrollment token is invalid, expired, used, or revoked''))
             | Inr tokOrg \<Rightarrow>
                 (case AgentKeyByMachine (am_db a 1) machineID (sv_store s) of
                    Some existing \<Rightarrow>
                      if ak_OrgID existing \<noteq> tokOrg
                      then (s, Error 409 ''machine_already_registered''
                             (Text (''This machine is already registered to another workspace. ''
                               @ ''Ask an admin to reassign it (Admin '' @ arrow @ '' Machines), then re-enroll.'')))
                      else enroll_consume a hb req machineID s
                  | None \<Rightarrow> enroll_consume a hb req machineID s)))"

subsection \<open>One machine, one workspace\<close>

definition one_workspace :: "key_row list \<Rightarrow> bool" where
  "one_workspace ks \<longleftrightarrow> (\<forall>k \<in> set ks. \<forall>k' \<in> set ks.
     \<not> ak_Revoked k \<longrightarrow> \<not> ak_Revoked k' \<longrightarrow> ak_MachineID k = ak_MachineID k' \<longrightarrow> ak_OrgID k = ak_OrgID k')"

lemma one_workspaceD:
  "one_workspace ks \<Longrightarrow> k \<in> set ks \<Longrightarrow> k' \<in> set ks \<Longrightarrow> \<not> ak_Revoked k \<Longrightarrow> \<not> ak_Revoked k' \<Longrightarrow>
     ak_MachineID k = ak_MachineID k' \<Longrightarrow> ak_OrgID k = ak_OrgID k'"
  unfolding one_workspace_def by blast

lemma one_workspaceI:
  "(\<And>k k'. k \<in> set ks \<Longrightarrow> k' \<in> set ks \<Longrightarrow> \<not> ak_Revoked k \<Longrightarrow> \<not> ak_Revoked k' \<Longrightarrow>
     ak_MachineID k = ak_MachineID k' \<Longrightarrow> ak_OrgID k = ak_OrgID k') \<Longrightarrow> one_workspace ks"
  unfolding one_workspace_def by blast

lemma one_workspace_snoc:
  assumes inv: "one_workspace ks"
    and new: "\<And>k. k \<in> set ks \<Longrightarrow> ak_MachineID k = ak_MachineID key \<Longrightarrow> \<not> ak_Revoked k \<Longrightarrow> ak_OrgID k = ak_OrgID key"
  shows "one_workspace (ks @ [key])"
proof (rule one_workspaceI)
  fix k k' assume k: "k \<in> set (ks @ [key])" "k' \<in> set (ks @ [key])" "\<not> ak_Revoked k" "\<not> ak_Revoked k'"
    "ak_MachineID k = ak_MachineID k'"
  then have "k \<in> set ks \<or> k = key" "k' \<in> set ks \<or> k' = key" by auto
  then show "ak_OrgID k = ak_OrgID k'"
    using one_workspaceD [OF inv _ _ k(3-5)] new [of k] new [of k'] k(3-5) by fastforce
qed

lemma AgentKeyByMachine_Some:
  assumes "AgentKeyByMachine fault m st = Some k"
  shows "k \<in> set (db_keys st)" "ak_MachineID k = m" "\<not> ak_Revoked k"
proof -
  let ?rows = "sort_key (\<lambda>k. - ak_CreatedAt k) (sort_key ak_Key
     (filter (\<lambda>k. ak_MachineID k = m \<and> \<not> ak_Revoked k) (db_keys st)))"
  have "fault = None" using assms by (simp add: AgentKeyByMachine_def split: option.splits)
  with assms obtain ks where "?rows = k # ks"
    by (simp add: AgentKeyByMachine_def split: list.splits)
  then have "set ?rows = insert k (set ks)" by (simp only: list.set)
  then have "k \<in> set ?rows" by blast
  then show "k \<in> set (db_keys st)" "ak_MachineID k = m" "\<not> ak_Revoked k" by auto
qed

lemma AgentKeyByMachine_None:
  assumes "AgentKeyByMachine None m st = None"
  shows "\<forall>k \<in> set (db_keys st). ak_MachineID k = m \<longrightarrow> ak_Revoked k"
proof -
  let ?rows = "sort_key (\<lambda>k. - ak_CreatedAt k) (sort_key ak_Key
     (filter (\<lambda>k. ak_MachineID k = m \<and> \<not> ak_Revoked k) (db_keys st)))"
  from assms have "?rows = []" by (simp add: AgentKeyByMachine_def split: list.splits)
  then have "set ?rows = {}" by (simp only: list.set)
  then show ?thesis by auto
qed

lemma EnrollTokenOrg_Inr:
  "EnrollTokenOrg fault tok now st = Inr g \<longleftrightarrow>
     fault = None \<and> (\<exists>rec. find_token tok st = Some rec \<and> Status rec now = TokenActive \<and> et_OrgID rec = g)"
  by (auto simp: EnrollTokenOrg_def first_or_def split: sum.splits option.splits)

lemma reload_store [simp]: "sv_store (reloadAgentKeys f a s) = sv_store s"
  "sv_hub (reloadAgentKeys f a s) = sv_hub s" "sv_state (reloadAgentKeys f a s) = sv_state s"
  "sv_cfg (reloadAgentKeys f a s) = sv_cfg s"
  by (simp_all add: reloadAgentKeys_def split: sum.splits)

lemma db_keys_UpsertMachine [simp]: "db_keys (fst (db_UpsertMachine f g m st)) = db_keys st"
  "db_tokens (fst (db_UpsertMachine f g m st)) = db_tokens st"
  by (simp_all add: db_UpsertMachine_def exec_stmt_def split: option.splits)

text \<open>A consumption that failed changes nothing; one that succeeded answers 200.\<close>

lemma enroll_consume_cases:
  obtains e n cd msg where "ConsumeEnrollToken (\<lambda>k. am_db a (2 + k)) (am_rand a 0) (eq_Token req) m
        (eq_Hostname req) (am_now a) (sv_store s) = (sv_store s, Inl e)"
      "enroll_consume a hb req m s = (s, Error n cd msg)"
  | st key where "ConsumeEnrollToken (\<lambda>k. am_db a (2 + k)) (am_rand a 0) (eq_Token req) m
        (eq_Hostname req) (am_now a) (sv_store s) = (st, Inr key)"
      "db_keys (sv_store (fst (enroll_consume a hb req m s))) = db_keys st"
      "db_tokens (sv_store (fst (enroll_consume a hb req m s))) = db_tokens st"
      "sv_agentKeys (fst (enroll_consume a hb req m s)) =
         sv_agentKeys (reloadAgentKeys (am_db a 6) a (s\<lparr>sv_store := st\<rparr>))"
      "snd (enroll_consume a hb req m s) = Reply 200 \<lparr>ep_AgentID = m, ep_AgentKey = ak_Key key,
         ep_ServerURL = publicBase (sv_cfg s) hb\<rparr>"
proof -
  obtain st r where c: "ConsumeEnrollToken (\<lambda>k. am_db a (2 + k)) (am_rand a 0) (eq_Token req) m
      (eq_Hostname req) (am_now a) (sv_store s) = (st, r)" by fastforce
  show thesis
  proof (cases r)
    case (Inl e)
    then have st: "st = sv_store s" using c ConsumeEnrollToken_error by metis
    show ?thesis
      by (cases "e = ErrTokenInvalid"; rule that(1) [of e])
         (use c Inl st in \<open>simp_all add: enroll_consume_def c [simplified] Let_def\<close>)
  next
    case (Inr key)
    show ?thesis
      by (rule that(2) [OF c [unfolded Inr]]) (simp_all add: enroll_consume_def c [simplified] Inr Let_def)
  qed
qed

lemma handleEnroll_cases:
  obtains n cd msg where "handleEnroll a hb body s = (s, Error n cd msg)"
  | req g where "body = Some req" "EnrollTokenOrg (am_db a 0) (eq_Token req) (am_now a) (sv_store s) = Inr g"
      "\<And>k. AgentKeyByMachine (am_db a 1) (enroll_machine_id a req) (sv_store s) = Some k \<Longrightarrow> ak_OrgID k = g"
      "handleEnroll a hb body s = enroll_consume a hb req (enroll_machine_id a req) s"
proof (cases body)
  case None
  then show ?thesis using that(1) by (simp add: handleEnroll_def)
next
  case body: (Some req)
  let ?m = "enroll_machine_id a req"
  show ?thesis
  proof (cases "eq_Token req = []")
    case True
    then show ?thesis using that(1) by (simp add: handleEnroll_def body)
  next
    case tok: False
    show ?thesis
    proof (cases "EnrollTokenOrg (am_db a 0) (eq_Token req) (am_now a) (sv_store s)")
      case (Inl e)
      then show ?thesis using that(1) tok by (simp add: handleEnroll_def body Let_def)
    next
      case (Inr g)
      note eq = handleEnroll_def [of a hb body s, unfolded body option.case Let_def Inr sum.case if_not_P [OF tok]]
      show ?thesis
      proof (cases "AgentKeyByMachine (am_db a 1) ?m (sv_store s)")
        case None
        show ?thesis by (rule that(2) [OF body Inr]) (simp_all only: eq None option.case body option.distinct)
      next
        case (Some k)
        show ?thesis
        proof (cases "ak_OrgID k = g")
          case True
          show ?thesis
          proof (rule that(2) [OF body Inr])
            show "ak_OrgID k' = g" if "AgentKeyByMachine (am_db a 1) ?m (sv_store s) = Some k'" for k'
              using that Some True by simp
            show "handleEnroll a hb body s = enroll_consume a hb req ?m s"
              unfolding body eq [unfolded body] Some option.case True by simp
          qed
        next
          case False
          then show ?thesis using that(1) eq Some body by simp
        qed
      qed
    qed
  qed
qed

lemma one_workspace_enroll:
  assumes inv: "one_workspace (db_keys (sv_store s))" and db: "am_db a 1 = None"
  shows "one_workspace (db_keys (sv_store (fst (handleEnroll a hb body s))))"
proof (cases rule: handleEnroll_cases [of a hb body s])
  case (1 n cd msg)
  then show ?thesis using inv by simp
next
  case (2 req g)
  let ?m = "enroll_machine_id a req" and ?ks = "db_keys (sv_store s)"
  have owner: "ak_OrgID k = g" if "k \<in> set ?ks" "ak_MachineID k = ?m" "\<not> ak_Revoked k" for k
  proof (cases "AgentKeyByMachine None ?m (sv_store s)")
    case None
    from AgentKeyByMachine_None [OF None] that show ?thesis by blast
  next
    case (Some k')
    note k' = AgentKeyByMachine_Some [OF Some]
    have "ak_OrgID k' = g" using 2(3) Some db by simp
    then show ?thesis using one_workspaceD [OF inv that(1) k'(1) that(3) k'(3)] that k' by simp
  qed
  show ?thesis
  proof (cases rule: enroll_consume_cases [of a req ?m s hb])
    case (1 e n cd msg)
    then show ?thesis using 2(4) inv by simp
  next
    case c: (2 st key)
    obtain rec where rec: "find_token (eq_Token req) (sv_store s) = Some rec"
      and key: "ak_OrgID key = et_OrgID rec" "ak_MachineID key = ?m" "db_keys st = ?ks @ [key]"
      by (rule ConsumeEnrollToken_success [OF c(1)]) auto
    have "et_OrgID rec = g" using 2(2) rec by (simp add: EnrollTokenOrg_Inr)
    then have "one_workspace (db_keys st)"
      unfolding key(3) using owner key(1,2) by (intro one_workspace_snoc [OF inv]) simp
    then show ?thesis using 2(4) c(2) by simp
  qed
qed

subsection \<open>Runs of the operations on agent keys\<close>

datatype key_op =
    KEnroll ambient http_base "enroll_request option"
  | KReassign "nat \<Rightarrow> string option" string string
  | KDelete "nat \<Rightarrow> string option" string string
  | KRevoke "string option" string
  | KBackfill "nat \<Rightarrow> string option" string

fun exec_key :: "key_op \<Rightarrow> server \<Rightarrow> server" where
  "exec_key (KEnroll a hb body) s = fst (handleEnroll a hb body s)"
| "exec_key (KReassign f m g) s = s\<lparr>sv_store := fst (ReassignMachine f m g (sv_store s))\<rparr>"
| "exec_key (KDelete f g m) s = s\<lparr>sv_store := fst (DeleteMachine f g m (sv_store s))\<rparr>"
| "exec_key (KRevoke f m) s = s\<lparr>sv_store := fst (RevokeAgentKeysForMachine f m (sv_store s))\<rparr>"
| "exec_key (KBackfill f g) s = s\<lparr>sv_store := fst (BackfillOrg f g (sv_store s))\<rparr>"

text \<open>The lookup of the machine's key did not fail in the database.\<close>

fun lookup_answered :: "key_op \<Rightarrow> bool" where
  "lookup_answered (KEnroll a _ _) \<longleftrightarrow> am_db a 1 = None"
| "lookup_answered _ \<longleftrightarrow> True"

lemma one_workspace_subset: "one_workspace ks \<Longrightarrow> set ks' \<subseteq> set ks \<Longrightarrow> one_workspace ks'"
  unfolding one_workspace_def by blast

lemma db_keys_stmt: "db_keys (stmt f u st) = (if f = None then db_keys (u st) else db_keys st)"
  by (simp add: stmt_def split: option.splits)

lemma db_keys_stmt_other [simp]:
  "db_keys (stmt f (\<lambda>t. t\<lparr>db_logs := L t\<rparr>) st) = db_keys st"
  "db_keys (stmt f (\<lambda>t. t\<lparr>db_metrics := M t\<rparr>) st) = db_keys st"
  "db_keys (stmt f (\<lambda>t. t\<lparr>db_sessions := S t\<rparr>) st) = db_keys st"
  "db_keys (stmt f (\<lambda>t. t\<lparr>db_events := E t\<rparr>) st) = db_keys st"
  "db_keys (stmt f (\<lambda>t. t\<lparr>db_files := F t\<rparr>) st) = db_keys st"
  by (simp_all add: stmt_def split: option.splits)

lemma db_keys_DeleteMachine:
  "set (db_keys (fst (DeleteMachine f g m st))) \<subseteq> set (db_keys st)"
proof (cases "first_or ErrNotFound (f 0)
    (sql_first mr_ID (\<lambda>r. mr_OrgID r = g \<and> mr_ID r = m) (db_machines st))")
  case (Inr x)
  have "set (sql_delete P ks) \<subseteq> set ks" for P :: "key_row \<Rightarrow> bool" and ks
    by (auto simp: sql_delete_def)
  then show ?thesis
    unfolding DeleteMachine_def Inr sum.case Let_def
    by (cases "f 8"; cases "f 9"; cases "f 7") (simp_all add: db_keys_stmt)
qed (simp add: DeleteMachine_def)

lemma db_keys_ReassignMachine:
  "db_keys (fst (ReassignMachine f m g st)) = db_keys st
   \<or> db_keys (fst (ReassignMachine f m g st)) =
       sql_update (\<lambda>r. ak_MachineID r = m) (ak_OrgID_update (\<lambda>_. g)) (db_keys st)"
proof (cases "GetOrg (f 0) g st")
  case (Inr w)
  show ?thesis
  proof (cases "first_or ErrNotFound (f 1) (sql_first mr_ID (\<lambda>r. mr_ID r = m) (db_machines st))")
    case inr: (Inr x)
    show ?thesis
      unfolding ReassignMachine_def Inr inr sum.case Let_def
      by (cases "f 9"; cases "f 10"; cases "f 8") (simp_all add: db_keys_stmt)
  qed (use Inr in \<open>simp add: ReassignMachine_def\<close>)
qed (simp add: ReassignMachine_def)

lemma db_keys_BackfillOrg:
  "db_keys (fst (BackfillOrg f g st)) = db_keys st
   \<or> db_keys (fst (BackfillOrg f g st)) =
       sql_update (\<lambda>r. ak_OrgID r = []) (ak_OrgID_update (\<lambda>_. g)) (db_keys st)"
  by (auto simp: BackfillOrg_def split: option.splits)

lemma one_workspace_update:
  assumes "one_workspace ks"
    and f: "\<And>k. ak_Revoked (f k) = ak_Revoked k" "\<And>k. ak_MachineID (f k) = ak_MachineID k"
    and org: "\<And>k k'. k \<in> set ks \<Longrightarrow> k' \<in> set ks \<Longrightarrow> ak_MachineID k = ak_MachineID k' \<Longrightarrow>
       ak_OrgID k = ak_OrgID k' \<Longrightarrow> ak_OrgID (if P k then f k else k) = ak_OrgID (if P k' then f k' else k')"
  shows "one_workspace (sql_update P f ks)"
proof (rule one_workspaceI)
  fix k k' assume "k \<in> set (sql_update P f ks)" "k' \<in> set (sql_update P f ks)"
    and r: "\<not> ak_Revoked k" "\<not> ak_Revoked k'" "ak_MachineID k = ak_MachineID k'"
  then obtain x x' where x: "x \<in> set ks" "k = (if P x then f x else x)"
    and x': "x' \<in> set ks" "k' = (if P x' then f x' else x')" unfolding sql_update_def by auto
  have "\<not> ak_Revoked x" "\<not> ak_Revoked x'" "ak_MachineID x = ak_MachineID x'"
    using r x x' f by (simp_all split: if_splits)
  with one_workspaceD [OF assms(1) x(1) x'(1)] org [OF x(1) x'(1)] x x'
  show "ak_OrgID k = ak_OrgID k'" by metis
qed

lemma one_workspace_revoke:
  assumes "one_workspace ks"
  shows "one_workspace (sql_update P (ak_Revoked_update (\<lambda>_. True)) ks)"
proof (rule one_workspaceI)
  fix k k' assume "k \<in> set (sql_update P (ak_Revoked_update (\<lambda>_. True)) ks)"
      "k' \<in> set (sql_update P (ak_Revoked_update (\<lambda>_. True)) ks)"
    and r: "\<not> ak_Revoked k" "\<not> ak_Revoked k'" "ak_MachineID k = ak_MachineID k'"
  then have "k \<in> set ks" "k' \<in> set ks" unfolding sql_update_def by (auto split: if_splits)
  from one_workspaceD [OF assms this r] show "ak_OrgID k = ak_OrgID k'" .
qed

lemma one_workspace_exec:
  assumes inv: "one_workspace (db_keys (sv_store s))" and ok: "lookup_answered op"
  shows "one_workspace (db_keys (sv_store (exec_key op s)))"
proof (cases op)
  case (KEnroll a hb body)
  then show ?thesis using one_workspace_enroll [OF inv] ok by simp
next
  case (KReassign f m g)
  have "one_workspace (sql_update (\<lambda>r. ak_MachineID r = m) (ak_OrgID_update (\<lambda>_. g)) (db_keys (sv_store s)))"
    by (rule one_workspace_update [OF inv]) simp_all
  then show ?thesis using KReassign db_keys_ReassignMachine [of f m g "sv_store s"] inv by auto
next
  case (KDelete f g m)
  then show ?thesis using one_workspace_subset [OF inv db_keys_DeleteMachine] by simp
next
  case (KRevoke f m)
  then show ?thesis using inv
    by (simp add: RevokeAgentKeysForMachine_def exec_stmt_def one_workspace_revoke split: option.splits)
next
  case (KBackfill f g)
  have "one_workspace (sql_update (\<lambda>r. ak_OrgID r = []) (ak_OrgID_update (\<lambda>_. g)) (db_keys (sv_store s)))"
    by (rule one_workspace_update [OF inv]) simp_all
  then show ?thesis using KBackfill db_keys_BackfillOrg [of f g "sv_store s"] inv by auto
qed

subsection \<open>The keys in memory\<close>

lemma foldl_keys:
  "mget (foldl (\<lambda>m k. mput (ak_Key k) (info k) m) m0 ks) key =
     (case find (\<lambda>k. ak_Key k = key) (rev ks) of None \<Rightarrow> mget m0 key | Some k \<Rightarrow> Some (info k))"
  by (induction ks rule: rev_induct) auto

lemma lookup_reload:
  assumes d: "distinct (map ak_Key (db_keys (sv_store s)))" and "ok_ambient a"
  shows "lookupAgentKey key (reloadAgentKeys None a s) = Some i \<longleftrightarrow>
    (\<exists>k \<in> set (db_keys (sv_store s)). \<not> ak_Revoked k \<and> ak_Key k = key
        \<and> i = \<lparr>ki_OrgID = ak_OrgID k, ki_MachineID = ak_MachineID k\<rparr>)"
proof -
  let ?ks = "filter (\<lambda>k. \<not> ak_Revoked k) (am_keys a (db_keys (sv_store s)))"
  let ?info = "\<lambda>k. \<lparr>ki_OrgID = ak_OrgID k, ki_MachineID = ak_MachineID k\<rparr>"
  have set: "set ?ks = {k \<in> set (db_keys (sv_store s)). \<not> ak_Revoked k}"
    using assms(2) by (simp add: ok_ambient_def)
  have "lookupAgentKey key (reloadAgentKeys None a s) =
      map_option ?info (find (\<lambda>k. ak_Key k = key) (rev ?ks))"
    by (simp add: lookupAgentKey_def reloadAgentKeys_def ActiveAgentKeys_def foldl_keys split: option.splits)
  moreover have "find (\<lambda>k. ak_Key k = key) (rev ?ks) = Some k \<longleftrightarrow> k \<in> set ?ks \<and> ak_Key k = key" for k
  proof
    assume "find (\<lambda>k. ak_Key k = key) (rev ?ks) = Some k"
    from find_SomeD [OF this] show "k \<in> set ?ks \<and> ak_Key k = key" by simp
  next
    assume k: "k \<in> set ?ks \<and> ak_Key k = key"
    then have "k \<in> set (rev ?ks)" "ak_Key k = key" by simp_all
    then obtain k' where k': "find (\<lambda>k. ak_Key k = key) (rev ?ks) = Some k'"
      using find_ex [of k "rev ?ks" "\<lambda>k. ak_Key k = key"] by blast
    from find_SomeD [OF this] have "k' \<in> set ?ks" "ak_Key k' = key" by simp_all
    moreover have "inj_on ak_Key (set (db_keys (sv_store s)))" using d by (simp add: distinct_map)
    ultimately have "k' = k" using k unfolding set by (metis (mono_tags, lifting) inj_onD mem_Collect_eq)
    with k' show "find (\<lambda>k. ak_Key k = key) (rev ?ks) = Some k" by simp
  qed
  ultimately show ?thesis unfolding set by auto
qed

subsection \<open>Properties\<close>

text \<open>
  C5. One machine, one workspace: in every run of enrollments (any bodies, tokens, clocks and
  other database failures), reassignments, deletions, revocations and back-fills, as long as
  the enrollments' key lookups are answered, all active keys of a machine belong to the same
  organisation.
\<close>

theorem one_machine_one_workspace:
  assumes "\<forall>op \<in> set ops. lookup_answered op" and "one_workspace (db_keys (sv_store s))"
  shows "one_workspace (db_keys (sv_store (foldl (\<lambda>s op. exec_key op s) s ops)))"
  by (rule foldl_invariant [where I = "\<lambda>s. one_workspace (db_keys (sv_store s))"])
     (use assms in \<open>simp_all add: one_workspace_exec\<close>)

definition sample_base :: http_base where
  "sample_base = \<lparr>hb_TLS = False, hb_ForwardedProto = '''', hb_Host = ''h''\<rparr>"

definition sample_enroll :: "string \<Rightarrow> enroll_request" where
  "sample_enroll tok = \<lparr>eq_Token = tok, eq_MachineID = ''m'', eq_Hostname = ''host'',
     eq_OS = ''linux'', eq_Arch = ''amd64''\<rparr>"

theorem one_machine_one_workspace_witness:
  "map ak_OrgID (db_keys (sv_store (foldl (\<lambda>s op. exec_key op s)
      (sample_server [sample_token ''ta'' ''a'', sample_token ''tb'' ''b''] [])
      [KEnroll quiet sample_base (Some (sample_enroll ''ta'')),
       KEnroll quiet sample_base (Some (sample_enroll ''tb''))]))) = [''a'']
   \<and> one_workspace (db_keys (sv_store (foldl (\<lambda>s op. exec_key op s)
      (sample_server [sample_token ''ta'' ''a'', sample_token ''tb'' ''b''] [])
      [KEnroll quiet sample_base (Some (sample_enroll ''ta'')),
       KEnroll quiet sample_base (Some (sample_enroll ''tb''))])))"
  (is "?l \<and> ?r")
proof
  show ?l by code_simp
  show ?r
    by (rule one_machine_one_workspace) (simp_all add: quiet_def sample_server_def empty_store_def one_workspace_def)
qed

text \<open>
  The lookup fails open: when the database fails at the lookup of the machine's key, the
  code takes the machine for a new one, and a machine of one workspace is enrolled into
  another.
\<close>

theorem enroll_lookup_fails_open:
  "\<exists>a s body. one_workspace (db_keys (sv_store s))
     \<and> \<not> one_workspace (db_keys (sv_store (fst (handleEnroll a sample_base body s))))"
proof (intro exI conjI)
  let ?k = "\<lparr>ak_Key = ''k'', ak_OrgID = ''a'', ak_MachineID = ''m'', ak_Label = '''',
     ak_CreatedAt = 0, ak_Revoked = False\<rparr>"
  let ?s = "sample_server [sample_token ''tb'' ''b''] [?k]"
  let ?a = "quiet\<lparr>am_db := \<lambda>k. if k = 1 then Some ''timeout'' else None\<rparr>"
  show "one_workspace (db_keys (sv_store ?s))" by (simp add: one_workspace_def sample_server_def)
  have "map ak_OrgID (db_keys (sv_store (fst (handleEnroll ?a sample_base (Some (sample_enroll ''tb'')) ?s)))) = [''a'', ''b'']"
    "map ak_MachineID (db_keys (sv_store (fst (handleEnroll ?a sample_base (Some (sample_enroll ''tb'')) ?s)))) = [''m'', ''m'']"
    "map ak_Revoked (db_keys (sv_store (fst (handleEnroll ?a sample_base (Some (sample_enroll ''tb'')) ?s)))) = [False, False]"
    by code_simp+
  then show "\<not> one_workspace (db_keys (sv_store (fst (handleEnroll ?a sample_base (Some (sample_enroll ''tb'')) ?s))))"
    by (auto simp: one_workspace_def map_eq_Cons_conv)
qed

text \<open>
  The check and the consumption are not one transaction: two enrollments of the same
  machine with tokens of different workspaces that both pass the check before either
  consumes its token both succeed, and the machine ends up in two workspaces.
\<close>

theorem enroll_check_then_consume_race:
  "\<exists>s ra rb. EnrollTokenOrg None (eq_Token ra) 0 (sv_store s) = Inr ''a''
     \<and> EnrollTokenOrg None (eq_Token rb) 0 (sv_store s) = Inr ''b''
     \<and> AgentKeyByMachine None ''m'' (sv_store s) = None
     \<and> \<not> one_workspace (db_keys (sv_store (fst (enroll_consume (quiet\<lparr>am_rand := \<lambda>_. Some ''kb''\<rparr>) sample_base rb ''m''
           (fst (enroll_consume quiet sample_base ra ''m'' s))))))"
proof (intro exI conjI)
  let ?s = "sample_server [sample_token ''ta'' ''a'', sample_token ''tb'' ''b''] []"
  let ?ra = "sample_enroll ''ta''" and ?rb = "sample_enroll ''tb''"
  let ?ks = "db_keys (sv_store (fst (enroll_consume (quiet\<lparr>am_rand := \<lambda>_. Some ''kb''\<rparr>) sample_base ?rb ''m''
           (fst (enroll_consume quiet sample_base ?ra ''m'' ?s)))))"
  show "EnrollTokenOrg None (eq_Token ?ra) 0 (sv_store ?s) = Inr ''a''" by code_simp
  show "EnrollTokenOrg None (eq_Token ?rb) 0 (sv_store ?s) = Inr ''b''" by code_simp
  show "AgentKeyByMachine None ''m'' (sv_store ?s) = None" by code_simp
  have "map ak_OrgID ?ks = [''a'', ''b'']" "map ak_MachineID ?ks = [''m'', ''m'']"
    "map ak_Revoked ?ks = [False, False]" by code_simp+
  then show "\<not> one_workspace ?ks" by (auto simp: one_workspace_def map_eq_Cons_conv)
qed

text \<open>
  A successful enrollment: the answered key authenticates its bearer to the token's organisation and to
  the enrolled machine from then on, and the token can never be used again, at any later time.
\<close>

lemma enroll_key_accepted:
  assumes "handleEnroll a hb (Some req) s = (s', Reply n r)"
    and "wf_enroll (sv_store s)" and "ok_ambient a" and "am_db a 6 = None"
  shows "\<exists>g. EnrollTokenOrg None (eq_Token req) (am_now a) (sv_store s) = Inr g
     \<and> lookupAgentKey (ep_AgentKey r) s' = Some \<lparr>ki_OrgID = g, ki_MachineID = ep_AgentID r\<rparr>
     \<and> (\<forall>f later. EnrollTokenOrg f (eq_Token req) later (sv_store s') = Inl ErrTokenInvalid)"
proof (cases rule: handleEnroll_cases [of a hb "Some req" s])
  case (1 n' cd msg)
  then show ?thesis using assms(1) by simp
next
  case (2 req' g)
  let ?m = "enroll_machine_id a req"
  have req: "req' = req" using 2(1) by simp
  note token = 2(2) [unfolded req] and eq = 2(4) [unfolded req]
  show ?thesis
  proof (cases rule: enroll_consume_cases [of a req ?m s hb])
    case (1 e n' cd msg)
    then show ?thesis using assms(1) eq by simp
  next
    case c: (2 st key)
    have s': "s' = fst (enroll_consume a hb req ?m s)" and r: "ep_AgentKey r = ak_Key key" "ep_AgentID r = ?m"
      using assms(1) eq c(5) by (auto simp: prod_eq_iff)
    obtain rec where rec: "find_token (eq_Token req) (sv_store s) = Some rec"
        "Status rec (am_now a) = TokenActive"
      and key: "ak_OrgID key = et_OrgID rec" "ak_MachineID key = ?m" "\<not> ak_Revoked key"
        "db_keys st = db_keys (sv_store s) @ [key]" "ak_Key key \<notin> ak_Key ` set (db_keys (sv_store s))"
        "db_tokens st = sql_upsert et_Token (rec\<lparr>et_UsedAt := Some (am_now a), et_UsedByID := ?m\<rparr>) (db_tokens (sv_store s))"
      by (rule ConsumeEnrollToken_success [OF c(1)]) auto
    have org: "et_OrgID rec = g" using token rec by (simp add: EnrollTokenOrg_Inr)
    have d: "distinct (map ak_Key (db_keys st))" using assms(2) key(4,5) by (simp add: wf_enroll_def)
    have "lookupAgentKey (ak_Key key) (reloadAgentKeys None a (s\<lparr>sv_store := st\<rparr>)) =
        Some \<lparr>ki_OrgID = g, ki_MachineID = ?m\<rparr>"
      by (subst lookup_reload) (use d assms(3) key org in auto)
    then have look: "lookupAgentKey (ak_Key key) s' = Some \<lparr>ki_OrgID = g, ki_MachineID = ?m\<rparr>"
      using c(4) assms(4) by (simp add: s' lookupAgentKey_def)
    have d': "distinct (map et_Token (db_tokens (sv_store s')))"
      using assms(2) by (simp add: s' c(3) key(6) wf_enroll_def distinct_sql_upsert)
    have "find_token (eq_Token req) (sv_store s') = Some (rec\<lparr>et_UsedAt := Some (am_now a), et_UsedByID := ?m\<rparr>)"
      using find_token_Some [OF rec(1)] unfolding find_token_iff [OF d']
      by (simp add: s' c(3) key(6) set_sql_upsert)
    then have "EnrollTokenOrg f (eq_Token req) later (sv_store s') = Inl ErrTokenInvalid" for f later
      by (auto simp: EnrollTokenOrg_def first_or_def Status_def split: option.splits)
    then show ?thesis using token look r by (auto simp: EnrollTokenOrg_Inr)
  qed
qed

text \<open>
  A refused enrollment has no effect: whenever the answer is an error, the whole server
  (store, keys in memory, live state) is what it was.
\<close>

theorem enroll_error_no_effect:
  assumes "snd (handleEnroll a hb body s) = Error n cd msg"
  shows "fst (handleEnroll a hb body s) = s"
proof (cases rule: handleEnroll_cases [of a hb body s])
  case (2 req g)
  then show ?thesis using assms
    by (cases rule: enroll_consume_cases [of a req "enroll_machine_id a req" s hb]) simp_all
qed simp

theorem enroll_error_no_effect_witness:
  "fst (handleEnroll quiet sample_base (Some (sample_enroll ''zz'')) (sample_server [] [])) = sample_server [] []"
  by (rule enroll_error_no_effect [where n = 401 and cd = "''invalid_token''" and
        msg = "Text ''enrollment token is invalid, expired, used, or revoked''"]) code_simp



end
