(* ===== verification/Install_Scripts.thy ===== *)
theory Install_Scripts
  imports Go_Lib
begin

section \<open>The installers\<close>

text \<open>
  The texts of the two install scripts of \<open>internal/server/install_script.go\<close>, line by line: the POSIX one served at
  \<open>/install.sh\<close> and the Windows one served at \<open>/install.ps1\<close>. \<open>__BASE__\<close> stands for the address of the server. A
  backslash, a letter outside ASCII and a quote beside another one are written as bytes.
\<close>

definition lines_of :: "string list \<Rightarrow> string" where
  "lines_of ls = concat (map (\<lambda>l. l @ [newline]) ls)"

definition installScriptTmpl :: string where
  "installScriptTmpl = lines_of
    [''#!/usr/bin/env sh'',
     ''set -eu'',
     ''BASE=\"${MC_SERVER_URL:-__BASE__}\"'',
     ''# Normalize ws(s) -> http(s) for downloads.'',
     ''case \"$BASE\" in'',
     ''  ws://*)  BASE=\"http://${BASE#ws://}\" ;;'',
     ''  wss://*) BASE=\"https://${BASE#wss://}\" ;;'',
     ''esac'',
     ''BIN=\"mission-control-agent\"'',
     ''INSTALL_DIR=\"${INSTALL_DIR:-/usr/local/bin}\"'',
     ''CONFIG_DIR=\"${HOME}/.mission-control\"'',
     [],
     ''os=\"$(uname -s | tr '[:upper:]' '[:lower:]')\"'',
     ''arch=\"$(uname -m)\"'',
     ''case \"$os\" in'',
     ''  linux|darwin) ;;'',
     ''  *) echo \"unsupported OS: $os (use install.ps1 on Windows)\" >&2; exit 1 ;;'',
     ''esac'',
     ''case \"$arch\" in'',
     ''  x86_64|amd64) arch=\"amd64\" ;;'',
     ''  arm64|aarch64) arch=\"arm64\" ;;'',
     ''  *) echo \"unsupported arch: $arch\" >&2; exit 1 ;;'',
     ''esac'',
     [],
     ''# Per-server config file, so one machine can run agents for multiple servers'',
     ''# (e.g. dev + prod) side by side. Derive a safe filename from the server host.'',
     ''server_host=\"$(printf '%s' \"$BASE\" | sed -e 's#^[a-zA-Z]*://##' -e 's#[/?].*$##' | tr '[:upper:]' '[:lower:]')\"'',
     ''[ -z \"$server_host\" ] && server_host=\"default\"'',
     ''cfg_slug=\"$(printf '%s' \"$server_host\" | tr -c 'a-z0-9' '-' | sed 's/-'' @ [CHR 0x5C] @ ''{1,'' @ [CHR 0x5C] @ ''}/-/g;s/^-//;s/-$//')\"'',
     ''CFG=\"${CONFIG_DIR}/agent-${cfg_slug}.yaml\"'',
     [],
     ''# Guard: refuse to start a SECOND agent for THIS server on this machine (two'',
     ''# agents sharing one identity fight over the same slot and the dashboard flaps).'',
     ''# A different server on the same machine is allowed. Set MC_FORCE=1 to override.'',
     ''if [ -z \"${MC_FORCE:-}\" ]; then'',
     ''  running=\"\"'',
     ''  if command -v pgrep >/dev/null 2>&1; then'',
     ''    running=\"$(pgrep -f \"${BIN} --config ${CFG}\" 2>/dev/null || true)\"'',
     ''  else'',
     ''    running=\"$(ps ax 2>/dev/null | grep \"${BIN} --config ${CFG}\" | grep -v grep || true)\"'',
     ''  fi'',
     ''  if [ -n \"$running\" ]; then'',
     ''    echo \"error: an agent for ${server_host} is already running on this machine:\" >&2'',
     ''    echo \"$running\" | sed 's/^/  /' >&2'',
     ''    echo \"\" >&2'',
     ''    echo \"Only one agent per server is supported. To reinstall/restart it, first stop it:\" >&2'',
     ''    echo \"  pkill -f '${BIN} --config ${CFG}'\" >&2'',
     ''    echo \"then re-run this installer. Or set MC_FORCE=1 to override.\" >&2'',
     ''    echo \"(A different server on this machine is fine '' @ [CHR 0xE2, CHR 0x80, CHR 0x94] @ '' this only guards ${server_host}.)\" >&2'',
     ''    exit 1'',
     ''  fi'',
     ''fi'',
     [],
     ''# Portable downloader: prefer curl, fall back to wget (minimal Ubuntu often ships'',
     ''# only one of them).'',
     ''download() { # download <url> <dest>'',
     ''  if command -v curl >/dev/null 2>&1; then'',
     ''    curl -fsSL \"$1\" -o \"$2\"'',
     ''  elif command -v wget >/dev/null 2>&1; then'',
     ''    wget -qO \"$2\" \"$1\"'',
     ''  else'',
     ''    echo \"need curl or wget to download the agent\" >&2'',
     ''    return 1'',
     ''  fi'',
     ''}'',
     [],
     ''url=\"${BASE}/download/${BIN}-${os}-${arch}\"'',
     ''echo \"Installing ${BIN} (${os}/${arch}) from ${url}...\"'',
     ''tmp=\"$(mktemp)\"'',
     ''if ! download \"$url\" \"$tmp\"; then'',
     ''  echo \"download failed: $url\" >&2'',
     ''  echo \"The server has no binary for ${os}/${arch}. On the server, build them with:\" >&2'',
     ''  echo \"  make agents   # then restart the server with MC_AGENT_BIN_DIR=bin/agents\" >&2'',
     ''  rm -f \"$tmp\"'',
     ''  exit 1'',
     ''fi'',
     ''chmod +x \"$tmp\"'',
     ''if [ -w \"$INSTALL_DIR\" ]; then mv \"$tmp\" \"${INSTALL_DIR}/${BIN}\"; else sudo mv \"$tmp\" \"${INSTALL_DIR}/${BIN}\"; fi'',
     [],
     ''mkdir -p \"$CONFIG_DIR\"'',
     ''if [ ! -f \"$CFG\" ]; then'',
     ''  cat > \"$CFG\" <<EOF'',
     ''serverUrl: \"${MC_SERVER_URL:-__BASE__}\"'',
     ''enrollToken: \"${MC_ENROLL_TOKEN:-}\"'',
     ''apiKey: \"\"'',
     ''providers:'',
     ''  - \"claude-code\"'',
     ''  - \"codex\"'',
     ''  - \"gemini\"'',
     ''discoverEverySeconds: 5'',
     ''metricsEverySeconds: 3'',
     ''heartbeatEverySeconds: 10'',
     ''logLevel: \"info\"'',
     ''EOF'',
     ''  echo \"Wrote ${CFG}\"'',
     ''fi'',
     [],
     ''if [ -n \"${MC_ENROLL_TOKEN:-}\" ]; then'',
     ''  echo \"Starting agent to enroll...\"'',
     ''  exec \"${INSTALL_DIR}/${BIN}\" --config \"$CFG\"'',
     ''fi'',
     ''echo \"Done. Start with:\"'',
     ''echo \"  ${BIN} --config ${CFG}\"'']"

definition installPowershellTmpl :: string where
  "installPowershellTmpl = lines_of
    [''$ErrorActionPreference = 'Stop'' @ [CHR 0x27],
     ''$Base = if ($env:MC_SERVER_URL) { $env:MC_SERVER_URL } else { '__BASE__' }'',
     ''$Base = $Base -replace '^ws://','http://' -replace '^wss://','https://'' @ [CHR 0x27],
     ''$Bin = 'mission-control-agent.exe'' @ [CHR 0x27],
     ''$InstallDir = Join-Path $env:LOCALAPPDATA 'MissionControl'' @ [CHR 0x27],
     ''$ConfigDir = Join-Path $env:USERPROFILE '.mission-control'' @ [CHR 0x27],
     [],
     ''# Per-server config file so one machine can run agents for multiple servers'',
     ''# (e.g. dev + prod). Derive a safe filename from the server host.'',
     ''$serverHost = ($Base -replace '^[a-zA-Z]*://','' @ [CHR 0x27] @ ''' -replace '[/?].*$','' @ [CHR 0x27] @ ''').ToLower()'',
     ''if (-not $serverHost) { $serverHost = 'default' }'',
     ''$cfgSlug = ($serverHost -replace '[^a-z0-9]','-') -replace '-+','-'' @ [CHR 0x27],
     ''$cfgSlug = $cfgSlug.Trim('-')'',
     ''$cfg = Join-Path $ConfigDir \"agent-$cfgSlug.yaml\"'',
     [],
     ''# Guard: refuse to start a SECOND agent for THIS server on this machine. A'',
     ''# different server on the same machine is allowed. Set MC_FORCE=1 to override.'',
     ''if (-not $env:MC_FORCE) {'',
     ''  $existing = Get-CimInstance Win32_Process -Filter \"Name='mission-control-agent.exe'\" -ErrorAction SilentlyContinue |'',
     ''    Where-Object { $_.CommandLine -like \"*--config*$cfgSlug*\" }'',
     ''  if ($existing) {'',
     ''    Write-Error \"an agent for $serverHost is already running on this machine (PID $($existing.ProcessId -join ', ')).\"'',
     ''    Write-Host \"Only one agent per server is supported. Stop it first:\"'',
     ''    Write-Host \"  Get-CimInstance Win32_Process -Filter '' @ [CHR 0x5C] @ ''\"Name='mission-control-agent.exe'' @ [CHR 0x27, CHR 0x5C] @ ''\" | Where-Object { '' @ [CHR 0x5C] @ ''$_.CommandLine -like '*$cfgSlug*' } | ForEach-Object { Stop-Process -Id '' @ [CHR 0x5C] @ ''$_.ProcessId }\"'',
     ''    Write-Host \"then re-run this installer. Or set MC_FORCE=1 to override.\"'',
     ''    Write-Host \"(A different server on this machine is fine '' @ [CHR 0xE2, CHR 0x80, CHR 0x94] @ '' this only guards $serverHost.)\"'',
     ''    exit 1'',
     ''  }'',
     ''}'',
     [],
     ''# Detect CPU architecture (Windows on ARM reports ARM64).'',
     ''$archRaw = $env:PROCESSOR_ARCHITECTURE'',
     ''if (-not $archRaw) { $archRaw = (Get-CimInstance Win32_Processor | Select-Object -First 1).Architecture }'',
     ''switch -Regex (\"$archRaw\") {'',
     ''  'ARM64|^12$' { $arch = 'arm64' }'',
     ''  'AMD64|x86_64|^9$' { $arch = 'amd64' }'',
     ''  default { $arch = 'amd64' }'',
     ''}'',
     [],
     ''$url = \"$Base/download/mission-control-agent-windows-$arch.exe\"'',
     ''Write-Host \"Installing $Bin (windows/$arch) from $url...\"'',
     ''New-Item -ItemType Directory -Force -Path $InstallDir | Out-Null'',
     ''$target = Join-Path $InstallDir $Bin'',
     ''try {'',
     ''  Invoke-WebRequest -Uri $url -OutFile $target -UseBasicParsing'',
     ''} catch {'',
     ''  Write-Error \"download failed: $url\"'',
     ''  Write-Host \"The server has no binary for windows/$arch. On the server run 'make agents' and restart it with MC_AGENT_BIN_DIR=bin/agents.\"'',
     ''  exit 1'',
     ''}'',
     [],
     ''New-Item -ItemType Directory -Force -Path $ConfigDir | Out-Null'',
     ''if (-not (Test-Path $cfg)) {'',
     ''  $token = if ($env:MC_ENROLL_TOKEN) { $env:MC_ENROLL_TOKEN } else { '' @ [CHR 0x27] @ ''' }'',
     ''  $srv = if ($env:MC_SERVER_URL) { $env:MC_SERVER_URL } else { '__BASE__' }'',
     ''  @\"'',
     ''serverUrl: \"$srv\"'',
     ''enrollToken: \"$token\"'',
     ''apiKey: \"\"'',
     ''providers:'',
     ''  - \"claude-code\"'',
     ''  - \"codex\"'',
     ''  - \"gemini\"'',
     ''discoverEverySeconds: 5'',
     ''metricsEverySeconds: 3'',
     ''heartbeatEverySeconds: 10'',
     ''logLevel: \"info\"'',
     ''\"@ | Set-Content -Path $cfg -Encoding UTF8'',
     ''  Write-Host \"Wrote $cfg\"'',
     ''}'',
     [],
     ''if ($env:MC_ENROLL_TOKEN) {'',
     ''  Write-Host \"Starting agent to enroll...\"'',
     ''  & $target --config $cfg'',
     ''} else {'',
     ''  Write-Host \"Done. Start with: $target --config $cfg\"'',
     ''}'']"

end
