(* ===== verification/Web_Assets.thy ===== *)
theory Web_Assets
  imports Go_Path Enroll_Handlers Install_Scripts
begin

section \<open>Dashboard files, installers, downloads\<close>

text \<open>
  Models \<open>internal/server/static.go\<close> and the handlers of \<open>internal/server/install_script.go\<close>. What the file system
  says of a path is a parameter; a handler yields which file it serves with which headers.
\<close>

subsection \<open>The dashboard\<close>

text \<open>\<open>is_file\<close>: the path exists and is no directory. \<open>FileServer\<close> leaves the request to the file server of \<open>net/http\<close>.\<close>

datatype served =
    NotFound string
  | FileServer "(string \<times> string) list"
  | ServeFile string "(string \<times> string) list"

definition spaHandler :: "(string \<Rightarrow> bool) \<Rightarrow> string \<Rightarrow> string \<Rightarrow> served" where
  "spaHandler is_file dir urlPath =
     (let indexPath = path_Join [dir, ''index.html''];
          clean = path_Clean urlPath;
          full = path_Join [dir, clean]
      in if \<not> has_prefix full (path_Clean dir) then NotFound ''404 page not found''
         else if is_file full then FileServer
           ((if has_prefix clean ''/assets/'' then [(''Cache-Control'', ''public, max-age=31536000, immutable'')] else [])
            @ (if clean = ''/sw.js'' then [(''Cache-Control'', ''no-cache''), (''Service-Worker-Allowed'', ''/'')] else [])
            @ (if clean = ''/manifest.webmanifest'' then [(''Content-Type'', ''application/manifest+json'')] else []))
         else ServeFile indexPath [(''Cache-Control'', ''no-cache'')])"

subsection \<open>Installers and downloads\<close>

text \<open>\<open>strings.ReplaceAll\<close> for a placeholder that is not empty.\<close>

function replace_all :: "string \<Rightarrow> string \<Rightarrow> string \<Rightarrow> string" where
  "replace_all old new s =
     (if old = [] \<or> s = [] then s
      else if has_prefix s old then new @ replace_all old new (drop (length old) s)
      else hd s # replace_all old new (tl s))"
  by pat_completeness auto
termination
  by (relation "measure (\<lambda>(old, new, s). length s)") auto

declare replace_all.simps [simp del]

definition handleInstallScript :: "server_cfg \<Rightarrow> http_base \<Rightarrow> string \<times> string" where
  "handleInstallScript cfg r =
     (''text/x-shellscript; charset=utf-8'',
      dropWhile (\<lambda>c. c = newline) (replace_all ''__BASE__'' (publicBase cfg r) installScriptTmpl))"

definition handleInstallPowershell :: "server_cfg \<Rightarrow> http_base \<Rightarrow> string \<times> string" where
  "handleInstallPowershell cfg r =
     (''text/plain; charset=utf-8'', replace_all ''__BASE__'' (publicBase cfg r) installPowershellTmpl)"

definition isAllowedBinaryName :: "string \<Rightarrow> bool" where
  "isAllowedBinaryName name \<longleftrightarrow>
     has_prefix name ''mission-control-agent-''
     \<and> \<not> (CHR ''/'' \<in> set name \<or> CHR 0x5C \<in> set name \<or> contains name ''..'')"

definition handleDownloadBinary :: "(string \<Rightarrow> bool) \<Rightarrow> string \<Rightarrow> string \<Rightarrow> served" where
  "handleDownloadBinary is_file agentBinDir name =
     (if agentBinDir = [] then NotFound ''no agent binaries configured on this server''
      else if \<not> isAllowedBinaryName name then NotFound ''404 page not found''
      else
        (let full = path_Join [agentBinDir, name]
         in if \<not> is_file full then NotFound ''binary not found for this platform''
            else ServeFile full [(''Content-Type'', ''application/octet-stream'')]))"

subsection \<open>Nothing outside the directory is served\<close>

lemma path_Join_names:
  assumes "dir \<noteq> []" "t \<noteq> []"
    and "\<And>ws. foldl (clean_step (has_prefix dir ''/'')) ws (split_on (CHR ''/'') t) = ws @ vs"
  shows "path_Join [dir, t] = path_of (has_prefix dir ''/'') (names_of dir @ vs)"
proof -
  have pre: "has_prefix (dir @ ''/'' @ t) ''/'' = has_prefix dir ''/''"
    using assms(1) by (cases dir) (simp_all add: has_prefix_def)
  have "names_of (dir @ ''/'' @ t) = names_of dir @ vs"
    unfolding names_of_def pre using assms(3) by (simp add: split_on_two)
  then show ?thesis using assms(1) by (simp add: path_Join_def path_Clean_eq pre [simplified])
qed

lemma path_of_append:
  assumes "clean_names rooted ws" "ws \<noteq> []" "\<forall>v \<in> set vs. plain_name v"
  shows "path_of rooted (ws @ vs) = path_of rooted ws @ concat (map (\<lambda>v. ''/'' @ v) vs) \<and> clean_names rooted (ws @ vs)"
  using assms(3)
proof (induction vs rule: rev_induct)
  case (snoc v vs)
  then have IH: "path_of rooted (ws @ vs) = path_of rooted ws @ concat (map (\<lambda>v. ''/'' @ v) vs)"
    "clean_names rooted (ws @ vs)" by simp_all
  then show ?case
    using path_of_snoc [OF IH(2), of v] path_Join_plain(3) [OF IH(2), of v] snoc.prems assms(2) by simp
qed (simp add: assms(1))

lemma names_of_nonempty: "names_of dir \<noteq> [] \<Longrightarrow> dir \<noteq> []"
  by (auto simp: names_of_def clean_step_def)



text \<open>A static directory given as the current directory serves nothing.\<close>

lemma static_dir_dot: "spaHandler (\<lambda>_. True) ''.'' ''/index.html'' = NotFound ''404 page not found''"
  by code_simp

text \<open>A download is a file of the configured directory with the prefix of the agent binaries, not of another one.\<close>

lemma allowed_name_plain: "isAllowedBinaryName name \<Longrightarrow> plain_name name"
  by (auto simp: isAllowedBinaryName_def plain_name_def has_prefix_iff)

theorem download_stays_below:
  assumes "names_of dir \<noteq> []" "handleDownloadBinary is_file dir name = ServeFile full hs"
  shows "full = path_Clean dir @ ''/'' @ name \<and> plain_name name \<and> has_prefix name ''mission-control-agent-''
    \<and> is_file full"
proof -
  have allowed: "isAllowedBinaryName name" and full: "full = path_Join [dir, name]" "is_file full"
    using assms(2) by (auto simp: handleDownloadBinary_def Let_def split: if_splits)
  note plain = allowed_name_plain [OF allowed]
  have "foldl (clean_step b) ws (split_on (CHR ''/'') name) = ws @ [name]" for b ws
    using plain clean_step_plain [OF plain] by (simp add: plain_name_def)
  then have "path_Join [dir, name] = path_of (has_prefix dir ''/'') (names_of dir @ [name])"
    using names_of_nonempty [OF assms(1)] plain by (intro path_Join_names) (simp_all add: plain_name_def)
  then show ?thesis using path_of_append [OF clean_names_of assms(1), of "[name]"] plain full allowed
    by (simp add: path_Clean_eq isAllowedBinaryName_def)
qed

lemma download_stays_below_witness:
  "\<exists>full hs. handleDownloadBinary (\<lambda>_. True) ''bin/agents/'' ''mission-control-agent-linux-amd64'' = ServeFile full hs
     \<and> full = path_Clean ''bin/agents/'' @ ''/mission-control-agent-linux-amd64''"
proof -
  have d: "handleDownloadBinary (\<lambda>_. True) ''bin/agents/'' ''mission-control-agent-linux-amd64'' =
      ServeFile ''bin/agents/mission-control-agent-linux-amd64'' [(''Content-Type'', ''application/octet-stream'')]"
    by code_simp
  have "names_of ''bin/agents/'' \<noteq> []" by code_simp
  from download_stays_below [OF this d] d show ?thesis by simp
qed

end
