(* ===== verification/Config.thy ===== *)
theory Config
  imports Go_Lib
begin

section \<open>Configuration\<close>

text \<open>
  Models \<open>internal/config/agent.go\<close> and \<open>internal/config/server.go\<close>: defaults, the YAML file, the
  overrides from the environment, and the credentials an enrollment writes back. \<open>yaml.Unmarshal\<close>
  and \<open>yaml.Marshal\<close> are parameters: \<open>yaml\<close> stores a text into a configuration and tells whether it
  was valid. Files are a map from paths to contents.
\<close>

subsection \<open>The agent\<close>

record agent_config =
  ag_ServerURL :: string
  ag_APIKey :: string
  ag_EnrollToken :: string
  ag_AgentID :: string
  ag_HostnameOverride :: string
  ag_Providers :: "string list"
  ag_DiscoverEvery :: int
  ag_MetricsEvery :: int
  ag_HeartbeatEvery :: int
  ag_InsecureTLS :: bool
  ag_LogLevel :: string
  ag_path :: string

definition DefaultAgent :: agent_config where
  "DefaultAgent = \<lparr>ag_ServerURL = ''ws://localhost:8080'', ag_APIKey = [], ag_EnrollToken = [], ag_AgentID = [],
     ag_HostnameOverride = [], ag_Providers = [''claude-code'', ''codex'', ''gemini''], ag_DiscoverEvery = 5,
     ag_MetricsEvery = 3, ag_HeartbeatEvery = 10, ag_InsecureTLS = False, ag_LogLevel = ''info'', ag_path = []\<rparr>"

definition env_string :: "(string \<Rightarrow> string) \<Rightarrow> string \<Rightarrow> (string \<Rightarrow> 'c \<Rightarrow> 'c) \<Rightarrow> 'c \<Rightarrow> 'c" where
  "env_string getenv name put cfg = (let v = getenv name in if v \<noteq> [] then put v cfg else cfg)"

definition env_int :: "(string \<Rightarrow> string) \<Rightarrow> string \<Rightarrow> (int \<Rightarrow> 'c \<Rightarrow> 'c) \<Rightarrow> 'c \<Rightarrow> 'c" where
  "env_int getenv name put cfg =
     (let v = getenv name in
      if v \<noteq> [] then (case Atoi v of None \<Rightarrow> cfg | Some n \<Rightarrow> put n cfg) else cfg)"

definition agent_env :: "(string \<Rightarrow> string) \<Rightarrow> agent_config \<Rightarrow> agent_config" where
  "agent_env getenv cfg =
     (let cfg = env_string getenv ''MC_SERVER_URL'' (\<lambda>v c. c\<lparr>ag_ServerURL := v\<rparr>) cfg;
          cfg = env_string getenv ''MC_API_KEY'' (\<lambda>v c. c\<lparr>ag_APIKey := v\<rparr>) cfg;
          cfg = env_string getenv ''MC_AGENT_ID'' (\<lambda>v c. c\<lparr>ag_AgentID := v\<rparr>) cfg
      in env_string getenv ''MC_ENROLL_TOKEN'' (\<lambda>v c. c\<lparr>ag_EnrollToken := v\<rparr>) cfg)"

definition LoadAgent ::
  "(string \<Rightarrow> agent_config \<Rightarrow> agent_config \<times> bool) \<Rightarrow> (string \<Rightarrow> string) \<Rightarrow> (string, string) gomap \<Rightarrow> string
     \<Rightarrow> agent_config \<times> string option" where
  "LoadAgent yaml getenv files path =
     (let cfg = DefaultAgent in
      if path = [] then (agent_env getenv (cfg\<lparr>ag_path := path\<rparr>), None)
      else case mget files path of None \<Rightarrow> (cfg, Some ''open'')
        | Some data \<Rightarrow>
            (let (cfg, ok) = yaml data cfg
             in if \<not> ok then (cfg, Some ''yaml'') else (agent_env getenv (cfg\<lparr>ag_path := path\<rparr>), None)))"

definition SaveCredentials ::
  "(agent_config \<Rightarrow> string option) \<Rightarrow> (string \<Rightarrow> bool) \<Rightarrow> string \<Rightarrow> string \<Rightarrow> agent_config \<Rightarrow> (string, string) gomap
     \<Rightarrow> agent_config \<times> (string, string) gomap \<times> string option" where
  "SaveCredentials marshal writable apiKey agentID a files =
     (let a = a\<lparr>ag_APIKey := apiKey, ag_AgentID := agentID, ag_EnrollToken := []\<rparr> in
      if ag_path a = [] then (a, files, None)
      else case marshal a of None \<Rightarrow> (a, files, Some ''yaml'')
        | Some data \<Rightarrow>
            if writable (ag_path a) then (a, mput (ag_path a) data files, None) else (a, files, Some ''write''))"

subsection \<open>The server\<close>

record tls_config =
  tls_Enabled :: bool
  tls_CertFile :: string
  tls_KeyFile :: string

record smtp_config =
  smtp_Host :: string
  smtp_Port :: int
  smtp_Username :: string
  smtp_Password :: string
  smtp_From :: string

record retention_config =
  rc_LogHours :: int
  rc_MetricHours :: int

record webpush_config =
  wp_VAPIDPublic :: string
  wp_VAPIDPrivate :: string
  wp_Subject :: string

record server_config =
  sc_ListenAddr :: string
  sc_PublicURL :: string
  sc_DatabaseURL :: string
  sc_JWTSecret :: string
  sc_AdminEmail :: string
  sc_AdminPass :: string
  sc_StaticDir :: string
  sc_AgentBinDir :: string
  sc_CORSOrigins :: "string list"
  sc_TLS :: tls_config
  sc_SMTP :: smtp_config
  sc_WebPush :: webpush_config
  sc_Retention :: retention_config
  sc_LogLevel :: string
  sc_BlockedNotifySeconds :: int

definition DefaultServer :: server_config where
  "DefaultServer = \<lparr>sc_ListenAddr = '':8080'', sc_PublicURL = [], sc_DatabaseURL = ''mission-control.db'',
     sc_JWTSecret = [], sc_AdminEmail = [], sc_AdminPass = [], sc_StaticDir = [], sc_AgentBinDir = [],
     sc_CORSOrigins = [''*''], sc_TLS = \<lparr>tls_Enabled = False, tls_CertFile = [], tls_KeyFile = []\<rparr>,
     sc_SMTP = \<lparr>smtp_Host = [], smtp_Port = 0, smtp_Username = [], smtp_Password = [], smtp_From = []\<rparr>,
     sc_WebPush = \<lparr>wp_VAPIDPublic = [], wp_VAPIDPrivate = [], wp_Subject = ''mailto:admin'' @ [CHR 0x40] @ ''example.com''\<rparr>,
     sc_Retention = \<lparr>rc_LogHours = 72, rc_MetricHours = 72\<rparr>, sc_LogLevel = ''info'',
     sc_BlockedNotifySeconds = 30\<rparr>"

definition cors_origins :: "string \<Rightarrow> string list" where
  "cors_origins v = filter (\<lambda>t. t \<noteq> []) (map trim_space (split_on (CHR '','') v))"

definition env_cors :: "(string \<Rightarrow> string) \<Rightarrow> server_config \<Rightarrow> server_config" where
  "env_cors getenv cfg =
     (let v = getenv ''MC_CORS_ORIGINS'' in
      if v \<noteq> [] then
        (let origins = cors_origins v in if origins \<noteq> [] then cfg\<lparr>sc_CORSOrigins := origins\<rparr> else cfg)
      else cfg)"

abbreviation "put_smtp f \<equiv> (\<lambda>c. c\<lparr>sc_SMTP := f (sc_SMTP c)\<rparr>)"
abbreviation "put_retention f \<equiv> (\<lambda>c. c\<lparr>sc_Retention := f (sc_Retention c)\<rparr>)"
abbreviation "put_webpush f \<equiv> (\<lambda>c. c\<lparr>sc_WebPush := f (sc_WebPush c)\<rparr>)"

definition server_env :: "(string \<Rightarrow> string) \<Rightarrow> server_config \<Rightarrow> server_config" where
  "server_env getenv cfg =
     (let cfg = env_string getenv ''MC_LISTEN_ADDR'' (\<lambda>v c. c\<lparr>sc_ListenAddr := v\<rparr>) cfg;
          cfg = env_string getenv ''DATABASE_URL'' (\<lambda>v c. c\<lparr>sc_DatabaseURL := v\<rparr>) cfg;
          cfg = env_string getenv ''MC_PUBLIC_URL'' (\<lambda>v c. c\<lparr>sc_PublicURL := v\<rparr>) cfg;
          cfg = env_string getenv ''JWT_SECRET'' (\<lambda>v c. c\<lparr>sc_JWTSecret := v\<rparr>) cfg;
          cfg = env_string getenv ''ADMIN_EMAIL'' (\<lambda>v c. c\<lparr>sc_AdminEmail := v\<rparr>) cfg;
          cfg = env_string getenv ''ADMIN_PASSWORD'' (\<lambda>v c. c\<lparr>sc_AdminPass := v\<rparr>) cfg;
          cfg = env_string getenv ''MC_LOG_LEVEL'' (\<lambda>v c. c\<lparr>sc_LogLevel := v\<rparr>) cfg;
          cfg = env_string getenv ''MC_STATIC_DIR'' (\<lambda>v c. c\<lparr>sc_StaticDir := v\<rparr>) cfg;
          cfg = env_string getenv ''MC_AGENT_BIN_DIR'' (\<lambda>v c. c\<lparr>sc_AgentBinDir := v\<rparr>) cfg;
          cfg = env_string getenv ''MC_SMTP_HOST'' (\<lambda>v. put_smtp (\<lambda>s. s\<lparr>smtp_Host := v\<rparr>)) cfg;
          cfg = env_int getenv ''MC_SMTP_PORT'' (\<lambda>n. put_smtp (\<lambda>s. s\<lparr>smtp_Port := n\<rparr>)) cfg;
          cfg = env_string getenv ''MC_SMTP_USER'' (\<lambda>v. put_smtp (\<lambda>s. s\<lparr>smtp_Username := v\<rparr>)) cfg;
          cfg = env_string getenv ''MC_SMTP_PASS'' (\<lambda>v. put_smtp (\<lambda>s. s\<lparr>smtp_Password := v\<rparr>)) cfg;
          cfg = env_string getenv ''MC_SMTP_FROM'' (\<lambda>v. put_smtp (\<lambda>s. s\<lparr>smtp_From := v\<rparr>)) cfg;
          cfg = env_cors getenv cfg;
          cfg = env_int getenv ''MC_RETENTION_LOG_HOURS'' (\<lambda>n. put_retention (\<lambda>r. r\<lparr>rc_LogHours := n\<rparr>)) cfg;
          cfg = env_int getenv ''MC_RETENTION_METRIC_HOURS'' (\<lambda>n. put_retention (\<lambda>r. r\<lparr>rc_MetricHours := n\<rparr>)) cfg;
          cfg = env_string getenv ''MC_VAPID_PUBLIC_KEY'' (\<lambda>v. put_webpush (\<lambda>w. w\<lparr>wp_VAPIDPublic := v\<rparr>)) cfg;
          cfg = env_string getenv ''MC_VAPID_PRIVATE_KEY'' (\<lambda>v. put_webpush (\<lambda>w. w\<lparr>wp_VAPIDPrivate := v\<rparr>)) cfg;
          cfg = env_string getenv ''MC_VAPID_SUBJECT'' (\<lambda>v. put_webpush (\<lambda>w. w\<lparr>wp_Subject := v\<rparr>)) cfg
      in env_int getenv ''MC_BLOCKED_NOTIFY_SECONDS'' (\<lambda>n c. c\<lparr>sc_BlockedNotifySeconds := n\<rparr>) cfg)"

definition LoadServer ::
  "(string \<Rightarrow> server_config \<Rightarrow> server_config \<times> bool) \<Rightarrow> (string \<Rightarrow> string) \<Rightarrow> (string, string) gomap \<Rightarrow> string
     \<Rightarrow> server_config \<times> string option" where
  "LoadServer yaml getenv files path =
     (let cfg = DefaultServer in
      if path = [] then (server_env getenv cfg, None)
      else case mget files path of None \<Rightarrow> (cfg, Some ''open'')
        | Some data \<Rightarrow>
            (let (cfg, ok) = yaml data cfg in if \<not> ok then (cfg, Some ''yaml'') else (server_env getenv cfg, None)))"

subsection \<open>What a configuration says\<close>

text \<open>A list of origins given in the environment is read back as it was written.\<close>

lemma cors_origins_join:
  assumes "os \<noteq> []" "\<forall>u \<in> set os. u \<noteq> [] \<and> CHR '','' \<notin> set u \<and> trim_space u = u"
  shows "cors_origins (join '','' os) = os"
proof -
  have "split_on (CHR '','') (join '','' os) = os" using assms by (intro split_on_join) auto
  moreover have "map trim_space os = os" using assms(2) by (intro map_idI) auto
  moreover have "filter (\<lambda>t. t \<noteq> []) os = os" using assms(2) by (intro filter_True) auto
  ultimately show ?thesis by (simp add: cors_origins_def)
qed

lemma server_env_cors:
  "sc_CORSOrigins (server_env getenv cfg) =
     (if cors_origins (getenv ''MC_CORS_ORIGINS'') = [] then sc_CORSOrigins cfg
      else cors_origins (getenv ''MC_CORS_ORIGINS''))"
proof -
  have s: "sc_CORSOrigins (env_string getenv n put c) = sc_CORSOrigins c" if "\<And>v c. sc_CORSOrigins (put v c) = sc_CORSOrigins c"
    for n put c using that by (simp add: env_string_def Let_def)
  have i: "sc_CORSOrigins (env_int getenv n put c) = sc_CORSOrigins c" if "\<And>v c. sc_CORSOrigins (put v c) = sc_CORSOrigins c"
    for n put c using that by (simp add: env_int_def Let_def split: option.split)
  have e: "cors_origins [] = []" by (simp add: cors_origins_def trim_space_def)
  show ?thesis by (auto simp: server_env_def Let_def s i env_cors_def e)
qed

text \<open>
  The credentials of an enrollment are what the next start of the agent loads from its file, and the
  token is gone from the file; a token in the environment comes back.
\<close>

theorem credentials_survive_restart:
  assumes "SaveCredentials marshal writable key agentID cfg files = (cfg', files', None)" "ag_path cfg \<noteq> []"
    and yaml: "\<And>a data. marshal a = Some data \<Longrightarrow> yaml data DefaultAgent = (a\<lparr>ag_path := []\<rparr>, True)"
    and "getenv ''MC_API_KEY'' = []" "getenv ''MC_AGENT_ID'' = []"
  shows "let (c, err) = LoadAgent yaml getenv files' (ag_path cfg)
    in err = None \<and> ag_APIKey c = key \<and> ag_AgentID c = agentID \<and> ag_EnrollToken c = getenv ''MC_ENROLL_TOKEN''
       \<and> ag_path c = ag_path cfg \<and> ag_Providers c = ag_Providers cfg"
proof -
  let ?a = "cfg\<lparr>ag_APIKey := key, ag_AgentID := agentID, ag_EnrollToken := []\<rparr>"
  obtain data where d: "marshal ?a = Some data" "files' = mput (ag_path cfg) data files"
    using assms(1,2) by (auto simp: SaveCredentials_def Let_def split: option.splits if_splits)
  show ?thesis
    using assms(2,4,5) yaml [OF d(1)] by (simp add: LoadAgent_def d(2) agent_env_def env_string_def Let_def)
qed

text \<open>A marshaller for the witness: the key and the identifier, separated.\<close>

definition sample_marshal :: "agent_config \<Rightarrow> string option" where
  "sample_marshal a = (if a\<lparr>ag_path := []\<rparr> = DefaultAgent\<lparr>ag_APIKey := ''k'', ag_AgentID := ''m''\<rparr> then Some ''k m'' else None)"

definition sample_yaml :: "string \<Rightarrow> agent_config \<Rightarrow> agent_config \<times> bool" where
  "sample_yaml data c = (c\<lparr>ag_APIKey := ''k'', ag_AgentID := ''m''\<rparr>, data = ''k m'')"

lemma sample_yaml_law: "sample_marshal a = Some data \<Longrightarrow> sample_yaml data DefaultAgent = (a\<lparr>ag_path := []\<rparr>, True)"
  by (auto simp: sample_marshal_def sample_yaml_def split: if_splits)

lemma credentials_survive_restart_witness:
  "ag_APIKey (fst (LoadAgent sample_yaml (\<lambda>_. []) [(''a.yaml'', ''k m'')] ''a.yaml'')) = ''k''"
proof -
  have "SaveCredentials sample_marshal (\<lambda>_. True) ''k'' ''m'' (DefaultAgent\<lparr>ag_path := ''a.yaml''\<rparr>) [] =
      (DefaultAgent\<lparr>ag_path := ''a.yaml'', ag_APIKey := ''k'', ag_AgentID := ''m''\<rparr>, [(''a.yaml'', ''k m'')], None)"
    by (simp add: SaveCredentials_def sample_marshal_def DefaultAgent_def mput_def)
  then have "let (c, err) = LoadAgent sample_yaml (\<lambda>_. []) [(''a.yaml'', ''k m'')] (ag_path (DefaultAgent\<lparr>ag_path := ''a.yaml''\<rparr>))
    in err = None \<and> ag_APIKey c = ''k'' \<and> ag_AgentID c = ''m'' \<and> ag_EnrollToken c = (\<lambda>_. []) ''MC_ENROLL_TOKEN''
       \<and> ag_path c = ag_path (DefaultAgent\<lparr>ag_path := ''a.yaml''\<rparr>)
       \<and> ag_Providers c = ag_Providers (DefaultAgent\<lparr>ag_path := ''a.yaml''\<rparr>)"
    by (rule credentials_survive_restart) (auto intro: sample_yaml_law)
  then show ?thesis by (simp add: Let_def split: prod.splits)
qed

end
