(* ===== verification/Agent_Enroll.thy ===== *)
theory Agent_Enroll
  imports Config Ws_Client Enroll_Handlers
begin

section \<open>Enrollment and upload, the agent's side\<close>

text \<open>
  Models \<open>internal/agent/enroll.go\<close> and \<open>internal/agent/publish.go\<close>. \<open>url_parse\<close> and \<open>render\<close> are
  package \<open>net/url\<close>; a request is a function of the address and the body on the state of the world it
  is sent to, \<open>Inl\<close> when it fails on the way. The enrollment is then run against the server's own
  \<open>handleEnroll\<close>.
\<close>

record http_reply =
  hr_Status :: nat
  hr_Body :: string
  hr_Enroll :: "enroll_response option"

datatype agent_error = AlreadyRegistered string | AgentError string

definition httpBaseFromServerURL ::
  "(string \<Rightarrow> string) \<Rightarrow> (string \<Rightarrow> go_url option) \<Rightarrow> (go_url \<Rightarrow> string) \<Rightarrow> string \<Rightarrow> string + string" where
  "httpBaseFromServerURL quote url_parse render serverURL =
     (case url_parse serverURL of None \<Rightarrow> Inl ''parse''
      | Some u \<Rightarrow>
          (let base = (\<lambda>scheme. Inr (trim_right_slash (render (u\<lparr>url_Scheme := scheme, url_Path := [], url_Query := []\<rparr>))))
           in if url_Scheme u = ''ws'' then base ''http''
              else if url_Scheme u = ''wss'' then base ''https''
              else if url_Scheme u = ''http'' \<or> url_Scheme u = ''https'' then base (url_Scheme u)
              else Inl (''unsupported server url scheme '' @ quote (url_Scheme u))))"

definition wsFromHTTPBase :: "(string \<Rightarrow> go_url option) \<Rightarrow> (go_url \<Rightarrow> string) \<Rightarrow> string \<Rightarrow> string option" where
  "wsFromHTTPBase url_parse render base =
     (case url_parse base of None \<Rightarrow> None
      | Some u \<Rightarrow>
          (let u = (if url_Scheme u = ''http'' then u\<lparr>url_Scheme := ''ws''\<rparr>
                    else if url_Scheme u = ''https'' then u\<lparr>url_Scheme := ''wss''\<rparr> else u)
           in Some (trim_right_slash (render u))))"

text \<open>The host the client runs on, with the libraries it calls; \<open>ah_derive\<close> is \<open>DeriveAgentIDForServer\<close>.\<close>

record 'w agent_host =
  ah_parse :: "string \<Rightarrow> go_url option"
  ah_render :: "go_url \<Rightarrow> string"
  ah_quote :: "string \<Rightarrow> string"
  ah_goos :: string
  ah_goarch :: string
  ah_derive :: "string \<Rightarrow> string"
  ah_marshal :: "agent_config \<Rightarrow> string option"
  ah_writable :: "string \<Rightarrow> bool"
  ah_post :: "string \<Rightarrow> enroll_request \<Rightarrow> 'w \<Rightarrow> 'w \<times> (string + http_reply)"

definition enroll ::
  "'w agent_host \<Rightarrow> string \<Rightarrow> string \<Rightarrow> string \<Rightarrow> string \<Rightarrow> 'w \<Rightarrow> 'w \<times> (agent_error + enroll_response)" where
  "enroll ah serverURL token machineID hostname w =
     (case httpBaseFromServerURL (ah_quote ah) (ah_parse ah) (ah_render ah) serverURL of
        Inl e \<Rightarrow> (w, Inl (AgentError e))
      | Inr base \<Rightarrow>
          (let (w, reply) = ah_post ah (base @ ''/api/v1/enroll'')
                 \<lparr>eq_Token = token, eq_MachineID = machineID, eq_Hostname = hostname,
                  eq_OS = ah_goos ah, eq_Arch = ah_goarch ah\<rparr> w
           in case reply of Inl e \<Rightarrow> (w, Inl (AgentError e))
              | Inr resp \<Rightarrow>
                  (w, if hr_Status resp = 409 then Inl (AlreadyRegistered (trim_space (hr_Body resp)))
                      else if hr_Status resp \<noteq> 200
                      then Inl (AgentError (''enroll failed ('' @ utoa (hr_Status resp) @ ''): '' @ trim_space (hr_Body resp)))
                      else case hr_Enroll resp of None \<Rightarrow> Inl (AgentError ''decode'')
                        | Some r \<Rightarrow> if ep_AgentKey r = [] then Inl (AgentError ''enroll returned empty key'') else Inr r)))"

definition Bootstrap ::
  "'w agent_host \<Rightarrow> string \<Rightarrow> agent_config \<Rightarrow> (string, string) gomap \<Rightarrow> 'w
     \<Rightarrow> 'w \<times> agent_config \<times> (string, string) gomap \<times> agent_error option" where
  "Bootstrap ah hostname cfg files w =
     (if ag_EnrollToken cfg = [] then (w, cfg, files, None)
      else
        (let machineID = (if ag_AgentID cfg = [] then ah_derive ah (ag_ServerURL cfg) else ag_AgentID cfg);
             (w, res) = enroll ah (ag_ServerURL cfg) (ag_EnrollToken cfg) machineID hostname w
         in case res of Inl e \<Rightarrow> (w, cfg, files, Some e)
            | Inr r \<Rightarrow>
                (let cfg = (if ag_ServerURL cfg = [] \<and> ep_ServerURL r \<noteq> []
                            then (case wsFromHTTPBase (ah_parse ah) (ah_render ah) (ep_ServerURL r) of
                                    None \<Rightarrow> cfg | Some ws \<Rightarrow> cfg\<lparr>ag_ServerURL := ws\<rparr>)
                            else cfg);
                     (cfg, files, err) = SaveCredentials (ah_marshal ah) (ah_writable ah) (ep_AgentKey r) (ep_AgentID r) cfg files
                 in (w, cfg, files, map_option (\<lambda>e. AgentError (''persist credentials: '' @ e)) err))))"

subsection \<open>Upload\<close>

record publish_request =
  pq_URL :: string
  pq_APIKey :: string
  pq_Filename :: string
  pq_Session :: "string option"
  pq_Data :: string

text \<open>\<open>content\<close> is the file, \<open>None\<close> when it cannot be read.\<close>

definition Publish ::
  "'w agent_host \<Rightarrow> (publish_request \<Rightarrow> 'w \<Rightarrow> 'w \<times> (string + http_reply)) \<Rightarrow> string option
     \<Rightarrow> string \<Rightarrow> string \<Rightarrow> string \<Rightarrow> string \<Rightarrow> 'w \<Rightarrow> 'w \<times> string option" where
  "Publish ah send content serverURL apiKey path sessionID w =
     (if apiKey = [] then (w, Some ''agent is not enrolled (no apiKey); run the agent once to enroll first'')
      else case httpBaseFromServerURL (ah_quote ah) (ah_parse ah) (ah_render ah) serverURL of
        Inl e \<Rightarrow> (w, Some e)
      | Inr base \<Rightarrow>
          (case content of None \<Rightarrow> (w, Some ''open'')
           | Some data \<Rightarrow>
               (let (w, reply) = send \<lparr>pq_URL = base @ ''/api/v1/publish'', pq_APIKey = apiKey,
                      pq_Filename = filepath_Base path,
                      pq_Session = (if sessionID = [] then None else Some sessionID), pq_Data = data\<rparr> w
                in case reply of Inl e \<Rightarrow> (w, Some e)
                   | Inr resp \<Rightarrow>
                       (w, if hr_Status resp \<noteq> 201
                           then Some (''publish failed ('' @ utoa (hr_Status resp) @ ''): '' @ hr_Body resp) else None))))"

subsection \<open>Without a token\<close>

lemma bootstrap_without_token: "ag_EnrollToken cfg = [] \<Longrightarrow> Bootstrap ah hostname cfg files w = (w, cfg, files, None)"
  by (simp add: Bootstrap_def)

subsection \<open>Against the server\<close>

text \<open>
  \<open>server_post\<close> sends the request to the server and brings its answer back. The world is the server
  with the times and faults of its next requests.
\<close>

definition reply_of :: "(err_msg \<Rightarrow> string) \<Rightarrow> enroll_response response \<Rightarrow> http_reply" where
  "reply_of err_body r =
     (case r of Error n _ msg \<Rightarrow> \<lparr>hr_Status = n, hr_Body = err_body msg, hr_Enroll = None\<rparr>
      | Reply n x \<Rightarrow> \<lparr>hr_Status = n, hr_Body = [], hr_Enroll = Some x\<rparr>)"

definition server_post ::
  "(err_msg \<Rightarrow> string) \<Rightarrow> http_base \<Rightarrow> string \<Rightarrow> enroll_request \<Rightarrow> ambient list \<times> server
     \<Rightarrow> (ambient list \<times> server) \<times> (string + http_reply)" where
  "server_post err_body hb url req = (\<lambda>(as, s).
     case as of [] \<Rightarrow> (([], s), Inl ''unreachable'')
     | a # as \<Rightarrow> (let (s, r) = handleEnroll a hb (Some req) s in ((as, s), Inr (reply_of err_body r))))"

lemma SaveCredentials_config:
  "SaveCredentials marshal writable key i cfg files = (cfg', files', err) \<Longrightarrow>
     cfg' = cfg\<lparr>ag_APIKey := key, ag_AgentID := i, ag_EnrollToken := []\<rparr>"
  by (auto simp: SaveCredentials_def Let_def split: option.splits if_splits)

text \<open>What an enrollment asked of the server comes to.\<close>

definition enroll_body :: "'w agent_host \<Rightarrow> string \<Rightarrow> string \<Rightarrow> string \<Rightarrow> enroll_request" where
  "enroll_body ah token machineID hostname =
     \<lparr>eq_Token = token, eq_MachineID = machineID, eq_Hostname = hostname, eq_OS = ah_goos ah, eq_Arch = ah_goarch ah\<rparr>"

lemma enroll_server:
  assumes "ah_post ah = server_post err_body hb" "enroll ah url token m host (a # as, s) = (w, Inr r)"
  obtains s' n where "handleEnroll a hb (Some (enroll_body ah token m host)) s = (s', Reply n r)" "w = (as, s')"
proof -
  obtain base where base: "httpBaseFromServerURL (ah_quote ah) (ah_parse ah) (ah_render ah) url = Inr base"
    using assms(2) by (auto simp: enroll_def split: sum.splits)
  obtain s' res where h: "handleEnroll a hb (Some (enroll_body ah token m host)) s = (s', res)" by fastforce
  note eq = assms(2) [unfolded enroll_def base sum.case assms(1) server_post_def case_prod_conv list.case
      h [unfolded enroll_body_def] Let_def]
  show ?thesis
  proof (cases res)
    case (Error n cd msg)
    then show ?thesis using eq by (simp add: reply_of_def split: if_splits)
  next
    case (Reply n x)
    then show ?thesis using eq that [of s' n] h by (simp add: reply_of_def split: if_splits)
  qed
qed

lemma spent_token_refused:
  assumes "ah_post ah = server_post err_body hb" "token \<noteq> []"
    and "\<And>f later. EnrollTokenOrg f token later (sv_store s) = Inl e"
  shows "\<exists>x. snd (enroll ah url token m host (a # as, s)) = Inl x" "snd (fst (enroll ah url token m host (a # as, s))) = s"
proof -
  have h: "handleEnroll a hb (Some (enroll_body ah token m host)) s = (s, Error 401 ''invalid_token''
      (Text ''enrollment token is invalid, expired, used, or revoked''))"
    using assms(2,3) by (simp add: handleEnroll_def enroll_body_def Let_def)
  note eq = enroll_def [of ah url token m host "(a # as, s)", unfolded assms(1) server_post_def case_prod_conv list.case
      h [unfolded enroll_body_def] Let_def]
  show "\<exists>x. snd (enroll ah url token m host (a # as, s)) = Inl x" "snd (fst (enroll ah url token m host (a # as, s))) = s"
    by (cases "httpBaseFromServerURL (ah_quote ah) (ah_parse ah) (ah_render ah) url"; simp add: eq reply_of_def)+
qed

lemma bootstrap_success:
  assumes "Bootstrap ah host cfg files w = (w', cfg', files', None)" "ag_EnrollToken cfg \<noteq> []"
  obtains m r where "enroll ah (ag_ServerURL cfg) (ag_EnrollToken cfg) m host w = (w', Inr r)"
    and "ag_APIKey cfg' = ep_AgentKey r" "ag_AgentID cfg' = ep_AgentID r" "ag_EnrollToken cfg' = []"
proof -
  let ?m = "if ag_AgentID cfg = [] then ah_derive ah (ag_ServerURL cfg) else ag_AgentID cfg"
  obtain w2 res where e: "enroll ah (ag_ServerURL cfg) (ag_EnrollToken cfg) ?m host w = (w2, res)" by fastforce
  note eq = assms(1) [unfolded Bootstrap_def if_not_P [OF assms(2)] Let_def e case_prod_conv]
  show ?thesis
  proof (cases res)
    case (Inl x)
    then show ?thesis using eq by simp
  next
    case (Inr r)
    obtain c where c: "SaveCredentials (ah_marshal ah) (ah_writable ah) (ep_AgentKey r) (ep_AgentID r) c files = (cfg', files', None)"
      "w2 = w'" using eq Inr by (auto split: prod.splits)
    show ?thesis using that [of ?m r] e Inr c(2) SaveCredentials_config [OF c(1)] by simp
  qed
qed

text \<open>
  C16. An agent that enrolls holds a key the server accepts for the organisation of the token and the
  identity the agent keeps. The token is spent: a start of an agent that still has it, its environment
  having kept it say, fails although the credentials are stored, and leaves the server as it is.
\<close>

theorem bootstrap_enrolls:
  assumes "ah_post ah = server_post err_body hb" "ag_EnrollToken cfg \<noteq> []"
    and "Bootstrap ah host cfg files (a # as, s) = ((as', s'), cfg', files', None)"
    and "wf_enroll (sv_store s)" "ok_ambient a" "am_db a 6 = None"
  shows "\<exists>g. EnrollTokenOrg None (ag_EnrollToken cfg) (am_now a) (sv_store s) = Inr g
     \<and> lookupAgentKey (ag_APIKey cfg') s' = Some \<lparr>ki_OrgID = g, ki_MachineID = ag_AgentID cfg'\<rparr>
     \<and> ag_EnrollToken cfg' = []
     \<and> (let (w, c, fs, err) = Bootstrap ah host2 (cfg'\<lparr>ag_EnrollToken := ag_EnrollToken cfg\<rparr>) files2 (a2 # as2, s')
        in snd w = s' \<and> err \<noteq> None)"
proof -
  obtain m r where m: "enroll ah (ag_ServerURL cfg) (ag_EnrollToken cfg) m host (a # as, s) = ((as', s'), Inr r)"
    and c: "ag_APIKey cfg' = ep_AgentKey r" "ag_AgentID cfg' = ep_AgentID r" "ag_EnrollToken cfg' = []"
    by (rule bootstrap_success [OF assms(3,2)])
  obtain n where h: "handleEnroll a hb (Some (enroll_body ah (ag_EnrollToken cfg) m host)) s = (s', Reply n r)"
    using enroll_server [OF assms(1) m] by (metis prod.inject)
  obtain g where g: "EnrollTokenOrg None (ag_EnrollToken cfg) (am_now a) (sv_store s) = Inr g"
    "lookupAgentKey (ep_AgentKey r) s' = Some \<lparr>ki_OrgID = g, ki_MachineID = ep_AgentID r\<rparr>"
    "\<And>f later. EnrollTokenOrg f (ag_EnrollToken cfg) later (sv_store s') = Inl ErrTokenInvalid"
    using enroll_key_accepted [OF h assms(4-6)] by (auto simp: enroll_body_def)
  let ?c = "cfg'\<lparr>ag_EnrollToken := ag_EnrollToken cfg\<rparr>"
  note spent = spent_token_refused [OF assms(1,2) g(3), of "ag_ServerURL ?c"]
  obtain w2 x where e: "enroll ah (ag_ServerURL ?c) (ag_EnrollToken cfg)
      (if ag_AgentID ?c = [] then ah_derive ah (ag_ServerURL ?c) else ag_AgentID ?c) host2 (a2 # as2, s') = (w2, Inl x)" "snd w2 = s'"
    using spent by (metis prod.collapse)
  have "Bootstrap ah host2 ?c files2 (a2 # as2, s') = (w2, ?c, files2, Some x)"
    using assms(2) e(1) by (simp add: Bootstrap_def)
  then show ?thesis using g c e(2) by simp
qed

definition sample_agent_host :: "(ambient list \<times> server) agent_host" where
  "sample_agent_host = \<lparr>ah_parse = \<lambda>s. Some \<lparr>url_Scheme = ''ws'', url_Host = ''h'', url_Path = [], url_Query = []\<rparr>,
     ah_render = \<lambda>u. url_Scheme u @ ''://'' @ url_Host u, ah_quote = id, ah_goos = ''linux'', ah_goarch = ''amd64'',
     ah_derive = \<lambda>_. ''m'', ah_marshal = \<lambda>_. None, ah_writable = \<lambda>_. True,
     ah_post = server_post (\<lambda>_. []) sample_base\<rparr>"

definition sample_boot :: "(ambient list \<times> server) \<times> agent_config \<times> (string, string) gomap \<times> agent_error option" where
  "sample_boot = Bootstrap sample_agent_host ''box'' (DefaultAgent\<lparr>ag_EnrollToken := ''ta''\<rparr>) []
     ([quiet], sample_server [sample_token ''ta'' ''a''] [])"

lemma bootstrap_enrolls_witness:
  "lookupAgentKey ''r0'' (snd (fst sample_boot)) = Some \<lparr>ki_OrgID = ''a'', ki_MachineID = ''m''\<rparr>"
proof -
  obtain as' s' cfg' files' err where b: "sample_boot = ((as', s'), cfg', files', err)" by (metis prod.collapse)
  have f: "ag_APIKey (fst (snd sample_boot)) = ''r0''" "ag_AgentID (fst (snd sample_boot)) = ''m''"
    "snd (snd (snd sample_boot)) = None" by code_simp+
  have "Bootstrap sample_agent_host ''box'' (DefaultAgent\<lparr>ag_EnrollToken := ''ta''\<rparr>) []
      (quiet # [], sample_server [sample_token ''ta'' ''a''] []) = ((as', s'), cfg', files', None)"
    using b f(3) by (simp add: sample_boot_def)
  note run = this
  have wf: "wf_enroll (sv_store (sample_server [sample_token ''ta'' ''a''] []))"
    by (simp add: wf_enroll_def sample_server_def)
  have org: "EnrollTokenOrg None ''ta'' (am_now quiet) (sv_store (sample_server [sample_token ''ta'' ''a''] [])) = Inr ''a''"
    by code_simp
  have fields: "ag_APIKey cfg' = ''r0''" "ag_AgentID cfg' = ''m''" "snd (fst sample_boot) = s'" using f(1,2) unfolding b by simp_all
  have post: "ah_post sample_agent_host = server_post (\<lambda>_. []) sample_base" "am_db quiet 6 = None"
    "ag_EnrollToken (DefaultAgent\<lparr>ag_EnrollToken := ''ta''\<rparr>) \<noteq> []"
    by (simp_all add: sample_agent_host_def quiet_def)
  show ?thesis unfolding fields(3)
    using bootstrap_enrolls [OF post(1,3) run wf ok_quiet post(2), of "''box''" "[]" quiet "[]"] org fields(1,2)
    by simp
qed

end
