(* ===== verification/Log_Tail.thy ===== *)
theory Log_Tail
  imports Go_Lib "HOL-Library.Sublist"
begin

section \<open>Tailing the log files of the tools\<close>

text \<open>
  Models the file tails of the three providers: \<open>readFrom\<close>, \<open>tailLines\<close>, \<open>renderTail\<close> and the
  polling loops of \<open>provider/codex/logs.go\<close>, \<open>provider/codex/rollout.go\<close>,
  \<open>provider/gemini/logs.go\<close>, \<open>provider/gemini/session.go\<close> and \<open>provider/claude/transcript.go\<close>.
  A file is its bytes, \<open>None\<close> when it cannot be opened. A tick of a loop sees the size \<open>os.Stat\<close>
  reports and the bytes a later \<open>os.Open\<close> reads, which may be more. \<open>render\<close> turns a raw line into
  the line shown, the empty string when it is skipped.
\<close>

subsection \<open>Reading whole lines (codex and gemini)\<close>

function split_complete :: "string \<Rightarrow> string list \<times> string" where
  "split_complete data =
     (case index_byte data newline of
        None \<Rightarrow> ([], data)
      | Some idx \<Rightarrow> (let (ls, rest) = split_complete (drop (Suc idx) data) in (take idx data # ls, rest)))"
  by pat_completeness auto
termination
  by (relation "measure length") (auto dest: index_byte_split)

declare split_complete.simps [simp del]

definition bytes_of_lines :: "string list \<Rightarrow> nat" where
  "bytes_of_lines ls = sum_list (map (\<lambda>l. length l + 1) ls)"

definition codex_readFrom :: "string option \<Rightarrow> int \<Rightarrow> string list \<times> int" where
  "codex_readFrom file offset =
     (case file of None \<Rightarrow> ([], offset)
      | Some bytes \<Rightarrow>
          (let (ls, _) = split_complete (drop (nat offset) bytes) in (ls, offset + int (bytes_of_lines ls))))"

definition gemini_readFrom :: "string option \<Rightarrow> int \<Rightarrow> string list \<times> int" where
  "gemini_readFrom file offset =
     (case file of None \<Rightarrow> ([], offset)
      | Some bytes \<Rightarrow>
          (let (ls, _) = split_complete (drop (nat offset) bytes) in (ls, offset + int (bytes_of_lines ls))))"

subsection \<open>Reading with a scanner (claude)\<close>

text \<open>
  \<open>bufio.Scanner\<close> with \<open>ScanLines\<close>: lines without their newline and one trailing carriage
  return, an unterminated last line included; it stops at a line that does not fit the buffer.
\<close>

definition drop_cr :: "string \<Rightarrow> string" where
  "drop_cr l = (if l \<noteq> [] \<and> last l = CHR 0x0D then butlast l else l)"

function scan_lines :: "nat \<Rightarrow> string \<Rightarrow> string list" where
  "scan_lines cap data =
     (case index_byte data newline of
        None \<Rightarrow> if data = [] \<or> cap \<le> length data then [] else [drop_cr data]
      | Some idx \<Rightarrow> if cap \<le> idx then [] else drop_cr (take idx data) # scan_lines cap (drop (Suc idx) data))"
  by pat_completeness auto
termination
  by (relation "measure (\<lambda>(cap, data). length data)") (auto dest: index_byte_split)

declare scan_lines.simps [simp del]

definition scan_cap :: nat where
  "scan_cap = 8 * 1024 * 1024"

definition claude_readFrom :: "string option \<Rightarrow> int \<Rightarrow> string list \<times> int" where
  "claude_readFrom file offset =
     (case file of None \<Rightarrow> ([], offset)
      | Some bytes \<Rightarrow>
          (let ls = scan_lines scan_cap (drop (nat offset) bytes)
           in (ls, offset + int (bytes_of_lines ls))))"

definition renderTail :: "(string \<Rightarrow> string) \<Rightarrow> string option \<Rightarrow> nat \<Rightarrow> string list \<times> int" where
  "renderTail render file n =
     (case file of None \<Rightarrow> ([], -1)
      | Some bytes \<Rightarrow>
          (let ls = scan_lines scan_cap bytes
           in (last_n n (filter (\<lambda>l. l \<noteq> []) (map render ls)), int (bytes_of_lines ls))))"

text \<open>The backfill of codex and gemini: the last \<open>n\<close> raw lines that are not blank.\<close>

definition tailLines :: "string option \<Rightarrow> nat \<Rightarrow> string list" where
  "tailLines file n =
     (case file of None \<Rightarrow> []
      | Some bytes \<Rightarrow> last_n n (filter (\<lambda>l. trim_space l \<noteq> []) (scan_lines scan_cap bytes)))"

definition gemini_tailLines :: "string option \<Rightarrow> nat \<Rightarrow> string list" where
  "gemini_tailLines file n =
     (case file of None \<Rightarrow> []
      | Some bytes \<Rightarrow> last_n n (filter (\<lambda>l. trim_space l \<noteq> []) (scan_lines scan_cap bytes)))"

subsection \<open>The polling loops\<close>

text \<open>
  A tick: \<open>stat\<close> is the reported size (\<open>None\<close> on an error), \<open>file\<close> the bytes read. It yields the
  lines emitted and the new offset.
\<close>

definition tail_tick ::
  "(string option \<Rightarrow> int \<Rightarrow> string list \<times> int) \<Rightarrow> (string \<Rightarrow> string) \<Rightarrow> int option \<times> string option \<Rightarrow> int
     \<Rightarrow> string list \<times> int" where
  "tail_tick readFrom render = (\<lambda>(stat, file) offset.
     case stat of None \<Rightarrow> ([], offset)
     | Some sz \<Rightarrow>
         (let offset = (if sz < offset then 0 else offset) in
          if sz = offset then ([], offset)
          else (let (ls, end) = readFrom file offset
                in (filter (\<lambda>l. l \<noteq> []) (map render ls), end))))"

fun tail_loop ::
  "(string option \<Rightarrow> int \<Rightarrow> string list \<times> int) \<Rightarrow> (string \<Rightarrow> string) \<Rightarrow> (int option \<times> string option) list
     \<Rightarrow> int \<Rightarrow> string list" where
  "tail_loop readFrom render [] offset = []"
| "tail_loop readFrom render (t # ts) offset =
     (let (out, offset) = tail_tick readFrom render t offset
      in out @ tail_loop readFrom render ts offset)"

text \<open>\<open>tailRollout\<close> and \<open>tailSession\<close>: backfill, then start at the size \<open>stat\<close> reports.\<close>

definition tailRollout ::
  "(string \<Rightarrow> string) \<Rightarrow> string option \<Rightarrow> int option \<Rightarrow> (int option \<times> string option) list \<Rightarrow> string list" where
  "tailRollout render file stat ticks =
     filter (\<lambda>l. l \<noteq> []) (map render (tailLines file 200))
     @ tail_loop codex_readFrom render ticks (case stat of None \<Rightarrow> 0 | Some sz \<Rightarrow> sz)"

definition tailSession ::
  "(string \<Rightarrow> string) \<Rightarrow> string option \<Rightarrow> int option \<Rightarrow> (int option \<times> string option) list \<Rightarrow> string list" where
  "tailSession render file stat ticks =
     filter (\<lambda>l. l \<noteq> []) (map render (gemini_tailLines file 200))
     @ tail_loop gemini_readFrom render ticks (case stat of None \<Rightarrow> 0 | Some sz \<Rightarrow> sz)"

definition tailTranscript ::
  "(string \<Rightarrow> string) \<Rightarrow> string option \<Rightarrow> (int option \<times> string option) list \<Rightarrow> string list" where
  "tailTranscript render file ticks =
     (let (rendered, end) = renderTail render file 200
      in if end \<ge> 0 then rendered @ tail_loop claude_readFrom render ticks end
         else tail_loop claude_readFrom render ticks 0)"


subsection \<open>Lines and bytes\<close>

definition unlines :: "string list \<Rightarrow> string" where
  "unlines ls = concat (map (\<lambda>l. l @ [newline]) ls)"

lemma unlines_simps [simp]: "unlines [] = []" "unlines (l # ls) = l @ newline # unlines ls"
  "unlines (ls @ ms) = unlines ls @ unlines ms"
  by (simp_all add: unlines_def)

lemma bytes_of_lines [simp]: "bytes_of_lines ls = length (unlines ls)"
  by (induction ls) (simp_all add: bytes_of_lines_def)

lemma index_byte_append: "c \<notin> set l \<Longrightarrow> index_byte (l @ c # t) c = Some (length l)"
  by (induction l) auto

lemma split_complete_unlines:
  assumes "\<forall>l \<in> set ls. newline \<notin> set l" "newline \<notin> set rest"
  shows "split_complete (unlines ls @ rest) = (ls, rest)"
  using assms
proof (induction ls)
  case Nil
  then have none: "index_byte rest newline = None" by simp
  show ?case by (subst split_complete.simps) (simp only: none unlines_simps append_Nil option.case)
next
  case (Cons l ls)
  then have "split_complete (unlines ls @ rest) = (ls, rest)" by simp
  then show ?case using Cons.prems(1)
    by (subst split_complete.simps) (simp add: index_byte_append)
qed

lemma split_complete_spec:
  "split_complete s = (ls, rest) \<Longrightarrow>
     s = unlines ls @ rest \<and> (\<forall>l \<in> set ls. newline \<notin> set l) \<and> newline \<notin> set rest"
proof (induction s arbitrary: ls rest rule: split_complete.induct)
  case (1 s)
  show ?case
  proof (cases "index_byte s newline")
    case None
    then have "split_complete s = ([], s)" by (subst split_complete.simps) (simp only: option.case)
    then show ?thesis using "1.prems" None by auto
  next
    case (Some i)
    note i = index_byte_split [OF Some]
    obtain ms r where ms: "split_complete (drop (Suc i) s) = (ms, r)" by fastforce
    have eq: "ls = take i s # ms" "rest = r" using "1.prems" Some ms
      by (subst (asm) split_complete.simps, simp)+
    note IH = "1.IH" [OF Some ms]
    have "s = take i s @ newline # drop (Suc i) s" using i by blast
    also have "\<dots> = unlines ls @ rest" using IH eq by simp
    finally show ?thesis using IH eq i by simp
  qed
qed

lemma split_on_unlines:
  "\<forall>l \<in> set ls. newline \<notin> set l \<Longrightarrow> newline \<notin> set rest \<Longrightarrow> split_on newline (unlines ls @ rest) = ls @ [rest]"
  by (induction ls) simp_all

lemma split_complete_split_on:
  "split_complete s = (ls, rest) \<Longrightarrow> split_on newline s = ls @ [rest]"
  using split_complete_spec [of s ls rest] split_on_unlines by simp

lemma unlines_split_on: "unlines (split_on newline s) = s @ [newline]"
proof -
  obtain ls rest where sc: "split_complete s = (ls, rest)" by fastforce
  have "unlines (split_on newline s) = unlines ls @ rest @ [newline]"
    by (simp add: split_complete_split_on [OF sc])
  also have "\<dots> = s @ [newline]" using split_complete_spec [OF sc] by simp
  finally show ?thesis .
qed

lemma last_split_on:
  assumes "s \<noteq> []"
  shows "last (split_on newline s) = [] \<longleftrightarrow> last s = newline"
proof -
  obtain ls rest where sc: "split_complete s = (ls, rest)" by fastforce
  note spec = split_complete_spec [OF sc]
  show ?thesis
  proof (cases "rest = []")
    case True
    then have "unlines ls = s" "ls \<noteq> []" using spec assms by auto
    then show ?thesis using True
      by (cases ls rule: rev_cases) (auto simp: split_complete_split_on [OF sc])
  next
    case False
    then have "last s = last rest" using spec by simp
    moreover have "last rest \<noteq> newline" using spec last_in_set [OF False] by metis
    ultimately show ?thesis using False by (simp add: split_complete_split_on [OF sc])
  qed
qed

subsection \<open>Readers that deliver whole lines\<close>

text \<open>
  The ticks of a file that only grows, from \<open>d\<close> to \<open>D\<close>: each tick has a content between, \<open>os.Stat\<close>
  reports a size on the way to it, and what is read, if the file opens, is that content.
\<close>

fun grows :: "string \<Rightarrow> (int option \<times> string option) list \<Rightarrow> string \<Rightarrow> bool" where
  "grows d [] D \<longleftrightarrow> d = D"
| "grows d (t # ts) D \<longleftrightarrow> (\<exists>d'. prefix d d'
     \<and> (\<forall>sz. fst t = Some sz \<longrightarrow> int (length d) \<le> sz \<and> sz \<le> int (length d'))
     \<and> (\<forall>b. snd t = Some b \<longrightarrow> b = d') \<and> grows d' ts D)"

lemma grows_prefix: "grows d ts D \<Longrightarrow> prefix d D"
  by (induction d ts D rule: grows.induct) (auto intro: prefix_order.trans)

text \<open>
  What a tail loop needs of its reader: from an offset inside the file it returns the complete
  lines after the offset and the offset after the last of them; it does nothing without a file.
\<close>

locale line_reader =
  fixes read :: "string option \<Rightarrow> int \<Rightarrow> string list \<times> int"
  assumes read_closed: "read None offset = ([], offset)"
    and read_lines: "off \<le> length bytes \<Longrightarrow> read (Some bytes) (int off) = (ls, end) \<Longrightarrow>
      \<exists>rest. drop off bytes = unlines ls @ rest \<and> (\<forall>l \<in> set ls. newline \<notin> set l)
        \<and> newline \<notin> set rest \<and> end = int off + int (length (unlines ls))"
begin

lemma tick_grows:
  assumes "off \<le> length d" "prefix d d'" "prefix d' D"
    and "\<And>sz. stat = Some sz \<Longrightarrow> int (length d) \<le> sz \<and> sz \<le> int (length d')"
    and "\<And>b. fl = Some b \<Longrightarrow> b = d'"
  obtains ls off' where "tail_tick read render (stat, fl) (int off) =
      (filter (\<lambda>l. l \<noteq> []) (map render ls), int off')"
    and "drop off D = unlines ls @ drop off' D" and "off' \<le> length d'" and "\<forall>l \<in> set ls. newline \<notin> set l"
    and "stat = Some (int (length d')) \<Longrightarrow> fl = Some d' \<Longrightarrow> newline \<notin> set (drop off' d')"
proof -
  have le: "off \<le> length d'" using assms(1,2) prefix_length_le by fastforce
  obtain z where D: "D = d' @ z" using assms(3) by (auto simp: prefix_def)
  show thesis
  proof (cases "\<exists>sz. stat = Some sz \<and> sz \<noteq> int off \<and> fl \<noteq> None")
    case False
    then have "tail_tick read render (stat, fl) (int off) = (filter (\<lambda>l. l \<noteq> []) (map render []), int off)"
      using assms(1,4) by (cases fl) (auto simp: tail_tick_def read_closed Let_def split: option.splits)
    then show thesis
      by (rule that) (use le False in auto)
  next
    case True
    then obtain sz where sz: "stat = Some sz" "sz \<noteq> int off" and opened: "fl = Some d'"
      using assms(5) by auto
    obtain ls e where r: "read (Some d') (int off) = (ls, e)" by fastforce
    from read_lines [OF le r] obtain rest where rest: "drop off d' = unlines ls @ rest"
      "\<forall>l \<in> set ls. newline \<notin> set l" "newline \<notin> set rest" "e = int off + int (length (unlines ls))" by blast
    let ?o = "off + length (unlines ls)"
    have o: "?o \<le> length d'" using arg_cong [OF rest(1), of length] le by simp
    have dr: "drop ?o d' = rest" using arg_cong [OF rest(1), of "drop (length (unlines ls))"]
      by (simp add: add.commute)
    show thesis
    proof (rule that)
      show "tail_tick read render (stat, fl) (int off) = (filter (\<lambda>l. l \<noteq> []) (map render ls), int ?o)"
        using assms(1) assms(4) [OF sz(1)] sz r rest(4) by (simp add: tail_tick_def opened)
      show "drop off D = unlines ls @ drop ?o D" using le o rest(1) dr by (simp add: D)
    qed (use o rest dr in simp_all)
  qed
qed

text \<open>A loop over a growing file emits lines of the final content, in order and once each.\<close>

lemma loop_grows:
  assumes "grows d ts D" "off \<le> length d"
  shows "\<exists>ls rest. tail_loop read render ts (int off) = filter (\<lambda>l. l \<noteq> []) (map render ls)
    \<and> drop off D = unlines ls @ rest \<and> (\<forall>l \<in> set ls. newline \<notin> set l)
    \<and> (ts \<noteq> [] \<longrightarrow> last ts = (Some (int (length D)), Some D) \<longrightarrow> newline \<notin> set rest)
    \<and> (ts = [] \<longrightarrow> ls = [])"
  using assms
proof (induction ts arbitrary: d off)
  case (Cons t ts)
  obtain stat fl where t: "t = (stat, fl)" by fastforce
  from Cons.prems(1) obtain d' where d': "prefix d d'" "grows d' ts D"
    "\<And>sz. stat = Some sz \<Longrightarrow> int (length d) \<le> sz \<and> sz \<le> int (length d')"
    "\<And>b. fl = Some b \<Longrightarrow> b = d'" by (auto simp: t)
  obtain ls off' where tick: "tail_tick read render (stat, fl) (int off) =
      (filter (\<lambda>l. l \<noteq> []) (map render ls), int off')"
    and dr: "drop off D = unlines ls @ drop off' D" "off' \<le> length d'" "\<forall>l \<in> set ls. newline \<notin> set l"
    and fin: "stat = Some (int (length d')) \<Longrightarrow> fl = Some d' \<Longrightarrow> newline \<notin> set (drop off' d')"
    by (rule tick_grows [where render = render and stat = stat and fl = fl, OF Cons.prems(2) d'(1) grows_prefix [OF d'(2)] d'(3,4)]; assumption?) (rule that; blast)
  from Cons.IH [OF d'(2) dr(2)] obtain ms rest where IH:
    "tail_loop read render ts (int off') = filter (\<lambda>l. l \<noteq> []) (map render ms)"
    "drop off' D = unlines ms @ rest" "\<forall>l \<in> set ms. newline \<notin> set l"
    "ts \<noteq> [] \<longrightarrow> last ts = (Some (int (length D)), Some D) \<longrightarrow> newline \<notin> set rest"
    "ts = [] \<longrightarrow> ms = []" by blast
  have "newline \<notin> set rest" if "last (t # ts) = (Some (int (length D)), Some D)"
  proof (cases "ts = []")
    case True
    then have "d' = D" "ms = []" using d'(2) IH(5) by simp_all
    then show ?thesis using fin that True IH(2) by (simp add: t)
  qed (use IH(4) that in simp)
  then show ?case
    using tick IH dr by (intro exI [of _ "ls @ ms"] exI [of _ rest]) (auto simp: t)
qed (auto)

lemma loop_exactly_once:
  assumes "grows d ts D" "off \<le> length d" "ts \<noteq> []" "last ts = (Some (int (length D)), Some D)"
  shows "tail_loop read render ts (int off) =
    filter (\<lambda>l. l \<noteq> []) (map render (butlast (split_on newline (drop off D))))"
proof -
  obtain ls rest where "tail_loop read render ts (int off) = filter (\<lambda>l. l \<noteq> []) (map render ls)"
    and ls: "drop off D = unlines ls @ rest" "\<forall>l \<in> set ls. newline \<notin> set l" "newline \<notin> set rest"
    using loop_grows [OF assms(1,2)] assms(3,4) by blast
  moreover have "butlast (split_on newline (drop off D)) = ls"
    using split_on_unlines [OF ls(2,3)] by (simp add: ls(1))
  ultimately show ?thesis by simp
qed

end

lemma codex_read_lines:
  assumes "off \<le> length bytes" "codex_readFrom (Some bytes) (int off) = (ls, e)"
  shows "\<exists>rest. drop off bytes = unlines ls @ rest \<and> (\<forall>l \<in> set ls. newline \<notin> set l)
        \<and> newline \<notin> set rest \<and> e = int off + int (length (unlines ls))"
proof -
  obtain ms rest where s: "split_complete (drop off bytes) = (ms, rest)" by fastforce
  then show ?thesis using assms(2) split_complete_spec [OF s] by (auto simp: codex_readFrom_def)
qed

interpretation codex: line_reader codex_readFrom
  by unfold_locales (simp add: codex_readFrom_def, rule codex_read_lines)

interpretation gemini: line_reader gemini_readFrom
proof -
  have "gemini_readFrom = codex_readFrom" by (intro ext) (simp add: gemini_readFrom_def codex_readFrom_def)
  then show "line_reader gemini_readFrom" by (simp only: codex.line_reader_axioms)
qed

subsection \<open>What the tails emit\<close>


definition growing_file :: "(int option \<times> string option) list" where
  "growing_file = [(None, None), (Some 3, Some (''a'' @ [newline] @ ''b'')),
     (Some 4, Some (''a'' @ [newline] @ ''bc'' @ [newline])), (Some 5, Some (''a'' @ [newline] @ ''bc'' @ [newline]))]"

lemma grows_step:
  "prefix d d' \<Longrightarrow> (\<And>sz. fst t = Some sz \<Longrightarrow> int (length d) \<le> sz \<and> sz \<le> int (length d')) \<Longrightarrow>
     (\<And>b. snd t = Some b \<Longrightarrow> b = d') \<Longrightarrow> grows d' ts D \<Longrightarrow> grows d (t # ts) D"
  by auto

lemma growing_file_grows: "grows [] growing_file (''a'' @ [newline] @ ''bc'' @ [newline])"
  unfolding growing_file_def
  by (rule grows_step [of _ "[]"], simp_all del: grows.simps,
      rule grows_step [of _ "''a'' @ [newline] @ ''b''"], simp_all del: grows.simps,
      rule grows_step [of _ "''a'' @ [newline] @ ''bc'' @ [newline]"], simp_all)


lemma tail_sessions_agree: "tailSession = tailRollout"
proof -
  have "gemini_readFrom = codex_readFrom" by (intro ext) (simp add: gemini_readFrom_def codex_readFrom_def)
  moreover have "gemini_tailLines = tailLines" by (intro ext) (simp add: gemini_tailLines_def tailLines_def)
  ultimately show ?thesis by (intro ext) (simp add: tailSession_def tailRollout_def)
qed

lemma drop_cr_plain: "CHR 0x0D \<notin> set l \<Longrightarrow> drop_cr l = l"
  by (metis drop_cr_def last_in_set)

text \<open>
  On text without carriage returns whose lines fit the buffer, the scanner splits at newlines; a
  last line without a newline is a line too.
\<close>

lemma scan_lines_plain:
  "CHR 0x0D \<notin> set s \<Longrightarrow> length s < cap \<Longrightarrow>
     scan_lines cap s = (let ls = split_on newline s in if last ls = [] then butlast ls else ls)"
proof (induction cap s rule: scan_lines.induct)
  case (1 cap s)
  show ?case
  proof (cases "index_byte s newline")
    case None
    then have "newline \<notin> set s" by simp
    with "1.prems" None show ?thesis
      by (subst scan_lines.simps) (simp add: drop_cr_plain del: index_byte_None)
  next
    case (Some i)
    note i = index_byte_split [OF Some]
    have "CHR 0x0D \<notin> set (drop (Suc i) s)" "length (drop (Suc i) s) < cap" "\<not> cap \<le> i"
      using "1.prems" i by (auto dest: in_set_dropD)
    note IH = "1.IH" [OF Some this(3,1,2)]
    have spl: "split_on newline s = take i s # split_on newline (drop (Suc i) s)"
      using i split_on_append [of newline "take i s" "drop (Suc i) s"] by simp
    have "drop_cr (take i s) = take i s" using "1.prems"(1) by (auto intro!: drop_cr_plain dest: in_set_takeD)
    moreover have "split_on newline (drop (Suc i) s) \<noteq> []" by simp
    ultimately show ?thesis using IH Some \<open>\<not> cap \<le> i\<close>
      by (subst scan_lines.simps) (simp add: spl Let_def)
  qed
qed

text \<open>
  On newline-terminated text without carriage returns that fits the buffer, claude's scanner reads
  exactly what the byte splitter of codex and gemini reads.
\<close>

theorem claude_reads_as_codex:
  assumes "CHR 0x0D \<notin> set data" "length data < scan_cap" "data = [] \<or> last data = newline"
  shows "claude_readFrom (Some data) offset = codex_readFrom (Some data) offset"
proof -
  let ?s = "drop (nat offset) data"
  obtain ls rest where sc: "split_complete ?s = (ls, rest)" by fastforce
  note spec = split_complete_spec [OF sc]
  have "rest = []"
  proof (cases "?s = []")
    case True
    then show ?thesis using spec by simp
  next
    case False
    then have "last ?s = newline" using assms(3) by auto
    then show ?thesis using last_split_on [OF False] split_complete_split_on [OF sc] by simp
  qed
  moreover have "split_on newline ?s = ls @ [rest]" by (rule split_complete_split_on [OF sc])
  moreover have "CHR 0x0D \<notin> set ?s" "length ?s < scan_cap" using assms(1,2) by (auto dest: in_set_dropD)
  ultimately have "scan_lines scan_cap ?s = ls" using scan_lines_plain [of ?s scan_cap] by simp
  then show ?thesis using sc by (simp add: claude_readFrom_def codex_readFrom_def)
qed

text \<open>
  When the transcript ends with a line that has no newline yet, the scanner counts a newline that
  is not there: the offset is past the end of the file, every later tick takes that for a
  truncation, and the whole file is emitted again each second.
\<close>

theorem claude_tail_repeats:
  assumes "CHR 0x0D \<notin> set data" "length data < scan_cap" "data \<noteq> []" "last data \<noteq> newline"
  shows "tailTranscript render (Some data) (replicate k (Some (int (length data)), Some data)) =
    (let shown = filter (\<lambda>l. l \<noteq> []) (map render (split_on newline data))
     in last_n 200 shown @ concat (replicate k shown))"
proof -
  let ?ls = "split_on newline data"
  let ?shown = "filter (\<lambda>l. l \<noteq> []) (map render ?ls)"
  have "last ?ls \<noteq> []" using last_split_on [OF assms(3)] assms(4) by simp
  then have scan: "scan_lines scan_cap data = ?ls" using scan_lines_plain [OF assms(1,2)] by (simp add: Let_def)
  have bytes: "length (unlines ?ls) = length data + 1" by (simp add: unlines_split_on)
  have read: "claude_readFrom (Some data) 0 = (?ls, int (length data) + 1)"
    by (simp add: claude_readFrom_def scan bytes)
  have "tail_tick claude_readFrom render (Some (int (length data)), Some data) (int (length data) + 1)
      = (?shown, int (length data) + 1)"
    using assms(3) by (simp add: tail_tick_def read)
  then have "tail_loop claude_readFrom render (replicate k (Some (int (length data)), Some data)) (int (length data) + 1)
      = concat (replicate k ?shown)"
    by (induction k) simp_all
  then show ?thesis by (simp add: tailTranscript_def renderTail_def scan bytes Let_def add.commute)
qed

lemma claude_tail_repeats_witness:
  "tailTranscript (\<lambda>l. l) (Some ''ab'') [(Some 2, Some ''ab''), (Some 2, Some ''ab'')] = [''ab'', ''ab'', ''ab'']"
  using claude_tail_repeats [of "''ab''" "\<lambda>l. l" 2]
  by (simp add: numeral_2_eq_2 scan_cap_def last_n_def)

lemma claude_reads_as_codex_witness:
  "claude_readFrom (Some (''ab'' @ [newline] @ ''c'' @ [newline])) 3 = codex_readFrom (Some (''ab'' @ [newline] @ ''c'' @ [newline])) 3"
  by (rule claude_reads_as_codex) (simp_all add: scan_cap_def)

end
