(* ===== verification/Go_Utf8.thy ===== *)
theory Go_Utf8
  imports Go_Lib
begin

section \<open>UTF-8\<close>

text \<open>
  Strings of Go are bytes; this theory splits them into the sequences of UTF-8, as \<open>utf8.DecodeRune\<close> and the
  conversion to \<open>[]rune\<close> do: a byte that starts no sequence stands for U+FFFD.
\<close>

subsection \<open>Runes\<close>

text \<open>
  \<open>rune_width\<close> is the number of bytes of the UTF-8 sequence a string starts with, 0 when it starts
  with none; the conversion to runes and back replaces each byte that starts none by U+FFFD.
\<close>

definition byte_in :: "nat \<Rightarrow> nat \<Rightarrow> string \<Rightarrow> nat \<Rightarrow> bool" where
  "byte_in lo hi s i \<longleftrightarrow> i < length s \<and> lo \<le> of_char (s ! i) \<and> of_char (s ! i) \<le> hi"

definition rune1 :: "string \<Rightarrow> bool" where
  "rune1 s \<longleftrightarrow> byte_in 0 0x7F s 0"

definition rune2 :: "string \<Rightarrow> bool" where
  "rune2 s \<longleftrightarrow> byte_in 0xC2 0xDF s 0 \<and> byte_in 0x80 0xBF s 1"

definition rune3 :: "string \<Rightarrow> bool" where
  "rune3 s \<longleftrightarrow>
     (byte_in 0xE0 0xE0 s 0 \<and> byte_in 0xA0 0xBF s 1 \<or> byte_in 0xE1 0xEC s 0 \<and> byte_in 0x80 0xBF s 1
      \<or> byte_in 0xED 0xED s 0 \<and> byte_in 0x80 0x9F s 1 \<or> byte_in 0xEE 0xEF s 0 \<and> byte_in 0x80 0xBF s 1)
     \<and> byte_in 0x80 0xBF s 2"

definition rune4 :: "string \<Rightarrow> bool" where
  "rune4 s \<longleftrightarrow>
     (byte_in 0xF0 0xF0 s 0 \<and> byte_in 0x90 0xBF s 1 \<or> byte_in 0xF1 0xF3 s 0 \<and> byte_in 0x80 0xBF s 1
      \<or> byte_in 0xF4 0xF4 s 0 \<and> byte_in 0x80 0x8F s 1)
     \<and> byte_in 0x80 0xBF s 2 \<and> byte_in 0x80 0xBF s 3"

definition rune_width :: "string \<Rightarrow> nat" where
  "rune_width s = (if rune1 s then 1 else if rune2 s then 2 else if rune3 s then 3 else if rune4 s then 4 else 0)"

definition replacement :: string where
  "replacement = [CHR 0xEF, CHR 0xBF, CHR 0xBD]"

function runes :: "string \<Rightarrow> string list" where
  "runes s =
     (if s = [] then []
      else if rune_width s = 0 then replacement # runes (tl s)
      else take (rune_width s) s # runes (drop (rune_width s) s))"
  by pat_completeness auto
termination
  by (relation "measure length") auto

declare runes.simps [simp del]

subsection \<open>Runes and bytes\<close>

lemma rune_len: "rune1 s \<Longrightarrow> 1 \<le> length s" "rune2 s \<Longrightarrow> 2 \<le> length s"
    "rune3 s \<Longrightarrow> 3 \<le> length s" "rune4 s \<Longrightarrow> 4 \<le> length s"
  by (auto simp: rune1_def rune2_def rune3_def rune4_def byte_in_def Suc_le_eq)

lemma rune_width_le: "rune_width s \<le> length s"
  using rune_len by (simp add: rune_width_def)

lemma rune_width_4: "rune_width s \<le> 4"
  by (simp add: rune_width_def)

lemma runes_Nil [simp]: "runes [] = []"
  by (simp add: runes.simps)

lemma runes_bad: "rune_width (c # s) = 0 \<Longrightarrow> runes (c # s) = replacement # runes s"
  by (simp add: runes.simps [of "c # s"])

lemma rune_width_pos: "0 < rune_width s \<Longrightarrow> s \<noteq> []"
  using rune_width_le [of s] by auto

lemma runes_good: "0 < rune_width s \<Longrightarrow> runes s = take (rune_width s) s # runes (drop (rune_width s) s)"
  using rune_width_pos [of s] by (simp add: runes.simps [of s])

lemma runes_induct [case_names Nil Bad Good]:
  assumes "P []" and "\<And>c s. rune_width (c # s) = 0 \<Longrightarrow> P s \<Longrightarrow> P (c # s)"
    and "\<And>s. 0 < rune_width s \<Longrightarrow> P (drop (rune_width s) s) \<Longrightarrow> P s"
  shows "P s"
proof (induction s rule: runes.induct)
  case (1 s)
  show ?case
  proof (cases s)
    case Nil
    then show ?thesis using assms(1) by simp
  next
    case (Cons c t)
    show ?thesis
    proof (cases "rune_width s = 0")
      case True
      then show ?thesis using 1(1) Cons assms(2) by simp
    next
      case False
      then show ?thesis using 1(2) Cons assms(3) [of s] by simp
    qed
  qed
qed

lemma length_runes: "length (runes s) \<le> length s"
proof (induction s rule: runes_induct)
  case (Good s)
  then show ?case using rune_width_le [of s] by (simp add: runes_good)
qed (simp_all add: runes_bad)

lemma runes_short: "r \<in> set (runes s) \<Longrightarrow> length r \<le> 4"
proof (induction s rule: runes_induct)
  case (Good s)
  then show ?case using rune_width_4 [of s] by (auto simp: runes_good)
qed (auto simp: runes_bad replacement_def)

lemma runes_bytes: "r \<in> set (runes s) \<Longrightarrow> c \<in> set r \<Longrightarrow> c \<in> set s \<or> c \<in> set replacement"
proof (induction s rule: runes_induct)
  case (Good s)
  then show ?case by (auto simp: runes_good dest: in_set_takeD in_set_dropD)
qed (auto simp: runes_bad)

text \<open>Plain ASCII text has one rune per byte.\<close>

lemma runes_ascii: "\<forall>c \<in> set s. (of_char c :: nat) < 128 \<Longrightarrow> runes s = map (\<lambda>c. [c]) s"
proof (induction s)
  case (Cons c s)
  then have "rune_width (c # s) = 1" by (auto simp: rune_width_def rune1_def byte_in_def)
  then show ?case using Cons by (simp add: runes.simps [of "c # s"])
qed (simp add: runes.simps)

lemma length_le_runes: "length s \<le> 4 * length (runes s)"
proof (induction s rule: runes_induct)
  case (Good s)
  then show ?case using rune_width_4 [of s] by (simp add: runes_good)
qed (simp_all add: runes_bad)

definition whole_rune :: "string \<Rightarrow> bool" where
  "whole_rune r \<longleftrightarrow> r \<noteq> [] \<and> rune_width r = length r"

lemma byte_in_take: "i < n \<Longrightarrow> byte_in lo hi (take n s) i = byte_in lo hi s i"
  by (simp add: byte_in_def)

lemma rune_take: "1 \<le> n \<Longrightarrow> rune1 (take n s) = rune1 s" "2 \<le> n \<Longrightarrow> rune2 (take n s) = rune2 s"
    "3 \<le> n \<Longrightarrow> rune3 (take n s) = rune3 s" "4 \<le> n \<Longrightarrow> rune4 (take n s) = rune4 s"
  by (simp_all add: rune1_def rune2_def rune3_def rune4_def byte_in_take)

lemma rune_width_take:
  assumes "0 < rune_width s"
  shows "rune_width (take (rune_width s) s) = rune_width s"
  using assms by (simp add: rune_width_def rune_take split: if_splits)

lemma whole_rune_take: "0 < rune_width s \<Longrightarrow> whole_rune (take (rune_width s) s)"
  using rune_width_take [of s] rune_width_le [of s] by (auto simp: whole_rune_def)

text \<open>No sequence is the beginning of a longer one.\<close>

lemma rune_disjoint: "rune1 s \<Longrightarrow> \<not> rune2 s \<and> \<not> rune3 s \<and> \<not> rune4 s"
    "rune2 s \<Longrightarrow> \<not> rune3 s \<and> \<not> rune4 s" "rune3 s \<Longrightarrow> \<not> rune4 s"
  by (auto simp: rune1_def rune2_def rune3_def rune4_def byte_in_def)

lemma whole_rune_append:
  assumes "whole_rune r"
  shows "rune_width (r @ t) = length r"
proof -
  have r: "rune_width r = length r" "0 < length r" using assms by (auto simp: whole_rune_def)
  have "take (length r) (r @ t) = r" by simp
  note this [symmetric]
  then have "rune_width (take (length r) (r @ t)) = length r" using r by simp
  moreover have "rune_width (take n s) = n \<Longrightarrow> 0 < n \<Longrightarrow> rune_width s = n" for n and s :: string
    using rune_disjoint [of s] by (auto simp: rune_width_def rune_take split: if_splits)
  ultimately show ?thesis using r by blast
qed

lemma whole_replacement: "whole_rune replacement"
  by code_simp

lemma runes_whole: "r \<in> set (runes s) \<Longrightarrow> whole_rune r"
proof (induction s rule: runes_induct)
  case (Good s)
  then show ?case using whole_rune_take [of s] by (auto simp: runes_good)
qed (auto simp: runes_bad whole_replacement)

lemma runes_concat: "\<forall>r \<in> set rs. whole_rune r \<Longrightarrow> runes (concat rs) = rs"
proof (induction rs)
  case (Cons r rs)
  then have "rune_width (r @ concat rs) = length r" "0 < length r"
    by (simp_all add: whole_rune_append) (simp add: whole_rune_def)
  then show ?case using Cons by (simp add: runes_good)
qed simp

end
