(* ===== verification/Go_Json.thy ===== *)
theory Go_Json
  imports Go_Utf8
begin

section \<open>JSON texts\<close>

text \<open>
  Models what \<open>internal/protocol/codec.go\<close> uses of \<open>encoding/json\<close>: the texts \<open>json.Marshal\<close> writes (no white
  space, HTML characters escaped, bytes that are no UTF-8 written as U+FFFD) and the texts \<open>json.Unmarshal\<close> reads,
  with its limit on the nesting. A number is kept as the literal that stands in the text.
\<close>

datatype json_value =
    VNull
  | VBool bool
  | VNum string
  | VStr string
  | VArr "json_value list"
  | VObj "(string \<times> json_value) list"

abbreviation (input) "dquote \<equiv> CHR 0x22"
abbreviation (input) "backslash \<equiv> CHR 0x5C"

subsection \<open>Writing strings\<close>

definition lower_hex :: "nat \<Rightarrow> char" where
  "lower_hex n = (if n < 10 then char_of (48 + n) else char_of (87 + n))"

definition escape_u :: "nat \<Rightarrow> string" where
  "escape_u n = [backslash, CHR ''u'', lower_hex (n div 4096), lower_hex (n div 256 mod 16),
     lower_hex (n div 16 mod 16), lower_hex (n mod 16)]"

definition quote_rune :: "string \<Rightarrow> string" where
  "quote_rune r =
     (case r of
        [c] \<Rightarrow>
          if c = dquote \<or> c = backslash then [backslash, c]
          else if c = CHR 0x08 then [backslash, CHR ''b'']
          else if c = CHR 0x0C then [backslash, CHR ''f'']
          else if c = CHR 0x0A then [backslash, CHR ''n'']
          else if c = CHR 0x0D then [backslash, CHR ''r'']
          else if c = CHR 0x09 then [backslash, CHR ''t'']
          else if (of_char c :: nat) < 0x20 \<or> c = CHR ''<'' \<or> c = CHR ''>'' \<or> c = CHR ''&''
          then escape_u (of_char c)
          else [c]
      | _ \<Rightarrow> if r = [CHR 0xE2, CHR 0x80, CHR 0xA8] then escape_u 0x2028
             else if r = [CHR 0xE2, CHR 0x80, CHR 0xA9] then escape_u 0x2029 else r)"

function quote_body :: "string \<Rightarrow> string" where
  "quote_body s =
     (if s = [] then []
      else if rune_width s = 0 then escape_u 0xFFFD @ quote_body (tl s)
      else quote_rune (take (rune_width s) s) @ quote_body (drop (rune_width s) s))"
  by pat_completeness auto
termination
  by (relation "measure length") auto

declare quote_body.simps [simp del]

definition quote_string :: "string \<Rightarrow> string" where
  "quote_string s = dquote # quote_body s @ [dquote]"

subsection \<open>Reading strings\<close>

definition hex_val :: "char \<Rightarrow> nat option" where
  "hex_val c = (let n = of_char c :: nat in
     if 48 \<le> n \<and> n \<le> 57 then Some (n - 48)
     else if 97 \<le> n \<and> n \<le> 102 then Some (n - 87)
     else if 65 \<le> n \<and> n \<le> 70 then Some (n - 55) else None)"

fun getu4 :: "string \<Rightarrow> (nat \<times> string) option" where
  "getu4 (a # b # c # d # s) =
     (case (hex_val a, hex_val b, hex_val c, hex_val d) of
        (Some w, Some x, Some y, Some z) \<Rightarrow> Some (((w * 16 + x) * 16 + y) * 16 + z, s)
      | _ \<Rightarrow> None)"
| "getu4 _ = None"

definition AppendRune :: "nat \<Rightarrow> string" where
  "AppendRune n =
     (if n < 0x80 then [char_of n]
      else if n < 0x800 then [char_of (0xC0 + n div 64), char_of (0x80 + n mod 64)]
      else if n < 0x10000
      then [char_of (0xE0 + n div 4096), char_of (0x80 + n div 64 mod 64), char_of (0x80 + n mod 64)]
      else [char_of (0xF0 + n div 262144), char_of (0x80 + n div 4096 mod 64), char_of (0x80 + n div 64 mod 64),
            char_of (0x80 + n mod 64)])"

text \<open>A first half of a surrogate pair takes the second half with it; an unpaired half is U+FFFD.\<close>

fun unescape_u :: "nat \<Rightarrow> string \<Rightarrow> string \<times> string" where
  "unescape_u n s =
     (if n < 0xD800 \<or> 0xE000 \<le> n then (AppendRune n, s)
      else
        (case s of
           a # b # t \<Rightarrow>
             (case (if a = backslash \<and> b = CHR ''u'' then getu4 t else None) of
                Some (m, u) \<Rightarrow>
                  if n < 0xDC00 \<and> 0xDC00 \<le> m \<and> m < 0xE000
                  then (AppendRune (0x10000 + (n - 0xD800) * 1024 + (m - 0xDC00)), u) else (replacement, s)
              | None \<Rightarrow> (replacement, s))
         | _ \<Rightarrow> (replacement, s)))"

declare unescape_u.simps [simp del]

definition simple_escape :: "char \<Rightarrow> char option" where
  "simple_escape c =
     (if c = dquote \<or> c = backslash \<or> c = CHR ''/'' then Some c
      else if c = CHR ''b'' then Some (CHR 0x08) else if c = CHR ''f'' then Some (CHR 0x0C)
      else if c = CHR ''n'' then Some (CHR 0x0A) else if c = CHR ''r'' then Some (CHR 0x0D)
      else if c = CHR ''t'' then Some (CHR 0x09) else None)"

lemma getu4_length: "getu4 s = Some (n, t) \<Longrightarrow> length t < length s"
  by (induction s rule: getu4.induct) (auto split: option.splits)

lemma unescape_u_length: "unescape_u n s = (r, t) \<Longrightarrow> length t \<le> length s"
  by (auto simp: unescape_u.simps split: if_splits list.splits option.splits dest!: getu4_length)

definition prepend :: "string \<Rightarrow> (string \<times> string) option \<Rightarrow> (string \<times> string) option" where
  "prepend r x = map_option (\<lambda>(s, t). (r @ s, t)) x"

text \<open>The text behind the opening quote, up to the closing one: the string and what follows.\<close>

function parse_string :: "string \<Rightarrow> (string \<times> string) option" where
  "parse_string [] = None"
| "parse_string (c # s) =
     (if c = dquote then Some ([], s)
      else if c = backslash then
        (case s of
           [] \<Rightarrow> None
         | e # t \<Rightarrow>
             if e = CHR ''u'' then
               (case getu4 t of
                  None \<Rightarrow> None
                | Some (n, u) \<Rightarrow> (case unescape_u n u of (r, v) \<Rightarrow> prepend r (parse_string v)))
             else (case simple_escape e of None \<Rightarrow> None | Some b \<Rightarrow> prepend [b] (parse_string t)))
      else if (of_char c :: nat) < 0x20 then None
      else if rune_width (c # s) = 0 then prepend replacement (parse_string s)
      else prepend (take (rune_width (c # s)) (c # s)) (parse_string (drop (rune_width (c # s)) (c # s))))"
  by pat_completeness auto
termination
  by (relation "measure length") (auto dest!: getu4_length simp: less_Suc_eq_le dest: unescape_u_length [OF sym])

declare parse_string.simps [simp del]

subsection \<open>Strings come back\<close>

text \<open>\<open>utf8.ValidString\<close>.\<close>

definition valid_utf8 :: "string \<Rightarrow> bool" where
  "valid_utf8 s \<longleftrightarrow> concat (runes s) = s"

lemma valid_utf8_whole: "valid_utf8 s \<longleftrightarrow> (\<exists>rs. (\<forall>r \<in> set rs. whole_rune r) \<and> s = concat rs)"
  unfolding valid_utf8_def using runes_whole runes_concat by metis

lemma valid_utf8_append: "valid_utf8 s \<Longrightarrow> valid_utf8 t \<Longrightarrow> valid_utf8 (s @ t)"
  unfolding valid_utf8_whole by (metis Un_iff concat_append set_append)

lemma valid_utf8_ascii: "\<forall>c \<in> set s. (of_char c :: nat) < 128 \<Longrightarrow> valid_utf8 s"
  by (simp add: valid_utf8_def runes_ascii)

lemma valid_utf8_Nil [simp]: "valid_utf8 []"
  by (simp add: valid_utf8_def)

lemma whole_rune_width: "whole_rune r \<Longrightarrow> 0 < length r \<and> r \<noteq> []"
  by (auto simp: whole_rune_def)

lemma quote_body_concat:
  "\<forall>r \<in> set rs. whole_rune r \<Longrightarrow> quote_body (concat rs) = concat (map quote_rune rs)"
proof (induction rs)
  case (Cons r rs)
  then have "rune_width (r @ concat rs) = length r" "r \<noteq> []"
    using whole_rune_append [of r "concat rs"] whole_rune_width [of r] by simp_all
  then show ?case using Cons by (simp add: quote_body.simps [of "r @ concat rs"])
qed (simp add: quote_body.simps)

lemma prepend_Some [simp]: "prepend r (Some (s, t)) = Some (r @ s, t)"
  by (simp add: prepend_def)

lemma prepend_eq_Some: "prepend r x = Some (s, t) \<longleftrightarrow> (\<exists>s'. x = Some (s', t) \<and> s = r @ s')"
  by (auto simp: prepend_def)

lemma hex_val_digit: "n < 16 \<Longrightarrow> hex_val (lower_hex n) = Some n"
  by (auto simp: hex_val_def lower_hex_def Let_def of_char_of take_bit_eq_mod)

lemma getu4_escape: "n < 65536 \<Longrightarrow> getu4 (drop 2 (escape_u n) @ t) = Some (n, t)"
proof -
  assume "n < 65536"
  then have "n div 4096 < 16" "n div 256 mod 16 < 16" "n div 16 mod 16 < 16" "n mod 16 < 16" by simp_all
  moreover have "n div 4096 * 16 + n div 256 mod 16 = n div 256" "n div 256 * 16 + n div 16 mod 16 = n div 16"
    using mult_div_mod_eq [of 16 "n div 256"] mult_div_mod_eq [of 16 "n div 16"]
    by (simp_all add: div_mult2_eq [symmetric] mult.commute)
  ultimately show ?thesis by (simp add: escape_u_def hex_val_digit)
qed

lemma parse_escape_u:
  assumes "n < 65536" "n < 0xD800 \<or> 0xE000 \<le> n"
  shows "parse_string (escape_u n @ t) = prepend (AppendRune n) (parse_string t)"
proof -
  have e: "escape_u n @ t = backslash # CHR ''u'' # drop 2 (escape_u n) @ t" by (simp add: escape_u_def)
  show ?thesis
    unfolding e parse_string.simps(2) using getu4_escape [OF assms(1), of t] assms(2) by (simp add: unescape_u.simps)
qed

lemma single_rune: "whole_rune [c] \<longleftrightarrow> (of_char c :: nat) < 0x80"
  by (auto simp: whole_rune_def rune_width_def rune1_def rune2_def rune3_def rune4_def byte_in_def)

lemma AppendRune_char: "(of_char c :: nat) < 0x80 \<Longrightarrow> AppendRune (of_char c) = [c]"
  by (simp add: AppendRune_def)

lemma long_rune_head:
  assumes "whole_rune r" "length r \<noteq> 1"
  shows "128 \<le> (of_char (hd r) :: nat)"
proof (rule ccontr)
  assume "\<not> ?thesis"
  then have "rune1 r" using whole_rune_width [OF assms(1)] by (cases r) (auto simp: rune1_def byte_in_def)
  then show False using assms by (simp add: whole_rune_def rune_width_def)
qed

lemma parse_plain_rune:
  assumes "whole_rune r" and "hd r \<noteq> dquote" "hd r \<noteq> backslash" "32 \<le> (of_char (hd r) :: nat)"
  shows "parse_string (r @ t) = prepend r (parse_string t)"
proof -
  obtain c r' where r: "r = c # r'" using whole_rune_width [OF assms(1)] by (cases r) auto
  have w: "rune_width (c # r' @ t) = Suc (length r')" using whole_rune_append [OF assms(1), of t] by (simp add: r)
  show ?thesis using assms(2-4) by (simp add: r parse_string.simps(2) w)
qed

lemma parse_quote_rune:
  assumes "whole_rune r"
  shows "parse_string (quote_rune r @ t) = prepend r (parse_string t)"
proof (cases "length r = 1")
  case True
  then obtain c where r: "r = [c]" by (auto simp: length_Suc_conv)
  have c: "(of_char c :: nat) < 0x80" using assms by (simp add: r single_rune)
  show ?thesis
  proof (cases "c \<in> {dquote, backslash, CHR 0x08, CHR 0x0C, CHR 0x0A, CHR 0x0D, CHR 0x09}")
    case True
    then show ?thesis
      by (elim insertE emptyE) (simp_all add: r quote_rune_def parse_string.simps(2) simple_escape_def)
  next
    case F: False
    show ?thesis
    proof (cases "(of_char c :: nat) < 0x20 \<or> c \<in> {CHR ''<'', CHR ''>'', CHR ''&''}")
      case True
      then have "quote_rune r = escape_u (of_char c)" using F by (auto simp: r quote_rune_def)
      then show ?thesis using parse_escape_u [of "of_char c" t] c by (simp add: AppendRune_char r)
    next
      case False
      then have "quote_rune r = r" using F by (auto simp: r quote_rune_def)
      then show ?thesis using parse_plain_rune [OF assms, of t] F False by (simp add: r)
    qed
  qed
next
  case False
  note h = long_rune_head [OF assms False]
  show ?thesis
  proof (cases "r = [CHR 0xE2, CHR 0x80, CHR 0xA8] \<or> r = [CHR 0xE2, CHR 0x80, CHR 0xA9]")
    case True
    then show ?thesis
    proof
      assume r: "r = [CHR 0xE2, CHR 0x80, CHR 0xA8]"
      have "quote_rune r = escape_u 0x2028" by (simp add: quote_rune_def r)
      moreover have "AppendRune 0x2028 = r" by (simp add: AppendRune_def r char_of_def bit_0)
      ultimately show ?thesis using parse_escape_u [of "0x2028" t] by simp
    next
      assume r: "r = [CHR 0xE2, CHR 0x80, CHR 0xA9]"
      have "quote_rune r = escape_u 0x2029" by (simp add: quote_rune_def r)
      moreover have "AppendRune 0x2029 = r" by (simp add: AppendRune_def r char_of_def bit_0)
      ultimately show ?thesis using parse_escape_u [of "0x2029" t] by simp
    qed
  next
    case F: False
    obtain a b u where "r = a # b # u"
      using False whole_rune_width [OF assms] by (metis One_nat_def length_Cons list.size(3) neq_Nil_conv)
    then have "quote_rune r = (if r = [CHR 0xE2, CHR 0x80, CHR 0xA8] then escape_u 0x2028
        else if r = [CHR 0xE2, CHR 0x80, CHR 0xA9] then escape_u 0x2029 else r)"
      by (simp only: quote_rune_def list.case)
    then have "quote_rune r = r" using F by (simp only: de_Morgan_disj if_False)
    moreover have "hd r \<noteq> dquote" "hd r \<noteq> backslash" using h by auto
    ultimately show ?thesis using parse_plain_rune [OF assms, of t] h by simp
  qed
qed

lemma parse_quote_body:
  assumes "valid_utf8 s"
  shows "parse_string (quote_body s @ dquote # t) = Some (s, t)"
proof -
  obtain rs where rs: "\<forall>r \<in> set rs. whole_rune r" "s = concat rs" using assms by (auto simp: valid_utf8_whole)
  from rs(1) have "parse_string (concat (map quote_rune rs) @ dquote # t) = Some (concat rs, t)"
    by (induction rs) (simp_all add: parse_quote_rune parse_string.simps(2))
  then show ?thesis using rs by (simp add: quote_body_concat)
qed

subsection \<open>Numbers\<close>

definition is_digit :: "char \<Rightarrow> bool" where
  "is_digit c \<longleftrightarrow> 48 \<le> (of_char c :: nat) \<and> (of_char c :: nat) \<le> 57"

definition take_digits :: "string \<Rightarrow> string \<times> string" where
  "take_digits s = (takeWhile is_digit s, dropWhile is_digit s)"

definition digits1 :: "string \<Rightarrow> (string \<times> string) option" where
  "digits1 s = (case take_digits s of (d, u) \<Rightarrow> if d = [] then None else Some (d, u))"

text \<open>The parts of a number literal: each yields what it took and what follows, \<open>None\<close> for a malformed one.\<close>

definition scan_sign :: "string \<Rightarrow> string \<times> string" where
  "scan_sign s = (case s of c # t \<Rightarrow> if c = CHR ''-'' then ([c], t) else ([], s) | [] \<Rightarrow> ([], []))"

definition scan_int :: "string \<Rightarrow> (string \<times> string) option" where
  "scan_int s =
     (case s of
        c # t \<Rightarrow> if c = CHR ''0'' then Some ([c], t)
                 else if is_digit c then Some (take_digits s) else None
      | [] \<Rightarrow> None)"

definition scan_frac :: "string \<Rightarrow> (string \<times> string) option" where
  "scan_frac s =
     (case s of
        c # t \<Rightarrow> if c = CHR ''.'' then map_option (\<lambda>(d, u). (c # d, u)) (digits1 t) else Some ([], s)
      | [] \<Rightarrow> Some ([], []))"

definition scan_plus :: "string \<Rightarrow> string \<times> string" where
  "scan_plus s = (case s of c # t \<Rightarrow> if c = CHR ''+'' \<or> c = CHR ''-'' then ([c], t) else ([], s) | [] \<Rightarrow> ([], []))"

definition scan_exp :: "string \<Rightarrow> (string \<times> string) option" where
  "scan_exp s =
     (case s of
        c # t \<Rightarrow>
          if c = CHR ''e'' \<or> c = CHR ''E'' then
            (case scan_plus t of (sg, u) \<Rightarrow> map_option (\<lambda>(d, w). (c # sg @ d, w)) (digits1 u))
          else Some ([], s)
      | [] \<Rightarrow> Some ([], []))"

definition scan_number :: "string \<Rightarrow> (string \<times> string) option" where
  "scan_number s =
     (case scan_sign s of (sg, s1) \<Rightarrow>
      case scan_int s1 of None \<Rightarrow> None
      | Some (i, s2) \<Rightarrow>
          (case scan_frac s2 of None \<Rightarrow> None
           | Some (f, s3) \<Rightarrow>
               (case scan_exp s3 of None \<Rightarrow> None
                | Some (e, s4) \<Rightarrow> Some (sg @ i @ f @ e, s4))))"

definition is_number :: "string \<Rightarrow> bool" where
  "is_number l \<longleftrightarrow> scan_number l = Some (l, [])"

text \<open>What may follow a value in a text that is written.\<close>

definition closes :: "string \<Rightarrow> bool" where
  "closes t \<longleftrightarrow> t = [] \<or> hd t \<in> {CHR '','', CHR 0x5D, CHR 0x7D}"

lemma take_digits_closes: "closes t \<Longrightarrow> take_digits (s @ t) = (case take_digits s of (d, u) \<Rightarrow> (d, u @ t))"
proof -
  assume "closes t"
  then have "takeWhile is_digit t = []" "dropWhile is_digit t = t"
    by (cases t; auto simp: closes_def is_digit_def)+
  then show ?thesis
    by (induction s) (auto simp: take_digits_def)
qed

lemma closes_head: "closes (c # t) \<Longrightarrow> c \<noteq> CHR ''.'' \<and> c \<noteq> CHR ''e'' \<and> c \<noteq> CHR ''E'' \<and> c \<noteq> CHR ''-'' \<and> c \<noteq> CHR ''+''"
  by (auto simp: closes_def)

lemma digits1_append: "closes t \<Longrightarrow> digits1 s = Some (d, u) \<Longrightarrow> digits1 (s @ t) = Some (d, u @ t)"
  by (auto simp: digits1_def take_digits_closes split: prod.splits if_splits)

lemma digits1_Nil [simp]: "digits1 [] = None"
  by (simp add: digits1_def take_digits_def)

lemma scan_frac_append:
  "closes t \<Longrightarrow> scan_frac s = Some (f, u) \<Longrightarrow> scan_frac (s @ t) = Some (f, u @ t)"
  by (cases s; cases t) (auto simp: scan_frac_def digits1_append dest: closes_head split: if_splits)

lemma scan_plus_append: "scan_plus s = (sg, u) \<Longrightarrow> u \<noteq> [] \<Longrightarrow> scan_plus (s @ t) = (sg, u @ t)"
  by (auto simp: scan_plus_def split: list.splits if_splits)

lemma scan_exp_append:
  assumes "closes t" "scan_exp s = Some (e, u)"
  shows "scan_exp (s @ t) = Some (e, u @ t)"
proof (cases s)
  case Nil
  then show ?thesis using assms by (cases t) (auto simp: scan_exp_def dest: closes_head)
next
  case (Cons c s')
  obtain sg v where sg: "scan_plus s' = (sg, v)" by fastforce
  show ?thesis
  proof (cases "c = CHR ''e'' \<or> c = CHR ''E''")
    case True
    then obtain d where d: "digits1 v = Some (d, u)" "e = c # sg @ d"
      using assms(2) by (auto simp: scan_exp_def Cons sg)
    then have "v \<noteq> []" by auto
    from scan_plus_append [OF sg this, of t] digits1_append [OF assms(1) d(1)] True d(2)
    show ?thesis by (simp add: scan_exp_def Cons)
  next
    case False
    then show ?thesis using assms(2) by (auto simp: scan_exp_def Cons)
  qed
qed

lemma scan_int_append: "closes t \<Longrightarrow> scan_int s = Some (i, u) \<Longrightarrow> scan_int (s @ t) = Some (i, u @ t)"
  using take_digits_closes [of t s] by (cases s) (auto simp: scan_int_def split: if_splits)

lemma scan_number_append:
  assumes "is_number l" and "closes t"
  shows "scan_number (l @ t) = Some (l, t)"
proof -
  obtain sg s1 where sg: "scan_sign l = (sg, s1)" by fastforce
  from assms(1) obtain i s2 f s3 e where p: "scan_int s1 = Some (i, s2)" "scan_frac s2 = Some (f, s3)"
    "scan_exp s3 = Some (e, [])" "l = sg @ i @ f @ e"
    by (auto simp: is_number_def scan_number_def sg split: option.splits)
  have "l \<noteq> []" using assms(1) by (auto simp: is_number_def scan_number_def scan_sign_def scan_int_def)
  then have "scan_sign (l @ t) = (sg, s1 @ t)" using sg by (cases l) (auto simp: scan_sign_def split: if_splits)
  then show ?thesis
    using scan_int_append [OF assms(2) p(1)] scan_frac_append [OF assms(2) p(2)] scan_exp_append [OF assms(2) p(3)]
    by (simp add: scan_number_def p(4))
qed

lemma is_number_head: "is_number l \<Longrightarrow> \<exists>c s. l = c # s \<and> (c = CHR ''-'' \<or> is_digit c)"
  by (cases l) (auto simp: is_number_def scan_number_def scan_sign_def scan_int_def is_digit_def
      split: if_splits option.splits)

lemma is_number_utoa: "is_number (utoa n)"
proof (cases "n = 0")
  case True
  moreover have "is_number ''0''" by code_simp
  ultimately show ?thesis by (simp add: utoa.simps [of 0] digit_char_def char_of_def bit_0)
next
  case False
  have d: "c \<in> set (utoa n) \<Longrightarrow> is_digit c" for c using set_utoa [of c n] by (simp add: is_digit_def)
  have z: "hd (utoa n) \<noteq> CHR ''0''" using False
  proof (induction n rule: utoa.induct)
    case (1 n)
    have "digit_char n \<noteq> CHR ''0''" if "n < 10" using digit_val_char [OF that] 1(2) by (auto simp: digit_val_def)
    then show ?case
      using 1 utoa_nonempty [of "n div 10"] by (cases "n < 10") (simp_all add: utoa.simps [of n])
  qed
  obtain c s where u: "utoa n = c # s" using utoa_nonempty by (metis neq_Nil_conv)
  have "take_digits (utoa n) = (utoa n, [])" using d by (simp add: take_digits_def)
  moreover have "c \<noteq> CHR ''-''" "is_digit c" "c \<noteq> CHR ''0''" using d [of c] z by (auto simp: u is_digit_def)
  ultimately show ?thesis
    by (simp add: is_number_def scan_number_def scan_sign_def scan_int_def scan_frac_def scan_exp_def u)
qed

lemma is_number_itoa: "is_number (itoa i)"
proof (cases "i < 0")
  case True
  have "is_number (CHR ''-'' # l)" if "is_number l" "hd l \<noteq> CHR ''-''" for l
    using that by (cases l) (auto simp: is_number_def scan_number_def scan_sign_def split: option.splits)
  moreover have "hd (utoa n) \<noteq> CHR ''-''" for n
    using set_utoa [of "hd (utoa n)" n] utoa_nonempty [of n] by auto
  ultimately show ?thesis using True is_number_utoa by (simp add: itoa_def)
qed (simp add: itoa_def is_number_utoa)

subsection \<open>Texts of values\<close>

fun print_json :: "json_value \<Rightarrow> string" where
  "print_json VNull = ''null''"
| "print_json (VBool b) = (if b then ''true'' else ''false'')"
| "print_json (VNum l) = l"
| "print_json (VStr s) = quote_string s"
| "print_json (VArr vs) = CHR 0x5B # join '','' (map print_json vs) @ [CHR 0x5D]"
| "print_json (VObj kvs) = CHR 0x7B # join '','' (map (\<lambda>(k, v). quote_string k @ CHR '':'' # print_json v) kvs) @ [CHR 0x7D]"

definition is_ws :: "char \<Rightarrow> bool" where
  "is_ws c \<longleftrightarrow> c = CHR '' '' \<or> c = CHR 0x09 \<or> c = CHR 0x0A \<or> c = CHR 0x0D"

definition skip_ws :: "string \<Rightarrow> string" where
  "skip_ws s = dropWhile is_ws s"

definition maxNestingDepth :: nat where
  "maxNestingDepth = 10000"

definition literal :: "string \<Rightarrow> json_value \<Rightarrow> string \<Rightarrow> (json_value \<times> string) option" where
  "literal w v s = (if has_prefix s w then Some (v, drop (length w) s) else None)"

text \<open>
  The scanner. Each call consumes one unit of the first argument and each second call a byte at least, so twice
  the length of the text is enough of it (\<open>parse_fuel\<close> below); \<open>d\<close> is the nesting that is left.
\<close>

fun parse_value :: "nat \<Rightarrow> nat \<Rightarrow> string \<Rightarrow> (json_value \<times> string) option"
  and parse_elems :: "nat \<Rightarrow> nat \<Rightarrow> string \<Rightarrow> (json_value list \<times> string) option"
  and parse_members :: "nat \<Rightarrow> nat \<Rightarrow> string \<Rightarrow> ((string \<times> json_value) list \<times> string) option" where
  "parse_value 0 d s = None"
| "parse_value (Suc n) d s =
     (case skip_ws s of
        [] \<Rightarrow> None
      | c # t \<Rightarrow>
          if c = dquote then map_option (\<lambda>(x, u). (VStr x, u)) (parse_string t)
          else if c = CHR 0x7B then
            (if d = 0 then None
             else case skip_ws t of
               [] \<Rightarrow> None
             | b # u \<Rightarrow> if b = CHR 0x7D then Some (VObj [], u)
                        else map_option (\<lambda>(x, v). (VObj x, v)) (parse_members n (d - 1) (b # u)))
          else if c = CHR 0x5B then
            (if d = 0 then None
             else case skip_ws t of
               [] \<Rightarrow> None
             | b # u \<Rightarrow> if b = CHR 0x5D then Some (VArr [], u)
                        else map_option (\<lambda>(x, v). (VArr x, v)) (parse_elems n (d - 1) (b # u)))
          else if c = CHR ''n'' then literal ''null'' VNull (c # t)
          else if c = CHR ''t'' then literal ''true'' (VBool True) (c # t)
          else if c = CHR ''f'' then literal ''false'' (VBool False) (c # t)
          else map_option (\<lambda>(l, u). (VNum l, u)) (scan_number (c # t)))"
| "parse_elems 0 d s = None"
| "parse_elems (Suc n) d s =
     (case parse_value n d s of
        None \<Rightarrow> None
      | Some (v, t) \<Rightarrow>
          (case skip_ws t of
             [] \<Rightarrow> None
           | c # u \<Rightarrow>
               if c = CHR 0x5D then Some ([v], u)
               else if c = CHR '','' then map_option (\<lambda>(vs, w). (v # vs, w)) (parse_elems n d u)
               else None))"
| "parse_members 0 d s = None"
| "parse_members (Suc n) d s =
     (case skip_ws s of
        [] \<Rightarrow> None
      | q # s1 \<Rightarrow>
          if q \<noteq> dquote then None
          else (case parse_string s1 of
             None \<Rightarrow> None
           | Some (k, s2) \<Rightarrow>
               (case skip_ws s2 of
                  [] \<Rightarrow> None
                | b # s3 \<Rightarrow>
                    if b \<noteq> CHR '':'' then None
                    else (case parse_value n d s3 of
                       None \<Rightarrow> None
                     | Some (v, s4) \<Rightarrow>
                         (case skip_ws s4 of
                            [] \<Rightarrow> None
                          | c # u \<Rightarrow>
                              if c = CHR 0x7D then Some ([(k, v)], u)
                              else if c = CHR '','' then map_option (\<lambda>(x, w). ((k, v) # x, w)) (parse_members n d u)
                              else None)))))"

definition parse_fuel :: "string \<Rightarrow> nat" where
  "parse_fuel s = 2 * length s + 1"

definition parse_json :: "string \<Rightarrow> json_value option" where
  "parse_json s =
     (case parse_value (parse_fuel s) maxNestingDepth s of
        Some (v, t) \<Rightarrow> if skip_ws t = [] then Some v else None
      | None \<Rightarrow> None)"

subsection \<open>The scanner ends\<close>

lemma skip_ws_length: "length (skip_ws s) \<le> length s"
  by (simp add: skip_ws_def length_dropWhile_le)

lemma skip_ws_Cons: "skip_ws s = c # t \<Longrightarrow> length t < length s"
  using skip_ws_length [of s] by simp

lemma parse_string_length: "parse_string s = Some (x, t) \<Longrightarrow> length t < length s"
proof (induction s arbitrary: x rule: length_induct)
  case (1 s)
  note IH = 1(1)[rule_format]
  show ?case
  proof (cases s)
    case Nil
    then show ?thesis using 1(2) by (simp add: parse_string.simps)
  next
    case (Cons c s1)
    have step: "length t < length s" if "prepend r (parse_string u) = Some (x, t)" "length u < length s" for r u
      using that IH [of u] by (auto simp: prepend_eq_Some)
    show ?thesis
    proof (cases "c = dquote")
      case True
      then show ?thesis using 1(2) by (simp add: Cons parse_string.simps(2))
    next
      case nq: False
      show ?thesis
      proof (cases "c = backslash")
        case True
        then obtain e u where s1: "s1 = e # u" using 1(2) by (cases s1) (auto simp: Cons parse_string.simps(2))
        show ?thesis
        proof (cases "e = CHR ''u''")
          case u: True
          from 1(2) obtain n v where g: "getu4 u = Some (n, v)"
            by (auto simp: Cons parse_string.simps(2) True s1 u split: option.splits)
          obtain r w where w: "unescape_u n v = (r, w)" by fastforce
          have "prepend r (parse_string w) = Some (x, t)"
            using 1(2) by (simp add: Cons parse_string.simps(2) True s1 u g w)
          then show ?thesis
            by (rule step) (use getu4_length [OF g] unescape_u_length [OF w] in \<open>simp add: Cons s1\<close>)
        next
          case False
          from 1(2) obtain b where "prepend [b] (parse_string u) = Some (x, t)"
            by (auto simp: Cons parse_string.simps(2) True s1 False split: option.splits)
          then show ?thesis by (rule step) (simp add: Cons s1)
        qed
      next
        case False
        let ?w = "rune_width (c # s1)"
        have "prepend replacement (parse_string s1) = Some (x, t) \<or>
            0 < ?w \<and> prepend (take ?w (c # s1)) (parse_string (drop ?w (c # s1))) = Some (x, t)"
          using 1(2) nq False by (simp add: Cons parse_string.simps(2) split: if_splits)
        then show ?thesis by (elim disjE conjE; elim step) (simp_all add: Cons)
      qed
    qed
  qed
qed

lemma scan_number_length: "scan_number s = Some (l, t) \<Longrightarrow> length t \<le> length s"
proof -
  assume a: "scan_number s = Some (l, t)"
  have d: "digits1 s = Some (x, u) \<Longrightarrow> length u \<le> length s" for s x u
    by (auto simp: digits1_def take_digits_def length_dropWhile_le split: if_splits)
  have sg: "scan_sign s = (x, u) \<Longrightarrow> length u \<le> length s" for s x u
    by (auto simp: scan_sign_def split: list.splits if_splits)
  have i: "scan_int s = Some (x, u) \<Longrightarrow> length u \<le> length s" for s x u
    by (auto simp: scan_int_def take_digits_def length_dropWhile_le le_SucI split: list.splits if_splits)
  have f: "scan_frac s = Some (x, u) \<Longrightarrow> length u \<le> length s" for s x u
    by (auto simp: scan_frac_def split: list.splits if_splits dest!: d)
  have pl: "scan_plus s = (x, u) \<Longrightarrow> length u \<le> length s" for s x u
    by (auto simp: scan_plus_def split: list.splits if_splits)
  have e: "scan_exp s = Some (x, u) \<Longrightarrow> length u \<le> length s" for s x u
    by (auto simp: scan_exp_def split: list.splits if_splits prod.splits dest!: d pl)
  show ?thesis using a by (auto simp: scan_number_def split: option.splits prod.splits dest!: sg i f e)
qed

lemma parse_shrinks:
  "parse_value n d s = Some (v, t) \<Longrightarrow> length t \<le> length s"
  "parse_elems n d s = Some (vs, t) \<Longrightarrow> length t \<le> length s"
  "parse_members n d s = Some (kvs, t) \<Longrightarrow> length t \<le> length s"
proof (induction n d s and n d s and n d s arbitrary: v t and vs t and kvs t
    rule: parse_value_parse_elems_parse_members.induct)
  case (2 n d s)
  then show ?case
    by (fastforce simp: literal_def split: list.splits if_splits dest: skip_ws_Cons parse_string_length scan_number_length)
next
  case (4 n d s)
  then show ?case by (fastforce split: list.splits if_splits option.splits prod.splits dest: skip_ws_Cons)
next
  case (6 n d s)
  then show ?case
    by (fastforce split: list.splits if_splits option.splits prod.splits dest: skip_ws_Cons parse_string_length)
qed simp_all

lemma fuel_stable:
  "(2 * length s + 1 \<le> n \<longrightarrow> n \<le> m \<longrightarrow> parse_value m d s = parse_value n d s)
   \<and> (2 * length s + 2 \<le> n \<longrightarrow> n \<le> m \<longrightarrow> parse_elems m d s = parse_elems n d s)
   \<and> (2 * length s + 2 \<le> n \<longrightarrow> n \<le> m \<longrightarrow> parse_members m d s = parse_members n d s)"
proof (induction n arbitrary: m d s)
  case (Suc n)
  note V = Suc.IH [THEN conjunct1, rule_format] and E = Suc.IH [THEN conjunct2, THEN conjunct1, rule_format]
    and M = Suc.IH [THEN conjunct2, THEN conjunct2, rule_format]
  have v: "parse_value m d s = parse_value (Suc n) d s" if le: "2 * length s + 1 \<le> Suc n" "Suc n \<le> m"
  proof -
    obtain m' where m: "m = Suc m'" "n \<le> m'" using le(2) by (cases m) auto
    show ?thesis
    proof (cases "skip_ws s")
      case (Cons c t)
      have "parse_elems m' e w = parse_elems n e w" "parse_members m' e w = parse_members n e w"
        if "skip_ws t = w" for e w
        using that skip_ws_length [of t] skip_ws_Cons [OF Cons] le m(2) by (intro E M; simp)+
      then show ?thesis by (simp add: m(1) Cons split: list.split)
    qed (simp add: m(1))
  qed
  have e: "parse_elems m d s = parse_elems (Suc n) d s" if le: "2 * length s + 2 \<le> Suc n" "Suc n \<le> m"
  proof -
    obtain m' where m: "m = Suc m'" "n \<le> m'" using le(2) by (cases m) auto
    have v': "parse_value m' d s = parse_value n d s" using le m(2) by (intro V) simp_all
    show ?thesis
    proof (cases "parse_value n d s")
      case (Some p)
      obtain v t where p: "p = (v, t)" by fastforce
      have "parse_elems m' d u = parse_elems n d u" if "skip_ws t = c # u" for c u
        using parse_shrinks(1) [OF Some [unfolded p]] skip_ws_Cons [OF that] le m(2) by (intro E) simp_all
      then show ?thesis by (simp add: m(1) v' Some p split: list.split)
    qed (simp add: m(1) v')
  qed
  have "parse_members m d s = parse_members (Suc n) d s" if le: "2 * length s + 2 \<le> Suc n" "Suc n \<le> m"
  proof -
    obtain m' where m: "m = Suc m'" "n \<le> m'" using le(2) by (cases m) auto
    have step: "parse_value m' d s3 = parse_value n d s3 \<and>
        (\<forall>v s4 c u. parse_value n d s3 = Some (v, s4) \<longrightarrow> skip_ws s4 = c # u \<longrightarrow>
          parse_members m' d u = parse_members n d u)"
      if "skip_ws s = q # s1" "parse_string s1 = Some (k, s2)" "skip_ws s2 = b # s3" for q s1 k s2 b s3
    proof -
      have l: "length s3 + 3 \<le> length s"
        using skip_ws_Cons [OF that(1)] parse_string_length [OF that(2)] skip_ws_Cons [OF that(3)] by simp
      have "parse_value m' d s3 = parse_value n d s3" using l le m(2) by (intro V) simp_all
      moreover have "parse_members m' d u = parse_members n d u"
        if "parse_value n d s3 = Some (v, s4)" "skip_ws s4 = c # u" for v s4 c u
        using parse_shrinks(1) [OF that(1)] skip_ws_Cons [OF that(2)] l le m(2) by (intro M) simp_all
      ultimately show ?thesis by blast
    qed
    show ?thesis
      by (auto simp: m(1) split: list.split option.split dest: step)
  qed
  with v e show ?case by blast
qed simp


subsection \<open>Texts come back\<close>

text \<open>What \<open>Marshal\<close> writes: literals that are numbers, strings of UTF-8.\<close>

fun wf_json :: "json_value \<Rightarrow> bool" where
  "wf_json (VNum l) \<longleftrightarrow> is_number l"
| "wf_json (VStr s) \<longleftrightarrow> valid_utf8 s"
| "wf_json (VArr vs) \<longleftrightarrow> list_all wf_json vs"
| "wf_json (VObj kvs) \<longleftrightarrow> list_all (\<lambda>(k, v). valid_utf8 k \<and> wf_json v) kvs"
| "wf_json _ \<longleftrightarrow> True"

fun json_depth :: "json_value \<Rightarrow> nat" where
  "json_depth (VArr vs) = Suc (foldr max (map json_depth vs) 0)"
| "json_depth (VObj kvs) = Suc (foldr max (map (\<lambda>(k, v). json_depth v) kvs) 0)"
| "json_depth _ = 0"

lemma digit_no_ws: "is_digit c \<Longrightarrow> \<not> is_ws c \<and> c \<noteq> dquote \<and> c \<noteq> CHR 0x5B \<and> c \<noteq> CHR 0x7B \<and> c \<noteq> CHR ''n''
    \<and> c \<noteq> CHR ''t'' \<and> c \<noteq> CHR ''f'' \<and> c \<noteq> CHR 0x5D \<and> c \<noteq> CHR 0x7D"
  by (auto simp: is_digit_def is_ws_def)

lemma print_head: "wf_json j \<Longrightarrow> \<exists>c u. print_json j = c # u \<and> \<not> is_ws c \<and> c \<noteq> CHR 0x5D"
proof (cases j)
  case (VNum l)
  moreover assume "wf_json j"
  ultimately obtain c s where "l = c # s" "c = CHR ''-'' \<or> is_digit c" using is_number_head [of l] by (simp only: wf_json.simps) blast
  then have "print_json j = c # s \<and> \<not> is_ws c \<and> c \<noteq> CHR 0x5D"
    using VNum digit_no_ws [of c] by (elim disjE) (simp_all add: is_ws_def)
  then show ?thesis by blast
next
  case (VBool b)
  then show ?thesis by (cases b) (simp_all add: is_ws_def)
qed (simp_all add: is_ws_def quote_string_def)

lemma skip_ws_stop: "\<not> is_ws c \<Longrightarrow> skip_ws (c # s) = c # s"
  by (simp add: skip_ws_def)

lemma skip_print: "wf_json j \<Longrightarrow> skip_ws (print_json j @ t) = print_json j @ t"
  using print_head [of j] by (auto simp: skip_ws_stop)

lemma print_nonempty: "wf_json j \<Longrightarrow> print_json j \<noteq> []"
  using print_head [of j] by auto

lemma parse_elems_print:
  assumes IH: "\<And>v n t. v \<in> set vs \<Longrightarrow> closes t \<Longrightarrow> 2 * length (print_json v) + 1 \<le> n \<Longrightarrow>
      parse_value n d (print_json v @ t) = Some (v, t)"
    and "vs \<noteq> []" and "2 * length (join '','' (map print_json vs)) + 2 \<le> n"
  shows "parse_elems n d (join '','' (map print_json vs) @ CHR 0x5D # t) = Some (vs, t)"
  using assms
proof (induction vs arbitrary: n)
  case (Cons v vs)
  obtain m where n: "n = Suc m" using Cons.prems(3) by (cases n) auto
  show ?case
  proof (cases vs)
    case Nil
    have "parse_value m d (print_json v @ CHR 0x5D # t) = Some (v, CHR 0x5D # t)"
      using Cons.prems(3) by (intro Cons.prems(1)) (simp_all add: n Nil closes_def)
    then show ?thesis by (simp add: n Nil skip_ws_stop is_ws_def)
  next
    case (Cons v' vs')
    let ?r = "join '','' (map print_json vs)"
    have j: "join '','' (print_json v # map print_json vs) = print_json v @ CHR '','' # ?r" by (simp add: Cons)
    have "parse_value m d (print_json v @ CHR '','' # ?r @ CHR 0x5D # t) = Some (v, CHR '','' # ?r @ CHR 0x5D # t)"
      using Cons.prems(3) j by (intro Cons.prems(1)) (simp_all add: n closes_def)
    moreover have "parse_elems m d (?r @ CHR 0x5D # t) = Some (vs, t)"
      using Cons.prems(3) j by (intro Cons.IH Cons.prems(1)) (simp_all add: n Cons)
    ultimately show ?thesis by (simp add: n j skip_ws_stop is_ws_def)
  qed
qed simp

lemma parse_members_print:
  assumes IH: "\<And>k v n t. (k, v) \<in> set kvs \<Longrightarrow> closes t \<Longrightarrow> 2 * length (print_json v) + 1 \<le> n \<Longrightarrow>
      parse_value n d (print_json v @ t) = Some (v, t)"
    and "kvs \<noteq> []" and "list_all (\<lambda>(k, v). valid_utf8 k) kvs"
    and "2 * length (join '','' (map (\<lambda>(k, v). quote_string k @ CHR '':'' # print_json v) kvs)) + 2 \<le> n"
  shows "parse_members n d (join '','' (map (\<lambda>(k, v). quote_string k @ CHR '':'' # print_json v) kvs) @ CHR 0x7D # t)
     = Some (kvs, t)"
  using assms
proof (induction kvs arbitrary: n)
  case (Cons kv kvs)
  obtain m where n: "n = Suc m" using Cons.prems(4) by (cases n) auto
  obtain k v where kv: "kv = (k, v)" by fastforce
  have k: "parse_string (quote_body k @ dquote # u) = Some (k, u)" for u
    using Cons.prems(3) by (simp add: kv parse_quote_body)
  have h: "parse_members (Suc m) d (quote_string k @ CHR '':'' # u) =
      (case parse_value m d u of None \<Rightarrow> None
       | Some (v, s4) \<Rightarrow> (case skip_ws s4 of [] \<Rightarrow> None
          | c # u \<Rightarrow> if c = CHR 0x7D then Some ([(k, v)], u)
              else if c = CHR '','' then map_option (\<lambda>(x, w). ((k, v) # x, w)) (parse_members m d u) else None))" for u
    by (simp add: quote_string_def skip_ws_stop is_ws_def k)
  show ?case
  proof (cases kvs)
    case Nil
    have "parse_value m d (print_json v @ CHR 0x7D # t) = Some (v, CHR 0x7D # t)"
      using Cons.prems(4) by (intro Cons.prems(1) [of k]) (simp_all add: n Nil kv closes_def)
    then show ?thesis using h [of "print_json v @ CHR 0x7D # t"] by (simp add: n Nil kv skip_ws_stop is_ws_def)
  next
    case (Cons x xs)
    let ?r = "join '','' (map (\<lambda>(k, v). quote_string k @ CHR '':'' # print_json v) kvs)"
    have j: "join '','' ((quote_string k @ CHR '':'' # print_json v)
          # map (\<lambda>(k, v). quote_string k @ CHR '':'' # print_json v) kvs) =
        quote_string k @ CHR '':'' # print_json v @ CHR '','' # ?r" by (simp add: Cons)
    have IH': "parse_value n d (print_json v @ t) = Some (v, t)"
      if "(k, v) \<in> set kvs" "closes t" "2 * length (print_json v) + 1 \<le> n" for k v n t
      using that by (intro Cons.prems(1) [of k]) simp_all
    have "parse_value m d (print_json v @ CHR '','' # ?r @ CHR 0x7D # t) = Some (v, CHR '','' # ?r @ CHR 0x7D # t)"
      using Cons.prems(4) j by (intro Cons.prems(1) [of k]) (simp_all add: n kv closes_def)
    moreover have "parse_members m d (?r @ CHR 0x7D # t) = Some (kvs, t)"
      using Cons.prems(3,4) j by (intro Cons.IH IH') (simp_all add: n kv Cons)
    ultimately show ?thesis
      using h [of "print_json v @ CHR '','' # ?r @ CHR 0x7D # t"] by (simp add: n j kv skip_ws_stop is_ws_def)
  qed
qed simp

lemma foldr_max_le: "x \<in> set xs \<Longrightarrow> x \<le> foldr max xs (0 :: nat)"
  by (induction xs) auto

lemma parse_print:
  "wf_json j \<Longrightarrow> json_depth j \<le> d \<Longrightarrow> closes t \<Longrightarrow> 2 * length (print_json j) + 1 \<le> n \<Longrightarrow>
     parse_value n d (print_json j @ t) = Some (j, t)"
proof (induction j arbitrary: d t n rule: measure_induct_rule [where f = size])
  case (less j)
  obtain m where n: "n = Suc m" using less.prems(4) by (cases n) auto
  note skip = skip_print [OF less.prems(1), of t]
  show ?case
  proof (cases j)
    case VNull
    then show ?thesis by (simp add: n skip_ws_stop is_ws_def literal_def has_prefix_def)
  next
    case (VBool b)
    then show ?thesis by (cases b) (simp_all add: n skip_ws_stop is_ws_def literal_def has_prefix_def)
  next
    case (VNum l)
    then have l: "is_number l" using less.prems(1) by simp
    obtain c s where c: "l = c # s" "c = CHR ''-'' \<or> is_digit c" using is_number_head [OF l] by blast
    have "\<not> is_ws c \<and> c \<noteq> dquote \<and> c \<noteq> CHR 0x5B \<and> c \<noteq> CHR 0x7B \<and> c \<noteq> CHR ''n'' \<and> c \<noteq> CHR ''t'' \<and> c \<noteq> CHR ''f''"
      using c(2) digit_no_ws [of c] by (elim disjE) (simp_all add: is_ws_def)
    then show ?thesis
      using scan_number_append [OF l less.prems(3)] by (simp add: n VNum c(1) skip_ws_stop)
  next
    case (VStr s)
    then show ?thesis
      using less.prems(1) parse_quote_body [of s t] by (simp add: n quote_string_def skip_ws_stop is_ws_def)
  next
    case (VArr vs)
    have el: "parse_value k (d - 1) (print_json v @ u) = Some (v, u)"
      if "v \<in> set vs" "closes u" "2 * length (print_json v) + 1 \<le> k" for v k u
    proof (rule less.IH)
      show "size v < size j" using size_list_estimation' [OF that(1) order_refl, of size] by (simp add: VArr)
      show "wf_json v" using less.prems(1) that(1) by (simp add: VArr list_all_iff)
      show "json_depth v \<le> d - 1"
        using less.prems(2) foldr_max_le [of "json_depth v" "map json_depth vs"] that(1) by (simp add: VArr)
    qed (use that in simp_all)
    have d: "d \<noteq> 0" using less.prems(2) by (simp add: VArr)
    show ?thesis
    proof (cases "vs = []")
      case True
      then show ?thesis using d by (simp add: n VArr skip_ws_stop is_ws_def)
    next
      case False
      let ?r = "join '','' (map print_json vs)"
      obtain v vs' where v: "vs = v # vs'" using False by (cases vs) auto
      obtain c u where c: "print_json v = c # u" "\<not> is_ws c" "c \<noteq> CHR 0x5D"
        using print_head [of v] less.prems(1) by (auto simp: VArr v)
      then obtain w where w: "?r = c # w" by (cases vs') (simp_all add: v)
      have "parse_elems m (d - 1) (?r @ CHR 0x5D # t) = Some (vs, t)"
        using less.prems(4) by (intro parse_elems_print el False) (simp_all add: VArr n)
      then show ?thesis using d c(2,3) by (simp add: n VArr w skip_ws_stop is_ws_def)
    qed
  next
    case (VObj kvs)
    have el: "parse_value m (d - 1) (print_json v @ u) = Some (v, u)"
      if "(k, v) \<in> set kvs" "closes u" "2 * length (print_json v) + 1 \<le> m" for k v m u
    proof (rule less.IH)
      show "size v < size j"
        using size_list_estimation' [OF that(1) order_refl, of "size_prod (\<lambda>_. 0) size"] by (simp add: VObj)
      show "wf_json v" using less.prems(1) that(1) by (auto simp: VObj list_all_iff)
      have "json_depth v \<in> set (map (\<lambda>(k, v). json_depth v) kvs)" using that(1) by force
      then show "json_depth v \<le> d - 1" using less.prems(2) foldr_max_le by (fastforce simp: VObj)
    qed (use that in simp_all)
    have d: "d \<noteq> 0" using less.prems(2) by (simp add: VObj)
    show ?thesis
    proof (cases "kvs = []")
      case True
      then show ?thesis using d by (simp add: n VObj skip_ws_stop is_ws_def)
    next
      case False
      let ?r = "join '','' (map (\<lambda>(k, v). quote_string k @ CHR '':'' # print_json v) kvs)"
      have k: "list_all (\<lambda>(k, v). valid_utf8 k) kvs" using less.prems(1) by (auto simp: VObj list_all_iff)
      obtain k v kvs' where v: "kvs = (k, v) # kvs'" using False by (metis neq_Nil_conv surj_pair)
      obtain w where w: "?r = dquote # w" by (cases kvs') (simp_all add: v quote_string_def)
      have "parse_members m (d - 1) (?r @ CHR 0x7D # t) = Some (kvs, t)"
        using less.prems(4) by (intro parse_members_print el False k) (simp_all add: VObj n)
      then show ?thesis using d by (simp add: n VObj w skip_ws_stop is_ws_def)
    qed
  qed
qed

text \<open>What \<open>Marshal\<close> writes, \<open>Unmarshal\<close> reads back.\<close>

lemma parse_json_print:
  assumes "wf_json j" and "json_depth j \<le> maxNestingDepth"
  shows "parse_json (print_json j) = Some j"
  using parse_print [OF assms, of "[]" "parse_fuel (print_json j)"]
  by (simp add: parse_json_def parse_fuel_def closes_def skip_ws_def)

subsection \<open>What the scanner yields is well formed\<close>

lemma of_char_char_of_small: "k < 256 \<Longrightarrow> (of_char (char_of k) :: nat) = k"
  by (simp add: of_char_of take_bit_eq_mod)

lemma whole_AppendRune:
  assumes "n < 0x110000" and "n < 0xD800 \<or> 0xE000 \<le> n"
  shows "whole_rune (AppendRune n)"
proof -
  have tail: "byte_in 0x80 0xBF [a, char_of (0x80 + k mod 64 :: nat)] 1"
    "byte_in 0x80 0xBF [a, b, char_of (0x80 + k mod 64 :: nat)] 2"
    "byte_in 0x80 0xBF [a, b, c, char_of (0x80 + k mod 64 :: nat)] 3" for a b c k
  proof -
    have "k mod 64 < 64" by simp
    then have "(of_char (char_of (0x80 + k mod 64 :: nat)) :: nat) = 0x80 + k mod 64 \<and> 0x80 + k mod 64 \<le> 0xBF"
      by (subst of_char_char_of_small) linarith+
    then show "byte_in 0x80 0xBF [a, char_of (0x80 + k mod 64 :: nat)] 1"
      "byte_in 0x80 0xBF [a, b, char_of (0x80 + k mod 64 :: nat)] 2"
      "byte_in 0x80 0xBF [a, b, c, char_of (0x80 + k mod 64 :: nat)] 3"
      by (simp_all add: byte_in_def)
  qed
  consider "n < 0x80" | "0x80 \<le> n" "n < 0x800" | "0x800 \<le> n" "n < 0x10000" | "0x10000 \<le> n" by linarith
  then show ?thesis
  proof cases
    case 1
    then show ?thesis by (simp add: AppendRune_def single_rune of_char_char_of_small)
  next
    case 2
    have "2 \<le> n div 64" "n div 64 \<le> 31" using 2 by linarith+
    then have h: "of_char (char_of (0xC0 + n div 64)) = 0xC0 + n div 64" by (intro of_char_char_of_small) simp
    have "rune2 (AppendRune n)" "\<not> rune1 (AppendRune n)"
      using 2 h tail \<open>2 \<le> n div 64\<close> \<open>n div 64 \<le> 31\<close> by (simp_all add: AppendRune_def rune2_def rune1_def) (simp_all add: byte_in_def)
    then show ?thesis using 2 by (simp add: whole_rune_def rune_width_def AppendRune_def)
  next
    case 3
    have b: "n div 4096 \<le> 15" using 3 by linarith
    then have h: "of_char (char_of (0xE0 + n div 4096)) = 0xE0 + n div 4096" by (intro of_char_char_of_small) simp
    have m: "n div 64 mod 64 < 64" by simp
    have e: "n div 64 = n div 4096 * 64 + n div 64 mod 64"
      using div_mult_mod_eq [of "n div 64" 64] by (simp add: div_mult2_eq [symmetric])
    have h2: "of_char (char_of (0x80 + n div 64 mod 64)) = 0x80 + n div 64 mod 64"
      by (rule of_char_char_of_small) (use m in simp)
    have n64: "32 \<le> n div 64" "n div 64 < 864 \<or> 896 \<le> n div 64" using 3 assms(2) by linarith+
    have "n div 4096 = 0 \<and> 32 \<le> n div 64 mod 64 \<or> 1 \<le> n div 4096 \<and> n div 4096 \<le> 12
        \<or> n div 4096 = 13 \<and> n div 64 mod 64 < 32 \<or> 14 \<le> n div 4096"
      using e m n64 by linarith
    then have "rune3 (AppendRune n)"
      using 3 b h h2 m tail by (simp add: AppendRune_def rune3_def) (auto simp: byte_in_def)
    moreover have "\<not> rune1 (AppendRune n)" "\<not> rune2 (AppendRune n)"
      using 3 h by (simp_all add: AppendRune_def rune1_def rune2_def byte_in_def)
    ultimately show ?thesis using 3 by (simp add: whole_rune_def rune_width_def AppendRune_def)
  next
    case 4
    have b: "n div 262144 \<le> 4" using assms(1) by linarith
    then have h: "of_char (char_of (0xF0 + n div 262144)) = 0xF0 + n div 262144" by (intro of_char_char_of_small) simp
    have m: "n div 4096 mod 64 < 64" by simp
    have e: "n div 4096 = n div 262144 * 64 + n div 4096 mod 64"
      using div_mult_mod_eq [of "n div 4096" 64] by (simp add: div_mult2_eq [symmetric])
    have h2: "of_char (char_of (0x80 + n div 4096 mod 64)) = 0x80 + n div 4096 mod 64"
      by (rule of_char_char_of_small) (use m in simp)
    have n4: "16 \<le> n div 4096" "n div 4096 < 272" using 4 assms(1) by linarith+
    have "n div 262144 = 0 \<and> 16 \<le> n div 4096 mod 64 \<or> 1 \<le> n div 262144 \<and> n div 262144 \<le> 3
        \<or> n div 262144 = 4 \<and> n div 4096 mod 64 < 16"
      using e m n4 b by linarith
    then have "rune4 (AppendRune n)"
      using 4 b h h2 m tail by (simp add: AppendRune_def rune4_def) (auto simp: byte_in_def)
    moreover have "\<not> rune1 (AppendRune n)" "\<not> rune2 (AppendRune n)" "\<not> rune3 (AppendRune n)"
      using 4 h by (simp_all add: AppendRune_def rune1_def rune2_def rune3_def byte_in_def)
    ultimately show ?thesis using 4 by (simp add: whole_rune_def rune_width_def AppendRune_def)
  qed
qed

lemma hex_val_bound: "hex_val c = Some n \<Longrightarrow> n < 16"
  by (auto simp: hex_val_def Let_def split: if_splits)

lemma getu4_bound: "getu4 s = Some (n, t) \<Longrightarrow> n < 65536"
proof (induction s rule: getu4.induct)
  case (1 a b c d s)
  then obtain w x y z where "hex_val a = Some w" "hex_val b = Some x" "hex_val c = Some y" "hex_val d = Some z"
    "n = ((w * 16 + x) * 16 + y) * 16 + z" by (auto split: option.splits)
  moreover have "w \<le> 15" "x \<le> 15" "y \<le> 15" "z \<le> 15"
    using calculation hex_val_bound by fastforce+
  ultimately show ?case by simp
qed simp_all

lemma valid_whole: "whole_rune r \<Longrightarrow> valid_utf8 r"
  unfolding valid_utf8_whole by (intro exI [of _ "[r]"]) simp

lemma unescape_u_valid:
  assumes "unescape_u n s = (r, t)" and "n < 65536"
  shows "valid_utf8 r"
proof -
  have "r = replacement \<or> r = AppendRune n \<and> (n < 0xD800 \<or> 0xE000 \<le> n)
      \<or> (\<exists>m. r = AppendRune (0x10000 + (n - 0xD800) * 1024 + (m - 0xDC00)) \<and> 0xD800 \<le> n \<and> n < 0xDC00
           \<and> 0xDC00 \<le> m \<and> m < 0xE000)"
    using assms(1) by (auto simp: unescape_u.simps split: if_splits list.splits option.splits)
  then show ?thesis
  proof (elim disjE exE conjE)
    fix m assume r: "r = AppendRune (0x10000 + (n - 0xD800) * 1024 + (m - 0xDC00))"
      and b: "0xD800 \<le> n" "n < 0xDC00" "0xDC00 \<le> m" "m < 0xE000"
    have "n - 0xD800 \<le> 1023" "m - 0xDC00 \<le> 1023" using b by linarith+
    then have "0x10000 + (n - 0xD800) * 1024 + (m - 0xDC00) < 0x110000" by linarith
    then show ?thesis unfolding r by (intro valid_whole whole_AppendRune) auto
  qed (use assms(2) in \<open>auto intro!: valid_whole whole_AppendRune whole_replacement\<close>)
qed

lemma parse_string_valid: "parse_string s = Some (x, t) \<Longrightarrow> valid_utf8 x"
proof (induction s arbitrary: x rule: length_induct)
  case (1 s)
  note IH = 1(1)[rule_format]
  have step: "valid_utf8 x" if "prepend r (parse_string u) = Some (x, t)" "length u < length s" "valid_utf8 r" for r u
    using that IH [of u] by (auto simp: prepend_eq_Some valid_utf8_append)
  show ?case
  proof (cases s)
    case Nil
    then show ?thesis using 1(2) by (simp add: parse_string.simps)
  next
    case (Cons c s1)
    show ?thesis
    proof (cases "c = dquote")
      case True
      then show ?thesis using 1(2) by (simp add: Cons parse_string.simps(2))
    next
      case nq: False
      show ?thesis
      proof (cases "c = backslash")
        case True
        then obtain e u where s1: "s1 = e # u" using 1(2) by (cases s1) (auto simp: Cons parse_string.simps(2))
        show ?thesis
        proof (cases "e = CHR ''u''")
          case u: True
          from 1(2) obtain n v where g: "getu4 u = Some (n, v)"
            by (auto simp: Cons parse_string.simps(2) True s1 u split: option.splits)
          obtain r w where w: "unescape_u n v = (r, w)" by fastforce
          have "prepend r (parse_string w) = Some (x, t)"
            using 1(2) by (simp add: Cons parse_string.simps(2) True s1 u g w)
          then show ?thesis
            by (rule step) (use getu4_length [OF g] unescape_u_length [OF w] unescape_u_valid [OF w getu4_bound [OF g]]
                in \<open>simp_all add: Cons s1\<close>)
        next
          case False
          from 1(2) obtain b where b: "simple_escape e = Some b" "prepend [b] (parse_string u) = Some (x, t)"
            by (auto simp: Cons parse_string.simps(2) True s1 False split: option.splits)
          have "(of_char b :: nat) < 128" using b(1) by (auto simp: simple_escape_def split: if_splits)
          with b(2) show ?thesis by (elim step) (simp_all add: Cons s1 valid_utf8_ascii)
        qed
      next
        case False
        let ?w = "rune_width (c # s1)"
        have "prepend replacement (parse_string s1) = Some (x, t) \<or>
            0 < ?w \<and> prepend (take ?w (c # s1)) (parse_string (drop ?w (c # s1))) = Some (x, t)"
          using 1(2) nq False by (simp add: Cons parse_string.simps(2) split: if_splits)
        then show ?thesis
        proof (elim disjE conjE)
          assume "prepend replacement (parse_string s1) = Some (x, t)"
          then show ?thesis by (rule step) (simp_all add: Cons valid_whole whole_replacement)
        next
          assume w: "0 < ?w" and p: "prepend (take ?w (c # s1)) (parse_string (drop ?w (c # s1))) = Some (x, t)"
          show ?thesis
            by (rule step [OF p]) (use w in \<open>simp_all add: Cons valid_whole whole_rune_take del: take_Suc_Cons\<close>)
        qed
      qed
    qed
  qed
qed

fun utf8_json :: "json_value \<Rightarrow> bool" where
  "utf8_json (VStr s) \<longleftrightarrow> valid_utf8 s"
| "utf8_json (VArr vs) \<longleftrightarrow> list_all utf8_json vs"
| "utf8_json (VObj kvs) \<longleftrightarrow> list_all (\<lambda>(k, v). valid_utf8 k \<and> utf8_json v) kvs"
| "utf8_json _ \<longleftrightarrow> True"

lemma parse_utf8:
  "parse_value n d s = Some (v, t) \<Longrightarrow> utf8_json v"
  "parse_elems n d s = Some (vs, t) \<Longrightarrow> list_all utf8_json vs"
  "parse_members n d s = Some (kvs, t) \<Longrightarrow> list_all (\<lambda>(k, v). valid_utf8 k \<and> utf8_json v) kvs"
proof (induction n d s and n d s and n d s arbitrary: v t and vs t and kvs t
    rule: parse_value_parse_elems_parse_members.induct)
  case (2 n d s)
  then show ?case
    by (auto simp: literal_def split: list.splits if_splits dest: parse_string_valid)
next
  case (4 n d s)
  then show ?case by (fastforce split: list.splits if_splits option.splits prod.splits)
next
  case (6 n d s)
  from "6.prems" obtain s1 k s2 s3 v s4 where
    p: "skip_ws s = dquote # s1" "parse_string s1 = Some (k, s2)" "skip_ws s2 = CHR '':'' # s3"
      "parse_value n d s3 = Some (v, s4)"
    and kvs: "kvs = [(k, v)] \<or> (\<exists>u x. skip_ws s4 = CHR '','' # u \<and> parse_members n d u = Some (x, t) \<and> kvs = (k, v) # x)"
    by (auto split: list.splits if_splits option.splits)
  have "utf8_json v" by (rule "6.IH"(1) [OF p(1) _ p(2) _ p(3) _ p(4)]) simp_all
  moreover have "list_all (\<lambda>(k, v). valid_utf8 k \<and> utf8_json v) x"
    if "skip_ws s4 = CHR '','' # u" "parse_members n d u = Some (x, t)" for u x
    by (rule "6.IH"(2) [OF p(1) _ p(2) _ p(3) _ p(4) _ that(1) _ _ that(2)]) simp_all
  ultimately show ?case using kvs parse_string_valid [OF p(2)] by auto
qed simp_all

lemma parse_json_utf8: "parse_json s = Some v \<Longrightarrow> utf8_json v"
  by (auto simp: parse_json_def split: option.splits if_splits dest: parse_utf8(1))

end
