(* ===== verification/Json_Levels.thy ===== *)
theory Json_Levels
  imports Go_Json
begin

section \<open>One level of a JSON text\<close>

text \<open>
  How \<open>json.Unmarshal\<close> hands a text to the fields of a structure: the text is checked as a whole, then an array or an
  object is taken apart and every member goes, as the bytes that stand in the text, to the field of its name
  (\<open>json.RawMessage\<close> keeps exactly these bytes). \<open>go_json\<close> is one such level, built on the scanner of \<open>Go_Json\<close>.
\<close>

datatype jv = JNull | JBool bool | JNum string | JString string | JArray "string list"
  | JObject "(string \<times> string) list"

text \<open>The bytes between a position and a later one, without the white space in front.\<close>

definition raw_between :: "string \<Rightarrow> string \<Rightarrow> string" where
  "raw_between s t = (let s = skip_ws s in take (length s - length t) s)"

fun raw_elems :: "nat \<Rightarrow> nat \<Rightarrow> string \<Rightarrow> string list option" where
  "raw_elems 0 d s = None"
| "raw_elems (Suc n) d s =
     (case parse_value n d s of
        None \<Rightarrow> None
      | Some (v, t) \<Rightarrow>
          (case skip_ws t of
             [] \<Rightarrow> None
           | c # u \<Rightarrow>
               if c = CHR 0x5D then Some [raw_between s t]
               else if c = CHR '','' then map_option ((#) (raw_between s t)) (raw_elems n d u)
               else None))"

fun raw_members :: "nat \<Rightarrow> nat \<Rightarrow> string \<Rightarrow> (string \<times> string) list option" where
  "raw_members 0 d s = None"
| "raw_members (Suc n) d s =
     (case skip_ws s of
        [] \<Rightarrow> None
      | q # s1 \<Rightarrow>
          if q \<noteq> dquote then None
          else (case parse_string s1 of
             None \<Rightarrow> None
           | Some (k, s2) \<Rightarrow>
               (case skip_ws s2 of
                  [] \<Rightarrow> None
                | b # s3 \<Rightarrow>
                    if b \<noteq> CHR '':'' then None
                    else (case parse_value n d s3 of
                       None \<Rightarrow> None
                     | Some (v, s4) \<Rightarrow>
                         (case skip_ws s4 of
                            [] \<Rightarrow> None
                          | c # u \<Rightarrow>
                              if c = CHR 0x7D then Some [(k, raw_between s3 s4)]
                              else if c = CHR '','' then map_option ((#) (k, raw_between s3 s4)) (raw_members n d u)
                              else None)))))"

text \<open>The members are read with the fuel and the nesting the scanner has left behind the bracket.\<close>

definition go_json :: "string \<Rightarrow> jv option" where
  "go_json s =
     (case parse_json s of
        None \<Rightarrow> None
      | Some VNull \<Rightarrow> Some JNull
      | Some (VBool b) \<Rightarrow> Some (JBool b)
      | Some (VNum l) \<Rightarrow> Some (JNum l)
      | Some (VStr x) \<Rightarrow> Some (JString x)
      | Some (VArr vs) \<Rightarrow>
          if vs = [] then Some (JArray [])
          else map_option JArray (raw_elems (2 * length s) (maxNestingDepth - 1) (skip_ws (tl (skip_ws s))))
      | Some (VObj kvs) \<Rightarrow>
          if kvs = [] then Some (JObject [])
          else map_option JObject (raw_members (2 * length s) (maxNestingDepth - 1) (skip_ws (tl (skip_ws s)))))"

subsection \<open>A level is read exactly when the text is JSON\<close>

lemma raw_elems_parse: "map_option length (raw_elems n d s) = map_option (length \<circ> fst) (parse_elems n d s)"
proof (induction n d s rule: raw_elems.induct)
  case (2 n d s)
  then show ?case by (force split: option.splits list.splits simp: option.map_comp comp_def map_option_case)
qed simp

lemma raw_members_parse:
  "map_option (map fst) (raw_members n d s) = map_option (map fst \<circ> fst) (parse_members n d s)"
proof (induction n d s rule: raw_members.induct)
  case (2 n d s)
  then show ?case by (force split: option.splits list.splits simp: option.map_comp comp_def map_option_case)
qed simp

lemma scanned_array:
  assumes "parse_json s = Some (VArr vs)" "vs \<noteq> []"
  shows "\<exists>t. parse_elems (2 * length s) (maxNestingDepth - 1) (skip_ws (tl (skip_ws s))) = Some (vs, t)"
  using assms
  by (auto simp: parse_json_def parse_fuel_def literal_def split: option.splits list.splits if_splits)

lemma scanned_object:
  assumes "parse_json s = Some (VObj kvs)" "kvs \<noteq> []"
  shows "\<exists>t. parse_members (2 * length s) (maxNestingDepth - 1) (skip_ws (tl (skip_ws s))) = Some (kvs, t)"
  using assms
  by (auto simp: parse_json_def parse_fuel_def literal_def split: option.splits list.splits if_splits)

fun level_of :: "json_value \<Rightarrow> jv \<Rightarrow> bool" where
  "level_of VNull l \<longleftrightarrow> l = JNull"
| "level_of (VBool b) l \<longleftrightarrow> l = JBool b"
| "level_of (VNum t) l \<longleftrightarrow> l = JNum t"
| "level_of (VStr x) l \<longleftrightarrow> l = JString x"
| "level_of (VArr vs) l \<longleftrightarrow> (\<exists>rs. l = JArray rs \<and> length rs = length vs)"
| "level_of (VObj kvs) l \<longleftrightarrow> (\<exists>ms. l = JObject ms \<and> map fst ms = map fst kvs)"

lemma go_json_level:
  assumes "parse_json s = Some v"
  shows "\<exists>l. go_json s = Some l \<and> level_of v l"
proof (cases v)
  case (VArr vs)
  show ?thesis
  proof (cases "vs = []")
    case False
    then obtain t where "parse_elems (2 * length s) (maxNestingDepth - 1) (skip_ws (tl (skip_ws s))) = Some (vs, t)"
      using scanned_array assms VArr by blast
    then show ?thesis using raw_elems_parse [of "2 * length s" "maxNestingDepth - 1" "skip_ws (tl (skip_ws s))"] False assms
      by (auto simp: go_json_def VArr)
  qed (use assms VArr in \<open>simp add: go_json_def\<close>)
next
  case (VObj kvs)
  show ?thesis
  proof (cases "kvs = []")
    case False
    then obtain t where "parse_members (2 * length s) (maxNestingDepth - 1) (skip_ws (tl (skip_ws s))) = Some (kvs, t)"
      using scanned_object assms VObj by blast
    then show ?thesis using raw_members_parse [of "2 * length s" "maxNestingDepth - 1" "skip_ws (tl (skip_ws s))"] False assms
      by (auto simp: go_json_def VObj)
  qed (use assms VObj in \<open>simp add: go_json_def\<close>)
qed (use assms in \<open>simp_all add: go_json_def\<close>)

lemma go_json_None: "go_json s = None \<longleftrightarrow> parse_json s = None"
  using go_json_level [of s] by (cases "parse_json s") (auto simp: go_json_def)

lemma go_json_Nil [simp]: "go_json [] = None"
  by (simp add: go_json_None parse_json_def parse_fuel_def skip_ws_def)

subsection \<open>What Marshal wrote, level by level\<close>

fun first_level :: "json_value \<Rightarrow> jv" where
  "first_level VNull = JNull"
| "first_level (VBool b) = JBool b"
| "first_level (VNum t) = JNum t"
| "first_level (VStr x) = JString x"
| "first_level (VArr vs) = JArray (map print_json vs)"
| "first_level (VObj kvs) = JObject (map (\<lambda>(k, v). (k, print_json v)) kvs)"

lemma raw_between_print: "wf_json v \<Longrightarrow> raw_between (print_json v @ t) t = print_json v"
  by (simp add: raw_between_def skip_print)

lemma raw_elems_print:
  assumes "vs \<noteq> []" "list_all wf_json vs" "\<forall>v \<in> set vs. json_depth v \<le> d"
    and "2 * length (join '','' (map print_json vs)) + 2 \<le> n"
  shows "raw_elems n d (join '','' (map print_json vs) @ CHR 0x5D # t) = Some (map print_json vs)"
  using assms
proof (induction vs arbitrary: n)
  case (Cons v vs)
  obtain m where n: "n = Suc m" using Cons.prems(4) by (cases n) auto
  have v: "parse_value m d (print_json v @ u) = Some (v, u)" if "closes u" "2 * length (print_json v) + 1 \<le> m" for u
    using Cons.prems that by (intro parse_print) simp_all
  show ?case
  proof (cases vs)
    case Nil
    then show ?thesis using v [of "CHR 0x5D # t"] Cons.prems(2,4)
      by (simp add: n closes_def skip_ws_stop is_ws_def raw_between_print)
  next
    case (Cons v' vs')
    let ?r = "join '','' (map print_json vs)"
    have j: "join '','' (print_json v # map print_json vs) = print_json v @ CHR '','' # ?r" by (simp add: Cons)
    have "parse_value m d (print_json v @ CHR '','' # ?r @ CHR 0x5D # t) = Some (v, CHR '','' # ?r @ CHR 0x5D # t)"
      using Cons.prems(4) j by (intro v) (simp_all add: n closes_def)
    moreover have "raw_elems m d (?r @ CHR 0x5D # t) = Some (map print_json vs)"
      using Cons.prems j by (intro Cons.IH) (simp_all add: n Cons)
    ultimately show ?thesis using Cons.prems(2) by (simp add: n j skip_ws_stop is_ws_def raw_between_print)
  qed
qed simp

lemma raw_members_print:
  assumes "kvs \<noteq> []" "list_all (\<lambda>(k, v). valid_utf8 k \<and> wf_json v) kvs" "\<forall>(k, v) \<in> set kvs. json_depth v \<le> d"
    and "2 * length (join '','' (map (\<lambda>(k, v). quote_string k @ CHR '':'' # print_json v) kvs)) + 2 \<le> n"
  shows "raw_members n d (join '','' (map (\<lambda>(k, v). quote_string k @ CHR '':'' # print_json v) kvs) @ CHR 0x7D # t)
     = Some (map (\<lambda>(k, v). (k, print_json v)) kvs)"
  using assms
proof (induction kvs arbitrary: n)
  case (Cons kv kvs)
  obtain m where n: "n = Suc m" using Cons.prems(4) by (cases n) auto
  obtain k v where kv: "kv = (k, v)" by fastforce
  have wf: "wf_json v" using Cons.prems(2) by (simp add: kv)
  have k: "parse_string (quote_body k @ dquote # u) = Some (k, u)" for u
    using Cons.prems(2) by (simp add: kv parse_quote_body)
  have v: "parse_value m d (print_json v @ u) = Some (v, u)" if "closes u" "2 * length (print_json v) + 1 \<le> m" for u
    using Cons.prems that by (intro parse_print) (simp_all add: kv)
  have h: "raw_members (Suc m) d (quote_string k @ CHR '':'' # print_json v @ u) =
      (case skip_ws u of [] \<Rightarrow> None
          | c # w \<Rightarrow> if c = CHR 0x7D then Some [(k, print_json v)]
              else if c = CHR '','' then map_option ((#) (k, print_json v)) (raw_members m d w) else None)"
    if "closes u" "2 * length (print_json v) + 1 \<le> m" for u
    by (simp add: quote_string_def skip_ws_stop is_ws_def k v [OF that] raw_between_print [OF wf] split: list.split)
  show ?case
  proof (cases kvs)
    case Nil
    then show ?thesis using h [of "CHR 0x7D # t"] Cons.prems(4) by (simp add: n kv closes_def skip_ws_stop is_ws_def)
  next
    case (Cons x xs)
    let ?r = "join '','' (map (\<lambda>(k, v). quote_string k @ CHR '':'' # print_json v) kvs)"
    have j: "join '','' ((quote_string k @ CHR '':'' # print_json v)
          # map (\<lambda>(k, v). quote_string k @ CHR '':'' # print_json v) kvs) =
        quote_string k @ CHR '':'' # print_json v @ CHR '','' # ?r" by (simp add: Cons)
    have "raw_members m d (?r @ CHR 0x7D # t) = Some (map (\<lambda>(k, v). (k, print_json v)) kvs)"
      using Cons.prems j by (intro Cons.IH) (simp_all add: n kv Cons)
    moreover have "2 * length (print_json v) + 1 \<le> m" using Cons.prems(4) j by (simp add: n kv)
    ultimately show ?thesis
      using h [of "CHR '','' # ?r @ CHR 0x7D # t"] by (simp add: n j kv closes_def skip_ws_stop is_ws_def)
  qed
qed simp

lemma go_json_print:
  assumes wf: "wf_json j" and d: "json_depth j \<le> maxNestingDepth"
  shows "go_json (print_json j) = Some (first_level j)"
proof -
  note p = parse_json_print [OF wf d]
  show ?thesis
  proof (cases j)
    case (VArr vs)
    have s: "skip_ws (tl (skip_ws (print_json j))) = skip_ws (join '','' (map print_json vs) @ [CHR 0x5D])"
      by (simp add: VArr skip_ws_stop is_ws_def)
    show ?thesis
    proof (cases vs)
      case (Cons v vs')
      have "skip_ws (join '','' (map print_json vs) @ [CHR 0x5D]) = join '','' (map print_json vs) @ [CHR 0x5D]"
        using wf skip_print [of v] by (cases vs') (simp_all add: VArr Cons)
      moreover have "raw_elems (2 * length (print_json j)) (maxNestingDepth - 1) (join '','' (map print_json vs) @ [CHR 0x5D])
          = Some (map print_json vs)"
      proof (rule raw_elems_print)
        show "\<forall>v \<in> set vs. json_depth v \<le> maxNestingDepth - 1"
          using d foldr_max_le [of _ "map json_depth vs"] by (fastforce simp: VArr)
      qed (use wf VArr Cons in simp_all)
      ultimately show ?thesis using p s by (simp add: go_json_def VArr Cons)
    qed (use p VArr in \<open>simp add: go_json_def\<close>)
  next
    case (VObj kvs)
    let ?r = "join '','' (map (\<lambda>(k, v). quote_string k @ CHR '':'' # print_json v) kvs)"
    have s: "skip_ws (tl (skip_ws (print_json j))) = skip_ws (?r @ [CHR 0x7D])"
      by (simp add: VObj skip_ws_stop is_ws_def)
    show ?thesis
    proof (cases "kvs = []")
      case False
      then obtain k v kvs' where kv: "kvs = (k, v) # kvs'" by (metis neq_Nil_conv surj_pair)
      have "skip_ws (?r @ [CHR 0x7D]) = ?r @ [CHR 0x7D]"
        by (cases kvs') (simp_all add: kv quote_string_def skip_ws_stop is_ws_def)
      moreover have "\<forall>(k, v) \<in> set kvs. json_depth v \<le> maxNestingDepth - 1"
      proof clarify
        fix k v assume "(k, v) \<in> set kvs"
        then have "json_depth v \<in> set (map (\<lambda>(k, v). json_depth v) kvs)" by force
        then show "json_depth v \<le> maxNestingDepth - 1" using d foldr_max_le by (fastforce simp: VObj)
      qed
      then have "raw_members (2 * length (print_json j)) (maxNestingDepth - 1) (?r @ [CHR 0x7D])
          = Some (map (\<lambda>(k, v). (k, print_json v)) kvs)"
        using wf by (intro raw_members_print False) (simp_all add: VObj)
      ultimately show ?thesis using p s False by (simp add: go_json_def VObj)
    qed (use p VObj in \<open>simp add: go_json_def\<close>)
  qed (use p in \<open>simp_all add: go_json_def\<close>)
qed

end
