(* ===== verification/Log_Render.thy ===== *)
theory Log_Render
  imports Json_Levels
begin

section \<open>Rendering the log lines of the tools\<close>

text \<open>
  Models what turns a JSON line of a log into the line the dashboard shows: \<open>renderTranscriptLine\<close>,
  \<open>renderChat\<close>, \<open>chatLine\<close> of \<open>provider/claude/transcript.go\<close>, \<open>renderRolloutLine\<close> of
  \<open>provider/codex/logs.go\<close>, \<open>renderSessionLine\<close> of \<open>provider/gemini/logs.go\<close> and their common
  \<open>compact\<close>. \<open>go_json\<close> reads one level of a text, leaving the values inside an array or an object as text.
  What \<open>Unmarshal\<close> stores from it is defined here: members match field names up to the case of ASCII
  letters, a value of the wrong type is left out and reported, \<open>null\<close> changes nothing.
\<close>

subsection \<open>Unmarshal\<close>

text \<open>A setter stores a value in a structure and tells whether it fitted.\<close>

type_synonym 'r setter = "string \<Rightarrow> 'r \<Rightarrow> 'r \<times> bool"

definition set_string :: "string \<Rightarrow> string \<Rightarrow> string \<times> bool" where
  "set_string raw cur =
     (case go_json raw of Some (JString s) \<Rightarrow> (s, True) | Some JNull \<Rightarrow> (cur, True) | _ \<Rightarrow> (cur, False))"

definition set_int64 :: "string \<Rightarrow> int \<Rightarrow> int \<times> bool" where
  "set_int64 raw cur =
     (case go_json raw of
        Some (JNum t) \<Rightarrow> (case ParseInt t of (v, None) \<Rightarrow> (v, True) | _ \<Rightarrow> (cur, False))
      | Some JNull \<Rightarrow> (cur, True) | _ \<Rightarrow> (cur, False))"

definition string_field :: "('r \<Rightarrow> string) \<Rightarrow> (string \<Rightarrow> 'r \<Rightarrow> 'r) \<Rightarrow> 'r setter" where
  "string_field get put raw r = (let (v, ok) = set_string raw (get r) in (put v r, ok))"

definition int64_field :: "('r \<Rightarrow> int) \<Rightarrow> (int \<Rightarrow> 'r \<Rightarrow> 'r) \<Rightarrow> 'r setter" where
  "int64_field get put raw r = (let (v, ok) = set_int64 raw (get r) in (put v r, ok))"

definition raw_field :: "(string \<Rightarrow> 'r \<Rightarrow> 'r) \<Rightarrow> 'r setter" where
  "raw_field put raw r = (put raw r, True)"

definition set_member :: "(string \<times> 'r setter) list \<Rightarrow> 'r \<times> bool \<Rightarrow> string \<times> string \<Rightarrow> 'r \<times> bool" where
  "set_member flds = (\<lambda>(r, ok) (k, raw).
     case find (\<lambda>(f, _). to_lower f = to_lower k) flds of
       None \<Rightarrow> (r, ok)
     | Some (_, put) \<Rightarrow> (let (r, ok') = put raw r in (r, ok \<and> ok')))"

definition set_struct :: "(string \<times> 'r setter) list \<Rightarrow> 'r setter" where
  "set_struct flds raw r =
     (case go_json raw of
        Some (JObject ms) \<Rightarrow> foldl (set_member flds) (r, True) ms
      | Some JNull \<Rightarrow> (r, True)
      | _ \<Rightarrow> (r, False))"

definition set_slice :: "'r setter \<Rightarrow> 'r \<Rightarrow> string \<Rightarrow> 'r list \<times> bool" where
  "set_slice put zero raw =
     (case go_json raw of
        Some (JArray vs) \<Rightarrow> (let rs = map (\<lambda>v. put v zero) vs in (map fst rs, list_all snd rs))
      | Some JNull \<Rightarrow> ([], True)
      | _ \<Rightarrow> ([], False))"

subsection \<open>Compact\<close>

definition ellipsis :: string where
  "ellipsis = [CHR 0xE2, CHR 0x80, CHR 0xA6]"

definition compact :: "string \<Rightarrow> nat \<Rightarrow> string" where
  "compact s mx =
     (let s = join '' '' (string_fields s); r = runes s
      in if mx < length r then concat (take mx r) @ ellipsis else s)"

subsection \<open>Claude transcripts\<close>

text \<open>The colours, and the triangle, bullet, gear and arrow of the lines, in UTF-8.\<close>

definition ansi :: "string \<Rightarrow> string" where
  "ansi code = CHR 0x1B # ''['' @ code @ ''m''"

abbreviation "ansiReset \<equiv> ansi ''0''"
abbreviation "ansiGreen \<equiv> ansi ''32''"
abbreviation "ansiCyan \<equiv> ansi ''36''"
abbreviation "ansiYellow \<equiv> ansi ''33''"
abbreviation "ansiGray \<equiv> ansi ''90''"

definition triangle :: string where "triangle = [CHR 0xE2, CHR 0x96, CHR 0xB8]"
definition bullet :: string where "bullet = [CHR 0xE2, CHR 0x97, CHR 0x8F]"
definition gear :: string where "gear = [CHR 0xE2, CHR 0x9A, CHR 0x99]"
definition hook_arrow :: string where "hook_arrow = [CHR 0xE2, CHR 0x86, CHR 0xB3]"

record transcript_message =
  tm_Type :: string
  tm_Message :: string

record inner_message =
  im_Role :: string
  im_Content :: string

record content_block =
  cb_Type :: string
  cb_Text :: string
  cb_Name :: string
  cb_Input :: string

definition transcript_fields :: "(string \<times> transcript_message setter) list" where
  "transcript_fields =
     [(''type'', string_field tm_Type (\<lambda>v r. r\<lparr>tm_Type := v\<rparr>)),
      (''message'', raw_field (\<lambda>v r. r\<lparr>tm_Message := v\<rparr>))]"

definition inner_fields :: "(string \<times> inner_message setter) list" where
  "inner_fields =
     [(''role'', string_field im_Role (\<lambda>v r. r\<lparr>im_Role := v\<rparr>)),
      (''content'', raw_field (\<lambda>v r. r\<lparr>im_Content := v\<rparr>))]"

definition block_fields :: "(string \<times> content_block setter) list" where
  "block_fields =
     [(''type'', string_field cb_Type (\<lambda>v r. r\<lparr>cb_Type := v\<rparr>)),
      (''text'', string_field cb_Text (\<lambda>v r. r\<lparr>cb_Text := v\<rparr>)),
      (''name'', string_field cb_Name (\<lambda>v r. r\<lparr>cb_Name := v\<rparr>)),
      (''input'', raw_field (\<lambda>v r. r\<lparr>cb_Input := v\<rparr>))]"

definition chatLine :: "string \<Rightarrow> string \<Rightarrow> string" where
  "chatLine role text =
     (let text = compact text 2000 in
      if role = ''user'' then ansiGreen @ triangle @ '' user: '' @ ansiReset @ text
      else if role = ''assistant'' then ansiCyan @ bullet @ '' assistant: '' @ ansiReset @ text
      else ''  '' @ text)"

definition block_parts :: "string \<Rightarrow> content_block \<Rightarrow> string list" where
  "block_parts role b =
     (if cb_Type b = ''text''
      then (let t = trim_space (cb_Text b) in if t \<noteq> [] then [chatLine role t] else [])
      else if cb_Type b = ''tool_use''
      then [ansiYellow @ gear @ '' tool: '' @ cb_Name b @ ansiReset @ '' '' @ ansiGray @ compact (cb_Input b) 120 @ ansiReset]
      else if cb_Type b = ''tool_result'' then [ansiGray @ ''  '' @ hook_arrow @ '' (tool result)'' @ ansiReset]
      else [])"

definition renderChat :: "transcript_message \<Rightarrow> string" where
  "renderChat m =
     (let (inner, ok) = set_struct inner_fields (tm_Message m) \<lparr>im_Role = [], im_Content = []\<rparr> in
      if \<not> ok then []
      else
        (let role = (if im_Role inner = [] then tm_Type m else im_Role inner);
             (as_string, ok) = set_string (im_Content inner) []
         in if ok then chatLine role as_string
            else
              (let (blocks, ok) = set_slice (set_struct block_fields)
                     \<lparr>cb_Type = [], cb_Text = [], cb_Name = [], cb_Input = []\<rparr> (im_Content inner)
               in if \<not> ok then [] else join [newline] (concat (map (block_parts role) blocks)))))"

definition renderTranscriptLine :: "string \<Rightarrow> string" where
  "renderTranscriptLine raw =
     (let raw = trim_space raw in
      if raw = [] then []
      else (let (m, ok) = set_struct transcript_fields raw \<lparr>tm_Type = [], tm_Message = []\<rparr>
            in if \<not> ok then []
               else if tm_Type m = ''user'' \<or> tm_Type m = ''assistant'' then renderChat m
               else []))"

subsection \<open>Codex rollouts\<close>

record rollout_top =
  rl_Type :: string
  rl_Payload :: string

record rollout_event =
  rv_Type :: string
  rv_Message :: string

record rollout_item =
  ri_Type :: string
  ri_Name :: string

definition rollout_fields :: "(string \<times> rollout_top setter) list" where
  "rollout_fields =
     [(''type'', string_field rl_Type (\<lambda>v r. r\<lparr>rl_Type := v\<rparr>)),
      (''payload'', raw_field (\<lambda>v r. r\<lparr>rl_Payload := v\<rparr>))]"

definition rollout_event_fields :: "(string \<times> rollout_event setter) list" where
  "rollout_event_fields =
     [(''type'', string_field rv_Type (\<lambda>v r. r\<lparr>rv_Type := v\<rparr>)),
      (''message'', string_field rv_Message (\<lambda>v r. r\<lparr>rv_Message := v\<rparr>))]"

definition rollout_item_fields :: "(string \<times> rollout_item setter) list" where
  "rollout_item_fields =
     [(''type'', string_field ri_Type (\<lambda>v r. r\<lparr>ri_Type := v\<rparr>)),
      (''name'', string_field ri_Name (\<lambda>v r. r\<lparr>ri_Name := v\<rparr>))]"

definition render_event :: "string \<Rightarrow> string" where
  "render_event payload =
     (let p = fst (set_struct rollout_event_fields payload \<lparr>rv_Type = [], rv_Message = []\<rparr>)
      in if rv_Type p = ''user_message''
         then ansiGreen @ triangle @ '' user: '' @ ansiReset @ compact (rv_Message p) 2000
         else if rv_Type p = ''agent_message''
         then ansiCyan @ bullet @ '' codex: '' @ ansiReset @ compact (rv_Message p) 2000
         else [])"

definition render_item :: "string \<Rightarrow> string" where
  "render_item payload =
     (let p = fst (set_struct rollout_item_fields payload \<lparr>ri_Type = [], ri_Name = []\<rparr>)
      in if ri_Type p = ''function_call'' \<or> ri_Type p = ''custom_tool_call''
         then (let name = (if ri_Name p = [] then ''tool'' else ri_Name p)
               in ansiYellow @ gear @ '' tool: '' @ name @ ansiReset)
         else if ri_Type p = ''function_call_output'' \<or> ri_Type p = ''custom_tool_call_output''
         then ansiGray @ ''  '' @ hook_arrow @ '' (tool result)'' @ ansiReset
         else [])"

definition renderRolloutLine :: "string \<Rightarrow> string" where
  "renderRolloutLine raw =
     (let raw = trim_space raw in
      if raw = [] then []
      else (let (top, ok) = set_struct rollout_fields raw \<lparr>rl_Type = [], rl_Payload = []\<rparr>
            in if \<not> ok then []
               else if rl_Type top = ''event_msg'' then render_event (rl_Payload top)
               else if rl_Type top = ''response_item'' then render_item (rl_Payload top)
               else []))"

subsection \<open>Gemini sessions\<close>

record chat_top =
  ct_Type :: string
  ct_Content :: string

definition chat_fields :: "(string \<times> chat_top setter) list" where
  "chat_fields =
     [(''type'', string_field ct_Type (\<lambda>v r. r\<lparr>ct_Type := v\<rparr>)),
      (''content'', raw_field (\<lambda>v r. r\<lparr>ct_Content := v\<rparr>))]"

text \<open>A part of a user message is a structure with one field, here the field itself.\<close>

definition part_fields :: "(string \<times> string setter) list" where
  "part_fields = [(''text'', string_field (\<lambda>r. r) (\<lambda>v r. v))]"

definition renderSessionLine :: "string \<Rightarrow> string" where
  "renderSessionLine raw =
     (let raw = trim_space raw in
      if raw = [] then []
      else
        (let (top, ok) = set_struct chat_fields raw \<lparr>ct_Type = [], ct_Content = []\<rparr>
         in if \<not> ok then []
            else if ct_Type top = ''user''
            then (let (parts, ok) = set_slice (set_struct part_fields) [] (ct_Content top)
                  in if \<not> ok then []
                     else (let msg = compact (concat parts) 2000
                           in if has_prefix msg ''<session_context>'' then []
                              else ansiGreen @ triangle @ '' user: '' @ ansiReset @ msg))
            else if ct_Type top = ''gemini''
            then (let (text, ok) = set_string (ct_Content top) []
                  in if \<not> ok then [] else ansiCyan @ bullet @ '' gemini: '' @ ansiReset @ compact text 2000)
            else []))"

subsection \<open>What compact leaves\<close>

lemma set_join: "c \<in> set (join sep ls) \<Longrightarrow> c \<in> set sep \<or> (\<exists>l \<in> set ls. c \<in> set l)"
  by (induction sep ls rule: join.induct) auto

lemma joined_fields_space: "c \<in> set (join '' '' (string_fields s)) \<Longrightarrow> is_space c \<Longrightarrow> c = CHR '' ''"
  using set_join [of c "'' ''" "string_fields s"] fields_words [of _ s] by auto

lemma replacement_space: "c \<in> set replacement \<Longrightarrow> \<not> is_space c"
  by (auto simp: replacement_def is_space_def)

lemma ellipsis_space: "c \<in> set ellipsis \<Longrightarrow> \<not> is_space c"
  by (auto simp: ellipsis_def is_space_def)

lemma compact_space:
  assumes "c \<in> set (compact s n)" "is_space c"
  shows "c = CHR '' ''"
proof (cases "n < length (runes (join '' '' (string_fields s)))")
  case True
  then have "c \<in> set (concat (take n (runes (join '' '' (string_fields s)))))"
    using assms ellipsis_space by (auto simp: compact_def Let_def)
  then obtain r where "r \<in> set (runes (join '' '' (string_fields s)))" "c \<in> set r"
    by (auto dest: in_set_takeD)
  then show ?thesis using runes_bytes replacement_space joined_fields_space assms(2) by blast
next
  case False
  then show ?thesis using assms joined_fields_space by (simp add: compact_def Let_def)
qed

lemma compact_one_line [simp]: "newline \<notin> set (compact s n)"
  using compact_space [of newline s n] by (auto simp: is_space_def)

lemma compact_runes: "length (runes (compact s n)) \<le> Suc n"
proof (cases "n < length (runes (join '' '' (string_fields s)))")
  case True
  let ?r = "take n (runes (join '' '' (string_fields s)))"
  have "whole_rune ellipsis" by code_simp
  then have "\<forall>r \<in> set (?r @ [ellipsis]). whole_rune r"
    using runes_whole [of _ "join '' '' (string_fields s)"] by (auto dest: in_set_takeD)
  then have "runes (concat (?r @ [ellipsis])) = ?r @ [ellipsis]" by (rule runes_concat)
  then show ?thesis using True by (simp add: compact_def Let_def)
next
  case False
  then show ?thesis by (simp add: compact_def Let_def)
qed

lemma compact_bytes: "length (compact s n) \<le> 4 * Suc n"
  using length_le_runes [of "compact s n"] compact_runes [of s n] by (meson le_trans mult_le_mono2)

text \<open>A short line of words is left as it is.\<close>

lemma fields_join_words:
  assumes "is_space b" "\<forall>w \<in> set ws. w \<noteq> [] \<and> (\<forall>c \<in> set w. \<not> is_space c)"
  shows "string_fields (join [b] ws) = ws"
  using assms(2)
proof (induction "[b]" ws rule: join.induct)
  case (3 x y ys)
  then show ?case using assms(1) fields_append [of x b "join [b] (y # ys)"] by simp
qed (simp_all add: string_fields_def split_space_word)

lemma compact_fixed: "length (runes (join '' '' (string_fields s))) \<le> n \<Longrightarrow> compact (compact s n) n = compact s n"
  using fields_join_words [of "CHR '' ''" "string_fields s"] fields_words [of _ s]
  by (simp add: compact_def Let_def is_space_def)

subsection \<open>The lines shown\<close>

text \<open>
  A line of Gemini or a message of Codex fits on one terminal line, is at most 2001 characters of
  text behind a short prefix, and blank or malformed input is skipped.
\<close>

lemma ansi_plain: "newline \<notin> set (ansi code) \<longleftrightarrow> newline \<notin> set code"
  by (simp add: ansi_def)

lemma glyphs_plain: "newline \<notin> set triangle" "newline \<notin> set bullet" "newline \<notin> set gear" "newline \<notin> set hook_arrow"
  by (simp_all add: triangle_def bullet_def gear_def hook_arrow_def)

lemma if_pred: "P x \<Longrightarrow> P y \<Longrightarrow> P (if c then x else y)"
  by simp

lemma session_line_pred:
  assumes "P []" "\<And>s. P (ansiGreen @ triangle @ '' user: '' @ ansiReset @ compact s 2000)"
    "\<And>s. P (ansiCyan @ bullet @ '' gemini: '' @ ansiReset @ compact s 2000)"
  shows "P (renderSessionLine raw)"
  unfolding renderSessionLine_def split_beta Let_def by (intro if_pred [where P = P] assms)

lemma compact_2000: "length (compact s 2000) \<le> 8004"
  using compact_bytes [of s 2000] by simp

theorem gemini_line_bounded:
  "newline \<notin> set (renderSessionLine raw) \<and> length (renderSessionLine raw) \<le> 8100"
proof (rule session_line_pred)
  fix s
  show "newline \<notin> set (ansiGreen @ triangle @ '' user: '' @ ansiReset @ compact s 2000)
      \<and> length (ansiGreen @ triangle @ '' user: '' @ ansiReset @ compact s 2000) \<le> 8100"
    using compact_2000 [of s] by (simp add: ansi_plain glyphs_plain, simp add: ansi_def triangle_def)
  show "newline \<notin> set (ansiCyan @ bullet @ '' gemini: '' @ ansiReset @ compact s 2000)
      \<and> length (ansiCyan @ bullet @ '' gemini: '' @ ansiReset @ compact s 2000) \<le> 8100"
    using compact_2000 [of s] by (simp add: ansi_plain glyphs_plain, simp add: ansi_def bullet_def)
qed simp

text \<open>
  What was said is shown: the line a tool writes for a message of the user or of the model comes out as that message
  behind the name of its speaker, shortened to 2000 characters. The line is the text of a JSON object; the message may
  hold any UTF-8, quotes and line breaks included.
\<close>

lemma trim_object: "trim_space (print_json (VObj kvs)) = print_json (VObj kvs)"
  by (simp add: trim_space_def is_space_def)

lemma object_text: "print_json (VObj kvs) \<noteq> []"
  by simp

lemma VStr_level: "valid_utf8 s \<Longrightarrow> go_json (print_json (VStr s)) = Some (JString s)"
  by (subst go_json_print) (simp_all add: maxNestingDepth_def)

lemma VObj_level:
  "wf_json (VObj kvs) \<Longrightarrow> json_depth (VObj kvs) \<le> 100 \<Longrightarrow>
     go_json (print_json (VObj kvs)) = Some (JObject (map (\<lambda>(k, v). (k, print_json v)) kvs))"
  by (subst go_json_print) (simp_all add: maxNestingDepth_def)

lemma field_names:
  "to_lower ''type'' = ''type''" "to_lower ''message'' = ''message''" "to_lower ''role'' = ''role''"
  "to_lower ''content'' = ''content''" "to_lower ''payload'' = ''payload''" "to_lower ''text'' = ''text''"
  by code_simp+

lemma utf8_literals:
  "valid_utf8 ''type''" "valid_utf8 ''message''" "valid_utf8 ''role''" "valid_utf8 ''content''" "valid_utf8 ''payload''"
  "valid_utf8 ''text''" "valid_utf8 ''user''" "valid_utf8 ''assistant''" "valid_utf8 ''gemini''" "valid_utf8 ''event_msg''"
  "valid_utf8 ''agent_message''" "valid_utf8 ''user_message''"
  by (simp_all add: valid_utf8_ascii)

lemmas levels = Let_def object_text VStr_level VObj_level set_struct_def set_string_def string_field_def raw_field_def set_member_def
  field_names utf8_literals

lemma claude_message_shown:
  assumes "speaker = ''user'' \<or> speaker = ''assistant''" "valid_utf8 said"
  shows "renderTranscriptLine (print_json (VObj [(''type'', VStr speaker),
       (''message'', VObj [(''role'', VStr speaker), (''content'', VStr said)])])) = chatLine speaker said"
proof -
  have "valid_utf8 speaker" "speaker \<noteq> []" using assms(1) utf8_literals by auto
  then show ?thesis using assms
    by (simp add: renderTranscriptLine_def renderChat_def trim_object levels transcript_fields_def inner_fields_def
        del: print_json.simps)
qed

lemma codex_message_shown:
  assumes "valid_utf8 said"
  shows "renderRolloutLine (print_json (VObj [(''type'', VStr ''event_msg''),
       (''payload'', VObj [(''type'', VStr ''agent_message''), (''message'', VStr said)])])) =
     ansiCyan @ bullet @ '' codex: '' @ ansiReset @ compact said 2000"
  using assms
  by (simp add: renderRolloutLine_def render_event_def trim_object levels rollout_fields_def rollout_event_fields_def
      del: print_json.simps)

lemma gemini_message_shown:
  assumes "valid_utf8 said"
  shows "renderSessionLine (print_json (VObj [(''type'', VStr ''gemini''), (''content'', VStr said)])) =
     ansiCyan @ bullet @ '' gemini: '' @ ansiReset @ compact said 2000"
  using assms
  by (simp add: renderSessionLine_def trim_object levels chat_fields_def del: print_json.simps)

end
