(* ===== verification/Provider_Files.thy ===== *)
theory Provider_Files
  imports Go_Path Log_Tail Log_Render Protocol
begin

section \<open>The files of the tools\<close>

text \<open>
  How the providers find the log of a session and what they read from it: \<open>transcriptFile\<close> and
  \<open>encodeCWD\<close> of \<open>provider/claude/transcript.go\<close>, \<open>provider/claude/tokens.go\<close>,
  \<open>provider/codex/rollout.go\<close>, \<open>provider/codex/tokens.go\<close>, \<open>provider/gemini/session.go\<close> and
  \<open>provider/gemini/tokens.go\<close>. The file system, the environment and SHA-256 are parameters, collected
  in a record; a modification time is in nanoseconds since Go's zero time.
\<close>

record dir_entry =
  de_Name :: string
  de_IsDir :: bool
  de_ModTime :: "int option"

record walk_entry =
  we_Path :: string
  we_Failed :: bool
  we_IsDir :: bool
  we_Name :: string
  we_ModTime :: int

record host =
  h_Getenv :: "string \<Rightarrow> string"
  h_HomeDir :: "string option"
  h_ReadDir :: "string \<Rightarrow> dir_entry list option"
  h_Walk :: "string \<Rightarrow> walk_entry list"
  h_Open :: "string \<Rightarrow> string option"
  h_Sha256 :: "string \<Rightarrow> string"

subsection \<open>Claude: the transcript of a directory\<close>

definition claudeProjectsDir :: "host \<Rightarrow> string" where
  "claudeProjectsDir h =
     (let d = h_Getenv h ''MC_CLAUDE_DIR'' in
      if d \<noteq> [] then path_Join [d, ''projects'']
      else case h_HomeDir h of None \<Rightarrow> [] | Some home \<Rightarrow> path_Join [home, ''.claude'', ''projects''])"

definition encodeCWD :: "string \<Rightarrow> string" where
  "encodeCWD cwd = map (\<lambda>c. if c = CHR ''/'' \<or> c = CHR ''.'' then CHR ''-'' else c) cwd"

definition newest_step :: "string \<Rightarrow> string \<times> int \<Rightarrow> dir_entry \<Rightarrow> string \<times> int" where
  "newest_step dir = (\<lambda>(newest, newestMod) e.
     if de_IsDir e \<or> \<not> has_suffix (de_Name e) ''.jsonl'' then (newest, newestMod)
     else case de_ModTime e of None \<Rightarrow> (newest, newestMod)
       | Some t \<Rightarrow> if newestMod < t then (path_Join [dir, de_Name e], t) else (newest, newestMod))"

definition transcriptFile :: "host \<Rightarrow> string \<Rightarrow> string option" where
  "transcriptFile h cwd =
     (let base = claudeProjectsDir h in
      if base = [] \<or> cwd = [] then None
      else
        (let dir = path_Join [base, encodeCWD cwd] in
         case h_ReadDir h dir of None \<Rightarrow> None
         | Some entries \<Rightarrow>
             (let (newest, _) = foldl (newest_step dir) ([], 0) entries
              in if newest = [] then None else Some newest)))"

subsection \<open>Codex: rollouts\<close>

definition codexSessionsDir :: "host \<Rightarrow> string" where
  "codexSessionsDir h =
     (let d = h_Getenv h ''CODEX_HOME'' in
      if d \<noteq> [] then path_Join [d, ''sessions'']
      else case h_HomeDir h of None \<Rightarrow> [] | Some home \<Rightarrow> path_Join [home, ''.codex'', ''sessions''])"

record session_meta =
  sm_Type :: string
  sm_CWD :: string
  sm_CLIVersion :: string
  sm_SessionID :: string

text \<open>The members of a nested structure are stored in the same record.\<close>

definition meta_fields :: "(string \<times> session_meta setter) list" where
  "meta_fields =
     [(''type'', string_field sm_Type (\<lambda>v r. r\<lparr>sm_Type := v\<rparr>)),
      (''payload'', set_struct
         [(''session_id'', string_field sm_SessionID (\<lambda>v r. r\<lparr>sm_SessionID := v\<rparr>)),
          (''cwd'', string_field sm_CWD (\<lambda>v r. r\<lparr>sm_CWD := v\<rparr>)),
          (''cli_version'', string_field sm_CLIVersion (\<lambda>v r. r\<lparr>sm_CLIVersion := v\<rparr>)),
          (''git'', raw_field (\<lambda>v r. r))])]"

definition first_line_cap :: nat where
  "first_line_cap = 4 * 1024 * 1024"

definition readSessionMeta :: "host \<Rightarrow> string \<Rightarrow> session_meta option" where
  "readSessionMeta h path =
     (case h_Open h path of None \<Rightarrow> None
      | Some bytes \<Rightarrow>
          (case scan_lines first_line_cap bytes of [] \<Rightarrow> None
           | l # _ \<Rightarrow>
               (let (m, ok) = set_struct meta_fields l
                      \<lparr>sm_Type = [], sm_CWD = [], sm_CLIVersion = [], sm_SessionID = []\<rparr>
                in if \<not> ok \<or> sm_Type m \<noteq> ''session_meta'' then None else Some m)))"

text \<open>
  \<open>sort.Slice\<close> is not stable: \<open>\<pi>\<close> is an order of the visited files, and a stable sort of it
  covers every outcome.
\<close>

definition newest_first :: "(walk_entry list \<Rightarrow> walk_entry list) \<Rightarrow> walk_entry list \<Rightarrow> string list" where
  "newest_first \<pi> es = map we_Path (sort_key (\<lambda>e. - we_ModTime e) (\<pi> es))"

definition is_rollout :: "walk_entry \<Rightarrow> bool" where
  "is_rollout e \<longleftrightarrow> \<not> we_Failed e \<and> \<not> we_IsDir e
     \<and> has_prefix (we_Name e) ''rollout-'' \<and> has_suffix (we_Name e) ''.jsonl''"

definition listRollouts :: "(walk_entry list \<Rightarrow> walk_entry list) \<Rightarrow> host \<Rightarrow> string list" where
  "listRollouts \<pi> h =
     (let base = codexSessionsDir h
      in if base = [] then [] else newest_first \<pi> (filter is_rollout (h_Walk h base)))"

definition rollout_of :: "host \<Rightarrow> string \<Rightarrow> string \<Rightarrow> bool" where
  "rollout_of h cwd path = (case readSessionMeta h path of None \<Rightarrow> False | Some m \<Rightarrow> sm_CWD m = cwd)"

definition newestRolloutForCWD :: "(walk_entry list \<Rightarrow> walk_entry list) \<Rightarrow> host \<Rightarrow> string \<Rightarrow> string option" where
  "newestRolloutForCWD \<pi> h cwd = (if cwd = [] then None else find (rollout_of h cwd) (listRollouts \<pi> h))"

subsection \<open>Gemini: chat sessions\<close>

definition geminiTmpDir :: "host \<Rightarrow> string" where
  "geminiTmpDir h =
     (let d = h_Getenv h ''GEMINI_HOME'' in
      if d \<noteq> [] then path_Join [d, ''tmp'']
      else case h_HomeDir h of None \<Rightarrow> [] | Some home \<Rightarrow> path_Join [home, ''.gemini'', ''tmp''])"

definition hex_digit :: "nat \<Rightarrow> char" where
  "hex_digit n = (''0123456789abcdef'') ! n"

definition hex_EncodeToString :: "string \<Rightarrow> string" where
  "hex_EncodeToString s =
     concat (map (\<lambda>c. [hex_digit (of_char c div 16), hex_digit (of_char c mod 16)]) s)"

definition projectHash :: "host \<Rightarrow> string \<Rightarrow> string" where
  "projectHash h cwd = hex_EncodeToString (h_Sha256 h cwd)"

record session_header =
  sh_SessionID :: string
  sh_ProjectHash :: string

definition header_fields :: "(string \<times> session_header setter) list" where
  "header_fields =
     [(''sessionId'', string_field sh_SessionID (\<lambda>v r. r\<lparr>sh_SessionID := v\<rparr>)),
      (''projectHash'', string_field sh_ProjectHash (\<lambda>v r. r\<lparr>sh_ProjectHash := v\<rparr>))]"

definition readSessionHeader :: "host \<Rightarrow> string \<Rightarrow> session_header option" where
  "readSessionHeader h path =
     (case h_Open h path of None \<Rightarrow> None
      | Some bytes \<Rightarrow>
          (case scan_lines first_line_cap bytes of [] \<Rightarrow> None
           | l # _ \<Rightarrow>
               (let (r, ok) = set_struct header_fields l
                      \<lparr>sh_SessionID = [], sh_ProjectHash = []\<rparr>
                in if \<not> ok \<or> sh_ProjectHash r = [] then None else Some r)))"

definition is_chat_file :: "walk_entry \<Rightarrow> bool" where
  "is_chat_file e \<longleftrightarrow> \<not> we_Failed e \<and> \<not> we_IsDir e
     \<and> has_prefix (we_Name e) ''session-'' \<and> has_suffix (we_Name e) ''.jsonl''
     \<and> filepath_Base (path_Dir (we_Path e)) = ''chats''"

definition listSessions :: "(walk_entry list \<Rightarrow> walk_entry list) \<Rightarrow> host \<Rightarrow> string list" where
  "listSessions \<pi> h =
     (let base = geminiTmpDir h
      in if base = [] then [] else newest_first \<pi> (filter is_chat_file (h_Walk h base)))"

definition chat_of :: "host \<Rightarrow> string \<Rightarrow> string \<Rightarrow> bool" where
  "chat_of h cwd path =
     (case readSessionHeader h path of None \<Rightarrow> False | Some r \<Rightarrow> sh_ProjectHash r = projectHash h cwd)"

definition newestSessionForCWD :: "(walk_entry list \<Rightarrow> walk_entry list) \<Rightarrow> host \<Rightarrow> string \<Rightarrow> string option" where
  "newestSessionForCWD \<pi> h cwd = (if cwd = [] then None else find (chat_of h cwd) (listSessions \<pi> h))"

subsection \<open>Token usage\<close>

record token_line =
  tl_Input :: int
  tl_Output :: int
  tl_CacheRead :: int
  tl_CacheCreation :: int

definition token_line0 :: token_line where
  "token_line0 = \<lparr>tl_Input = 0, tl_Output = 0, tl_CacheRead = 0, tl_CacheCreation = 0\<rparr>"

definition token_fields :: "(string \<times> token_line setter) list" where
  "token_fields =
     [(''message'', set_struct
         [(''usage'', set_struct
            [(''input_tokens'', int64_field tl_Input (\<lambda>v r. r\<lparr>tl_Input := v\<rparr>)),
             (''output_tokens'', int64_field tl_Output (\<lambda>v r. r\<lparr>tl_Output := v\<rparr>)),
             (''cache_read_input_tokens'', int64_field tl_CacheRead (\<lambda>v r. r\<lparr>tl_CacheRead := v\<rparr>)),
             (''cache_creation_input_tokens'',
                int64_field tl_CacheCreation (\<lambda>v r. r\<lparr>tl_CacheCreation := v\<rparr>))])])]"

definition claude_token_step :: "token_usage \<times> bool \<Rightarrow> string \<Rightarrow> token_usage \<times> bool" where
  "claude_token_step = (\<lambda>(u, seen) line.
     let (us, ok) = set_struct token_fields line token_line0 in
     if \<not> ok then (u, seen)
     else if tl_Input us = 0 \<and> tl_Output us = 0 \<and> tl_CacheRead us = 0 \<and> tl_CacheCreation us = 0 then (u, seen)
     else (u\<lparr>tu_Input := int64 (tu_Input u + tl_Input us), tu_Output := int64 (tu_Output u + tl_Output us),
             tu_CacheRead := int64 (tu_CacheRead u + tl_CacheRead us),
             tu_CacheCreation := int64 (tu_CacheCreation u + tl_CacheCreation us)\<rparr>, True))"

definition token_usage0 :: token_usage where
  "token_usage0 = \<lparr>tu_Input = 0, tu_Output = 0, tu_CacheRead = 0, tu_CacheCreation = 0, tu_Total = 0\<rparr>"

definition tokenUsageForCWD :: "host \<Rightarrow> string \<Rightarrow> token_usage option" where
  "tokenUsageForCWD h cwd =
     (case transcriptFile h cwd of None \<Rightarrow> None
      | Some path \<Rightarrow>
          (case h_Open h path of None \<Rightarrow> None
           | Some bytes \<Rightarrow>
               (let (u, seen) = foldl claude_token_step (token_usage0, False) (scan_lines scan_cap bytes)
                in if \<not> seen then None
                   else Some (u\<lparr>tu_Total := int64 (tu_Input u + tu_Output u + tu_CacheRead u + tu_CacheCreation u)\<rparr>))))"

record token_count =
  tc_Type :: string
  tc_PayloadType :: string
  tc_Input :: int
  tc_Cached :: int
  tc_Output :: int
  tc_Reasoning :: int
  tc_Total :: int

definition token_count0 :: token_count where
  "token_count0 = \<lparr>tc_Type = [], tc_PayloadType = [], tc_Input = 0, tc_Cached = 0, tc_Output = 0,
     tc_Reasoning = 0, tc_Total = 0\<rparr>"

definition token_count_fields :: "(string \<times> token_count setter) list" where
  "token_count_fields =
     [(''type'', string_field tc_Type (\<lambda>v r. r\<lparr>tc_Type := v\<rparr>)),
      (''payload'', set_struct
         [(''type'', string_field tc_PayloadType (\<lambda>v r. r\<lparr>tc_PayloadType := v\<rparr>)),
          (''info'', set_struct
             [(''total_token_usage'', set_struct
                [(''input_tokens'', int64_field tc_Input (\<lambda>v r. r\<lparr>tc_Input := v\<rparr>)),
                 (''cached_input_tokens'', int64_field tc_Cached (\<lambda>v r. r\<lparr>tc_Cached := v\<rparr>)),
                 (''output_tokens'', int64_field tc_Output (\<lambda>v r. r\<lparr>tc_Output := v\<rparr>)),
                 (''reasoning_output_tokens'', int64_field tc_Reasoning (\<lambda>v r. r\<lparr>tc_Reasoning := v\<rparr>)),
                 (''total_tokens'', int64_field tc_Total (\<lambda>v r. r\<lparr>tc_Total := v\<rparr>))])])])]"

definition codex_count :: "string \<Rightarrow> token_count option" where
  "codex_count line =
     (let (tc, ok) = set_struct token_count_fields line token_count0
      in if ok \<and> tc_Type tc = ''event_msg'' \<and> tc_PayloadType tc = ''token_count'' then Some tc else None)"

text \<open>The loop from the last line upwards, over the reversed lines.\<close>

fun first_some :: "('a \<Rightarrow> 'b option) \<Rightarrow> 'a list \<Rightarrow> 'b option" where
  "first_some f [] = None"
| "first_some f (x # xs) = (case f x of None \<Rightarrow> first_some f xs | Some y \<Rightarrow> Some y)"

definition tokenUsageFromRollout :: "host \<Rightarrow> string \<Rightarrow> token_usage option" where
  "tokenUsageFromRollout h path =
     (case first_some codex_count (rev (tailLines (h_Open h path) 1000000)) of None \<Rightarrow> None
      | Some u \<Rightarrow> Some \<lparr>tu_Input = tc_Input u, tu_Output = int64 (tc_Output u + tc_Reasoning u),
                    tu_CacheRead = tc_Cached u, tu_CacheCreation = 0, tu_Total = tc_Total u\<rparr>)"

record gemini_count =
  gc_Type :: string
  gc_Input :: int
  gc_Output :: int
  gc_Cached :: int
  gc_Thoughts :: int
  gc_Tool :: int
  gc_Total :: int

definition gemini_count0 :: gemini_count where
  "gemini_count0 = \<lparr>gc_Type = [], gc_Input = 0, gc_Output = 0, gc_Cached = 0, gc_Thoughts = 0, gc_Tool = 0,
     gc_Total = 0\<rparr>"

definition gemini_count_fields :: "(string \<times> gemini_count setter) list" where
  "gemini_count_fields =
     [(''type'', string_field gc_Type (\<lambda>v r. r\<lparr>gc_Type := v\<rparr>)),
      (''tokens'', set_struct
         [(''input'', int64_field gc_Input (\<lambda>v r. r\<lparr>gc_Input := v\<rparr>)),
          (''output'', int64_field gc_Output (\<lambda>v r. r\<lparr>gc_Output := v\<rparr>)),
          (''cached'', int64_field gc_Cached (\<lambda>v r. r\<lparr>gc_Cached := v\<rparr>)),
          (''thoughts'', int64_field gc_Thoughts (\<lambda>v r. r\<lparr>gc_Thoughts := v\<rparr>)),
          (''tool'', int64_field gc_Tool (\<lambda>v r. r\<lparr>gc_Tool := v\<rparr>)),
          (''total'', int64_field gc_Total (\<lambda>v r. r\<lparr>gc_Total := v\<rparr>))])]"

definition gemini_line_count :: "string \<Rightarrow> gemini_count option" where
  "gemini_line_count line =
     (let (tc, ok) = set_struct gemini_count_fields line gemini_count0
      in if \<not> ok \<or> gc_Type tc \<noteq> ''gemini'' \<or> gc_Total tc = 0 then None else Some tc)"

definition tokenUsageFromSession :: "host \<Rightarrow> string \<Rightarrow> token_usage option" where
  "tokenUsageFromSession h path =
     (case first_some gemini_line_count (rev (gemini_tailLines (h_Open h path) 1000000)) of None \<Rightarrow> None
      | Some u \<Rightarrow> Some \<lparr>tu_Input = gc_Input u, tu_Output = int64 (gc_Output u + gc_Thoughts u),
                    tu_CacheRead = gc_Cached u, tu_CacheCreation = 0, tu_Total = gc_Total u\<rparr>)"

subsection \<open>The newest file is chosen\<close>

lemma find_sorted_max:
  fixes key :: "'a \<Rightarrow> int"
  assumes "find (\<lambda>p. P p) (map f (sort_key (\<lambda>e. - key e) es)) = Some p"
  shows "\<exists>e \<in> set es. f e = p \<and> P p \<and> (\<forall>e' \<in> set es. P (f e') \<longrightarrow> key e' \<le> key e)"
proof -
  let ?ss = "sort_key (\<lambda>e. - key e) es"
  obtain i where i: "i < length ?ss" "P (f (?ss ! i))" "p = f (?ss ! i)" "\<forall>j < i. \<not> P (f (?ss ! j))"
    using assms by (auto simp: find_Some_iff)
  have sorted: "sorted_wrt (\<lambda>a b. key b \<le> key a) ?ss"
  proof -
    have "sorted (map (\<lambda>e. - key e) ?ss)" by (rule sorted_sort_key)
    then show ?thesis by (simp add: sorted_map)
  qed
  have "key e' \<le> key (?ss ! i)" if e': "e' \<in> set es" "P (f e')" for e'
  proof -
    obtain j where j: "j < length ?ss" "?ss ! j = e'" using e'(1) by (metis in_set_conv_nth set_sort)
    then have "\<not> j < i" using i(4) e'(2) by auto
    then have "i = j \<or> i < j" by linarith
    moreover have "key (?ss ! j) \<le> key (?ss ! i)" if "i < j"
      by (rule sorted_wrt_nth_less [OF sorted that j(1)])
    ultimately show ?thesis unfolding j(2) [symmetric] by blast
  qed
  moreover have "?ss ! i \<in> set es" by (metis i(1) nth_mem set_sort)
  ultimately show ?thesis using i(2,3) by blast
qed

lemma newest_first_max:
  assumes "range_order \<pi>" "find P (newest_first \<pi> es) = Some p"
  shows "\<exists>e \<in> set es. we_Path e = p \<and> P p \<and> (\<forall>e' \<in> set es. P (we_Path e') \<longrightarrow> we_ModTime e' \<le> we_ModTime e)"
  using find_sorted_max [of P we_Path we_ModTime "\<pi> es" p] assms by (simp add: newest_first_def)

text \<open>
  The rollout Codex sessions of a directory are attributed to, and the chat file of Gemini, is one whose
  first line names the directory, and no other such file was modified later, in whatever order files
  of the same time are sorted.
\<close>

theorem newest_session_file:
  assumes "range_order \<pi>"
  shows "(newestRolloutForCWD \<pi> h cwd = Some p \<longrightarrow>
      (\<exists>e \<in> set (h_Walk h (codexSessionsDir h)). is_rollout e \<and> we_Path e = p \<and> rollout_of h cwd p
         \<and> (\<forall>e' \<in> set (h_Walk h (codexSessionsDir h)). is_rollout e' \<and> rollout_of h cwd (we_Path e') \<longrightarrow>
              we_ModTime e' \<le> we_ModTime e)))
    \<and> (newestSessionForCWD \<pi> h cwd = Some p \<longrightarrow>
      (\<exists>e \<in> set (h_Walk h (geminiTmpDir h)). is_chat_file e \<and> we_Path e = p \<and> chat_of h cwd p
         \<and> (\<forall>e' \<in> set (h_Walk h (geminiTmpDir h)). is_chat_file e' \<and> chat_of h cwd (we_Path e') \<longrightarrow>
              we_ModTime e' \<le> we_ModTime e)))"
proof (intro conjI impI)
  assume "newestRolloutForCWD \<pi> h cwd = Some p"
  then have "find (rollout_of h cwd) (newest_first \<pi> (filter is_rollout (h_Walk h (codexSessionsDir h)))) = Some p"
    by (simp add: newestRolloutForCWD_def listRollouts_def Let_def split: if_splits)
  from newest_first_max [OF assms this]
  show "\<exists>e \<in> set (h_Walk h (codexSessionsDir h)). is_rollout e \<and> we_Path e = p \<and> rollout_of h cwd p
         \<and> (\<forall>e' \<in> set (h_Walk h (codexSessionsDir h)). is_rollout e' \<and> rollout_of h cwd (we_Path e') \<longrightarrow>
              we_ModTime e' \<le> we_ModTime e)" by auto
next
  assume "newestSessionForCWD \<pi> h cwd = Some p"
  then have "find (chat_of h cwd) (newest_first \<pi> (filter is_chat_file (h_Walk h (geminiTmpDir h)))) = Some p"
    by (simp add: newestSessionForCWD_def listSessions_def Let_def split: if_splits)
  from newest_first_max [OF assms this]
  show "\<exists>e \<in> set (h_Walk h (geminiTmpDir h)). is_chat_file e \<and> we_Path e = p \<and> chat_of h cwd p
         \<and> (\<forall>e' \<in> set (h_Walk h (geminiTmpDir h)). is_chat_file e' \<and> chat_of h cwd (we_Path e') \<longrightarrow>
              we_ModTime e' \<le> we_ModTime e)" by auto
qed

text \<open>A file is found whenever there is one.\<close>

lemma newest_session_exists:
  assumes "range_order \<pi>" "cwd \<noteq> []"
  shows "codexSessionsDir h \<noteq> [] \<and> (\<exists>e \<in> set (h_Walk h (codexSessionsDir h)). is_rollout e \<and> rollout_of h cwd (we_Path e))
     \<longleftrightarrow> newestRolloutForCWD \<pi> h cwd \<noteq> None"
  using assms by (auto simp: newestRolloutForCWD_def listRollouts_def newest_first_def Let_def find_None_iff)

subsection \<open>The transcript of a directory\<close>

definition transcript_time :: "dir_entry \<Rightarrow> int option" where
  "transcript_time e = (if de_IsDir e \<or> \<not> has_suffix (de_Name e) ''.jsonl'' then None else de_ModTime e)"

lemma newest_step_eq:
  "newest_step dir (p, t) e =
     (case transcript_time e of None \<Rightarrow> (p, t) | Some u \<Rightarrow> if t < u then (path_Join [dir, de_Name e], u) else (p, t))"
  by (simp add: newest_step_def transcript_time_def)

lemma newest_fold:
  "foldl (newest_step dir) (p, t) es = (q, u) \<Longrightarrow>
     t \<le> u \<and> (\<forall>e \<in> set es. \<forall>v. transcript_time e = Some v \<longrightarrow> v \<le> u)
     \<and> ((q, u) = (p, t) \<or> (\<exists>e \<in> set es. transcript_time e = Some u \<and> q = path_Join [dir, de_Name e]))"
proof (induction es arbitrary: p t)
  case (Cons e es)
  obtain p' t' where s: "newest_step dir (p, t) e = (p', t')" by fastforce
  then have *: "t \<le> t' \<and> (\<forall>v. transcript_time e = Some v \<longrightarrow> v \<le> t')
      \<and> ((p', t') = (p, t) \<or> transcript_time e = Some t' \<and> p' = path_Join [dir, de_Name e])"
    by (auto simp: newest_step_eq split: option.splits if_splits)
  have IH: "t' \<le> u \<and> (\<forall>e \<in> set es. \<forall>v. transcript_time e = Some v \<longrightarrow> v \<le> u)
     \<and> ((q, u) = (p', t') \<or> (\<exists>e \<in> set es. transcript_time e = Some u \<and> q = path_Join [dir, de_Name e]))"
    using Cons.IH [of p' t'] Cons.prems s by simp
  show ?case using * IH by (auto intro: order_trans)
qed simp

text \<open>
  The directory names of Claude have no separator and no dot, so a transcript never lies elsewhere.\<close>

lemma encodeCWD_chars: "c \<in> set (encodeCWD cwd) \<Longrightarrow> c \<noteq> CHR ''/'' \<and> c \<noteq> CHR ''.''"
  by (auto simp: encodeCWD_def)

lemma encodeCWD_empty [simp]: "encodeCWD cwd = [] \<longleftrightarrow> cwd = []"
  by (simp add: encodeCWD_def)

subsection \<open>The transcript lies under the directory of Claude\<close>

lemma encodeCWD_plain: "cwd \<noteq> [] \<Longrightarrow> plain_name (encodeCWD cwd)"
  using encodeCWD_chars [of "CHR ''/''" cwd] encodeCWD_chars [of "CHR ''.''" cwd] encodeCWD_empty [of cwd]
  by (auto simp: plain_name_def simp del: encodeCWD_empty)

lemma claudeProjectsDir_clean:
  assumes "claudeProjectsDir h \<noteq> []"
  shows "\<exists>rooted ws. claudeProjectsDir h = path_of rooted ws \<and> clean_names rooted ws \<and> ws \<noteq> []"
proof -
  have "plain_name ''projects''" by (simp add: plain_name_def)
  note ends = path_Join_ends [OF this]
  obtain ps where "claudeProjectsDir h = path_Join (ps @ [''projects''])"
  proof (cases "h_Getenv h ''MC_CLAUDE_DIR'' = []")
    case False
    then show ?thesis using that [of "[h_Getenv h ''MC_CLAUDE_DIR'']"] by (simp add: claudeProjectsDir_def Let_def)
  next
    case True
    then obtain home where "h_HomeDir h = Some home" using assms by (auto simp: claudeProjectsDir_def split: option.splits)
    then show ?thesis using True that [of "[home, ''.claude'']"] by (simp add: claudeProjectsDir_def Let_def)
  qed
  then show ?thesis using ends [of ps] by (metis snoc_eq_iff_butlast)
qed

text \<open>
  C35. The transcript found for a directory is a file of the folder named after it, directly below the
  projects directory of Claude, whatever the directory is called, and no other transcript there was
  modified later.
\<close>

theorem transcript_newest_and_confined:
  assumes "transcriptFile h cwd = Some p" "\<And>d es. h_ReadDir h d = Some es \<Longrightarrow> list_all (\<lambda>e. plain_name (de_Name e)) es"
  shows "let dir = claudeProjectsDir h @ ''/'' @ encodeCWD cwd in
    \<exists>es t. \<exists>e \<in> set es. h_ReadDir h dir = Some es \<and> p = dir @ ''/'' @ de_Name e
      \<and> transcript_time e = Some t \<and> list_all (\<lambda>e'. case transcript_time e' of None \<Rightarrow> True | Some t' \<Rightarrow> t' \<le> t) es"
proof -
  have b: "claudeProjectsDir h \<noteq> []" "cwd \<noteq> []"
    using assms(1) by (auto simp: transcriptFile_def Let_def split: if_splits)
  obtain rooted ws where base: "claudeProjectsDir h = path_of rooted ws" "clean_names rooted ws" "ws \<noteq> []"
    using claudeProjectsDir_clean [OF b(1)] by blast
  let ?ws = "ws @ [encodeCWD cwd]"
  let ?dir = "claudeProjectsDir h @ ''/'' @ encodeCWD cwd"
  note join = path_Join_plain [OF base(2,3) encodeCWD_plain [OF b(2)], folded base(1)]
  obtain es q t where es: "h_ReadDir h ?dir = Some es" "foldl (newest_step ?dir) ([], 0) es = (q, t)" "p = q" "q \<noteq> []"
    using assms(1) b by (auto simp: transcriptFile_def Let_def join(1) split: option.splits if_splits prod.splits)
  then obtain e where e: "e \<in> set es" "transcript_time e = Some t" "q = path_Join [?dir, de_Name e]"
    using newest_fold [OF es(2)] by blast
  have "plain_name (de_Name e)" using assms(2) [OF es(1)] e(1) by (simp add: list_all_iff)
  then have "path_Join [path_of rooted ?ws, de_Name e] = path_of rooted ?ws @ ''/'' @ de_Name e"
    using path_Join_plain(1) [OF join(3), of "de_Name e"] by simp
  moreover have "path_of rooted ?ws = ?dir" using join(1,2) by simp
  ultimately have p: "p = ?dir @ ''/'' @ de_Name e" using e(3) es(3) by simp
  have "list_all (\<lambda>e'. case transcript_time e' of None \<Rightarrow> True | Some t' \<Rightarrow> t' \<le> t) es"
    using newest_fold [OF es(2)] by (auto simp: list_all_iff split: option.split)
  then show ?thesis unfolding Let_def using es(1) e(1,2) p by blast
qed

definition sample_host :: host where
  "sample_host = \<lparr>h_Getenv = \<lambda>_. [], h_HomeDir = Some ''/root'',
     h_ReadDir = \<lambda>d. Some [\<lparr>de_Name = ''a.jsonl'', de_IsDir = False, de_ModTime = Some 5\<rparr>,
       \<lparr>de_Name = ''b.jsonl'', de_IsDir = False, de_ModTime = Some 9\<rparr>],
     h_Walk = \<lambda>d. [], h_Open = \<lambda>p. None, h_Sha256 = \<lambda>s. s\<rparr>"

lemma sample_transcript:
  "transcriptFile sample_host ''/w/x.y'' = Some ''/root/.claude/projects/-w-x-y/b.jsonl''"
  by code_simp

lemma transcript_newest_and_confined_witness:
  "claudeProjectsDir sample_host @ ''/'' @ encodeCWD ''/w/x.y'' = ''/root/.claude/projects/-w-x-y''
   \<and> (\<exists>e es. h_ReadDir sample_host ''/root/.claude/projects/-w-x-y'' = Some es \<and> e \<in> set es
        \<and> ''/root/.claude/projects/-w-x-y/b.jsonl'' = ''/root/.claude/projects/-w-x-y/'' @ de_Name e)"
proof -
  have d: "claudeProjectsDir sample_host @ ''/'' @ encodeCWD ''/w/x.y'' = ''/root/.claude/projects/-w-x-y''"
    by code_simp
  have plain: "\<And>d es. h_ReadDir sample_host d = Some es \<Longrightarrow> list_all (\<lambda>e. plain_name (de_Name e)) es"
    by (auto simp: sample_host_def plain_name_def)
  have "let dir = claudeProjectsDir sample_host @ ''/'' @ encodeCWD ''/w/x.y'' in
    \<exists>es t. \<exists>e \<in> set es. h_ReadDir sample_host dir = Some es
      \<and> ''/root/.claude/projects/-w-x-y/b.jsonl'' = dir @ ''/'' @ de_Name e \<and> transcript_time e = Some t
      \<and> list_all (\<lambda>e'. case transcript_time e' of None \<Rightarrow> True | Some t' \<Rightarrow> t' \<le> t) es"
    by (rule transcript_newest_and_confined [OF sample_transcript]) (rule plain)
  then show ?thesis using d unfolding Let_def d by auto
qed

subsection \<open>What the token counts are\<close>

lemma int64_add: "int64 (int64 x + y) = int64 (x + y)" "int64 (x + int64 y) = int64 (x + y)"
  by (simp_all add: int64_def algebra_simps mod_simps)

lemma int64_sum4: "int64 (int64 a + int64 b + int64 c + int64 d) = int64 (a + b + c + d)"
proof -
  have mid: "int64 (p + int64 q + r) = int64 (p + q + r)" for p q r
    using int64_add(2) [of "p + r" q] by (simp add: ac_simps)
  have "int64 (int64 a + int64 b + int64 c + int64 d) = int64 (int64 a + int64 b + int64 c + d)"
    by (rule int64_add)
  also have "\<dots> = int64 (int64 a + int64 b + c + d)" by (rule mid)
  also have "\<dots> = int64 (int64 a + b + c + d)" using mid [of "int64 a" b "c + d"] by (simp add: add.assoc)
  also have "\<dots> = int64 (a + b + c + d)" using int64_add(1) [of a "b + c + d"] by (simp add: add.assoc)
  finally show ?thesis .
qed

lemma int64_0 [simp]: "int64 0 = 0"
  by (simp add: int64_def)

definition claude_lines :: "string list \<Rightarrow> token_line list" where
  "claude_lines ls = map fst (filter snd (map (\<lambda>l. set_struct token_fields l token_line0) ls))"

definition token_sums :: "int \<Rightarrow> int \<Rightarrow> int \<Rightarrow> int \<Rightarrow> token_usage" where
  "token_sums a b c d = \<lparr>tu_Input = int64 a, tu_Output = int64 b, tu_CacheRead = int64 c,
     tu_CacheCreation = int64 d, tu_Total = 0\<rparr>"

definition no_tokens :: "token_line \<Rightarrow> bool" where
  "no_tokens us \<longleftrightarrow> tl_Input us = 0 \<and> tl_Output us = 0 \<and> tl_CacheRead us = 0 \<and> tl_CacheCreation us = 0"

lemma claude_step_sums:
  "claude_token_step (token_sums a b c d, seen) l =
     (let (us, ok) = set_struct token_fields l token_line0
      in if ok then (token_sums (a + tl_Input us) (b + tl_Output us) (c + tl_CacheRead us) (d + tl_CacheCreation us),
                     seen \<or> \<not> no_tokens us)
         else (token_sums a b c d, seen))"
proof (cases "set_struct token_fields l token_line0")
  case (Pair us ok)
  show ?thesis
  proof (cases "ok \<and> \<not> no_tokens us")
    case True
    then have ok: "ok" "\<not> (tl_Input us = 0 \<and> tl_Output us = 0 \<and> tl_CacheRead us = 0 \<and> tl_CacheCreation us = 0)"
      by (simp_all add: no_tokens_def)
    show ?thesis
      unfolding claude_token_step_def case_prod_conv Pair Let_def if_not_P [OF ok(2)]
      using ok True by (simp add: token_sums_def int64_add)
  next
    case False
    then show ?thesis unfolding claude_token_step_def case_prod_conv Pair Let_def
      by (auto simp: no_tokens_def)
  qed
qed

lemma claude_fold_sums:
  "foldl claude_token_step (token_sums a b c d, seen) ls =
     (let us = claude_lines ls
      in (token_sums (a + sum_list (map tl_Input us)) (b + sum_list (map tl_Output us))
            (c + sum_list (map tl_CacheRead us)) (d + sum_list (map tl_CacheCreation us)),
          seen \<or> \<not> list_all no_tokens us))"
proof (induction ls arbitrary: a b c d seen)
  case (Cons l ls)
  show ?case
  proof (cases "set_struct token_fields l token_line0")
    case (Pair us ok)
    show ?thesis unfolding foldl_Cons claude_step_sums Pair
      using Cons.IH by (simp add: claude_lines_def Pair Let_def add.assoc disj_ac)
  qed
qed (simp add: claude_lines_def)

text \<open>
  C36. The usage reported for a directory is the sum over the lines of its newest transcript that parse, in
  64-bit arithmetic, and nothing when no line counts a token. Codex and Gemini report the totals of the
  last line that carries them.
\<close>

theorem token_usage_of_logs:
  assumes "transcriptFile h cwd = Some path" "h_Open h path = Some bytes"
  shows "(let us = claude_lines (scan_lines scan_cap bytes);
              a = sum_list (map tl_Input us); b = sum_list (map tl_Output us);
              c = sum_list (map tl_CacheRead us); d = sum_list (map tl_CacheCreation us)
          in tokenUsageForCWD h cwd =
             (if list_all no_tokens us then None
              else Some \<lparr>tu_Input = int64 a, tu_Output = int64 b, tu_CacheRead = int64 c,
                     tu_CacheCreation = int64 d, tu_Total = int64 (a + b + c + d)\<rparr>))"
proof -
  have z: "token_usage0 = token_sums 0 0 0 0" by (simp add: token_usage0_def token_sums_def)
  show ?thesis unfolding tokenUsageForCWD_def z using assms
    by (simp only: option.case claude_fold_sums Let_def case_prod_conv simp_thms)
      (simp add: token_sums_def int64_sum4)
qed

text \<open>A line of a transcript, as the tool writes it, and a transcript with two of them around a broken line.\<close>

definition usage_value :: json_value where
  "usage_value = VObj [(''output_tokens'', VNum ''7''), (''Input_Tokens'', VNum ''3'')]"

definition usage_line :: string where
  "usage_line = print_json (VObj [(''message'', VObj [(''usage'', usage_value)])])"

definition token_host :: host where
  "token_host = sample_host\<lparr>h_Open := \<lambda>_. Some (unlines [usage_line, ''x'', usage_line])\<rparr>"

lemma sample_number: "is_number ''3''" "is_number ''7''"
  by code_simp+

lemma sample_int: "set_int64 ''3'' c = (3, True)" "set_int64 ''7'' c = (7, True)"
  using go_json_print [of "VNum ''3''"] go_json_print [of "VNum ''7''"]
  by (simp_all add: set_int64_def sample_number ParseInt_def)

lemma sample_lower: "to_lower ''message'' = ''message''" "to_lower ''usage'' = ''usage''"
    "to_lower ''input_tokens'' = ''input_tokens''" "to_lower ''output_tokens'' = ''output_tokens''"
    "to_lower ''Input_Tokens'' = ''input_tokens''"
  by code_simp+

lemma sample_keys: "valid_utf8 ''message''" "valid_utf8 ''usage''" "valid_utf8 ''output_tokens''" "valid_utf8 ''Input_Tokens''"
  by (simp_all add: valid_utf8_ascii)

lemma sample_line:
  "set_struct token_fields usage_line token_line0 =
     (\<lparr>tl_Input = 3, tl_Output = 7, tl_CacheRead = 0, tl_CacheCreation = 0\<rparr>, True)"
proof -
  have 1: "go_json usage_line = Some (JObject [(''message'', print_json (VObj [(''usage'', usage_value)]))])"
    unfolding usage_line_def
    by (subst go_json_print) (simp_all add: usage_value_def sample_keys sample_number maxNestingDepth_def)
  have 2: "go_json (print_json (VObj [(''usage'', usage_value)])) = Some (JObject [(''usage'', print_json usage_value)])"
    by (subst go_json_print) (simp_all add: usage_value_def sample_keys sample_number maxNestingDepth_def)
  have 3: "go_json (print_json usage_value) = Some (JObject [(''output_tokens'', ''7''), (''Input_Tokens'', ''3'')])"
    by (subst go_json_print) (simp_all add: usage_value_def sample_keys sample_number maxNestingDepth_def)
  show ?thesis
    by (simp add: set_struct_def 1 2 3 set_member_def token_fields_def int64_field_def sample_int sample_lower token_line0_def
        del: print_json.simps)
qed

lemma broken_line: "set_struct flds ''x'' s = (s, False)"
proof -
  have "scan_number ''x'' = None" by code_simp
  then have "go_json ''x'' = None" unfolding go_json_None
    by (simp add: parse_json_def parse_fuel_def eval_nat_numeral skip_ws_stop is_ws_def)
  then show ?thesis by (simp add: set_struct_def)
qed

lemma usage_line_text: "list_all (\<lambda>c. c \<noteq> CHR 0x0D \<and> c \<noteq> newline) usage_line" "length usage_line = 58"
  by code_simp+

lemma sample_scan: "scan_lines scan_cap (unlines [usage_line, ''x'', usage_line]) = [usage_line, ''x'', usage_line]"
proof -
  let ?ls = "[usage_line, ''x'', usage_line]"
  have n: "newline \<notin> set usage_line" "CHR 0x0D \<notin> set usage_line" using usage_line_text(1) by (auto simp: list_all_iff)
  have "split_complete (unlines ?ls @ []) = (?ls, [])" by (rule split_complete_unlines) (use n in auto)
  then have "split_on newline (unlines ?ls) = ?ls @ [[]]" using split_complete_split_on by simp
  moreover have "CHR 0x0D \<notin> set (unlines ?ls)" using n by simp
  moreover have "length (unlines ?ls) < scan_cap" by (simp add: usage_line_text(2) scan_cap_def)
  ultimately show ?thesis by (simp add: scan_lines_plain)
qed

lemma token_usage_of_logs_witness:
  "tokenUsageForCWD token_host ''/w/x.y'' =
     Some \<lparr>tu_Input = 6, tu_Output = 14, tu_CacheRead = 0, tu_CacheCreation = 0, tu_Total = 20\<rparr>"
proof -
  have t: "transcriptFile token_host ''/w/x.y'' = Some ''/root/.claude/projects/-w-x-y/b.jsonl''" by code_simp
  have o: "h_Open token_host ''/root/.claude/projects/-w-x-y/b.jsonl'' = Some (unlines [usage_line, ''x'', usage_line])"
    by (simp add: token_host_def)
  have c: "claude_lines (scan_lines scan_cap (unlines [usage_line, ''x'', usage_line])) =
      replicate 2 \<lparr>tl_Input = 3, tl_Output = 7, tl_CacheRead = 0, tl_CacheCreation = 0\<rparr>"
    by (simp only: sample_scan) (simp add: claude_lines_def sample_line broken_line numeral_2_eq_2)
  show ?thesis using token_usage_of_logs [OF t o, unfolded c]
    by (simp add: no_tokens_def numeral_2_eq_2 int64_id)
qed

lemma first_some_rev: "first_some f (rev xs) = (let ys = List.map_filter f xs in if ys = [] then None else Some (last ys))"
proof (induction xs rule: rev_induct)
  case (snoc x xs)
  then show ?case by (cases "f x") (simp_all add: List.map_filter_def Let_def)
qed simp

theorem token_counts_are_last:
  "let cs = List.map_filter codex_count (tailLines (h_Open h path) 1000000);
       gs = List.map_filter gemini_line_count (gemini_tailLines (h_Open h path) 1000000)
   in map_option tu_Total (tokenUsageFromRollout h path) = (if cs = [] then None else Some (tc_Total (last cs)))
    \<and> map_option tu_Total (tokenUsageFromSession h path) = (if gs = [] then None else Some (gc_Total (last gs)))"
  by (simp add: tokenUsageFromRollout_def tokenUsageFromSession_def first_some_rev Let_def)

end
