(* ===== verification/Pane_Status.thy ===== *)
theory Pane_Status
  imports Go_Lib Protocol
begin

section \<open>Is a session waiting for approval?\<close>

text \<open>
  Models the \<open>status.go\<close> of the three providers: the approval patterns and \<open>classifyPaneText\<close>. A
  pattern is a regular expression in the fragment the patterns use; \<open>ends\<close> gives the positions where
  a match that starts at a position can end, which is all \<open>MatchString\<close> needs. The patterns are
  case-insensitive: literals are compared with \<open>lower_char\<close>, so the two letters outside ASCII that
  Go folds to \<open>k\<close> and \<open>s\<close> are not matched here. Texts are bytes; the patterns only name whole
  characters, so a match in bytes is a match in runes.
\<close>

subsection \<open>Regular expressions\<close>

datatype re =
    Empty
  | Cls "char \<Rightarrow> bool"
  | Many "char \<Rightarrow> bool"
  | Seq re re
  | Alt re re
  | LineStart
  | WordEdge

definition word_char :: "char \<Rightarrow> bool" where
  "word_char c = (let n = of_char c :: nat in
     (48 \<le> n \<and> n \<le> 57) \<or> (65 \<le> n \<and> n \<le> 90) \<or> (97 \<le> n \<and> n \<le> 122) \<or> n = 95)"

definition word_at :: "string \<Rightarrow> nat \<Rightarrow> bool" where
  "word_at s i \<longleftrightarrow> i < length s \<and> word_char (s ! i)"

fun ends :: "re \<Rightarrow> string \<Rightarrow> nat \<Rightarrow> nat list" where
  "ends Empty s i = [i]"
| "ends (Cls p) s i = (if i < length s \<and> p (s ! i) then [Suc i] else [])"
| "ends (Many p) s i = map (\<lambda>k. i + k) [0..<Suc (length (takeWhile p (drop i s)))]"
| "ends (Seq a b) s i = concat (map (ends b s) (ends a s i))"
| "ends (Alt a b) s i = ends a s i @ ends b s i"
| "ends LineStart s i = (if i = 0 \<or> s ! (i - 1) = newline then [i] else [])"
| "ends WordEdge s i = (if (0 < i \<and> word_at s (i - 1)) \<noteq> word_at s i then [i] else [])"

definition MatchString :: "re \<Rightarrow> string \<Rightarrow> bool" where
  "MatchString r s \<longleftrightarrow> list_ex (\<lambda>i. ends r s i \<noteq> []) [0..<Suc (length s)]"

fun lit :: "string \<Rightarrow> re" where
  "lit [] = Empty"
| "lit (c # cs) = Seq (Cls (\<lambda>x. lower_char x = lower_char c)) (lit cs)"

fun seqs :: "re list \<Rightarrow> re" where
  "seqs [] = Empty"
| "seqs [r] = r"
| "seqs (r # rs) = Seq r (seqs rs)"

fun alts :: "string list \<Rightarrow> re" where
  "alts [] = Empty"
| "alts [w] = lit w"
| "alts (w # ws) = Alt (lit w) (alts ws)"

definition opt :: "re \<Rightarrow> re" where
  "opt r = Alt r Empty"

text \<open>The white space and the digits of the patterns; the white space has no vertical tab.\<close>

definition re_space :: "char \<Rightarrow> bool" where
  "re_space c = (let n = of_char c :: nat in n = 9 \<or> n = 10 \<or> n = 12 \<or> n = 13 \<or> n = 32)"

definition re_digit :: "char \<Rightarrow> bool" where
  "re_digit c = (let n = of_char c :: nat in 48 \<le> n \<and> n \<le> 57)"

abbreviation "sp \<equiv> Many re_space"
abbreviation "sp1 \<equiv> Seq (Cls re_space) (Many re_space)"

text \<open>The cursor of the menus, a heavy angle quotation mark, in UTF-8.\<close>

definition cursor_mark :: string where
  "cursor_mark = [CHR 0xE2, CHR 0x9D, CHR 0xAF]"

definition first_option_yes :: re where
  "first_option_yes = seqs [LineStart, sp, opt (lit cursor_mark), sp, lit ''1.'', sp, lit ''yes'']"

subsection \<open>The patterns\<close>

definition claude_patterns :: "re list" where
  "claude_patterns =
     [lit ''do you want to proceed'',
      Seq (lit ''do you want to '') (alts [''create'', ''make'', ''allow'', ''run'', ''edit'', ''delete'']),
      Seq WordEdge (lit ''would you like to proceed''),
      first_option_yes,
      seqs [WordEdge, lit ''1.'', sp, lit ''yes'', WordEdge, Many (\<lambda>c. c \<noteq> newline), WordEdge, lit ''2.'', sp,
        lit ''no'', WordEdge],
      lit ''(y/n)'',
      seqs [lit ''press'', sp1, lit ''enter'', sp1, lit ''to'', sp1, lit ''continue''],
      Seq (lit ''allow this '') (alts [''tool'', ''command'', ''action'']),
      seqs [LineStart, sp, lit cursor_mark, sp, Cls re_digit, Many re_digit, lit ''.''],
      Seq (lit ''enter to '') (alts [''select'', ''confirm'', ''continue'']),
      Seq (lit ''esc to '') (alts [''cancel'', ''interrupt'', ''exit''])]"

definition codex_patterns :: "re list" where
  "codex_patterns =
     [seqs [lit ''allow '', opt (lit ''this ''), lit ''command''],
      seqs [lit ''approve '', opt (lit ''this ''), alts [''command'', ''patch'', ''edit'', ''action'']],
      Seq (lit ''do you want to '') (alts [''run'', ''apply'', ''proceed'']),
      first_option_yes,
      seqs [WordEdge, lit ''y'', sp, lit ''/'', sp, lit ''n'', WordEdge],
      lit ''(y/n)'',
      lit ''requires approval'']"

definition gemini_patterns :: "re list" where
  "gemini_patterns =
     [seqs [lit ''allow '', opt (lit ''this ''), alts [''command'', ''execution'']],
      seqs [lit ''apply '', opt (lit ''this ''), alts [''change'', ''edit'', ''patch''], lit ''?''],
      Seq (lit ''do you want to '') (alts [''run'', ''apply'', ''proceed'', ''allow'']),
      seqs [lit ''waiting for '', opt (lit ''user ''), lit ''confirmation''],
      first_option_yes,
      seqs [WordEdge, lit ''y'', sp, lit ''/'', sp, lit ''n'', WordEdge],
      lit ''(y/n)'']"

subsection \<open>The prompt area of a pane\<close>

text \<open>The loop from the last line upwards, over the reversed lines.\<close>

fun collect_tail :: "string list \<Rightarrow> string list \<Rightarrow> string list" where
  "collect_tail [] acc = acc"
| "collect_tail (l # ls) acc =
     (if 15 \<le> length acc then acc
      else collect_tail ls (if trim_space l \<noteq> [] then acc @ [l] else acc))"

definition classify_with :: "re list \<Rightarrow> string \<Rightarrow> string" where
  "classify_with patterns pane =
     (let joined = join [newline] (collect_tail (rev (split_on newline pane)) [])
      in if list_ex (\<lambda>re. MatchString re joined) patterns then StatusWaitingApproval else StatusRunning)"

definition claude_classifyPaneText :: "string \<Rightarrow> string" where
  "claude_classifyPaneText = classify_with claude_patterns"

definition codex_classifyPaneText :: "string \<Rightarrow> string" where
  "codex_classifyPaneText = classify_with codex_patterns"

definition gemini_classifyPaneText :: "string \<Rightarrow> string" where
  "gemini_classifyPaneText = classify_with gemini_patterns"

text \<open>\<open>capture\<close> is what \<open>tmux capture-pane\<close> prints for a session, \<open>None\<close> when it fails.\<close>

definition detect_with :: "(string \<Rightarrow> string) \<Rightarrow> (string \<Rightarrow> string option) \<Rightarrow> session \<Rightarrow> string" where
  "detect_with classify capture s =
     (if s_TmuxSession s \<noteq> ''''
      then (case capture (s_TmuxSession s) of Some out \<Rightarrow> classify out | None \<Rightarrow> StatusRunning)
      else StatusRunning)"

definition claude_detectStatus :: "(string \<Rightarrow> string option) \<Rightarrow> session \<Rightarrow> string" where
  "claude_detectStatus = detect_with claude_classifyPaneText"

definition codex_detectStatus :: "(string \<Rightarrow> string option) \<Rightarrow> session \<Rightarrow> string" where
  "codex_detectStatus = detect_with codex_classifyPaneText"

definition gemini_detectStatus :: "(string \<Rightarrow> string option) \<Rightarrow> session \<Rightarrow> string" where
  "gemini_detectStatus = detect_with gemini_classifyPaneText"

subsection \<open>Literals match where they occur\<close>

lemma ends_lit:
  "ends (lit w) s i = (if to_lower w = to_lower (take (length w) (drop i s)) \<and> i + length w \<le> length s \<or> w = []
     then [i + length w] else [])"
proof (induction w arbitrary: i)
  case (Cons c w)
  show ?case
  proof (cases "i < length s")
    case True
    then have "take (Suc (length w)) (drop i s) = s ! i # take (length w) (drop (Suc i) s)"
      by (simp add: Cons_nth_drop_Suc [symmetric])
    then show ?thesis using True Cons.IH [of "Suc i"] by (auto simp: to_lower_def)
  next
    case False
    then show ?thesis by simp
  qed
qed simp

lemma has_prefix_take: "has_prefix s w \<longleftrightarrow> take (length w) s = w"
  by (metis append_eq_conv_conj append_take_drop_id has_prefix_iff)

lemma take_to_lower: "take n (to_lower s) = to_lower (take n s)"
  by (simp add: to_lower_def take_map)

lemma MatchStringI: "i \<le> length s \<Longrightarrow> ends r s i \<noteq> [] \<Longrightarrow> MatchString r s"
  unfolding MatchString_def list_ex_iff by (rule bexI [of _ i]) (simp_all del: upt_Suc)

text \<open>A literal pattern matches exactly the texts that contain it, up to the case of letters.\<close>

lemma match_lit: "MatchString (lit w) s \<longleftrightarrow> contains (to_lower s) (to_lower w)"
proof
  assume "MatchString (lit w) s"
  then obtain i where "ends (lit w) s i \<noteq> []" unfolding MatchString_def list_ex_iff by blast
  then have "to_lower w = to_lower (take (length w) (drop i s)) \<or> w = []" by (auto simp: ends_lit split: if_splits)
  then have "to_lower w = to_lower (take (length w) (drop i s))" by (auto simp: to_lower_def)
  moreover have "s = take i s @ take (length w) (drop i s) @ drop (length w) (drop i s)"
    by (metis append_take_drop_id)
  then have "to_lower s = to_lower (take i s) @ to_lower (take (length w) (drop i s))
      @ to_lower (drop (length w) (drop i s))" unfolding to_lower_def by (metis map_append)
  ultimately show "contains (to_lower s) (to_lower w)" unfolding contains_iff by metis
next
  assume "contains (to_lower s) (to_lower w)"
  then obtain u v where uv: "to_lower s = u @ to_lower w @ v" unfolding contains_iff by blast
  let ?i = "length u"
  have len: "length s = ?i + length w + length v" using arg_cong [OF uv, of length] by simp
  have "to_lower (take (length w) (drop ?i s)) = to_lower w"
    using uv by (simp add: to_lower_def flip: take_map drop_map)
  then have "ends (lit w) s ?i \<noteq> []" using len by (simp add: ends_lit)
  then show "MatchString (lit w) s" using len by (intro MatchStringI [of ?i]) simp_all
qed

subsection \<open>What is classified\<close>

lemma collect_tail_take:
  "length acc \<le> 15 \<Longrightarrow>
     collect_tail ls acc = acc @ take (15 - length acc) (filter (\<lambda>l. trim_space l \<noteq> []) ls)"
proof (induction ls arbitrary: acc)
  case (Cons l ls)
  show ?case
  proof (cases "length acc = 15")
    case True
    then show ?thesis by simp
  next
    case False
    then have "15 - length acc = Suc (14 - length acc)" "length acc < 15" using Cons.prems by simp_all
    then show ?thesis using Cons.IH [of acc] Cons.IH [of "acc @ [l]"] by simp
  qed
qed simp

text \<open>The last fifteen lines of a pane that are not blank, the last one first.\<close>

definition prompt_area :: "string \<Rightarrow> string list" where
  "prompt_area pane = take 15 (filter (\<lambda>l. trim_space l \<noteq> []) (rev (split_on newline pane)))"

lemma classify_area:
  "classify_with patterns pane =
     (if list_ex (\<lambda>re. MatchString re (join [newline] (prompt_area pane))) patterns
      then StatusWaitingApproval else StatusRunning)"
  by (simp add: classify_with_def prompt_area_def collect_tail_take)

text \<open>
  Only the prompt area counts: once the lower part of a pane has fifteen lines that are not blank,
  whatever is above them does not change the classification, for any of the tools.
\<close>

theorem classify_prompt_area:
  assumes "15 \<le> length (filter (\<lambda>l. trim_space l \<noteq> []) (split_on newline lower))"
  shows "claude_classifyPaneText (upper @ newline # lower) = claude_classifyPaneText lower
    \<and> codex_classifyPaneText (upper @ newline # lower) = codex_classifyPaneText lower
    \<and> gemini_classifyPaneText (upper @ newline # lower) = gemini_classifyPaneText lower"
proof -
  have "length (filter (\<lambda>l. trim_space l \<noteq> []) (rev (split_on newline lower))) =
      length (filter (\<lambda>l. trim_space l \<noteq> []) (split_on newline lower))" by (simp flip: rev_filter)
  then have "prompt_area (upper @ newline # lower) = prompt_area lower"
    using assms by (simp add: prompt_area_def split_on_two)
  then show ?thesis
    by (simp add: claude_classifyPaneText_def codex_classifyPaneText_def gemini_classifyPaneText_def classify_area)
qed

lemma classify_prompt_area_witness:
  "claude_classifyPaneText (''(y/n)'' @ newline # join [newline] (replicate 15 ''x'')) =
   claude_classifyPaneText (join [newline] (replicate 15 ''x''))"
proof -
  have "split_on newline (join [newline] (replicate 15 ''x'')) = replicate 15 ''x''"
    by (rule split_on_join) simp_all
  moreover have "trim_space ''x'' = ''x''" by (simp add: trim_space_def is_space_def)
  ultimately show ?thesis
    using classify_prompt_area [of "join [newline] (replicate 15 ''x'')" "''(y/n)''"] by simp
qed

lemma contains_join: "l \<in> set ls \<Longrightarrow> contains l w \<Longrightarrow> contains (join sep ls) w"
proof (induction sep ls rule: join.induct)
  case (3 sep x y ys)
  have app: "contains u w \<Longrightarrow> contains (p @ u @ q) w" for u p q by (metis append.assoc contains_iff)
  show ?case
  proof (cases "l = x")
    case True
    then show ?thesis using app [of x "[]" "sep @ join sep (y # ys)"] 3 by simp
  next
    case False
    then have "contains (join sep (y # ys)) w" using 3 by simp
    then show ?thesis using app [of "join sep (y # ys)" "x @ sep" "[]"] by simp
  qed
qed simp_all

lemma to_lower_join: "to_lower (join sep ls) = join (to_lower sep) (map to_lower ls)"
  by (induction sep ls rule: join.induct) (simp_all add: to_lower_def)

lemma literal_detected:
  assumes "lit w \<in> set patterns" "l \<in> set (prompt_area pane)" "contains (to_lower l) (to_lower w)"
  shows "classify_with patterns pane = StatusWaitingApproval"
proof -
  have "contains (to_lower (join [newline] (prompt_area pane))) (to_lower w)"
    unfolding to_lower_join using assms(2,3) by (intro contains_join [where l = "to_lower l"]) auto
  then have "MatchString (lit w) (join [newline] (prompt_area pane))" by (simp add: match_lit)
  then show ?thesis using assms(1) by (auto simp: classify_area list_ex_iff)
qed



lemma not_in_tmux:
  "s_TmuxSession s = '''' \<or> capture (s_TmuxSession s) = None \<Longrightarrow>
     claude_detectStatus capture s = StatusRunning \<and> codex_detectStatus capture s = StatusRunning
     \<and> gemini_detectStatus capture s = StatusRunning"
  by (auto simp: claude_detectStatus_def codex_detectStatus_def gemini_detectStatus_def detect_with_def)

text \<open>The footer a working Claude Code shows counts as a prompt.\<close>

lemma working_claude_is_waiting:
  "claude_classifyPaneText ''Thinking... (esc to interrupt)'' = StatusWaitingApproval"
proof -
  let ?p = "''Thinking... (esc to interrupt)''"
  let ?r = "Seq (lit ''esc to '') (alts [''cancel'', ''interrupt'', ''exit''])"
  have "join [newline] (prompt_area ?p) = ?p" by code_simp
  moreover have "ends ?r ?p 13 \<noteq> []" by code_simp
  then have "MatchString ?r ?p" by (rule MatchStringI [rotated]) simp
  moreover have "?r \<in> set claude_patterns" unfolding claude_patterns_def by (simp only: list.set insert_iff simp_thms)
  ultimately show ?thesis by (auto simp: claude_classifyPaneText_def classify_area list_ex_iff)
qed

end
