(* ===== verification/Git_Info.thy ===== *)
theory Git_Info
  imports Go_Lib Protocol
begin

section \<open>Repository state from the git command line\<close>

text \<open>
  Models \<open>internal/gitinfo/gitinfo.go\<close>. The git program is a parameter: for its arguments it gives
  what it prints and whether it succeeded; the working directory is fixed during a collection.
\<close>

type_synonym git_cmd = "string list \<Rightarrow> string \<times> bool"

definition git_run :: "git_cmd \<Rightarrow> string list \<Rightarrow> string \<times> bool" where
  "git_run git args = (let (out, ok) = git args in (trim_space out, ok))"

definition parse_commit :: "string \<Rightarrow> commit option" where
  "parse_commit line =
     (case split_on unit_sep line of
        [h, author, ts, msg] \<Rightarrow>
          Some \<lparr>c_Hash = h, c_Author = author, c_Message = msg, c_TS = int64 (fst (ParseInt ts) * 1000)\<rparr>
      | _ \<Rightarrow> None)"

definition recentCommits :: "git_cmd \<Rightarrow> int \<Rightarrow> commit list" where
  "recentCommits git n =
     (let (out, ok) = git_run git [''log'', ''-n'', itoa n, ''--pretty=format:%H%x1f%an%x1f%at%x1f%s'']
      in if \<not> ok \<or> out = [] then []
         else List.map_filter parse_commit (split_on newline out))"

definition modified_files :: "string \<Rightarrow> string list" where
  "modified_files status =
     map (\<lambda>line. trim_space (drop 3 line)) (filter (\<lambda>line. 3 < length line) (split_on newline status))"

definition Collect :: "git_cmd \<Rightarrow> git_info option" where
  "Collect git =
     (let (top, ok) = git_run git [''rev-parse'', ''--show-toplevel''] in
      if \<not> ok \<or> top = [] then None
      else
        (let info = \<lparr>g_Repo = filepath_Base top, g_RemoteURL = [], g_Branch = [], g_Dirty = False,
               g_ModifiedFiles = [], g_Ahead = 0, g_Behind = 0, g_RecentCommits = []\<rparr>;
             (b, ok) = git_run git [''rev-parse'', ''--abbrev-ref'', ''HEAD''];
             info = (if ok then info\<lparr>g_Branch := b\<rparr> else info);
             (u, ok) = git_run git [''config'', ''--get'', ''remote.origin.url''];
             info = (if ok then info\<lparr>g_RemoteURL := u\<rparr> else info);
             (status, ok) = git_run git [''status'', ''--porcelain''];
             info = (if ok \<and> status \<noteq> []
                     then info\<lparr>g_Dirty := True, g_ModifiedFiles := modified_files status\<rparr> else info);
             (ab, ok) = git_run git [''rev-list'', ''--left-right'', ''--count'', CHR ''@'' # ''{upstream}...HEAD''];
             info = (if \<not> ok then info
                     else case string_fields ab of
                            [behind, ahead] \<Rightarrow> info\<lparr>g_Behind := fst (ParseInt behind), g_Ahead := fst (ParseInt ahead)\<rparr>
                          | _ \<Rightarrow> info)
         in Some (info\<lparr>g_RecentCommits := recentCommits git 10\<rparr>)))"

subsection \<open>The log is read back\<close>

text \<open>What git prints for the format of \<open>recentCommits\<close>; the time is in seconds.\<close>

definition commit_line :: "commit \<Rightarrow> string" where
  "commit_line c = join [unit_sep] [c_Hash c, c_Author c, itoa (c_TS c div 1000), c_Message c]"

definition plain_commit :: "commit \<Rightarrow> bool" where
  "plain_commit c \<longleftrightarrow> c_Hash c \<noteq> [] \<and> \<not> is_space (hd (c_Hash c))
     \<and> (\<forall>s \<in> {c_Hash c, c_Author c, c_Message c}. newline \<notin> set s \<and> unit_sep \<notin> set s)
     \<and> (c_Message c \<noteq> [] \<longrightarrow> \<not> is_space (last (c_Message c)))
     \<and> c_TS c mod 1000 = 0 \<and> - (2 ^ 63) \<le> c_TS c \<and> c_TS c < 2 ^ 63"

lemma ParseInt_itoa: "- (2 ^ 63) \<le> i \<Longrightarrow> i < 2 ^ 63 \<Longrightarrow> fst (ParseInt (itoa i)) = i"
  using Atoi_itoa [of i] by (auto simp: Atoi_def split: prod.splits option.splits)

lemma parse_commit_line:
  assumes "plain_commit c"
  shows "parse_commit (commit_line c) = Some c"
proof -
  have spl: "split_on unit_sep (commit_line c) = [c_Hash c, c_Author c, itoa (c_TS c div 1000), c_Message c]"
    unfolding commit_line_def using assms itoa_plain by (intro split_on_join) (auto simp: plain_commit_def)
  have "c_TS c div 1000 * 1000 = c_TS c" using assms by (auto simp: plain_commit_def)
  moreover have "- (2 ^ 63) \<le> c_TS c div 1000" "c_TS c div 1000 < 2 ^ 63" using assms
    by (auto simp: plain_commit_def)
  ultimately show ?thesis using assms
    by (simp add: parse_commit_def spl ParseInt_itoa int64_id plain_commit_def)
qed

text \<open>
  The commits git prints are read back as they are, hashes, authors, subjects and times, in the
  order of the log.
\<close>

theorem recent_commits_roundtrip:
  assumes "cs \<noteq> []" "\<forall>c \<in> set cs. plain_commit c"
    and "git [''log'', ''-n'', itoa n, ''--pretty=format:%H%x1f%an%x1f%at%x1f%s'']
      = (join [newline] (map commit_line cs), True)"
  shows "recentCommits git n = cs"
proof -
  let ?t = "join [newline] (map commit_line cs)"
  have lines: "split_on newline ?t = map commit_line cs"
    using assms(1,2) itoa_plain by (intro split_on_join) (auto simp: plain_commit_def commit_line_def)
  obtain c cs' where cs: "cs = c # cs'" using assms(1) by (cases cs) auto
  have "?t \<noteq> []" "hd ?t = hd (c_Hash c)"
    using join_hd [of "commit_line c" "[newline]" "map commit_line cs'"] assms(2)
    by (auto simp: cs commit_line_def plain_commit_def)
  moreover have "last ?t = last (commit_line (last cs))"
    using join_last [of "[newline]" "map commit_line cs"] assms(1)
    by (simp add: last_map commit_line_def)
  moreover have "\<not> is_space (last (commit_line (last cs)))"
    using assms(1,2) last_in_set [OF assms(1)] by (auto simp: commit_line_def plain_commit_def is_space_def)
  ultimately have "trim_space ?t = ?t" "?t \<noteq> []"
    using assms(2) cs trim_space_word [of ?t] by (auto simp: plain_commit_def)
  then have "recentCommits git n = List.map_filter parse_commit (map commit_line cs)"
    by (simp add: recentCommits_def git_run_def assms(3) lines)
  also have "\<dots> = cs" using assms(2)
    by (induction cs) (simp_all add: List.map_filter_simps parse_commit_line)
  finally show ?thesis .
qed

definition sample_commits :: "commit list" where
  "sample_commits =
     [\<lparr>c_Hash = ''f00d'', c_Author = ''Ann'', c_Message = ''fix: the cap'', c_TS = 1700000000000\<rparr>,
      \<lparr>c_Hash = ''beef'', c_Author = ''Bo Li'', c_Message = [], c_TS = 1600000000000\<rparr>]"

lemma recent_commits_roundtrip_witness:
  "recentCommits (\<lambda>args. (join [newline] (map commit_line sample_commits), True)) 10 = sample_commits"
  by (rule recent_commits_roundtrip)
    (simp_all add: sample_commits_def plain_commit_def is_space_def)

subsection \<open>The list of modified files\<close>

text \<open>A status entry is two status letters, a space and the name of the file.\<close>

definition status_line :: "char \<times> char \<times> string \<Rightarrow> string" where
  "status_line = (\<lambda>(x, y, name). x # y # CHR '' '' # name)"

definition status_listing :: "(char \<times> char \<times> string) list \<Rightarrow> string" where
  "status_listing es = concat (map (\<lambda>e. status_line e @ [newline]) es)"

definition plain_entry :: "char \<times> char \<times> string \<Rightarrow> bool" where
  "plain_entry = (\<lambda>(x, y, name). x \<noteq> newline \<and> y \<noteq> newline \<and> \<not> (is_space x \<and> is_space y) \<and> newline \<notin> set name \<and> name \<noteq> []
     \<and> \<not> is_space (hd name) \<and> \<not> is_space (last name))"

lemma modified_files_lines:
  assumes "\<forall>e \<in> set es. plain_entry e" "es \<noteq> []"
  shows "modified_files (join [newline] (map status_line es)) = map (\<lambda>(x, y, name). name) es"
proof -
  have "split_on newline (join [newline] (map status_line es)) = map status_line es"
    using assms by (intro split_on_join) (auto simp: plain_entry_def status_line_def)
  moreover have "filter (\<lambda>line. 3 < length line) (map status_line es) = map status_line es"
    using assms(1) by (auto simp: filter_id_conv plain_entry_def status_line_def)
  moreover have "map (\<lambda>line. trim_space (drop 3 line)) (map status_line es) = map (\<lambda>(x, y, name). name) es"
    using assms(1) by (auto simp: plain_entry_def status_line_def intro!: trim_space_word)
  ultimately show ?thesis by (simp add: modified_files_def)
qed

lemma trim_status:
  assumes "\<forall>e \<in> set es. plain_entry e" "es = (x, y, name) # es'"
  shows "trim_space (status_listing es) =
    (if is_space x then drop 1 (join [newline] (map status_line es)) else join [newline] (map status_line es))"
proof -
  let ?t = "join [newline] (map status_line es)"
  have "last ?t = last (status_line (last es))"
    using join_last [of "[newline]" "map status_line es"] assms(2) by (simp add: last_map status_line_def case_prod_beta)
  also have "\<not> is_space \<dots>"
    using assms(1) last_in_set [of es] assms(2)
    by (cases "last es") (force simp: status_line_def plain_entry_def)
  finally have lst: "\<not> is_space (last ?t)" .
  obtain u where u: "?t = x # y # u" "status_listing es = x # y # u @ [newline]"
    using concat_join [of "map status_line es" newline] assms(2)
    by (cases es') (auto simp: status_line_def status_listing_def comp_def)
  have lu: "\<not> is_space (last (y # u))" using lst u(1) by simp
  show ?thesis
  proof (cases "is_space x")
    case True
    then have "\<not> is_space y" using assms by (simp add: plain_entry_def)
    then have yu: "trim_space (y # u @ [newline]) = y # u"
      using trim_space_newline [of "y # u"] lu by simp
    have "trim_space (x # y # u @ [newline]) = trim_space (y # u @ [newline])"
      using True by (simp add: trim_space_def)
    then show ?thesis using True u yu by simp
  next
    case False
    then show ?thesis using trim_space_newline [of "x # y # u"] u lst by simp
  qed
qed

text \<open>
  The whole output of \<open>git status --porcelain\<close> is trimmed before its lines are cut at the fourth
  byte: when the first entry is a change that is not staged, its status begins with a space, the
  line is one byte short and the first letter of the first file is lost.
\<close>

theorem first_modified_file_cut:
  assumes "\<forall>e \<in> set es. plain_entry e" "es = (x, y, name) # es'"
  shows "modified_files (trim_space (status_listing es)) =
    (if is_space x then (if length name = 1 then [] else [trim_space (tl name)]) else [name])
      @ map (\<lambda>(x, y, name). name) es'"
proof (cases "is_space x")
  case False
  have "modified_files (trim_space (status_listing es)) = modified_files (join [newline] (map status_line es))"
    using trim_status [OF assms] False by simp
  also have "\<dots> = map (\<lambda>(x, y, name). name) es"
    by (rule modified_files_lines [OF assms(1)]) (simp add: assms(2))
  finally show ?thesis using False assms(2) by simp
next
  case True
  have nm: "newline \<notin> set name" "name \<noteq> []" "y \<noteq> newline"
    using assms by (auto simp: plain_entry_def)
  have cut: "modified_files (y # CHR '' '' # name) = (if length name = 1 then [] else [trim_space (tl name)])"
    using nm by (cases name) (auto simp: modified_files_def drop_Suc numeral_3_eq_3)
  show ?thesis
  proof (cases "es' = []")
    case True
    then show ?thesis using trim_status [OF assms] \<open>is_space x\<close> cut
      by (simp add: assms(2) status_line_def)
  next
    case False
    then have "drop 1 (join [newline] (map status_line es)) =
        (y # CHR '' '' # name) @ newline # join [newline] (map status_line es')"
      by (cases es') (simp_all add: assms(2) status_line_def)
    moreover have "modified_files ((y # CHR '' '' # name) @ newline # t) =
        modified_files (y # CHR '' '' # name) @ modified_files t" for t
      using nm split_on_append [of newline "y # CHR '' '' # name" t] split_on_no [of newline "y # CHR '' '' # name"]
      by (simp add: modified_files_def del: split_on.simps)
    moreover have "modified_files (join [newline] (map status_line es')) = map (\<lambda>(x, y, name). name) es'"
      using assms False by (intro modified_files_lines) auto
    ultimately show ?thesis using trim_status [OF assms] \<open>is_space x\<close> cut by simp
  qed
qed

lemma first_modified_file_cut_witness:
  "modified_files (trim_space (status_listing [(CHR '' '', CHR ''M'', ''go.mod''), (CHR '' '', CHR ''M'', ''main.go'')]))
     = [''o.mod'', ''main.go'']"
proof -
  have "trim_space ''o.mod'' = ''o.mod''" by (rule trim_space_word) (simp add: is_space_def)
  then show ?thesis
    using first_modified_file_cut [of "[(CHR '' '', CHR ''M'', ''go.mod''), (CHR '' '', CHR ''M'', ''main.go'')]"
        "CHR '' ''" "CHR ''M''" "''go.mod''" "[(CHR '' '', CHR ''M'', ''main.go'')]"]
    by (simp add: plain_entry_def is_space_def)
qed

end
