(* ===== verification/Providers.thy ===== *)
theory Providers
  imports Provider_Files Pane_Status Git_Info Tmux Agent_Runtime
begin

section \<open>The providers\<close>

text \<open>
  Models \<open>internal/provider/provider.go\<close> (registry) and the providers of Claude Code, Codex and Gemini
  in \<open>provider/claude/claude.go\<close>, \<open>provider/codex/codex.go\<close>, \<open>provider/gemini/gemini.go\<close>: which
  processes are sessions, what a discovery reports of them, metrics, logs, control and launch. The
  process table, git, tmux and the clock are read through the parameter \<open>machine_env\<close>; what a poll
  reports is a \<open>provider\<close> of \<open>Agent_Runtime\<close>.
\<close>

subsection \<open>Which processes are sessions\<close>

definition isClaudeProcess :: "string \<Rightarrow> string \<Rightarrow> bool" where
  "isClaudeProcess name cmdline =
     (let l = to_lower cmdline in
      if contains l ''mission-control-agent'' then False
      else if contains l ''.app/contents/helpers'' \<or> contains l ''.app/contents/frameworks''
          \<or> contains l ''.app/contents/macos/claude helper'' \<or> contains l ''claude helper'' \<or> contains l ''crashpad''
          \<or> contains l ''--type=renderer'' \<or> contains l ''--type=utility'' \<or> contains l ''--type=gpu''
          \<or> contains l ''/helpers/disclaimer'' \<or> contains l ''sparkle'' then False
      else if has_prefix l ''ugrep'' \<or> has_prefix l ''grep'' \<or> has_prefix l ''rg '' \<or> has_prefix l ''fd '' then False
      else
        (let n = to_lower name in
         if n = ''claude'' \<or> n = ''claude.exe'' then True
         else if l = ''claude'' then True
         else has_suffix l ''/claude'' \<or> contains l ''/claude '' \<or> contains l ''anthropic-ai/claude-code''
           \<or> contains l ''claude-code/'' \<and> contains l ''/claude''))"

definition isCodexProcess :: "string \<Rightarrow> string \<Rightarrow> bool" where
  "isCodexProcess name cmdline =
     (let l = to_lower cmdline in
      if contains l ''mission-control-agent'' then False
      else if contains l ''codex.app/'' \<or> contains l ''.app/contents'' \<or> contains l ''crashpad''
          \<or> contains l ''renderer'' \<or> contains l ''(service)'' \<or> contains l ''sparkle'' \<or> contains l ''computer-use''
          \<or> contains l ''code-mode-host'' \<or> contains l ''app-server'' \<or> contains l ''cua_node'' then False
      else if name = ''codex'' \<or> name = ''codex-tui'' then True
      else has_suffix l ''/codex'' \<or> contains l ''/codex '' \<or> contains l ''codex exec''
        \<or> contains l ''codex tui'' \<or> contains l ''codex-rs'')"

definition isGeminiProcess :: "string \<Rightarrow> string \<Rightarrow> bool" where
  "isGeminiProcess name cmdline =
     (let l = to_lower cmdline in
      if contains l ''mission-control-agent'' then False
      else if contains l ''.app/contents'' \<or> contains l ''crashpad'' \<or> contains l ''renderer''
          \<or> contains l ''(service)'' then False
      else if name = ''gemini'' then True
      else contains l ''gemini-cli'' \<or> contains l ''/gemini '' \<or> has_suffix l ''/gemini''
        \<or> contains l ''google/gemini'')"

subsection \<open>The machine as the providers see it\<close>

text \<open>
  A process with what its accessors return, the empty string and 0 on their errors; \<open>pr_Now\<close> is the
  clock when it is examined. \<open>me_Git\<close> is git in a directory, in the agent's own when that is empty;
  \<open>me_Panes\<close> is the pane listing tmux prints, \<open>me_Capture\<close> the text of a pane. \<open>me_Usage\<close> looks a
  process up, \<open>Inl\<close> when there is none; \<open>me_Signal\<close> is the error of a signal.
\<close>

record proc =
  pr_Pid :: int
  pr_Name :: string
  pr_Cmdline :: string
  pr_Cwd :: string
  pr_CreateTime :: int
  pr_Now :: int

datatype unix_signal = SIGTERM | SIGINT

record machine_env =
  me_Processes :: "string + proc list"
  me_Git :: "string \<Rightarrow> git_cmd"
  me_Panes :: "string option"
  me_Capture :: "string \<Rightarrow> string option"
  me_Host :: host
  me_FileOrder :: "walk_entry list \<Rightarrow> walk_entry list"
  me_Version :: "string \<Rightarrow> string option"
  me_Usage :: "int \<Rightarrow> string + float64 \<times> 64 word option"
  me_Signal :: "int \<Rightarrow> unix_signal \<Rightarrow> string option"
  me_Now :: int
  me_Getwd :: string
  me_IsDir :: "string \<Rightarrow> bool"
  me_Quote :: "string \<Rightarrow> string"

definition truncate_bytes :: "string \<Rightarrow> nat \<Rightarrow> string" where
  "truncate_bytes s n = (if length s \<le> n then s else take n s)"

definition codex_truncate :: "string \<Rightarrow> nat \<Rightarrow> string" where
  "codex_truncate s n = (if length s \<le> n then s else take n s)"

definition gemini_truncate :: "string \<Rightarrow> nat \<Rightarrow> string" where
  "gemini_truncate s n = (if length s \<le> n then s else take n s)"

definition session_id :: "string \<Rightarrow> int \<Rightarrow> string" where
  "session_id machineID pid = machineID @ ''-'' @ itoa pid"

text \<open>What the three discoveries do alike: the git and tmux fields.\<close>

definition with_git :: "git_info option \<Rightarrow> session \<Rightarrow> session" where
  "with_git git sess =
     (case git of None \<Rightarrow> sess
      | Some g \<Rightarrow> sess\<lparr>s_Git := Some g, s_Repo := g_Repo g, s_Branch := g_Branch g\<rparr>)"

definition with_place :: "machine_env \<Rightarrow> proc \<Rightarrow> session \<Rightarrow> session" where
  "with_place env pr sess =
     (with_git (Collect (me_Git env (pr_Cwd pr))) sess)\<lparr>s_TmuxSession := SessionForPID (me_Panes env) (pr_Pid pr)\<rparr>"

subsection \<open>Claude Code\<close>

record claude_provider =
  cp_machineID :: string
  cp_version :: string
  cp_verOnce :: bool

definition claude_New :: "string \<Rightarrow> claude_provider" where
  "claude_New machineID = \<lparr>cp_machineID = machineID, cp_version = [], cp_verOnce = False\<rparr>"

definition claudeVersion :: "machine_env \<Rightarrow> claude_provider \<Rightarrow> claude_provider" where
  "claudeVersion env p =
     (if cp_verOnce p then p
      else (let p = p\<lparr>cp_verOnce := True\<rparr>
            in case me_Version env ''claude'' of None \<Rightarrow> p | Some out \<Rightarrow> p\<lparr>cp_version := trim_space out\<rparr>))"

definition claude_session :: "machine_env \<Rightarrow> claude_provider \<Rightarrow> proc \<Rightarrow> session" where
  "claude_session env p pr =
     (let sess = zero_session
            \<lparr>s_ID := session_id (cp_machineID p) (pr_Pid pr), s_MachineID := cp_machineID p,
             s_Provider := ''claude-code'', s_Status := StatusRunning, s_CWD := pr_Cwd pr, s_PID := pr_Pid pr,
             s_CurrentCommand := truncate_bytes (pr_Cmdline pr) 512, s_Version := cp_version p,
             s_StartedAt := pr_CreateTime pr, s_LastActivityAt := pr_Now pr\<rparr>
      in (with_place env pr sess)\<lparr>s_Tokens := tokenUsageForCWD (me_Host env) (pr_Cwd pr)\<rparr>)"

definition claude_found :: "machine_env \<Rightarrow> claude_provider \<times> session list \<Rightarrow> proc \<Rightarrow> claude_provider \<times> session list" where
  "claude_found env = (\<lambda>(p, ss) pr.
     if isClaudeProcess (pr_Name pr) (pr_Cmdline pr)
     then (let p = claudeVersion env p in (p, ss @ [claude_session env p pr]))
     else (p, ss))"

text \<open>The second pass sets the status; whether a directory is shared no longer matters to it.\<close>

definition claude_Discover :: "machine_env \<Rightarrow> claude_provider \<Rightarrow> claude_provider \<times> (string + session list)" where
  "claude_Discover env p =
     (case me_Processes env of Inl e \<Rightarrow> (p, Inl e)
      | Inr procs \<Rightarrow>
          (let (p, ss) = foldl (claude_found env) (p, []) procs
           in (p, Inr (map (\<lambda>s. s\<lparr>s_Status := claude_detectStatus (me_Capture env) s\<rparr>) ss))))"

subsection \<open>Codex\<close>

definition codex_session :: "machine_env \<Rightarrow> string \<Rightarrow> proc \<Rightarrow> session" where
  "codex_session env machineID pr =
     (let sess = with_place env pr (zero_session
            \<lparr>s_ID := session_id machineID (pr_Pid pr), s_MachineID := machineID,
             s_Provider := ''codex'', s_Status := StatusRunning, s_CWD := pr_Cwd pr, s_PID := pr_Pid pr,
             s_CurrentCommand := codex_truncate (pr_Cmdline pr) 512,
             s_StartedAt := pr_CreateTime pr, s_LastActivityAt := pr_Now pr\<rparr>);
          h = me_Host env;
          sess = (case newestRolloutForCWD (me_FileOrder env) h (pr_Cwd pr) of None \<Rightarrow> sess
            | Some rollout \<Rightarrow>
                (let sess = (case readSessionMeta h rollout of None \<Rightarrow> sess
                       | Some m \<Rightarrow> sess\<lparr>s_Version := sm_CLIVersion m @ '' (Codex)''\<rparr>)
                 in sess\<lparr>s_Tokens := tokenUsageFromRollout h rollout\<rparr>))
      in sess\<lparr>s_Status := codex_detectStatus (me_Capture env) sess\<rparr>)"

definition codex_Discover :: "machine_env \<Rightarrow> string \<Rightarrow> string + session list" where
  "codex_Discover env machineID =
     (case me_Processes env of Inl e \<Rightarrow> Inl e
      | Inr procs \<Rightarrow> Inr (map (codex_session env machineID)
          (filter (\<lambda>pr. isCodexProcess (pr_Name pr) (pr_Cmdline pr)) procs)))"

subsection \<open>Gemini\<close>

record gemini_provider =
  gp_machineID :: string
  gp_version :: string
  gp_verOnce :: bool

definition gemini_New :: "string \<Rightarrow> gemini_provider" where
  "gemini_New machineID = \<lparr>gp_machineID = machineID, gp_version = [], gp_verOnce = False\<rparr>"

definition geminiVersion :: "machine_env \<Rightarrow> gemini_provider \<Rightarrow> gemini_provider" where
  "geminiVersion env p =
     (if gp_verOnce p then p
      else (let p = p\<lparr>gp_verOnce := True\<rparr>
            in case me_Version env ''gemini'' of None \<Rightarrow> p
               | Some out \<Rightarrow> p\<lparr>gp_version := trim_space out @ '' (Gemini)''\<rparr>))"

definition gemini_session :: "machine_env \<Rightarrow> gemini_provider \<Rightarrow> proc \<Rightarrow> session" where
  "gemini_session env p pr =
     (let sess = with_place env pr (zero_session
            \<lparr>s_ID := session_id (gp_machineID p) (pr_Pid pr), s_MachineID := gp_machineID p,
             s_Provider := ''gemini'', s_Status := StatusRunning, s_CWD := pr_Cwd pr, s_PID := pr_Pid pr,
             s_CurrentCommand := gemini_truncate (pr_Cmdline pr) 512, s_Version := gp_version p,
             s_StartedAt := pr_CreateTime pr, s_LastActivityAt := pr_Now pr\<rparr>);
          h = me_Host env;
          sess = (case newestSessionForCWD (me_FileOrder env) h (pr_Cwd pr) of None \<Rightarrow> sess
            | Some sessFile \<Rightarrow> sess\<lparr>s_Tokens := tokenUsageFromSession h sessFile\<rparr>)
      in sess\<lparr>s_Status := gemini_detectStatus (me_Capture env) sess\<rparr>)"

definition gemini_found :: "machine_env \<Rightarrow> gemini_provider \<times> session list \<Rightarrow> proc \<Rightarrow> gemini_provider \<times> session list" where
  "gemini_found env = (\<lambda>(p, ss) pr.
     if isGeminiProcess (pr_Name pr) (pr_Cmdline pr)
     then (let p = geminiVersion env p in (p, ss @ [gemini_session env p pr]))
     else (p, ss))"

definition gemini_Discover :: "machine_env \<Rightarrow> gemini_provider \<Rightarrow> gemini_provider \<times> (string + session list)" where
  "gemini_Discover env p =
     (case me_Processes env of Inl e \<Rightarrow> (p, Inl e)
      | Inr procs \<Rightarrow> (let (p, ss) = foldl (gemini_found env) (p, []) procs in (p, Inr ss)))"

subsection \<open>Metrics, logs, control, launch\<close>

text \<open>A process id is looked up as 32 bits.\<close>

definition int32 :: "int \<Rightarrow> int" where
  "int32 i = (i + 2 ^ 31) mod 2 ^ 32 - 2 ^ 31"

definition provider_Metrics :: "machine_env \<Rightarrow> session \<Rightarrow> string + metric_sample" where
  "provider_Metrics env s =
     (case me_Usage env (int32 (s_PID s)) of Inl e \<Rightarrow> Inl e
      | Inr (cpu, mem) \<Rightarrow>
          Inr \<lparr>ms_SessionID = s_ID s, ms_CPUPct = cpu,
               ms_MemBytes = (case mem of None \<Rightarrow> 0 | Some rss \<Rightarrow> rss), ms_TS = me_Now env\<rparr>)"

definition codex_Metrics :: "machine_env \<Rightarrow> session \<Rightarrow> string + metric_sample" where
  "codex_Metrics = provider_Metrics"

definition gemini_Metrics :: "machine_env \<Rightarrow> session \<Rightarrow> string + metric_sample" where
  "gemini_Metrics = provider_Metrics"

text \<open>
  A pane is tailed as log lines: every line \<open>TailPane\<close> emits, stamped when it is copied, for as many as are copied
  before the context is done.
\<close>

record log_line =
  lx_SessionID :: string
  lx_Stream :: string
  lx_Line :: string
  lx_TS :: int

definition tailTmuxPaneAsLogs :: "int list \<Rightarrow> session \<Rightarrow> string list option list \<Rightarrow> log_line list" where
  "tailTmuxPaneAsLogs nows s polls =
     map2 (\<lambda>now line. \<lparr>lx_SessionID = s_ID s, lx_Stream = StreamStdout, lx_Line = line, lx_TS = now\<rparr>) nows (TailPane polls)"

definition codex_tailTmuxAsLogs :: "int list \<Rightarrow> session \<Rightarrow> string list option list \<Rightarrow> log_line list" where
  "codex_tailTmuxAsLogs = tailTmuxPaneAsLogs"

definition gemini_tailTmuxAsLogs :: "int list \<Rightarrow> session \<Rightarrow> string list option list \<Rightarrow> log_line list" where
  "gemini_tailTmuxAsLogs = tailTmuxPaneAsLogs"

datatype log_source = NoLog | FileLog string | PaneLog string

definition log_choice :: "string option \<Rightarrow> session \<Rightarrow> log_source" where
  "log_choice path s =
     (case path of Some p \<Rightarrow> FileLog p
      | None \<Rightarrow> if s_TmuxSession s \<noteq> [] then PaneLog (s_TmuxSession s) else NoLog)"

definition claude_Logs :: "machine_env \<Rightarrow> session \<Rightarrow> log_source" where
  "claude_Logs env s = log_choice (transcriptFile (me_Host env) (s_CWD s)) s"

definition codex_Logs :: "machine_env \<Rightarrow> session \<Rightarrow> log_source" where
  "codex_Logs env s = log_choice (newestRolloutForCWD (me_FileOrder env) (me_Host env) (s_CWD s)) s"

definition gemini_Logs :: "machine_env \<Rightarrow> session \<Rightarrow> log_source" where
  "gemini_Logs env s = log_choice (newestSessionForCWD (me_FileOrder env) (me_Host env) (s_CWD s)) s"

text \<open>A control yields its error and the signals sent, with the process.\<close>

definition claude_Control :: "machine_env \<Rightarrow> session \<Rightarrow> string \<Rightarrow> string option \<times> (int \<times> unix_signal) list" where
  "claude_Control env s action =
     (let pid = int32 (s_PID s) in
      case me_Usage env pid of Inl e \<Rightarrow> (Some e, [])
      | Inr _ \<Rightarrow>
          if action = ActionStop then (me_Signal env pid SIGTERM, [(pid, SIGTERM)])
          else if action = ActionRestart then (None, [(pid, SIGINT)])
          else (Some (''unsupported action '' @ me_Quote env action), []))"

definition codex_Control :: "machine_env \<Rightarrow> session \<Rightarrow> string \<Rightarrow> string option \<times> (int \<times> unix_signal) list" where
  "codex_Control env s action =
     (let pid = int32 (s_PID s) in
      case me_Usage env pid of Inl e \<Rightarrow> (Some e, [])
      | Inr _ \<Rightarrow>
          if action = ActionStop then (me_Signal env pid SIGTERM, [(pid, SIGTERM)])
          else if action = ActionRestart then (me_Signal env pid SIGINT, [(pid, SIGINT)])
          else (Some (''unsupported action '' @ me_Quote env action), []))"

definition gemini_Control :: "machine_env \<Rightarrow> session \<Rightarrow> string \<Rightarrow> string option \<times> (int \<times> unix_signal) list" where
  "gemini_Control env s action =
     (let pid = int32 (s_PID s) in
      case me_Usage env pid of Inl e \<Rightarrow> (Some e, [])
      | Inr _ \<Rightarrow>
          if action = ActionStop then (me_Signal env pid SIGTERM, [(pid, SIGTERM)])
          else if action = ActionRestart then (me_Signal env pid SIGINT, [(pid, SIGINT)])
          else (Some (''unsupported action '' @ me_Quote env action), []))"

definition launch_with :: "string \<Rightarrow> machine_env \<Rightarrow> string \<Rightarrow> string + launch_spec" where
  "launch_with program env cwd =
     (let cwd = (if cwd = [] then me_Getwd env else cwd) in
      if \<not> me_IsDir env cwd then Inl (''invalid working directory '' @ me_Quote env cwd)
      else Inr \<lparr>ls_Argv = [program], ls_CWD = cwd, ls_Env = []\<rparr>)"

definition claude_Launch :: "machine_env \<Rightarrow> string \<Rightarrow> string + launch_spec" where
  "claude_Launch = launch_with ''claude''"

definition codex_Launch :: "machine_env \<Rightarrow> string \<Rightarrow> string + launch_spec" where
  "codex_Launch = launch_with ''codex''"

definition gemini_Launch :: "machine_env \<Rightarrow> string \<Rightarrow> string + launch_spec" where
  "gemini_Launch = launch_with ''gemini''"

subsection \<open>What the runtime sees\<close>

definition claude_methods :: "machine_env \<Rightarrow> claude_provider \<Rightarrow> provider" where
  "claude_methods env p = \<lparr>pv_Name = ''claude-code'', pv_Discover = snd (claude_Discover env p),
     pv_Metrics = provider_Metrics env, pv_Logs = (\<lambda>s. claude_Logs env s \<noteq> NoLog),
     pv_Control = (\<lambda>s a. fst (claude_Control env s a)), pv_Launch = Some (claude_Launch env)\<rparr>"

definition codex_methods :: "machine_env \<Rightarrow> string \<Rightarrow> provider" where
  "codex_methods env machineID = \<lparr>pv_Name = ''codex'', pv_Discover = codex_Discover env machineID,
     pv_Metrics = codex_Metrics env, pv_Logs = (\<lambda>s. codex_Logs env s \<noteq> NoLog),
     pv_Control = (\<lambda>s a. fst (codex_Control env s a)), pv_Launch = Some (codex_Launch env)\<rparr>"

definition gemini_methods :: "machine_env \<Rightarrow> gemini_provider \<Rightarrow> provider" where
  "gemini_methods env p = \<lparr>pv_Name = ''gemini'', pv_Discover = snd (gemini_Discover env p),
     pv_Metrics = gemini_Metrics env, pv_Logs = (\<lambda>s. gemini_Logs env s \<noteq> NoLog),
     pv_Control = (\<lambda>s a. fst (gemini_Control env s a)), pv_Launch = Some (gemini_Launch env)\<rparr>"

subsection \<open>The registry\<close>

text \<open>A factory yields an instance or an error; \<open>Build\<close> stops at the first name that fails.\<close>

definition Register :: "string \<Rightarrow> (string + 'p) \<Rightarrow> (string, string + 'p) gomap \<Rightarrow> (string, string + 'p) gomap" where
  "Register name f factories = mput name f factories"

fun Build :: "(string \<Rightarrow> string) \<Rightarrow> (string, string + 'p) gomap \<Rightarrow> string list \<Rightarrow> 'p list \<Rightarrow> string + 'p list" where
  "Build quote factories [] out = Inr out"
| "Build quote factories (n # ns) out =
     (case mget factories n of None \<Rightarrow> Inl (''unknown provider '' @ quote n)
      | Some (Inl e) \<Rightarrow> Inl (''build provider '' @ quote n @ '': '' @ e)
      | Some (Inr p) \<Rightarrow> Build quote factories ns (out @ [p]))"

datatype agent_provider = Claude claude_provider | Codex string | Gemini gemini_provider

definition registered :: "(string, string + agent_provider) gomap" where
  "registered = Register ''gemini'' (Inr (Gemini (gemini_New [])))
     (Register ''codex'' (Inr (Codex [])) (Register ''claude-code'' (Inr (Claude (claude_New []))) []))"

fun SetMachineID :: "string \<Rightarrow> agent_provider \<Rightarrow> agent_provider" where
  "SetMachineID i (Claude p) = Claude (p\<lparr>cp_machineID := i\<rparr>)"
| "SetMachineID i (Codex _) = Codex i"
| "SetMachineID i (Gemini p) = Gemini (p\<lparr>gp_machineID := i\<rparr>)"

fun methods :: "machine_env \<Rightarrow> agent_provider \<Rightarrow> provider" where
  "methods env (Claude p) = claude_methods env p"
| "methods env (Codex i) = codex_methods env i"
| "methods env (Gemini p) = gemini_methods env p"

text \<open>\<open>runDaemon\<close>: build the configured providers and hand them the identity of the machine.\<close>

definition daemon_providers :: "(string \<Rightarrow> string) \<Rightarrow> string list \<Rightarrow> string \<Rightarrow> string + agent_provider list" where
  "daemon_providers quote names machineID =
     (case Build quote registered names [] of Inl e \<Rightarrow> Inl e
      | Inr ps \<Rightarrow> Inr (map (SetMachineID machineID) ps))"

subsection \<open>A discovery reports the processes of its tool\<close>

fun is_session :: "agent_provider \<Rightarrow> proc \<Rightarrow> bool" where
  "is_session (Claude _) pr = isClaudeProcess (pr_Name pr) (pr_Cmdline pr)"
| "is_session (Codex _) pr = isCodexProcess (pr_Name pr) (pr_Cmdline pr)"
| "is_session (Gemini _) pr = isGeminiProcess (pr_Name pr) (pr_Cmdline pr)"

fun machine_of :: "agent_provider \<Rightarrow> string" where
  "machine_of (Claude p) = cp_machineID p"
| "machine_of (Codex i) = i"
| "machine_of (Gemini p) = gp_machineID p"

text \<open>A session names its process, its machine and its tool, and its command is cut to 512 bytes.\<close>

definition session_of :: "string \<Rightarrow> string \<Rightarrow> session \<Rightarrow> bool" where
  "session_of machineID name s \<longleftrightarrow> s_ID s = session_id machineID (s_PID s) \<and> s_MachineID s = machineID
     \<and> s_Provider s = name \<and> length (s_CurrentCommand s) \<le> 512"

lemma with_place_keeps [simp]:
  "s_ID (with_place env pr s) = s_ID s" "s_PID (with_place env pr s) = s_PID s"
  "s_MachineID (with_place env pr s) = s_MachineID s" "s_Provider (with_place env pr s) = s_Provider s"
  "s_CurrentCommand (with_place env pr s) = s_CurrentCommand s"
  by (simp_all add: with_place_def with_git_def split: option.split)

lemma claude_version_machine [simp]: "cp_machineID (claudeVersion env p) = cp_machineID p"
  by (simp add: claudeVersion_def Let_def split: option.split)

lemma gemini_version_machine [simp]: "gp_machineID (geminiVersion env p) = gp_machineID p"
  by (simp add: geminiVersion_def Let_def split: option.split)

lemma claude_session_of [simp]:
  "s_PID (claude_session env p pr) = pr_Pid pr"
  "session_of (cp_machineID p) ''claude-code'' (claude_session env p pr)"
  by (simp_all add: claude_session_def session_of_def Let_def truncate_bytes_def)

lemma codex_session_of [simp]:
  "s_PID (codex_session env i pr) = pr_Pid pr" "session_of i ''codex'' (codex_session env i pr)"
  by (simp_all add: codex_session_def session_of_def Let_def codex_truncate_def split: option.split)

lemma gemini_session_of [simp]:
  "s_PID (gemini_session env p pr) = pr_Pid pr"
  "session_of (gp_machineID p) ''gemini'' (gemini_session env p pr)"
  by (simp_all add: gemini_session_def session_of_def Let_def gemini_truncate_def split: option.split)

lemma claude_fold:
  "foldl (claude_found env) (p, ss) procs = (p', ss') \<Longrightarrow> cp_machineID p' = cp_machineID p
     \<and> map s_PID ss' = map s_PID ss @ map pr_Pid (filter (\<lambda>pr. isClaudeProcess (pr_Name pr) (pr_Cmdline pr)) procs)
     \<and> (list_all (session_of (cp_machineID p) ''claude-code'') ss \<longrightarrow>
        list_all (session_of (cp_machineID p) ''claude-code'') ss')"
proof (induction procs arbitrary: p ss)
  case (Cons pr procs)
  show ?case
  proof (cases "isClaudeProcess (pr_Name pr) (pr_Cmdline pr)")
    case True
    then show ?thesis
      using Cons.IH [of "claudeVersion env p" "ss @ [claude_session env (claudeVersion env p) pr]"] Cons.prems
        claude_session_of(2) [of "claudeVersion env p" env pr]
      by (simp add: claude_found_def Let_def)
  next
    case False
    then show ?thesis using Cons.IH [of p ss] Cons.prems by (simp add: claude_found_def)
  qed
qed simp

lemma gemini_fold:
  "foldl (gemini_found env) (p, ss) procs = (p', ss') \<Longrightarrow> gp_machineID p' = gp_machineID p
     \<and> map s_PID ss' = map s_PID ss @ map pr_Pid (filter (\<lambda>pr. isGeminiProcess (pr_Name pr) (pr_Cmdline pr)) procs)
     \<and> (list_all (session_of (gp_machineID p) ''gemini'') ss \<longrightarrow>
        list_all (session_of (gp_machineID p) ''gemini'') ss')"
proof (induction procs arbitrary: p ss)
  case (Cons pr procs)
  show ?case
  proof (cases "isGeminiProcess (pr_Name pr) (pr_Cmdline pr)")
    case True
    then show ?thesis
      using Cons.IH [of "geminiVersion env p" "ss @ [gemini_session env (geminiVersion env p) pr]"] Cons.prems
        gemini_session_of(2) [of "geminiVersion env p" env pr]
      by (simp add: gemini_found_def Let_def)
  next
    case False
    then show ?thesis using Cons.IH [of p ss] Cons.prems by (simp add: gemini_found_def)
  qed
qed simp

lemma status_keeps [simp]: "session_of i n (s\<lparr>s_Status := st\<rparr>) = session_of i n s"
  by (simp add: session_of_def)

lemma is_session_fun:
  "is_session (Claude p) = (\<lambda>pr. isClaudeProcess (pr_Name pr) (pr_Cmdline pr))"
  "is_session (Codex i) = (\<lambda>pr. isCodexProcess (pr_Name pr) (pr_Cmdline pr))"
  "is_session (Gemini q) = (\<lambda>pr. isGeminiProcess (pr_Name pr) (pr_Cmdline pr))"
  by (simp_all add: fun_eq_iff)

lemma discover_reports:
  assumes "me_Processes env = Inr procs"
  obtains ss where "pv_Discover (methods env P) = Inr ss"
    and "map s_PID ss = map pr_Pid (filter (is_session P) procs)"
    and "list_all (session_of (machine_of P) (pv_Name (methods env P))) ss"
proof (cases P)
  case (Claude p)
  obtain p' ss where f: "foldl (claude_found env) (p, []) procs = (p', ss)" by fastforce
  show ?thesis
    using that [of "map (\<lambda>s. s\<lparr>s_Status := claude_detectStatus (me_Capture env) s\<rparr>) ss"] claude_fold [OF f] f assms Claude
    by (simp add: claude_methods_def claude_Discover_def comp_def list.pred_map is_session_fun)
next
  case (Codex i)
  show ?thesis
    using that [of "map (codex_session env i) (filter (\<lambda>pr. isCodexProcess (pr_Name pr) (pr_Cmdline pr)) procs)"] assms Codex
    by (simp add: codex_methods_def codex_Discover_def comp_def list_all_iff is_session_fun)
next
  case (Gemini p)
  obtain p' ss where f: "foldl (gemini_found env) (p, []) procs = (p', ss)" by fastforce
  show ?thesis using that [of ss] gemini_fold [OF f] f assms Gemini
    by (simp add: gemini_methods_def gemini_Discover_def is_session_fun)
qed

text \<open>
  After a poll of the three tools the agent knows exactly one session per live process of a tool, named
  after the machine and the process.
\<close>

lemma found_ids_reported:
  assumes "me_Processes env = Inr procs" "machine_of P = aid"
  shows "set (found_ids (found_by aid' (methods env P))) = session_id aid ` pr_Pid ` {pr \<in> set procs. is_session P pr}"
proof -
  obtain ss where ss: "pv_Discover (methods env P) = Inr ss" "map s_PID ss = map pr_Pid (filter (is_session P) procs)"
    "list_all (session_of (machine_of P) (pv_Name (methods env P))) ss"
    using discover_reports [OF assms(1)] by blast
  have "map s_ID ss = map (session_id aid) (map s_PID ss)"
    using ss(3) assms(2) by (simp add: list_all_iff session_of_def)
  then have "map s_ID ss = map (session_id aid) (map pr_Pid (filter (is_session P) procs))" by (simp only: ss(2))
  from arg_cong [OF this, of set]
  show ?thesis by (simp add: found_ids_def found_by_def ss(1) comp_def image_image)
qed

lemma tracked_processes:
  assumes "wf_runtime rt" "range_order \<pi>" "me_Processes env = Inr procs"
    and "list_all (\<lambda>P. machine_of P = rt_AgentID rt) Ps"
  shows "mget (rt_sessions (discover \<pi> (map (methods env) Ps) rt)) i \<noteq> None \<longleftrightarrow>
    list_ex (\<lambda>pr. list_ex (\<lambda>P. is_session P pr) Ps \<and> i = session_id (rt_AgentID rt) (pr_Pid pr)) procs"
proof -
  let ?xs = "found (rt_AgentID rt) (map (methods env) Ps)"
  have "mget (rt_sessions (discover \<pi> (map (methods env) Ps) rt)) i \<noteq> None \<longleftrightarrow>
      i \<in> set (found_ids ?xs)"
    unfolding sessions_discover [OF assms(1,2)]
    by (auto simp: found_ids_def find_None_iff image_iff split: prod.splits)
  also have "found_ids ?xs = concat (map (\<lambda>P. found_ids (found_by (rt_AgentID rt) (methods env P))) Ps)"
    by (simp add: found_def found_ids_def map_concat comp_def)
  also have "i \<in> set \<dots> \<longleftrightarrow> (\<exists>P \<in> set Ps. \<exists>pr \<in> set procs. is_session P pr \<and> i = session_id (rt_AgentID rt) (pr_Pid pr))"
    using found_ids_reported [OF assms(3)] assms(4) by (auto simp: list_all_iff)
  finally show ?thesis unfolding list_ex_iff by blast
qed

definition sample_proc :: "int \<Rightarrow> string \<Rightarrow> string \<Rightarrow> proc" where
  "sample_proc pid name cmd = \<lparr>pr_Pid = pid, pr_Name = name, pr_Cmdline = cmd, pr_Cwd = ''/w'',
     pr_CreateTime = 1, pr_Now = 2\<rparr>"

definition sample_machine_env :: machine_env where
  "sample_machine_env = \<lparr>me_Processes = Inr [sample_proc 7 ''claude'' ''claude'', sample_proc 8 ''vim'' ''vim x''],
     me_Git = \<lambda>_ _. ([], False), me_Panes = None, me_Capture = \<lambda>_. None, me_Host = sample_host,
     me_FileOrder = id, me_Version = \<lambda>_. None, me_Usage = \<lambda>i. Inr (0, None), me_Signal = \<lambda>_ _. None,
     me_Now = 3, me_Getwd = ''/'', me_IsDir = \<lambda>_. True, me_Quote = id\<rparr>"

text \<open>Two processes are never filed as one session.\<close>

lemma session_id_inject [simp]: "session_id m i = session_id m j \<longleftrightarrow> i = j"
  by (simp add: session_id_def)

subsection \<open>Which processes are not sessions\<close>

theorem agent_is_no_session:
  assumes "contains (to_lower (pr_Cmdline pr)) ''mission-control-agent''"
  shows "\<not> is_session P pr"
  using assms by (cases P) (simp_all add: isClaudeProcess_def isCodexProcess_def isGeminiProcess_def)

lemma agent_is_no_session_witness:
  "\<not> is_session (Codex ''m'') (sample_proc 9 ''codex'' ''/usr/local/bin/mission-control-agent --config codex exec'')"
  by (rule agent_is_no_session) code_simp

text \<open>
  The heuristics look at the whole command line: a tool that merely mentions a path is taken for a
  session, and a session of one tool that mentions another is filed under both with one id.
\<close>

lemma mention_is_session: "isClaudeProcess ''vim'' ''vim /home/u/claude''"
  by code_simp

lemma grep_by_path_is_session: "isClaudeProcess ''grep'' ''/usr/bin/grep -r x /opt/claude /src''"
  by code_simp

lemma both_tools: "isClaudeProcess ''claude'' ''claude compare with /codex please''"
    "isCodexProcess ''claude'' ''claude compare with /codex please''"
  by code_simp+

lemma claimed_twice:
  assumes "wf_runtime rt" "range_order \<pi>" "me_Processes env = Inr [pr]"
    and "pr_Name pr = ''claude''" "pr_Cmdline pr = ''claude compare with /codex please''"
  shows "\<exists>s. mget (rt_sessions (discover \<pi> (map (methods env) [Claude (claude_New (rt_AgentID rt)), Codex (rt_AgentID rt)]) rt))
        (session_id (rt_AgentID rt) (pr_Pid pr)) = Some s \<and> s_Provider s = ''codex''"
proof -
  let ?aid = "rt_AgentID rt"
  have "found_by ?aid (methods env (Codex ?aid)) =
      [(methods env (Codex ?aid), (codex_session env ?aid pr)\<lparr>s_MachineID := ?aid\<rparr>)]"
    using assms(3-5) both_tools(2) by (simp add: found_by_def codex_methods_def codex_Discover_def)
  then have "find (\<lambda>(p, s). s_ID s = session_id ?aid (pr_Pid pr))
      (rev (found ?aid (map (methods env) [Claude (claude_New ?aid), Codex ?aid])))
    = Some (methods env (Codex ?aid), (codex_session env ?aid pr)\<lparr>s_MachineID := ?aid\<rparr>)"
    using codex_session_of(2) [of ?aid env pr] by (simp add: found_def session_of_def)
  then show ?thesis using codex_session_of(2) [of ?aid env pr]
    by (simp add: sessions_discover [OF assms(1,2)] session_of_def)
qed

text \<open>A process whose directory cannot be read is given the repository the agent itself runs in.\<close>

lemma unreadable_directory_takes_agents_repository:
  assumes "pr_Cwd pr = []" "Collect (me_Git env []) = Some g"
  shows "s_Repo (claude_session env p pr) = g_Repo g \<and> s_Branch (claude_session env p pr) = g_Branch g"
  using assms by (simp add: claude_session_def with_place_def with_git_def Let_def)

subsection \<open>Control\<close>

lemma int32_id: "- (2 ^ 31) \<le> i \<Longrightarrow> i < 2 ^ 31 \<Longrightarrow> int32 i = i"
  by (simp add: int32_def)

text \<open>
  C33. A control signals the process of the session and no other, at most once: a stop sends SIGTERM, a
  restart SIGINT, any other action is refused without a signal, and so is every action on a process
  that is gone.
\<close>

definition control :: "agent_provider \<Rightarrow> machine_env \<Rightarrow> session \<Rightarrow> string \<Rightarrow> string option \<times> (int \<times> unix_signal) list" where
  "control P = (case P of Claude _ \<Rightarrow> claude_Control | Codex _ \<Rightarrow> codex_Control | Gemini _ \<Rightarrow> gemini_Control)"

lemma methods_control: "pv_Control (methods env P) s a = fst (control P env s a)"
  by (cases P) (simp_all add: control_def claude_methods_def codex_methods_def gemini_methods_def)

theorem control_signals_own_process:
  assumes "- (2 ^ 31) \<le> s_PID s" "s_PID s < 2 ^ 31"
  shows "snd (control P env s a) =
    (case me_Usage env (s_PID s) of Inl _ \<Rightarrow> []
     | Inr _ \<Rightarrow> if a = ActionStop then [(s_PID s, SIGTERM)]
               else if a = ActionRestart then [(s_PID s, SIGINT)] else [])
    \<and> (snd (control P env s a) = [] \<longrightarrow> pv_Control (methods env P) s a \<noteq> None)"
  unfolding methods_control
  by (cases P) (simp_all add: control_def claude_Control_def codex_Control_def gemini_Control_def
      int32_id [OF assms] Let_def split: sum.split)

lemma control_signals_own_process_witness:
  "snd (control (Codex ''m'') sample_machine_env (zero_session\<lparr>s_PID := 7\<rparr>) ''stop'') = [(7, SIGTERM)]"
  using control_signals_own_process [of "zero_session\<lparr>s_PID := 7\<rparr>" "Codex ''m''" sample_machine_env "''stop''"]
  by (simp add: sample_machine_env_def zero_session_def)

subsection \<open>The configured providers\<close>

definition fresh_provider :: "string \<Rightarrow> string \<Rightarrow> agent_provider option" where
  "fresh_provider machineID n =
     (if n = ''claude-code'' then Some (Claude (claude_New machineID))
      else if n = ''codex'' then Some (Codex machineID)
      else if n = ''gemini'' then Some (Gemini (gemini_New machineID)) else None)"

lemma registered_get:
  "map_option (map_sum id (SetMachineID i)) (mget registered n) = map_option Inr (fresh_provider i n)"
  by (simp add: registered_def Register_def fresh_provider_def claude_New_def gemini_New_def)

lemma build_registered:
  "Build quote registered ns out =
     (case find (\<lambda>n. mget registered n = None) ns of
        Some n \<Rightarrow> Inl (''unknown provider '' @ quote n)
      | None \<Rightarrow> Inr (out @ map (\<lambda>n. projr (the (mget registered n))) ns))"
proof (induction ns arbitrary: out)
  case (Cons n ns)
  show ?case
  proof (cases "mget registered n")
    case (Some f)
    then obtain p where "f = Inr p" using registered_get [of "[]" n] by (cases f; cases "fresh_provider [] n") auto
    then show ?thesis using Cons Some by (simp split: option.split)
  qed simp
qed simp

lemma daemon_providers_spec:
  "daemon_providers quote names machineID =
     (case find (\<lambda>n. fresh_provider machineID n = None) names of
        Some n \<Rightarrow> Inl (''unknown provider '' @ quote n)
      | None \<Rightarrow> Inr (List.map_filter (fresh_provider machineID) names))"
proof -
  have none: "mget registered n = None \<longleftrightarrow> fresh_provider machineID n = None" for n
    using registered_get [of machineID n] by (metis option.map_disc_iff)
  have some: "SetMachineID machineID (projr (the (mget registered n))) = the (fresh_provider machineID n)"
    if "fresh_provider machineID n \<noteq> None" for n
    using registered_get [of machineID n] that none [of n] by (cases "the (mget registered n)") auto
  have "map (\<lambda>n. SetMachineID machineID (projr (the (mget registered n)))) names
      = List.map_filter (fresh_provider machineID) names"
    if "find (\<lambda>n. fresh_provider machineID n = None) names = None"
    using that some by (induction names) (auto simp: List.map_filter_def find_None_iff)
  then show ?thesis
    by (simp add: daemon_providers_def build_registered none comp_def split: option.split)
qed

end
