(* ===== verification/Agent_Daemon.thy ===== *)
theory Agent_Daemon
  imports Agent_Enroll Providers
begin

section \<open>The agent process\<close>

text \<open>
  Models \<open>runDaemon\<close> of \<open>apps/agent/main.go\<close> up to the start of the loops: load the configuration,
  enroll when there is a token, build the configured providers, construct the runtime and give the
  providers its identity. The loops that follow are the operations of \<open>Agent_Runtime\<close>.
\<close>

definition runtime_cfg :: "agent_config \<Rightarrow> agent_cfg" where
  "runtime_cfg cfg = \<lparr>ac_ServerURL = ag_ServerURL cfg, ac_APIKey = ag_APIKey cfg, ac_AgentID = ag_AgentID cfg,
     ac_HostnameOverride = ag_HostnameOverride cfg\<rparr>"

record 'w process_env =
  pe_host :: "'w agent_host"
  pe_yaml :: "string \<Rightarrow> agent_config \<Rightarrow> agent_config \<times> bool"
  pe_getenv :: "string \<Rightarrow> string"
  pe_facts :: host_facts
  pe_net :: "nat \<Rightarrow> bool"
  pe_uuid :: "nat \<Rightarrow> string"
  pe_now :: int

definition runDaemon ::
  "'w process_env \<Rightarrow> string \<Rightarrow> (string, string) gomap \<Rightarrow> 'w
     \<Rightarrow> 'w \<times> (string, string) gomap \<times> (agent_error + runtime \<times> agent_provider list)" where
  "runDaemon pe path files w =
     (let (cfg, err) = LoadAgent (pe_yaml pe) (pe_getenv pe) files path in
      case err of Some e \<Rightarrow> (w, files, Inl (AgentError e))
      | None \<Rightarrow>
          (let ah = pe_host pe;
               hostname = (if ag_HostnameOverride cfg = [] then hf_Hostname (pe_facts pe) else ag_HostnameOverride cfg);
               (w, cfg, files, err) = Bootstrap ah hostname cfg files w
           in case err of Some e \<Rightarrow> (w, files, Inl e)
              | None \<Rightarrow>
                  (let rt = New_runtime (ah_derive ah) (pe_facts pe) (pe_net pe) (pe_uuid pe) (pe_now pe) (runtime_cfg cfg)
                   in case daemon_providers (ah_quote ah) (ag_Providers cfg) (rt_AgentID rt) of
                        Inl e \<Rightarrow> (w, files, Inl (AgentError e))
                      | Inr ps \<Rightarrow> (w, files, Inr (rt, ps)))))"

lemma wf_New_runtime: "wf_runtime (New_runtime derive hf net uuid now cfg)"
  by (simp add: wf_runtime_def sessions_ok_def streams_ok_def New_runtime_def Let_def)

lemma fresh_provider_machine: "fresh_provider i n = Some P \<Longrightarrow> machine_of P = i \<and> pv_Name (methods env P) = n"
  by (auto simp: fresh_provider_def claude_New_def gemini_New_def claude_methods_def codex_methods_def gemini_methods_def
      split: if_splits)

lemma daemon_providers_machine:
  assumes "daemon_providers quote names i = Inr ps"
  shows "list_all (\<lambda>P. machine_of P = i) ps \<and> map (\<lambda>P. pv_Name (methods env P)) ps = names"
proof -
  have ps: "ps = List.map_filter (fresh_provider i) names" and all: "\<forall>n \<in> set names. fresh_provider i n \<noteq> None"
    using assms by (auto simp: daemon_providers_spec find_None_iff split: option.splits)
  from all show ?thesis unfolding ps using fresh_provider_machine [of i _ _ env]
    by (induction names) (auto simp: List.map_filter_def)
qed

lemma runDaemon_started:
  assumes "runDaemon pe path files w = (w', files', Inr (rt, ps))"
  obtains cfg cfg' host where "LoadAgent (pe_yaml pe) (pe_getenv pe) files path = (cfg, None)"
    and "Bootstrap (pe_host pe) host cfg files w = (w', cfg', files', None)"
    and "rt = New_runtime (ah_derive (pe_host pe)) (pe_facts pe) (pe_net pe) (pe_uuid pe) (pe_now pe) (runtime_cfg cfg')"
    and "daemon_providers (ah_quote (pe_host pe)) (ag_Providers cfg') (rt_AgentID rt) = Inr ps"
  using assms by (auto simp: runDaemon_def Let_def split: prod.splits option.splits sum.splits)

text \<open>
  C17. Whatever a started agent has done, its next poll leaves it with exactly one session for each live
  process of the tools it is configured for, in its own name, and nothing else.
\<close>

theorem daemon_polls:
  assumes "runDaemon pe path files w = (w', files', Inr (rt, ps))" "agent_step\<^sup>*\<^sup>* rt rt'"
    and "me_Processes env = Inr procs" "range_order \<pi>"
  shows "mget (rt_sessions (discover \<pi> (map (methods env) ps) rt')) i \<noteq> None \<longleftrightarrow>
      list_ex (\<lambda>pr. list_ex (\<lambda>P. is_session P pr) ps \<and> i = session_id (ah_AgentID (rt_hello rt)) (pr_Pid pr)) procs"
proof -
  obtain cfg cfg' host where d: "rt = New_runtime (ah_derive (pe_host pe)) (pe_facts pe) (pe_net pe) (pe_uuid pe) (pe_now pe) (runtime_cfg cfg')"
    "daemon_providers (ah_quote (pe_host pe)) (ag_Providers cfg') (rt_AgentID rt) = Inr ps"
    by (rule runDaemon_started [OF assms(1)]) blast
  have "wf_runtime rt" unfolding d(1) by (rule wf_New_runtime)
  with reachable_agent [OF assms(2)] have wf: "wf_runtime rt'" "rt_AgentID rt' = rt_AgentID rt" by simp_all
  have "list_all (\<lambda>P. machine_of P = rt_AgentID rt') ps" using daemon_providers_machine [OF d(2)] wf(2) by simp
  moreover have "ah_AgentID (rt_hello rt) = rt_AgentID rt'" by (simp add: wf(2) d(1) New_runtime_def Let_def)
  ultimately show ?thesis using tracked_processes [OF wf(1) assms(4,3)] by simp
qed

definition sample_process :: "(ambient list \<times> server) process_env" where
  "sample_process = \<lparr>pe_host = sample_agent_host, pe_yaml = sample_yaml, pe_getenv = \<lambda>_. [],
     pe_facts = \<lparr>hf_Hostname = ''box'', hf_OS = ''linux'', hf_Arch = ''amd64'', hf_NumCPU = 8, hf_TotalMem = None\<rparr>,
     pe_net = \<lambda>_. True, pe_uuid = \<lambda>k. utoa k, pe_now = 0\<rparr>"

definition sample_daemon :: "runtime \<times> agent_provider list" where
  "sample_daemon = projr (snd (snd (runDaemon sample_process [] [] ([], sample_server [] []))))"

lemma sample_daemon_runs:
  "runDaemon sample_process [] [] ([], sample_server [] []) = (([], sample_server [] []), [], Inr sample_daemon)"
  by (simp add: sample_daemon_def runDaemon_def sample_process_def LoadAgent_def agent_env_def env_string_def
      DefaultAgent_def Bootstrap_def daemon_providers_spec fresh_provider_def Let_def)

lemma daemon_polls_witness:
  "mget (rt_sessions (discover id (map (methods sample_machine_env) (snd sample_daemon)) (fst sample_daemon))) ''m-8'' = None"
proof -
  have procs: "me_Processes sample_machine_env = Inr [sample_proc 7 ''claude'' ''claude'', sample_proc 8 ''vim'' ''vim x'']"
    by (simp add: sample_machine_env_def)
  obtain rt ps where d: "sample_daemon = (rt, ps)" by fastforce
  have "snd sample_daemon = [Claude (claude_New ''m''), Codex ''m'', Gemini (gemini_New ''m'')]"
    "ah_AgentID (rt_hello (fst sample_daemon)) = ''m''" by code_simp+
  then have f: "ps = [Claude (claude_New ''m''), Codex ''m'', Gemini (gemini_New ''m'')]" "ah_AgentID (rt_hello rt) = ''m''"
    by (simp_all add: d)
  have none: "\<not> list_ex (\<lambda>pr. list_ex (\<lambda>P. is_session P pr) [Claude (claude_New ''m''), Codex ''m'', Gemini (gemini_New ''m'')]
      \<and> ''m-8'' = session_id ''m'' (pr_Pid pr)) [sample_proc 7 ''claude'' ''claude'', sample_proc 8 ''vim'' ''vim x'']"
    by code_simp
  have "mget (rt_sessions (discover id (map (methods sample_machine_env) ps) rt)) ''m-8'' = None"
    using daemon_polls [OF sample_daemon_runs [unfolded d] rtranclp.rtrancl_refl procs range_order_id(1), of "''m-8''",
        unfolded f(2)] none unfolding f(1) by blast
  then show ?thesis by (simp only: d fst_conv snd_conv)
qed

end
