(* ===== verification/Wire_Codec.thy ===== *)
theory Wire_Codec
  imports Protocol Go_Json "HOL-Library.Monad_Syntax"
begin

section \<open>Messages as JSON texts\<close>

text \<open>
  Models \<open>internal/protocol/codec.go\<close> down to the bytes: for every struct of \<open>messages.go\<close> and \<open>terminal.go\<close> the
  object \<open>json.Marshal\<close> writes (the keys of its tags, in order, \<open>omitempty\<close> included) and what \<open>json.Unmarshal\<close>
  makes of an object: unknown keys are ignored, a key matches a field up to the case of its letters, \<open>null\<close> leaves
  a field alone, a repeated key is decoded again into the same field, and a value of another kind is an error.
  The formatting of floats (\<open>strconv\<close>) is the parameter \<open>fmt\<close> with its inverse \<open>rd\<close>; a nil slice, which is
  written \<open>null\<close>, and an empty one are the same list here and read back the same.
\<close>

subsection \<open>Fields\<close>

text \<open>Case folding of keys: ASCII letters, and the two other letters that fold to ASCII ones.\<close>

fun json_fold :: "string \<Rightarrow> string" where
  "json_fold (a # b # c # s) =
     (if a = CHR 0xE2 \<and> b = CHR 0x84 \<and> c = CHR 0xAA then CHR ''k'' # json_fold s
      else if a = CHR 0xC5 \<and> b = CHR 0xBF then CHR ''s'' # json_fold (c # s)
      else lower_char a # json_fold (b # c # s))"
| "json_fold [a, b] = (if a = CHR 0xC5 \<and> b = CHR 0xBF then ''s'' else [lower_char a, lower_char b])"
| "json_fold [a] = [lower_char a]"
| "json_fold [] = []"

definition matches :: "string \<Rightarrow> (string \<times> json_value) list \<Rightarrow> json_value list" where
  "matches n kvs = map snd (filter (\<lambda>(k, v). json_fold k = json_fold n) kvs)"

type_synonym 'a reader = "json_value \<Rightarrow> 'a \<Rightarrow> 'a option"

definition get :: "'a reader \<Rightarrow> string \<Rightarrow> (string \<times> json_value) list \<Rightarrow> 'a \<Rightarrow> 'a option" where
  "get f n kvs old = foldl (\<lambda>a v. case a of None \<Rightarrow> None | Some x \<Rightarrow> f v x) (Some old) (matches n kvs)"

fun present :: "(string \<times> json_value option) list \<Rightarrow> (string \<times> json_value) list" where
  "present [] = []"
| "present ((k, None) # xs) = present xs"
| "present ((k, Some v) # xs) = (k, v) # present xs"

text \<open>\<open>omitempty\<close>.\<close>

definition omit :: "bool \<Rightarrow> json_value \<Rightarrow> json_value option" where
  "omit e v = (if e then None else Some v)"

subsection \<open>Values\<close>

definition ParseUint :: "string \<Rightarrow> nat option" where
  "ParseUint s = (if s = [] then None else case parse_digits 0 s of (n, None) \<Rightarrow> Some n | (n, Some e) \<Rightarrow> None)"

fun rd_string :: "string reader" where
  "rd_string VNull old = Some old"
| "rd_string (VStr s) old = Some s"
| "rd_string _ old = None"

fun rd_bool :: "bool reader" where
  "rd_bool VNull old = Some old"
| "rd_bool (VBool b) old = Some b"
| "rd_bool _ old = None"

fun rd_int :: "int reader" where
  "rd_int VNull old = Some old"
| "rd_int (VNum l) old = Atoi l"
| "rd_int _ old = None"

fun rd_uint :: "64 word reader" where
  "rd_uint VNull old = Some old"
| "rd_uint (VNum l) old = map_option of_nat (ParseUint l)"
| "rd_uint _ old = None"

fun rd_float :: "(string \<Rightarrow> float64 option) \<Rightarrow> float64 reader" where
  "rd_float rd VNull old = Some old"
| "rd_float rd (VNum l) old = rd l"
| "rd_float rd _ old = None"

text \<open>
  An array is decoded over the elements a slice already has, then from zero values. (Only a key that is repeated finds
  elements there; what an earlier, longer array left in the capacity of the slice is not modelled.)
\<close>

fun sequence :: "'a option list \<Rightarrow> 'a list option" where
  "sequence [] = Some []"
| "sequence (None # xs) = None"
| "sequence (Some x # xs) = map_option (Cons x) (sequence xs)"

fun rd_list :: "'a reader \<Rightarrow> 'a \<Rightarrow> 'a list reader" where
  "rd_list f zero VNull old = Some []"
| "rd_list f zero (VArr vs) old = sequence (map2 f vs (old @ replicate (length vs) zero))"
| "rd_list f zero _ old = None"

text \<open>A pointer: \<open>null\<close> resets it, an object is decoded into what it points to.\<close>

fun rd_pointer :: "'a reader \<Rightarrow> 'a \<Rightarrow> 'a option reader" where
  "rd_pointer f zero VNull old = Some None"
| "rd_pointer f zero v old = map_option Some (f v (case old of None \<Rightarrow> zero | Some x \<Rightarrow> x))"

text \<open>A map keeps its entries and takes the new ones; the value of a \<open>null\<close> entry is empty.\<close>

fun rd_map :: "(string, string) gomap reader" where
  "rd_map VNull old = Some []"
| "rd_map (VObj kvs) old =
     map_option (\<lambda>vs. foldl (\<lambda>m (k, v). mput k v m) old (zip (map fst kvs) vs))
       (sequence (map (\<lambda>(k, v). rd_string v []) kvs))"
| "rd_map _ old = None"

definition rd_struct :: "((string \<times> json_value) list \<Rightarrow> 'a \<Rightarrow> 'a option) \<Rightarrow> 'a reader" where
  "rd_struct f v old = (case v of VNull \<Rightarrow> Some old | VObj kvs \<Rightarrow> f kvs old | _ \<Rightarrow> None)"

definition js_int :: "int \<Rightarrow> json_value" where
  "js_int i = VNum (itoa i)"

definition js_uint :: "64 word \<Rightarrow> json_value" where
  "js_uint w = VNum (utoa (unat w))"

definition js_object :: "(string \<times> json_value option) list \<Rightarrow> json_value" where
  "js_object xs = VObj (present xs)"

text \<open>The keys of a map are written in order.\<close>

definition js_map :: "(string, string) gomap \<Rightarrow> json_value" where
  "js_map m = VObj (sort_key fst (map (\<lambda>(k, v). (k, VStr v)) m))"

subsection \<open>The structs\<close>

definition zero_commit :: commit where
  "zero_commit = \<lparr>c_Hash = '''', c_Author = '''', c_Message = '''', c_TS = 0\<rparr>"

definition commit_fields :: "commit \<Rightarrow> (string \<times> json_value option) list" where
  "commit_fields r =
    [(''hash'', Some (VStr (c_Hash r))), (''author'', Some (VStr (c_Author r))),
     (''message'', Some (VStr (c_Message r))), (''ts'', Some (js_int (c_TS r)))]"

definition js_commit :: "commit \<Rightarrow> json_value" where
  "js_commit r = js_object (commit_fields r)"

definition rd_commit :: "commit reader" where
  "rd_commit = rd_struct (\<lambda>kvs r. do {
     x1 \<leftarrow> get rd_string ''hash'' kvs (c_Hash r);
     x2 \<leftarrow> get rd_string ''author'' kvs (c_Author r);
     x3 \<leftarrow> get rd_string ''message'' kvs (c_Message r);
     x4 \<leftarrow> get rd_int ''ts'' kvs (c_TS r);
     Some \<lparr>c_Hash = x1, c_Author = x2, c_Message = x3, c_TS = x4\<rparr> })"

definition zero_git_info :: git_info where
  "zero_git_info = \<lparr>g_Repo = '''', g_RemoteURL = '''', g_Branch = '''', g_Dirty = False, g_ModifiedFiles = [], g_Ahead = 0,
     g_Behind = 0, g_RecentCommits = []\<rparr>"

definition git_info_fields :: "git_info \<Rightarrow> (string \<times> json_value option) list" where
  "git_info_fields r =
    [(''repo'', Some (VStr (g_Repo r))), (''remoteUrl'', Some (VStr (g_RemoteURL r))),
     (''branch'', Some (VStr (g_Branch r))), (''dirty'', Some (VBool (g_Dirty r))),
     (''modifiedFiles'', Some (VArr (map VStr (g_ModifiedFiles r)))), (''ahead'', Some (js_int (g_Ahead r))),
     (''behind'', Some (js_int (g_Behind r))),
     (''recentCommits'', omit (g_RecentCommits r = []) (VArr (map js_commit (g_RecentCommits r))))]"

definition js_git_info :: "git_info \<Rightarrow> json_value" where
  "js_git_info r = js_object (git_info_fields r)"

definition rd_git_info :: "git_info reader" where
  "rd_git_info = rd_struct (\<lambda>kvs r. do {
     x1 \<leftarrow> get rd_string ''repo'' kvs (g_Repo r);
     x2 \<leftarrow> get rd_string ''remoteUrl'' kvs (g_RemoteURL r);
     x3 \<leftarrow> get rd_string ''branch'' kvs (g_Branch r);
     x4 \<leftarrow> get rd_bool ''dirty'' kvs (g_Dirty r);
     x5 \<leftarrow> get (rd_list rd_string '''') ''modifiedFiles'' kvs (g_ModifiedFiles r);
     x6 \<leftarrow> get rd_int ''ahead'' kvs (g_Ahead r);
     x7 \<leftarrow> get rd_int ''behind'' kvs (g_Behind r);
     x8 \<leftarrow> get (rd_list rd_commit zero_commit) ''recentCommits'' kvs (g_RecentCommits r);
     Some \<lparr>g_Repo = x1, g_RemoteURL = x2, g_Branch = x3, g_Dirty = x4, g_ModifiedFiles = x5, g_Ahead = x6,
           g_Behind = x7, g_RecentCommits = x8\<rparr> })"

definition zero_token_usage :: token_usage where
  "zero_token_usage = \<lparr>tu_Input = 0, tu_Output = 0, tu_CacheRead = 0, tu_CacheCreation = 0, tu_Total = 0\<rparr>"

definition token_usage_fields :: "token_usage \<Rightarrow> (string \<times> json_value option) list" where
  "token_usage_fields r =
    [(''input'', Some (js_int (tu_Input r))), (''output'', Some (js_int (tu_Output r))),
     (''cacheRead'', Some (js_int (tu_CacheRead r))), (''cacheCreation'', Some (js_int (tu_CacheCreation r))),
     (''total'', Some (js_int (tu_Total r)))]"

definition js_token_usage :: "token_usage \<Rightarrow> json_value" where
  "js_token_usage r = js_object (token_usage_fields r)"

definition rd_token_usage :: "token_usage reader" where
  "rd_token_usage = rd_struct (\<lambda>kvs r. do {
     x1 \<leftarrow> get rd_int ''input'' kvs (tu_Input r);
     x2 \<leftarrow> get rd_int ''output'' kvs (tu_Output r);
     x3 \<leftarrow> get rd_int ''cacheRead'' kvs (tu_CacheRead r);
     x4 \<leftarrow> get rd_int ''cacheCreation'' kvs (tu_CacheCreation r);
     x5 \<leftarrow> get rd_int ''total'' kvs (tu_Total r);
     Some \<lparr>tu_Input = x1, tu_Output = x2, tu_CacheRead = x3, tu_CacheCreation = x4, tu_Total = x5\<rparr> })"

definition session_fields :: "(float64 \<Rightarrow> string) \<Rightarrow> session \<Rightarrow> (string \<times> json_value option) list" where
  "session_fields fmt r =
    [(''id'', Some (VStr (s_ID r))), (''machineId'', Some (VStr (s_MachineID r))),
     (''provider'', Some (VStr (s_Provider r))), (''status'', Some (VStr (s_Status r))),
     (''repo'', Some (VStr (s_Repo r))), (''branch'', Some (VStr (s_Branch r))),
     (''cwd'', Some (VStr (s_CWD r))), (''pid'', Some (js_int (s_PID r))),
     (''currentCommand'', Some (VStr (s_CurrentCommand r))), (''version'', Some (VStr (s_Version r))),
     (''tmuxSession'', omit (s_TmuxSession r = []) (VStr (s_TmuxSession r))),
     (''cpuPct'', Some (VNum (fmt (s_CPUPct r)))), (''memBytes'', Some (js_uint (s_MemBytes r))),
     (''startedAt'', Some (js_int (s_StartedAt r))), (''lastActivityAt'', Some (js_int (s_LastActivityAt r))),
     (''git'', map_option js_git_info (s_Git r)), (''tokens'', map_option js_token_usage (s_Tokens r))]"

definition js_session :: "(float64 \<Rightarrow> string) \<Rightarrow> session \<Rightarrow> json_value" where
  "js_session fmt r = js_object (session_fields fmt r)"

definition rd_session :: "(string \<Rightarrow> float64 option) \<Rightarrow> session reader" where
  "rd_session rd = rd_struct (\<lambda>kvs r. do {
     x1 \<leftarrow> get rd_string ''id'' kvs (s_ID r);
     x2 \<leftarrow> get rd_string ''machineId'' kvs (s_MachineID r);
     x3 \<leftarrow> get rd_string ''provider'' kvs (s_Provider r);
     x4 \<leftarrow> get rd_string ''status'' kvs (s_Status r);
     x5 \<leftarrow> get rd_string ''repo'' kvs (s_Repo r);
     x6 \<leftarrow> get rd_string ''branch'' kvs (s_Branch r);
     x7 \<leftarrow> get rd_string ''cwd'' kvs (s_CWD r);
     x8 \<leftarrow> get rd_int ''pid'' kvs (s_PID r);
     x9 \<leftarrow> get rd_string ''currentCommand'' kvs (s_CurrentCommand r);
     x10 \<leftarrow> get rd_string ''version'' kvs (s_Version r);
     x11 \<leftarrow> get rd_string ''tmuxSession'' kvs (s_TmuxSession r);
     x12 \<leftarrow> get (rd_float rd) ''cpuPct'' kvs (s_CPUPct r);
     x13 \<leftarrow> get rd_uint ''memBytes'' kvs (s_MemBytes r);
     x14 \<leftarrow> get rd_int ''startedAt'' kvs (s_StartedAt r);
     x15 \<leftarrow> get rd_int ''lastActivityAt'' kvs (s_LastActivityAt r);
     x16 \<leftarrow> get (rd_pointer rd_git_info zero_git_info) ''git'' kvs (s_Git r);
     x17 \<leftarrow> get (rd_pointer rd_token_usage zero_token_usage) ''tokens'' kvs (s_Tokens r);
     Some \<lparr>s_ID = x1, s_MachineID = x2, s_Provider = x3, s_Status = x4, s_Repo = x5, s_Branch = x6, s_CWD = x7,
           s_PID = x8, s_CurrentCommand = x9, s_Version = x10, s_TmuxSession = x11, s_CPUPct = x12,
           s_MemBytes = x13, s_StartedAt = x14, s_LastActivityAt = x15, s_Git = x16, s_Tokens = x17\<rparr> })"

definition machine_fields :: "(float64 \<Rightarrow> string) \<Rightarrow> machine \<Rightarrow> (string \<times> json_value option) list" where
  "machine_fields fmt r =
    [(''id'', Some (VStr (m_ID r))), (''hostname'', Some (VStr (m_Hostname r))),
     (''os'', Some (VStr (m_OS r))), (''arch'', Some (VStr (m_Arch r))),
     (''cpuCores'', Some (js_int (m_CPUCores r))), (''totalMem'', Some (js_uint (m_TotalMem r))),
     (''agentVersion'', Some (VStr (m_AgentVersion r))), (''online'', Some (VBool (m_Online r))),
     (''cpuPct'', Some (VNum (fmt (m_CPUPct r)))), (''memUsedBytes'', Some (js_uint (m_MemUsedBytes r))),
     (''load'', Some (VNum (fmt (m_Load r)))), (''lastSeenAt'', Some (js_int (m_LastSeenAt r)))]"

definition js_machine :: "(float64 \<Rightarrow> string) \<Rightarrow> machine \<Rightarrow> json_value" where
  "js_machine fmt r = js_object (machine_fields fmt r)"

definition rd_machine :: "(string \<Rightarrow> float64 option) \<Rightarrow> machine reader" where
  "rd_machine rd = rd_struct (\<lambda>kvs r. do {
     x1 \<leftarrow> get rd_string ''id'' kvs (m_ID r);
     x2 \<leftarrow> get rd_string ''hostname'' kvs (m_Hostname r);
     x3 \<leftarrow> get rd_string ''os'' kvs (m_OS r);
     x4 \<leftarrow> get rd_string ''arch'' kvs (m_Arch r);
     x5 \<leftarrow> get rd_int ''cpuCores'' kvs (m_CPUCores r);
     x6 \<leftarrow> get rd_uint ''totalMem'' kvs (m_TotalMem r);
     x7 \<leftarrow> get rd_string ''agentVersion'' kvs (m_AgentVersion r);
     x8 \<leftarrow> get rd_bool ''online'' kvs (m_Online r);
     x9 \<leftarrow> get (rd_float rd) ''cpuPct'' kvs (m_CPUPct r);
     x10 \<leftarrow> get rd_uint ''memUsedBytes'' kvs (m_MemUsedBytes r);
     x11 \<leftarrow> get (rd_float rd) ''load'' kvs (m_Load r);
     x12 \<leftarrow> get rd_int ''lastSeenAt'' kvs (m_LastSeenAt r);
     Some \<lparr>m_ID = x1, m_Hostname = x2, m_OS = x3, m_Arch = x4, m_CPUCores = x5, m_TotalMem = x6,
           m_AgentVersion = x7, m_Online = x8, m_CPUPct = x9, m_MemUsedBytes = x10, m_Load = x11,
           m_LastSeenAt = x12\<rparr> })"

definition zero_agent_hello :: agent_hello where
  "zero_agent_hello = \<lparr>ah_APIKey = '''', ah_AgentID = '''', ah_Hostname = '''', ah_OS = '''', ah_Arch = '''', ah_CPUCores = 0,
     ah_TotalMem = 0, ah_AgentVersion = ''''\<rparr>"

definition agent_hello_fields :: "agent_hello \<Rightarrow> (string \<times> json_value option) list" where
  "agent_hello_fields r =
    [(''apiKey'', Some (VStr (ah_APIKey r))), (''agentId'', Some (VStr (ah_AgentID r))),
     (''hostname'', Some (VStr (ah_Hostname r))), (''os'', Some (VStr (ah_OS r))),
     (''arch'', Some (VStr (ah_Arch r))), (''cpuCores'', Some (js_int (ah_CPUCores r))),
     (''totalMem'', Some (js_uint (ah_TotalMem r))), (''agentVersion'', Some (VStr (ah_AgentVersion r)))]"

definition js_agent_hello :: "agent_hello \<Rightarrow> json_value" where
  "js_agent_hello r = js_object (agent_hello_fields r)"

definition rd_agent_hello :: "agent_hello reader" where
  "rd_agent_hello = rd_struct (\<lambda>kvs r. do {
     x1 \<leftarrow> get rd_string ''apiKey'' kvs (ah_APIKey r);
     x2 \<leftarrow> get rd_string ''agentId'' kvs (ah_AgentID r);
     x3 \<leftarrow> get rd_string ''hostname'' kvs (ah_Hostname r);
     x4 \<leftarrow> get rd_string ''os'' kvs (ah_OS r);
     x5 \<leftarrow> get rd_string ''arch'' kvs (ah_Arch r);
     x6 \<leftarrow> get rd_int ''cpuCores'' kvs (ah_CPUCores r);
     x7 \<leftarrow> get rd_uint ''totalMem'' kvs (ah_TotalMem r);
     x8 \<leftarrow> get rd_string ''agentVersion'' kvs (ah_AgentVersion r);
     Some \<lparr>ah_APIKey = x1, ah_AgentID = x2, ah_Hostname = x3, ah_OS = x4, ah_Arch = x5, ah_CPUCores = x6,
           ah_TotalMem = x7, ah_AgentVersion = x8\<rparr> })"

definition zero_agent_heartbeat :: agent_heartbeat where
  "zero_agent_heartbeat = \<lparr>hb_AgentID = '''', hb_CPUPct = 0, hb_MemUsedBytes = 0, hb_Load = 0\<rparr>"

definition agent_heartbeat_fields :: "(float64 \<Rightarrow> string) \<Rightarrow> agent_heartbeat \<Rightarrow> (string \<times> json_value option) list" where
  "agent_heartbeat_fields fmt r =
    [(''agentId'', Some (VStr (hb_AgentID r))), (''cpuPct'', Some (VNum (fmt (hb_CPUPct r)))),
     (''memUsedBytes'', Some (js_uint (hb_MemUsedBytes r))), (''load'', Some (VNum (fmt (hb_Load r))))]"

definition js_agent_heartbeat :: "(float64 \<Rightarrow> string) \<Rightarrow> agent_heartbeat \<Rightarrow> json_value" where
  "js_agent_heartbeat fmt r = js_object (agent_heartbeat_fields fmt r)"

definition rd_agent_heartbeat :: "(string \<Rightarrow> float64 option) \<Rightarrow> agent_heartbeat reader" where
  "rd_agent_heartbeat rd = rd_struct (\<lambda>kvs r. do {
     x1 \<leftarrow> get rd_string ''agentId'' kvs (hb_AgentID r);
     x2 \<leftarrow> get (rd_float rd) ''cpuPct'' kvs (hb_CPUPct r);
     x3 \<leftarrow> get rd_uint ''memUsedBytes'' kvs (hb_MemUsedBytes r);
     x4 \<leftarrow> get (rd_float rd) ''load'' kvs (hb_Load r);
     Some \<lparr>hb_AgentID = x1, hb_CPUPct = x2, hb_MemUsedBytes = x3, hb_Load = x4\<rparr> })"

definition zero_log_append :: log_append where
  "zero_log_append = \<lparr>la_SessionID = '''', la_Seq = 0, la_Stream = '''', la_Line = '''', la_TS = 0\<rparr>"

definition log_append_fields :: "log_append \<Rightarrow> (string \<times> json_value option) list" where
  "log_append_fields r =
    [(''sessionId'', Some (VStr (la_SessionID r))), (''seq'', Some (js_int (la_Seq r))),
     (''stream'', Some (VStr (la_Stream r))), (''line'', Some (VStr (la_Line r))),
     (''ts'', Some (js_int (la_TS r)))]"

definition js_log_append :: "log_append \<Rightarrow> json_value" where
  "js_log_append r = js_object (log_append_fields r)"

definition rd_log_append :: "log_append reader" where
  "rd_log_append = rd_struct (\<lambda>kvs r. do {
     x1 \<leftarrow> get rd_string ''sessionId'' kvs (la_SessionID r);
     x2 \<leftarrow> get rd_int ''seq'' kvs (la_Seq r);
     x3 \<leftarrow> get rd_string ''stream'' kvs (la_Stream r);
     x4 \<leftarrow> get rd_string ''line'' kvs (la_Line r);
     x5 \<leftarrow> get rd_int ''ts'' kvs (la_TS r);
     Some \<lparr>la_SessionID = x1, la_Seq = x2, la_Stream = x3, la_Line = x4, la_TS = x5\<rparr> })"

definition zero_metric_sample :: metric_sample where
  "zero_metric_sample = \<lparr>ms_SessionID = '''', ms_CPUPct = 0, ms_MemBytes = 0, ms_TS = 0\<rparr>"

definition metric_sample_fields :: "(float64 \<Rightarrow> string) \<Rightarrow> metric_sample \<Rightarrow> (string \<times> json_value option) list" where
  "metric_sample_fields fmt r =
    [(''sessionId'', Some (VStr (ms_SessionID r))), (''cpuPct'', Some (VNum (fmt (ms_CPUPct r)))),
     (''memBytes'', Some (js_uint (ms_MemBytes r))), (''ts'', Some (js_int (ms_TS r)))]"

definition js_metric_sample :: "(float64 \<Rightarrow> string) \<Rightarrow> metric_sample \<Rightarrow> json_value" where
  "js_metric_sample fmt r = js_object (metric_sample_fields fmt r)"

definition rd_metric_sample :: "(string \<Rightarrow> float64 option) \<Rightarrow> metric_sample reader" where
  "rd_metric_sample rd = rd_struct (\<lambda>kvs r. do {
     x1 \<leftarrow> get rd_string ''sessionId'' kvs (ms_SessionID r);
     x2 \<leftarrow> get (rd_float rd) ''cpuPct'' kvs (ms_CPUPct r);
     x3 \<leftarrow> get rd_uint ''memBytes'' kvs (ms_MemBytes r);
     x4 \<leftarrow> get rd_int ''ts'' kvs (ms_TS r);
     Some \<lparr>ms_SessionID = x1, ms_CPUPct = x2, ms_MemBytes = x3, ms_TS = x4\<rparr> })"

definition zero_command_msg :: command_msg where
  "zero_command_msg = \<lparr>cmd_RequestID = '''', cmd_SessionID = '''', cmd_Action = ''''\<rparr>"

definition command_msg_fields :: "command_msg \<Rightarrow> (string \<times> json_value option) list" where
  "command_msg_fields r =
    [(''requestId'', Some (VStr (cmd_RequestID r))), (''sessionId'', Some (VStr (cmd_SessionID r))),
     (''action'', Some (VStr (cmd_Action r)))]"

definition js_command_msg :: "command_msg \<Rightarrow> json_value" where
  "js_command_msg r = js_object (command_msg_fields r)"

definition rd_command_msg :: "command_msg reader" where
  "rd_command_msg = rd_struct (\<lambda>kvs r. do {
     x1 \<leftarrow> get rd_string ''requestId'' kvs (cmd_RequestID r);
     x2 \<leftarrow> get rd_string ''sessionId'' kvs (cmd_SessionID r);
     x3 \<leftarrow> get rd_string ''action'' kvs (cmd_Action r);
     Some \<lparr>cmd_RequestID = x1, cmd_SessionID = x2, cmd_Action = x3\<rparr> })"

definition zero_command_result :: command_result where
  "zero_command_result = \<lparr>cr_RequestID = '''', cr_SessionID = '''', cr_OK = False, cr_Error = ''''\<rparr>"

definition command_result_fields :: "command_result \<Rightarrow> (string \<times> json_value option) list" where
  "command_result_fields r =
    [(''requestId'', Some (VStr (cr_RequestID r))), (''sessionId'', Some (VStr (cr_SessionID r))),
     (''ok'', Some (VBool (cr_OK r))), (''error'', omit (cr_Error r = []) (VStr (cr_Error r)))]"

definition js_command_result :: "command_result \<Rightarrow> json_value" where
  "js_command_result r = js_object (command_result_fields r)"

definition rd_command_result :: "command_result reader" where
  "rd_command_result = rd_struct (\<lambda>kvs r. do {
     x1 \<leftarrow> get rd_string ''requestId'' kvs (cr_RequestID r);
     x2 \<leftarrow> get rd_string ''sessionId'' kvs (cr_SessionID r);
     x3 \<leftarrow> get rd_bool ''ok'' kvs (cr_OK r);
     x4 \<leftarrow> get rd_string ''error'' kvs (cr_Error r);
     Some \<lparr>cr_RequestID = x1, cr_SessionID = x2, cr_OK = x3, cr_Error = x4\<rparr> })"

definition zero_agent_status :: agent_status where
  "zero_agent_status = \<lparr>as_MachineID = '''', as_Online = False\<rparr>"

definition agent_status_fields :: "agent_status \<Rightarrow> (string \<times> json_value option) list" where
  "agent_status_fields r =
    [(''machineId'', Some (VStr (as_MachineID r))), (''online'', Some (VBool (as_Online r)))]"

definition js_agent_status :: "agent_status \<Rightarrow> json_value" where
  "js_agent_status r = js_object (agent_status_fields r)"

definition rd_agent_status :: "agent_status reader" where
  "rd_agent_status = rd_struct (\<lambda>kvs r. do {
     x1 \<leftarrow> get rd_string ''machineId'' kvs (as_MachineID r);
     x2 \<leftarrow> get rd_bool ''online'' kvs (as_Online r);
     Some \<lparr>as_MachineID = x1, as_Online = x2\<rparr> })"

definition zero_event :: event where
  "zero_event = \<lparr>e_ID = '''', e_MachineID = '''', e_SessionID = '''', e_Kind = '''', e_Message = '''', e_Severity = '''',
     e_TS = 0, e_Meta = []\<rparr>"

definition event_fields :: "event \<Rightarrow> (string \<times> json_value option) list" where
  "event_fields r =
    [(''id'', Some (VStr (e_ID r))), (''machineId'', Some (VStr (e_MachineID r))),
     (''sessionId'', omit (e_SessionID r = []) (VStr (e_SessionID r))), (''kind'', Some (VStr (e_Kind r))),
     (''message'', Some (VStr (e_Message r))), (''severity'', Some (VStr (e_Severity r))),
     (''ts'', Some (js_int (e_TS r))), (''meta'', omit (e_Meta r = []) (js_map (e_Meta r)))]"

definition js_event :: "event \<Rightarrow> json_value" where
  "js_event r = js_object (event_fields r)"

definition rd_event :: "event reader" where
  "rd_event = rd_struct (\<lambda>kvs r. do {
     x1 \<leftarrow> get rd_string ''id'' kvs (e_ID r);
     x2 \<leftarrow> get rd_string ''machineId'' kvs (e_MachineID r);
     x3 \<leftarrow> get rd_string ''sessionId'' kvs (e_SessionID r);
     x4 \<leftarrow> get rd_string ''kind'' kvs (e_Kind r);
     x5 \<leftarrow> get rd_string ''message'' kvs (e_Message r);
     x6 \<leftarrow> get rd_string ''severity'' kvs (e_Severity r);
     x7 \<leftarrow> get rd_int ''ts'' kvs (e_TS r);
     x8 \<leftarrow> get rd_map ''meta'' kvs (e_Meta r);
     Some \<lparr>e_ID = x1, e_MachineID = x2, e_SessionID = x3, e_Kind = x4, e_Message = x5, e_Severity = x6,
           e_TS = x7, e_Meta = x8\<rparr> })"

definition zero_snapshot :: snapshot where
  "zero_snapshot = \<lparr>sn_Machines = [], sn_Sessions = [], sn_Events = []\<rparr>"

definition snapshot_fields :: "(float64 \<Rightarrow> string) \<Rightarrow> snapshot \<Rightarrow> (string \<times> json_value option) list" where
  "snapshot_fields fmt r =
    [(''machines'', Some (VArr (map (js_machine fmt) (sn_Machines r)))),
     (''sessions'', Some (VArr (map (js_session fmt) (sn_Sessions r)))),
     (''events'', Some (VArr (map js_event (sn_Events r))))]"

definition js_snapshot :: "(float64 \<Rightarrow> string) \<Rightarrow> snapshot \<Rightarrow> json_value" where
  "js_snapshot fmt r = js_object (snapshot_fields fmt r)"

definition rd_snapshot :: "(string \<Rightarrow> float64 option) \<Rightarrow> snapshot reader" where
  "rd_snapshot rd = rd_struct (\<lambda>kvs r. do {
     x1 \<leftarrow> get (rd_list (rd_machine rd) zero_machine) ''machines'' kvs (sn_Machines r);
     x2 \<leftarrow> get (rd_list (rd_session rd) zero_session) ''sessions'' kvs (sn_Sessions r);
     x3 \<leftarrow> get (rd_list rd_event zero_event) ''events'' kvs (sn_Events r);
     Some \<lparr>sn_Machines = x1, sn_Sessions = x2, sn_Events = x3\<rparr> })"

definition zero_terminal_open :: terminal_open where
  "zero_terminal_open = \<lparr>to_PTYID = '''', to_MachineID = '''', to_Provider = '''', to_CWD = '''', to_InitialText = '''',
     to_Cols = 0, to_Rows = 0\<rparr>"

definition terminal_open_fields :: "terminal_open \<Rightarrow> (string \<times> json_value option) list" where
  "terminal_open_fields r =
    [(''ptyId'', Some (VStr (to_PTYID r))), (''machineId'', Some (VStr (to_MachineID r))),
     (''provider'', Some (VStr (to_Provider r))), (''cwd'', Some (VStr (to_CWD r))),
     (''initialText'', omit (to_InitialText r = []) (VStr (to_InitialText r))),
     (''cols'', Some (js_int (to_Cols r))), (''rows'', Some (js_int (to_Rows r)))]"

definition js_terminal_open :: "terminal_open \<Rightarrow> json_value" where
  "js_terminal_open r = js_object (terminal_open_fields r)"

definition rd_terminal_open :: "terminal_open reader" where
  "rd_terminal_open = rd_struct (\<lambda>kvs r. do {
     x1 \<leftarrow> get rd_string ''ptyId'' kvs (to_PTYID r);
     x2 \<leftarrow> get rd_string ''machineId'' kvs (to_MachineID r);
     x3 \<leftarrow> get rd_string ''provider'' kvs (to_Provider r);
     x4 \<leftarrow> get rd_string ''cwd'' kvs (to_CWD r);
     x5 \<leftarrow> get rd_string ''initialText'' kvs (to_InitialText r);
     x6 \<leftarrow> get rd_int ''cols'' kvs (to_Cols r);
     x7 \<leftarrow> get rd_int ''rows'' kvs (to_Rows r);
     Some \<lparr>to_PTYID = x1, to_MachineID = x2, to_Provider = x3, to_CWD = x4, to_InitialText = x5, to_Cols = x6,
           to_Rows = x7\<rparr> })"

definition zero_terminal_attach :: terminal_attach where
  "zero_terminal_attach = \<lparr>ta_PTYID = '''', ta_MachineID = '''', ta_SessionID = '''', ta_Cols = 0, ta_Rows = 0\<rparr>"

definition terminal_attach_fields :: "terminal_attach \<Rightarrow> (string \<times> json_value option) list" where
  "terminal_attach_fields r =
    [(''ptyId'', Some (VStr (ta_PTYID r))), (''machineId'', Some (VStr (ta_MachineID r))),
     (''sessionId'', Some (VStr (ta_SessionID r))), (''cols'', Some (js_int (ta_Cols r))),
     (''rows'', Some (js_int (ta_Rows r)))]"

definition js_terminal_attach :: "terminal_attach \<Rightarrow> json_value" where
  "js_terminal_attach r = js_object (terminal_attach_fields r)"

definition rd_terminal_attach :: "terminal_attach reader" where
  "rd_terminal_attach = rd_struct (\<lambda>kvs r. do {
     x1 \<leftarrow> get rd_string ''ptyId'' kvs (ta_PTYID r);
     x2 \<leftarrow> get rd_string ''machineId'' kvs (ta_MachineID r);
     x3 \<leftarrow> get rd_string ''sessionId'' kvs (ta_SessionID r);
     x4 \<leftarrow> get rd_int ''cols'' kvs (ta_Cols r);
     x5 \<leftarrow> get rd_int ''rows'' kvs (ta_Rows r);
     Some \<lparr>ta_PTYID = x1, ta_MachineID = x2, ta_SessionID = x3, ta_Cols = x4, ta_Rows = x5\<rparr> })"

definition zero_terminal_data :: terminal_data where
  "zero_terminal_data = \<lparr>td_PTYID = '''', td_Data = ''''\<rparr>"

definition terminal_data_fields :: "terminal_data \<Rightarrow> (string \<times> json_value option) list" where
  "terminal_data_fields r =
    [(''ptyId'', Some (VStr (td_PTYID r))), (''data'', Some (VStr (td_Data r)))]"

definition js_terminal_data :: "terminal_data \<Rightarrow> json_value" where
  "js_terminal_data r = js_object (terminal_data_fields r)"

definition rd_terminal_data :: "terminal_data reader" where
  "rd_terminal_data = rd_struct (\<lambda>kvs r. do {
     x1 \<leftarrow> get rd_string ''ptyId'' kvs (td_PTYID r);
     x2 \<leftarrow> get rd_string ''data'' kvs (td_Data r);
     Some \<lparr>td_PTYID = x1, td_Data = x2\<rparr> })"

definition zero_terminal_resize :: terminal_resize where
  "zero_terminal_resize = \<lparr>tr_PTYID = '''', tr_Cols = 0, tr_Rows = 0\<rparr>"

definition terminal_resize_fields :: "terminal_resize \<Rightarrow> (string \<times> json_value option) list" where
  "terminal_resize_fields r =
    [(''ptyId'', Some (VStr (tr_PTYID r))), (''cols'', Some (js_int (tr_Cols r))),
     (''rows'', Some (js_int (tr_Rows r)))]"

definition js_terminal_resize :: "terminal_resize \<Rightarrow> json_value" where
  "js_terminal_resize r = js_object (terminal_resize_fields r)"

definition rd_terminal_resize :: "terminal_resize reader" where
  "rd_terminal_resize = rd_struct (\<lambda>kvs r. do {
     x1 \<leftarrow> get rd_string ''ptyId'' kvs (tr_PTYID r);
     x2 \<leftarrow> get rd_int ''cols'' kvs (tr_Cols r);
     x3 \<leftarrow> get rd_int ''rows'' kvs (tr_Rows r);
     Some \<lparr>tr_PTYID = x1, tr_Cols = x2, tr_Rows = x3\<rparr> })"

definition zero_terminal_opened :: terminal_opened where
  "zero_terminal_opened = \<lparr>tp_PTYID = '''', tp_SessionID = '''', tp_OK = False, tp_Error = ''''\<rparr>"

definition terminal_opened_fields :: "terminal_opened \<Rightarrow> (string \<times> json_value option) list" where
  "terminal_opened_fields r =
    [(''ptyId'', Some (VStr (tp_PTYID r))), (''sessionId'', Some (VStr (tp_SessionID r))),
     (''ok'', Some (VBool (tp_OK r))), (''error'', omit (tp_Error r = []) (VStr (tp_Error r)))]"

definition js_terminal_opened :: "terminal_opened \<Rightarrow> json_value" where
  "js_terminal_opened r = js_object (terminal_opened_fields r)"

definition rd_terminal_opened :: "terminal_opened reader" where
  "rd_terminal_opened = rd_struct (\<lambda>kvs r. do {
     x1 \<leftarrow> get rd_string ''ptyId'' kvs (tp_PTYID r);
     x2 \<leftarrow> get rd_string ''sessionId'' kvs (tp_SessionID r);
     x3 \<leftarrow> get rd_bool ''ok'' kvs (tp_OK r);
     x4 \<leftarrow> get rd_string ''error'' kvs (tp_Error r);
     Some \<lparr>tp_PTYID = x1, tp_SessionID = x2, tp_OK = x3, tp_Error = x4\<rparr> })"

definition zero_terminal_exit :: terminal_exit where
  "zero_terminal_exit = \<lparr>tx_PTYID = '''', tx_Code = 0\<rparr>"

definition terminal_exit_fields :: "terminal_exit \<Rightarrow> (string \<times> json_value option) list" where
  "terminal_exit_fields r =
    [(''ptyId'', Some (VStr (tx_PTYID r))), (''code'', Some (js_int (tx_Code r)))]"

definition js_terminal_exit :: "terminal_exit \<Rightarrow> json_value" where
  "js_terminal_exit r = js_object (terminal_exit_fields r)"

definition rd_terminal_exit :: "terminal_exit reader" where
  "rd_terminal_exit = rd_struct (\<lambda>kvs r. do {
     x1 \<leftarrow> get rd_string ''ptyId'' kvs (tx_PTYID r);
     x2 \<leftarrow> get rd_int ''code'' kvs (tx_Code r);
     Some \<lparr>tx_PTYID = x1, tx_Code = x2\<rparr> })"

subsection \<open>Payloads by type\<close>

text \<open>The payload structs with a single field.\<close>

definition js_field :: "string \<Rightarrow> json_value \<Rightarrow> json_value" where
  "js_field n v = js_object [(n, Some v)]"

definition rd_field :: "'a reader \<Rightarrow> string \<Rightarrow> 'a reader" where
  "rd_field f n = rd_struct (get f n)"

fun payload_json :: "(float64 \<Rightarrow> string) \<Rightarrow> wire \<Rightarrow> json_value option" where
  "payload_json fmt (AgentHello (Some r)) = Some (js_agent_hello r)"
| "payload_json fmt (AgentHeartbeat (Some r)) = Some (js_agent_heartbeat fmt r)"
| "payload_json fmt (SessionUpsert (Some r)) = Some (js_field ''session'' (js_session fmt r))"
| "payload_json fmt (SessionRemoved (Some r)) = Some (js_field ''sessionId'' (VStr r))"
| "payload_json fmt (LogAppend (Some r)) = Some (js_log_append r)"
| "payload_json fmt (MetricSample (Some r)) = Some (js_metric_sample fmt r)"
| "payload_json fmt (CommandAck (Some r)) = Some (js_field ''requestId'' (VStr r))"
| "payload_json fmt (CommandResult (Some r)) = Some (js_command_result r)"
| "payload_json fmt (EventReport (Some r)) = Some (js_field ''event'' (js_event r))"
| "payload_json fmt (Command (Some r)) = Some (js_command_msg r)"
| "payload_json fmt (Snapshot (Some r)) = Some (js_snapshot fmt r)"
| "payload_json fmt (MachineUpsert (Some r)) = Some (js_field ''machine'' (js_machine fmt r))"
| "payload_json fmt (MachineRemoved (Some r)) = Some (js_field ''machineId'' (VStr r))"
| "payload_json fmt (AgentStatus (Some r)) = Some (js_agent_status r)"
| "payload_json fmt (EventAppend (Some r)) = Some (js_field ''event'' (js_event r))"
| "payload_json fmt (TerminalOpen (Some r)) = Some (js_terminal_open r)"
| "payload_json fmt (TerminalAttach (Some r)) = Some (js_terminal_attach r)"
| "payload_json fmt (TerminalInput (Some r)) = Some (js_terminal_data r)"
| "payload_json fmt (TerminalResize (Some r)) = Some (js_terminal_resize r)"
| "payload_json fmt (TerminalClose (Some r)) = Some (js_field ''ptyId'' (VStr r))"
| "payload_json fmt (TerminalOutput (Some r)) = Some (js_terminal_data r)"
| "payload_json fmt (TerminalOpened (Some r)) = Some (js_terminal_opened r)"
| "payload_json fmt (TerminalExit (Some r)) = Some (js_terminal_exit r)"
| "payload_json fmt _ = None"

text \<open>\<open>protocol.As\<close>: an absent payload is no JSON text.\<close>

definition As :: "'a reader \<Rightarrow> 'a \<Rightarrow> json_value option \<Rightarrow> 'a option" where
  "As f zero p = (case p of None \<Rightarrow> None | Some v \<Rightarrow> f v zero)"

definition wire_of :: "(string \<Rightarrow> float64 option) \<Rightarrow> string \<Rightarrow> json_value option \<Rightarrow> wire" where
  "wire_of rd t p =
    (if t = ''agent.hello'' then AgentHello (As rd_agent_hello zero_agent_hello p)
     else if t = ''agent.heartbeat'' then AgentHeartbeat (As (rd_agent_heartbeat rd) zero_agent_heartbeat p)
     else if t = ''session.upsert'' then SessionUpsert (As (rd_field (rd_session rd) ''session'') zero_session p)
     else if t = ''session.removed'' then SessionRemoved (As (rd_field rd_string ''sessionId'') '''' p)
     else if t = ''log.append'' then LogAppend (As rd_log_append zero_log_append p)
     else if t = ''metric.sample'' then MetricSample (As (rd_metric_sample rd) zero_metric_sample p)
     else if t = ''command.ack'' then CommandAck (As (rd_field rd_string ''requestId'') '''' p)
     else if t = ''command.result'' then CommandResult (As rd_command_result zero_command_result p)
     else if t = ''event.report'' then EventReport (As (rd_field rd_event ''event'') zero_event p)
     else if t = ''command'' then Command (As rd_command_msg zero_command_msg p)
     else if t = ''snapshot'' then Snapshot (As (rd_snapshot rd) zero_snapshot p)
     else if t = ''machine.upsert'' then MachineUpsert (As (rd_field (rd_machine rd) ''machine'') zero_machine p)
     else if t = ''machine.removed'' then MachineRemoved (As (rd_field rd_string ''machineId'') '''' p)
     else if t = ''agent.status'' then AgentStatus (As rd_agent_status zero_agent_status p)
     else if t = ''event.append'' then EventAppend (As (rd_field rd_event ''event'') zero_event p)
     else if t = ''terminal.open'' then TerminalOpen (As rd_terminal_open zero_terminal_open p)
     else if t = ''terminal.attach'' then TerminalAttach (As rd_terminal_attach zero_terminal_attach p)
     else if t = ''terminal.input'' then TerminalInput (As rd_terminal_data zero_terminal_data p)
     else if t = ''terminal.resize'' then TerminalResize (As rd_terminal_resize zero_terminal_resize p)
     else if t = ''terminal.close'' then TerminalClose (As (rd_field rd_string ''ptyId'') '''' p)
     else if t = ''terminal.output'' then TerminalOutput (As rd_terminal_data zero_terminal_data p)
     else if t = ''terminal.opened'' then TerminalOpened (As rd_terminal_opened zero_terminal_opened p)
     else if t = ''terminal.exit'' then TerminalExit (As rd_terminal_exit zero_terminal_exit p)
     else OtherType t)"

subsection \<open>Envelopes\<close>

definition rd_raw :: "json_value option reader" where
  "rd_raw v old = Some (Some v)"

definition js_envelope :: "envelope \<Rightarrow> json_value \<Rightarrow> json_value" where
  "js_envelope env p = js_object
    [(''v'', Some (js_int (env_V env))), (''type'', Some (VStr (msg_type (env_Msg env)))),
     (''ts'', Some (js_int (env_TS env))), (''id'', omit (env_ID env = []) (VStr (env_ID env))),
     (''payload'', Some p)]"

text \<open>\<open>Encode\<close>: \<open>None\<close> is the error of \<open>json.Marshal\<close>.\<close>

definition encode_text :: "(float64 \<Rightarrow> string) \<Rightarrow> int \<Rightarrow> wire \<Rightarrow> string option" where
  "encode_text fmt now w = do {
     env \<leftarrow> Encode now w;
     p \<leftarrow> payload_json fmt (env_Msg env);
     Some (print_json (js_envelope env p)) }"

text \<open>\<open>Decode\<close>, with the payload read as the struct of its type.\<close>

definition rd_envelope :: "(string \<Rightarrow> float64 option) \<Rightarrow> envelope reader" where
  "rd_envelope rd = rd_struct (\<lambda>kvs r. do {
     v \<leftarrow> get rd_int ''v'' kvs (env_V r);
     t \<leftarrow> get rd_string ''type'' kvs (msg_type (env_Msg r));
     ts \<leftarrow> get rd_int ''ts'' kvs (env_TS r);
     i \<leftarrow> get rd_string ''id'' kvs (env_ID r);
     p \<leftarrow> get rd_raw ''payload'' kvs None;
     Some \<lparr>env_V = v, env_TS = ts, env_ID = i, env_Msg = wire_of rd t p\<rparr> })"

definition Decode :: "(string \<Rightarrow> float64 option) \<Rightarrow> string \<Rightarrow> envelope option" where
  "Decode rd s = do {
     v \<leftarrow> parse_json s;
     rd_envelope rd v \<lparr>env_V = 0, env_TS = 0, env_ID = [], env_Msg = OtherType []\<rparr> }"

end
