(* ===== verification/Rest_Bodies.thy ===== *)
theory Rest_Bodies
  imports Auth_Handlers Handlers Enroll_Handlers Wire_Codec
begin

section \<open>The bodies of REST requests\<close>

text \<open>
  Models \<open>decodeJSON\<close> of \<open>auth_handlers.go\<close> and the request structs of the handlers with their tags. A body is read by
  \<open>json.Decoder\<close>: its first value is decoded and what follows it is not looked at. \<open>None\<close> stands for a body that could
  not be read.
\<close>

definition first_json :: "string \<Rightarrow> json_value option" where
  "first_json s = map_option fst (parse_value (parse_fuel s) maxNestingDepth s)"

definition decodeJSON :: "'a reader \<Rightarrow> 'a \<Rightarrow> string option \<Rightarrow> 'a option" where
  "decodeJSON f zero body =
     (case body of None \<Rightarrow> None
      | Some s \<Rightarrow> (case first_json s of None \<Rightarrow> None | Some v \<Rightarrow> f v zero))"

subsection \<open>Request structs\<close>

definition registerReq :: "register_req reader" where
  "registerReq = rd_struct (\<lambda>kvs r. do {
     e \<leftarrow> get rd_string ''email'' kvs (rg_Email r);
     p \<leftarrow> get rd_string ''password'' kvs (rg_Password r);
     g \<leftarrow> get rd_string ''orgName'' kvs (rg_OrgName r);
     Some \<lparr>rg_Email = e, rg_Password = p, rg_OrgName = g\<rparr> })"

definition loginReq :: "login_req reader" where
  "loginReq = rd_struct (\<lambda>kvs r. do {
     e \<leftarrow> get rd_string ''email'' kvs (lg_Email r);
     p \<leftarrow> get rd_string ''password'' kvs (lg_Password r);
     Some \<lparr>lg_Email = e, lg_Password = p\<rparr> })"

definition acceptInviteReq :: "accept_invite_req reader" where
  "acceptInviteReq = rd_struct (\<lambda>kvs r. do {
     t \<leftarrow> get rd_string ''token'' kvs (ai_Token r);
     p \<leftarrow> get rd_string ''password'' kvs (ai_Password r);
     Some \<lparr>ai_Token = t, ai_Password = p\<rparr> })"

definition changePasswordReq :: "change_password_req reader" where
  "changePasswordReq = rd_struct (\<lambda>kvs r. do {
     c \<leftarrow> get rd_string ''currentPassword'' kvs (cp_CurrentPassword r);
     n \<leftarrow> get rd_string ''newPassword'' kvs (cp_NewPassword r);
     Some \<lparr>cp_CurrentPassword = c, cp_NewPassword = n\<rparr> })"

definition setRoleReq :: "string reader" where
  "setRoleReq = rd_struct (\<lambda>kvs r. get rd_string ''role'' kvs r)"

definition createInviteReq :: "create_invite_req reader" where
  "createInviteReq = rd_struct (\<lambda>kvs r. do {
     e \<leftarrow> get rd_string ''email'' kvs (cv_Email r);
     x \<leftarrow> get rd_string ''role'' kvs (cv_Role r);
     Some \<lparr>cv_Email = e, cv_Role = x\<rparr> })"

definition approveUserReq :: "approve_user_req reader" where
  "approveUserReq = rd_struct (\<lambda>kvs r. do {
     g \<leftarrow> get rd_string ''orgId'' kvs (av_OrgID r);
     n \<leftarrow> get rd_string ''newOrgName'' kvs (av_NewOrgName r);
     x \<leftarrow> get rd_string ''role'' kvs (av_Role r);
     Some \<lparr>av_OrgID = g, av_NewOrgName = n, av_Role = x\<rparr> })"

definition reassignMachineReq :: "string reader" where
  "reassignMachineReq = rd_struct (\<lambda>kvs r. get rd_string ''orgId'' kvs r)"

definition pushSubscribeReq :: "push_sub reader" where
  "pushSubscribeReq = rd_struct (\<lambda>kvs r. do {
     e \<leftarrow> get rd_string ''endpoint'' kvs (pu_Endpoint r);
     (k, a) \<leftarrow> get (rd_struct (\<lambda>ks (k, a). do {
         k \<leftarrow> get rd_string ''p256dh'' ks k;
         a \<leftarrow> get rd_string ''auth'' ks a;
         Some (k, a) })) ''keys'' kvs (pu_P256dh r, pu_Auth r);
     Some \<lparr>pu_Endpoint = e, pu_P256dh = k, pu_Auth = a\<rparr> })"

definition pushUnsubscribeReq :: "string reader" where
  "pushUnsubscribeReq = rd_struct (\<lambda>kvs r. get rd_string ''endpoint'' kvs r)"

definition EnrollRequest :: "enroll_request reader" where
  "EnrollRequest = rd_struct (\<lambda>kvs r. do {
     t \<leftarrow> get rd_string ''token'' kvs (eq_Token r);
     m \<leftarrow> get rd_string ''machineId'' kvs (eq_MachineID r);
     h \<leftarrow> get rd_string ''hostname'' kvs (eq_Hostname r);
     x \<leftarrow> get rd_string ''os'' kvs (eq_OS r);
     c \<leftarrow> get rd_string ''arch'' kvs (eq_Arch r);
     Some \<lparr>eq_Token = t, eq_MachineID = m, eq_Hostname = h, eq_OS = x, eq_Arch = c\<rparr> })"

text \<open>
  The error of decoding a token request is dropped. \<open>json\<close> leaves a field alone whose value does not fit it and goes on
  with the next, so the handler works with what could be decoded.
\<close>

definition get_lenient :: "'a reader \<Rightarrow> string \<Rightarrow> (string \<times> json_value) list \<Rightarrow> 'a \<Rightarrow> 'a" where
  "get_lenient f n kvs old = foldl (\<lambda>x v. case f v x of None \<Rightarrow> x | Some y \<Rightarrow> y) old (matches n kvs)"

definition createTokenReq :: "string option \<Rightarrow> create_token_req" where
  "createTokenReq body =
     (case body of None \<Rightarrow> \<lparr>ct_Label = [], ct_TTLMinutes = 0\<rparr>
      | Some s \<Rightarrow> (case first_json s of
            Some (VObj kvs) \<Rightarrow> \<lparr>ct_Label = get_lenient rd_string ''label'' kvs [],
              ct_TTLMinutes = get_lenient rd_int ''ttlMinutes'' kvs 0\<rparr>
          | _ \<Rightarrow> \<lparr>ct_Label = [], ct_TTLMinutes = 0\<rparr>))"

subsection \<open>Bodies\<close>

definition register_body :: "string option \<Rightarrow> register_req option" where
  "register_body = decodeJSON registerReq \<lparr>rg_Email = [], rg_Password = [], rg_OrgName = []\<rparr>"

definition login_body :: "string option \<Rightarrow> login_req option" where
  "login_body = decodeJSON loginReq \<lparr>lg_Email = [], lg_Password = []\<rparr>"

definition accept_body :: "string option \<Rightarrow> accept_invite_req option" where
  "accept_body = decodeJSON acceptInviteReq \<lparr>ai_Token = [], ai_Password = []\<rparr>"

definition password_body :: "string option \<Rightarrow> change_password_req option" where
  "password_body = decodeJSON changePasswordReq \<lparr>cp_CurrentPassword = [], cp_NewPassword = []\<rparr>"

definition role_body :: "string option \<Rightarrow> string option" where
  "role_body = decodeJSON setRoleReq []"

definition invite_body :: "string option \<Rightarrow> create_invite_req option" where
  "invite_body = decodeJSON createInviteReq \<lparr>cv_Email = [], cv_Role = []\<rparr>"

definition approve_body :: "string option \<Rightarrow> approve_user_req option" where
  "approve_body = decodeJSON approveUserReq \<lparr>av_OrgID = [], av_NewOrgName = [], av_Role = []\<rparr>"

definition org_body :: "string option \<Rightarrow> string option" where
  "org_body = decodeJSON reassignMachineReq []"

definition subscribe_body :: "string option \<Rightarrow> push_sub option" where
  "subscribe_body = decodeJSON pushSubscribeReq \<lparr>pu_Endpoint = [], pu_P256dh = [], pu_Auth = []\<rparr>"

definition endpoint_body :: "string option \<Rightarrow> string option" where
  "endpoint_body = decodeJSON pushUnsubscribeReq []"

definition enroll_body :: "string option \<Rightarrow> enroll_request option" where
  "enroll_body = decodeJSON EnrollRequest
     \<lparr>eq_Token = [], eq_MachineID = [], eq_Hostname = [], eq_OS = [], eq_Arch = []\<rparr>"

subsection \<open>Laws\<close>

text \<open>What a client writes is read as it is, whatever follows it.\<close>

lemma first_json_print:
  assumes "wf_json j" and "json_depth j \<le> maxNestingDepth" and "closes t"
  shows "first_json (print_json j @ t) = Some j"
  using parse_print [OF assms, of "parse_fuel (print_json j @ t)"]
  by (simp add: first_json_def parse_fuel_def)

lemma decodeJSON_object:
  assumes "list_all (\<lambda>(k, x). valid_utf8 k \<and> valid_utf8 x) kvs"
  shows "decodeJSON f zero (Some (print_json (VObj (map (\<lambda>(k, x). (k, VStr x)) kvs)))) =
    f (VObj (map (\<lambda>(k, x). (k, VStr x)) kvs)) zero"
proof -
  let ?j = "VObj (map (\<lambda>(k, x). (k, VStr x)) kvs)"
  have "foldr max (map (\<lambda>(k, v). json_depth v) (map (\<lambda>(k, x). (k, VStr x)) kvs)) 0 = 0"
    by (induction kvs) auto
  then have "json_depth ?j \<le> maxNestingDepth" by (simp add: maxNestingDepth_def)
  moreover have "wf_json ?j" using assms by (auto simp: list_all_iff)
  ultimately show ?thesis
    using first_json_print [of ?j "[]"] by (simp add: decodeJSON_def closes_def)
qed

end
