(* ===== verification/Router.thy ===== *)
theory Router
  imports Auth_Handlers Handlers Web_Assets Rest_Bodies
begin

section \<open>The route table\<close>

text \<open>
  Models \<open>router\<close> of \<open>internal/server/server.go\<close>: which handler answers a request, behind which guards, with
  every handler composed as the code composes it. What is not in the repository is the record \<open>platform\<close>: the
  matching of a path against the patterns of a router (\<open>chi\<close>), the CORS middleware, the order in
  which the engine scans a table, the file system, the mail and push services.
\<close>

subsection \<open>Requests and answers\<close>

record request =
  rq_Method :: string
  rq_Path :: string
  rq_Query :: "string \<Rightarrow> string"
  rq_Header :: "string \<Rightarrow> string"
  rq_Auth :: http_request
  rq_Base :: http_base
  rq_Body :: "string option"
  rq_Upgraded :: bool
  rq_First :: "string option"

datatype content =
    CNone
  | CHealth "string \<times> int"
  | CSocket ws_outcome
  | CScript "string \<times> string"
  | CFile served
  | CStatus string
  | CAuth auth_resp
  | CEnrolled enroll_response
  | CPublished publish_reply
  | CMe me_view
  | CPushKey "string \<times> bool"
  | CSent nat
  | CMachines "machine list"
  | CSessions "session list"
  | CSession session
  | CCommand command_reply
  | CLogs log_page
  | CMetrics "metric_sample list"
  | CEvents "event list"
  | CFiles "file_meta list"
  | CDownload download
  | CTokens "token_view list"
  | CToken token_reply
  | CUsers "user_view list"
  | CInvites "invite_view list"
  | CInvite invite_reply
  | CPending "pending_user_view list"
  | COrgs "org_item list"
  | CApproved approve_reply
  | CAdminMachines "admin_machine_view list"
  | CReassigned "string \<times> string"

fun map_reply :: "('a \<Rightarrow> 'b) \<Rightarrow> 'a response \<Rightarrow> 'b response" where
  "map_reply f (Error n code msg) = Error n code msg"
| "map_reply f (Reply n x) = Reply n (f x)"

text \<open>A handler that only reads, and one that may change the server.\<close>

definition reads :: "('a \<Rightarrow> content) \<Rightarrow> 'a response \<Rightarrow> server \<Rightarrow> server \<times> content response" where
  "reads f r s = (s, map_reply f r)"

definition writes :: "('a \<Rightarrow> content) \<Rightarrow> server \<times> 'a response \<Rightarrow> server \<times> content response" where
  "writes f p = (fst p, map_reply f (snd p))"

text \<open>A file served; the status of the file server's own answers (not modified, partial) is \<open>net/http\<close>'s.\<close>

fun file_reply :: "served \<Rightarrow> content response" where
  "file_reply (NotFound e) = Error 404 [] (Text e)"
| "file_reply f = Reply 200 (CFile f)"

text \<open>The upgrader answers a failed upgrade itself.\<close>

fun socket_reply :: "ws_outcome \<Rightarrow> content response" where
  "socket_reply (WSRejected n) = Reply n (CSocket (WSRejected n))"
| "socket_reply WSUpgradeFailed = Reply 400 (CSocket WSUpgradeFailed)"
| "socket_reply w = Reply 101 (CSocket w)"

subsection \<open>The table\<close>

datatype root_endpoint =
    EpHealth | EpWS | EpInstallScript | EpInstallPowershell | EpDownloadBinary
  | EpRegister | EpLogin | EpAcceptInvite | EpEnroll | EpPublish

datatype user_endpoint =
    EpMe | EpChangePassword | EpPushVAPIDKey | EpPushSubscribe | EpPushUnsubscribe | EpPushTest
  | EpListMachines | EpDeleteMachine | EpListSessions | EpGetSession | EpStopSession | EpRestartSession
  | EpGetLogs | EpGetMetrics | EpListEvents | EpListFiles | EpDownloadFile
  | EpListEnrollTokens | EpCreateEnrollToken | EpRevokeEnrollToken
  | EpListOrgUsers | EpSetUserRole | EpRemoveUser | EpListInvites | EpCreateInvite | EpRevokeInvite

datatype admin_endpoint =
    EpListPendingUsers | EpAdminListOrgs | EpApproveUser | EpRejectUser | EpAdminListMachines | EpReassignMachine

datatype api_endpoint = UserEp user_endpoint | AdminEp admin_endpoint

type_synonym 'e routes = "(string \<times> string \<times> 'e) list"

definition root_routes :: "root_endpoint routes" where
  "root_routes =
    [(''GET'', ''/healthz'', EpHealth),
     (''GET'', ''/ws'', EpWS),
     (''GET'', ''/install.sh'', EpInstallScript),
     (''GET'', ''/install.ps1'', EpInstallPowershell),
     (''GET'', ''/download/{name}'', EpDownloadBinary),
     (''POST'', ''/api/v1/auth/register'', EpRegister),
     (''POST'', ''/api/v1/auth/login'', EpLogin),
     (''POST'', ''/api/v1/auth/accept-invite'', EpAcceptInvite),
     (''POST'', ''/api/v1/enroll'', EpEnroll),
     (''POST'', ''/api/v1/publish'', EpPublish)]"

definition api_routes :: "api_endpoint routes" where
  "api_routes =
    [(''GET'', ''/me'', UserEp EpMe),
     (''POST'', ''/me/password'', UserEp EpChangePassword),
     (''GET'', ''/push/vapid-key'', UserEp EpPushVAPIDKey),
     (''POST'', ''/push/subscribe'', UserEp EpPushSubscribe),
     (''POST'', ''/push/unsubscribe'', UserEp EpPushUnsubscribe),
     (''POST'', ''/push/test'', UserEp EpPushTest),
     (''GET'', ''/machines'', UserEp EpListMachines),
     (''DELETE'', ''/machines/{id}'', UserEp EpDeleteMachine),
     (''GET'', ''/sessions'', UserEp EpListSessions),
     (''GET'', ''/sessions/{id}'', UserEp EpGetSession),
     (''POST'', ''/sessions/{id}/stop'', UserEp EpStopSession),
     (''POST'', ''/sessions/{id}/restart'', UserEp EpRestartSession),
     (''GET'', ''/logs/{id}'', UserEp EpGetLogs),
     (''GET'', ''/metrics/{id}'', UserEp EpGetMetrics),
     (''GET'', ''/events'', UserEp EpListEvents),
     (''GET'', ''/files'', UserEp EpListFiles),
     (''GET'', ''/files/{id}'', UserEp EpDownloadFile),
     (''GET'', ''/enroll-tokens'', UserEp EpListEnrollTokens),
     (''POST'', ''/enroll-tokens'', UserEp EpCreateEnrollToken),
     (''DELETE'', ''/enroll-tokens/{token}'', UserEp EpRevokeEnrollToken),
     (''GET'', ''/org/users'', UserEp EpListOrgUsers),
     (''PATCH'', ''/org/users/{id}'', UserEp EpSetUserRole),
     (''DELETE'', ''/org/users/{id}'', UserEp EpRemoveUser),
     (''GET'', ''/org/invites'', UserEp EpListInvites),
     (''POST'', ''/org/invites'', UserEp EpCreateInvite),
     (''DELETE'', ''/org/invites/{token}'', UserEp EpRevokeInvite),
     (''GET'', ''/admin/pending-users'', AdminEp EpListPendingUsers),
     (''GET'', ''/admin/orgs'', AdminEp EpAdminListOrgs),
     (''POST'', ''/admin/users/{id}/approve'', AdminEp EpApproveUser),
     (''DELETE'', ''/admin/users/{id}'', AdminEp EpRejectUser),
     (''GET'', ''/admin/machines'', AdminEp EpAdminListMachines),
     (''POST'', ''/admin/machines/{id}/reassign'', AdminEp EpReassignMachine)]"

record cors_options =
  co_AllowedOrigins :: "string list"
  co_AllowedMethods :: "string list"
  co_AllowedHeaders :: "string list"
  co_AllowCredentials :: bool

definition cors_of :: "string list \<Rightarrow> cors_options" where
  "cors_of origins = \<lparr>co_AllowedOrigins = origins,
     co_AllowedMethods = [''GET'', ''POST'', ''DELETE'', ''OPTIONS''],
     co_AllowedHeaders = [''Authorization'', ''Content-Type'', ''X-API-Key'', ''X-MC-Session'', ''X-MC-Filename''],
     co_AllowCredentials = False\<rparr>"

subsection \<open>Dispatch\<close>

text \<open>
  \<open>pf_find\<close> yields the index of the route of a table that a method and a path select, with the URL parameters;
  \<open>pf_405\<close> tells that a path is known under other methods only; \<open>pf_cors\<close> that the CORS middleware answers the
  request (a preflight) itself.
\<close>

record platform =
  pf_find :: "(string \<times> string) list \<Rightarrow> string \<Rightarrow> string \<Rightarrow> (nat \<times> (string \<Rightarrow> string)) option"
  pf_405 :: "string \<Rightarrow> string \<Rightarrow> bool"
  pf_cors :: "cors_options \<Rightarrow> request \<Rightarrow> bool"
  pf_origins :: "string list"
  pf_float :: "string \<Rightarrow> float64 option"
  pf_crypto :: crypto
  pf_sha :: "string \<Rightarrow> string"
  pf_quote :: "string \<Rightarrow> string"
  pf_sender :: push_sender
  pf_post :: "push_sub \<Rightarrow> push_payload \<Rightarrow> nat option"
  pf_smtp :: smtp
  pf_mail :: mail_config
  pf_is_file :: "string \<Rightarrow> bool"
  pf_StaticDir :: string
  pf_AgentBinDir :: string
  sc_logs :: "log_row list \<Rightarrow> log_row list"
  sc_metrics :: "metric_row list \<Rightarrow> metric_row list"
  sc_events :: "event_row list \<Rightarrow> event_row list"
  sc_files :: "file_row list \<Rightarrow> file_row list"
  sc_subs :: "sub_row list \<Rightarrow> sub_row list"
  sc_users :: "user_row list \<Rightarrow> user_row list"
  sc_invites :: "invite_row list \<Rightarrow> invite_row list"
  sc_tokens :: "token_row list \<Rightarrow> token_row list"
  sc_orgs :: "org_row list \<Rightarrow> org_row list"
  sc_machines :: "machine_row list \<Rightarrow> machine_row list"

definition find_route :: "platform \<Rightarrow> 'e routes \<Rightarrow> string \<Rightarrow> string \<Rightarrow> ('e \<times> (string \<Rightarrow> string)) option" where
  "find_route p rs meth path =
     (case pf_find p (map (\<lambda>(m, pat, _). (m, pat)) rs) meth path of
        None \<Rightarrow> None
      | Some (i, ps) \<Rightarrow> if i < length rs then Some (snd (snd (rs ! i)), ps) else None)"

text \<open>The first message of a connection that was upgraded.\<close>

definition first_message :: "platform \<Rightarrow> request \<Rightarrow> wire option" where
  "first_message p rq = (case rq_First rq of None \<Rightarrow> None | Some t \<Rightarrow> map_option env_Msg (Decode (pf_float p) t))"

definition publish_of :: "request \<Rightarrow> publish_request" where
  "publish_of rq = \<lparr>pr_key = rq_Auth rq, pr_Filename = rq_Header rq ''X-MC-Filename'',
     pr_Session = rq_Header rq ''X-MC-Session'', pr_ContentType = rq_Header rq ''Content-Type'',
     pr_Body = rq_Body rq\<rparr>"

fun run_root :: "platform \<Rightarrow> ambient \<Rightarrow> request \<Rightarrow> (string \<Rightarrow> string) \<Rightarrow> root_endpoint \<Rightarrow> server
    \<Rightarrow> server \<times> content response" where
  "run_root p a rq ps EpHealth s = reads CHealth (handleHealth a) s"
| "run_root p a rq ps EpWS s =
     (let (s, w) = handleWS (pf_crypto p) a (rq_Query rq ''role'') (rq_Auth rq) (rq_Upgraded rq) (first_message p rq) s
      in (s, socket_reply w))"
| "run_root p a rq ps EpInstallScript s =
     (s, Reply 200 (CScript (handleInstallScript (sv_cfg s) (rq_Base rq))))"
| "run_root p a rq ps EpInstallPowershell s =
     (s, Reply 200 (CScript (handleInstallPowershell (sv_cfg s) (rq_Base rq))))"
| "run_root p a rq ps EpDownloadBinary s =
     (s, file_reply (handleDownloadBinary (pf_is_file p) (pf_AgentBinDir p) (ps ''name'')))"
| "run_root p a rq ps EpRegister s =
     writes CStatus (handleRegister (pf_crypto p) a (register_body (rq_Body rq)) s)"
| "run_root p a rq ps EpLogin s = reads CAuth (handleLogin (pf_crypto p) a (login_body (rq_Body rq)) s) s"
| "run_root p a rq ps EpAcceptInvite s =
     writes CAuth (handleAcceptInvite (pf_crypto p) a (accept_body (rq_Body rq)) s)"
| "run_root p a rq ps EpEnroll s =
     writes CEnrolled (handleEnroll a (rq_Base rq) (enroll_body (rq_Body rq)) s)"
| "run_root p a rq ps EpPublish s = writes CPublished (handlePublish (pf_sha p) a (publish_of rq) s)"

fun run_user :: "platform \<Rightarrow> ambient \<Rightarrow> request \<Rightarrow> (string \<Rightarrow> string) \<Rightarrow> claims \<Rightarrow> user_endpoint \<Rightarrow> server
    \<Rightarrow> server \<times> content response" where
  "run_user p a rq ps c EpMe s = reads CMe (handleMe a c s) s"
| "run_user p a rq ps c EpChangePassword s =
     writes (\<lambda>_. CNone) (handleChangePassword (pf_crypto p) a c (password_body (rq_Body rq)) s)"
| "run_user p a rq ps c EpPushVAPIDKey s = reads CPushKey (handlePushVAPIDKey (pf_sender p)) s"
| "run_user p a rq ps c EpPushSubscribe s =
     writes (\<lambda>_. CNone) (handlePushSubscribe a c (subscribe_body (rq_Body rq)) s)"
| "run_user p a rq ps c EpPushUnsubscribe s =
     writes (\<lambda>_. CNone) (handlePushUnsubscribe a (endpoint_body (rq_Body rq)) s)"
| "run_user p a rq ps c EpPushTest s =
     writes CSent (handlePushTest (pf_sender p) (pf_post p) (sc_subs p) a c s)"
| "run_user p a rq ps c EpListMachines s = reads CMachines (handleListMachines a c s) s"
| "run_user p a rq ps c EpDeleteMachine s =
     writes (\<lambda>_. CNone) (handleDeleteMachine a c (ps ''id'') (rq_Query rq) s)"
| "run_user p a rq ps c EpListSessions s = reads CSessions (handleListSessions a c (rq_Query rq) s) s"
| "run_user p a rq ps c EpGetSession s = reads CSession (handleGetSession c (ps ''id'') s) s"
| "run_user p a rq ps c EpStopSession s = writes CCommand (handleStopSession a c (ps ''id'') s)"
| "run_user p a rq ps c EpRestartSession s = writes CCommand (handleRestartSession a c (ps ''id'') s)"
| "run_user p a rq ps c EpGetLogs s =
     reads CLogs (handleGetLogs (sc_logs p) a c (ps ''id'') (rq_Query rq) s) s"
| "run_user p a rq ps c EpGetMetrics s =
     reads CMetrics (handleGetMetrics (sc_metrics p) a c (ps ''id'') (rq_Query rq) s) s"
| "run_user p a rq ps c EpListEvents s = reads CEvents (handleListEvents (sc_events p) a c (rq_Query rq) s) s"
| "run_user p a rq ps c EpListFiles s = reads CFiles (handleListFiles (sc_files p) a c (rq_Query rq) s) s"
| "run_user p a rq ps c EpDownloadFile s = reads CDownload (handleDownloadFile a c (ps ''id'') s) s"
| "run_user p a rq ps c EpListEnrollTokens s = reads CTokens (handleListEnrollTokens (sc_tokens p) a c s) s"
| "run_user p a rq ps c EpCreateEnrollToken s =
     writes CToken (handleCreateEnrollToken (pf_quote p) a (rq_Base rq) c (Some (createTokenReq (rq_Body rq))) s)"
| "run_user p a rq ps c EpRevokeEnrollToken s =
     writes (\<lambda>_. CNone) (handleRevokeEnrollToken a c (ps ''token'') s)"
| "run_user p a rq ps c EpListOrgUsers s = reads CUsers (handleListOrgUsers (sc_users p) a c s) s"
| "run_user p a rq ps c EpSetUserRole s =
     writes (\<lambda>_. CNone) (handleSetUserRole a c (ps ''id'') (role_body (rq_Body rq)) s)"
| "run_user p a rq ps c EpRemoveUser s = writes (\<lambda>_. CNone) (handleRemoveUser a c (ps ''id'') s)"
| "run_user p a rq ps c EpListInvites s = reads CInvites (handleListInvites (sc_invites p) a c s) s"
| "run_user p a rq ps c EpCreateInvite s =
     writes CInvite (handleCreateInvite a (pf_smtp p) (pf_mail p) (publicBase (sv_cfg s) (rq_Base rq)) c
       (invite_body (rq_Body rq)) s)"
| "run_user p a rq ps c EpRevokeInvite s = writes (\<lambda>_. CNone) (handleRevokeInvite a c (ps ''token'') s)"

fun run_admin :: "platform \<Rightarrow> ambient \<Rightarrow> request \<Rightarrow> (string \<Rightarrow> string) \<Rightarrow> admin_endpoint \<Rightarrow> server
    \<Rightarrow> server \<times> content response" where
  "run_admin p a rq ps EpListPendingUsers s = reads CPending (handleListPendingUsers (sc_users p) a s) s"
| "run_admin p a rq ps EpAdminListOrgs s = reads COrgs (handleAdminListOrgs (sc_orgs p) a s) s"
| "run_admin p a rq ps EpApproveUser s =
     writes CApproved (handleApproveUser a (ps ''id'') (approve_body (rq_Body rq)) s)"
| "run_admin p a rq ps EpRejectUser s = writes (\<lambda>_. CNone) (handleRejectUser a (ps ''id'') s)"
| "run_admin p a rq ps EpAdminListMachines s =
     reads CAdminMachines (handleAdminListMachines (sc_machines p) a s) s"
| "run_admin p a rq ps EpReassignMachine s =
     writes CReassigned (handleReassignMachine a (ps ''id'') (org_body (rq_Body rq)) s)"

text \<open>The group of platform routes is wrapped in \<open>requireSuperadmin\<close>, inside \<open>requireUser\<close>.\<close>

fun run_api :: "platform \<Rightarrow> ambient \<Rightarrow> request \<Rightarrow> (string \<Rightarrow> string) \<Rightarrow> claims \<Rightarrow> api_endpoint \<Rightarrow> server
    \<Rightarrow> server \<times> content response" where
  "run_api p a rq ps c (UserEp e) s = run_user p a rq ps c e s"
| "run_api p a rq ps c (AdminEp e) s = requireSuperadmin c (run_admin p a rq ps e) s"

text \<open>The handler for what no route matches; it is set last and inherited by the mounted router.\<close>

definition unmatched :: "platform \<Rightarrow> request \<Rightarrow> content response" where
  "unmatched p rq =
     (if pf_405 p (rq_Method rq) (rq_Path rq) then Error 405 [] (Text [])
      else if pf_StaticDir p \<noteq> [] then file_reply (spaHandler (pf_is_file p) (pf_StaticDir p) (rq_Path rq))
      else Error 404 [] (Text ''404 page not found''))"

text \<open>\<open>Route(pattern, \<dots>)\<close> mounts a router below its pattern; the guard of the mounted router runs before it matches.\<close>

definition below :: "string \<Rightarrow> string \<Rightarrow> string option" where
  "below prefix path =
     (if has_prefix path (prefix @ ''/'') then Some (drop (length prefix) path)
      else if path = prefix then Some ''/'' else None)"

definition api_router :: "platform \<Rightarrow> ambient \<Rightarrow> request \<Rightarrow> string \<Rightarrow> server \<Rightarrow> server \<times> content response" where
  "api_router p a rq rest =
     requireUser (pf_crypto p) (am_now a) (rq_Auth rq)
       (\<lambda>c s. case find_route p api_routes (rq_Method rq) rest of
          None \<Rightarrow> (s, unmatched p rq)
        | Some (e, ps) \<Rightarrow> run_api p a rq ps c e s)"

definition router :: "platform \<Rightarrow> ambient \<Rightarrow> request \<Rightarrow> server \<Rightarrow> server \<times> content response" where
  "router p a rq s =
     (if pf_cors p (cors_of (pf_origins p)) rq then (s, Reply 200 CNone)
      else case find_route p root_routes (rq_Method rq) (rq_Path rq) of
        Some (e, ps) \<Rightarrow> run_root p a rq ps e s
      | None \<Rightarrow>
          (case below ''/api/v1'' (rq_Path rq) of
             Some rest \<Rightarrow> api_router p a rq rest s
           | None \<Rightarrow> (s, unmatched p rq)))"

subsection \<open>Who may change the server\<close>

lemma fst_reads [simp]: "fst (reads f r s) = s"
  by (simp add: reads_def)

lemma fst_writes [simp]: "fst (writes f p) = fst p"
  by (simp add: writes_def)

text \<open>What a request to a public route must show for its handler to act at all; anyone may sign up.\<close>

fun root_credential :: "platform \<Rightarrow> ambient \<Rightarrow> request \<Rightarrow> server \<Rightarrow> root_endpoint \<Rightarrow> bool" where
  "root_credential p a rq s EpRegister \<longleftrightarrow> True"
| "root_credential p a rq s EpAcceptInvite \<longleftrightarrow>
     (case accept_body (rq_Body rq) of None \<Rightarrow> False
      | Some b \<Rightarrow> \<not> isl (GetInvite (am_db a 0) (ai_Token b) (sv_store s)))"
| "root_credential p a rq s EpEnroll \<longleftrightarrow>
     (case enroll_body (rq_Body rq) of None \<Rightarrow> False
      | Some b \<Rightarrow> \<not> isl (EnrollTokenOrg (am_db a 0) (eq_Token b) (am_now a) (sv_store s)))"
| "root_credential p a rq s EpPublish \<longleftrightarrow> authAgentKey (rq_Auth rq) s \<noteq> None"
| "root_credential p a rq s EpWS \<longleftrightarrow>
     (if rq_Query rq ''role'' = RoleDashboard then Verify (pf_crypto p) (am_now a) (bearer (rq_Auth rq)) \<noteq> None
      else (case first_message p rq of Some (AgentHello (Some h)) \<Rightarrow> lookupAgentKey (ah_APIKey h) s \<noteq> None | _ \<Rightarrow> False))"
| "root_credential p a rq s _ \<longleftrightarrow> False"

lemma handleWS_credential:
  "fst (handleWS lib a role r up first s) \<noteq> s \<Longrightarrow>
     (if role = RoleDashboard then Verify lib (am_now a) (bearer r) \<noteq> None
      else (case first of Some (AgentHello (Some h)) \<Rightarrow> lookupAgentKey (ah_APIKey h) s \<noteq> None | _ \<Rightarrow> False))"
  unfolding handleWS_def by (auto split: if_splits option.splits wire.splits)

lemma run_root_credential: "fst (run_root p a rq ps e s) \<noteq> s \<Longrightarrow> root_credential p a rq s e"
proof (cases e)
  case EpWS
  assume "fst (run_root p a rq ps e s) \<noteq> s"
  then show ?thesis
    using handleWS_credential [of "pf_crypto p" a "rq_Query rq ''role''" "rq_Auth rq" "rq_Upgraded rq" "first_message p rq" s]
    by (simp add: EpWS case_prod_unfold Let_def)
next
  case EpAcceptInvite
  assume "fst (run_root p a rq ps e s) \<noteq> s"
  then show ?thesis by (auto simp: EpAcceptInvite handleAcceptInvite_def split: option.splits sum.splits)
next
  case EpEnroll
  assume "fst (run_root p a rq ps e s) \<noteq> s"
  then show ?thesis by (auto simp: EpEnroll handleEnroll_def Let_def split: option.splits sum.splits if_splits)
next
  case EpPublish
  assume "fst (run_root p a rq ps e s) \<noteq> s"
  then show ?thesis by (auto simp: EpPublish handlePublish_def publish_of_def split: option.splits)
qed simp_all


subsection \<open>A path matcher\<close>

text \<open>
  An instance of the matching for concrete runs: a pattern's segments are literal or a name in braces, which
  takes one segment of the path.
\<close>

definition is_param :: "string \<Rightarrow> bool" where
  "is_param seg \<longleftrightarrow> seg \<noteq> [] \<and> hd seg = CHR 0x7B \<and> last seg = CHR 0x7D"

fun match_segments :: "string list \<Rightarrow> string list \<Rightarrow> (string \<times> string) list option" where
  "match_segments [] [] = Some []"
| "match_segments (p # ps) (x # xs) =
     (if is_param p then map_option (Cons (butlast (tl p), x)) (match_segments ps xs)
      else if p = x then match_segments ps xs else None)"
| "match_segments _ _ = None"

fun first_match :: "nat \<Rightarrow> (string \<times> string) list \<Rightarrow> string \<Rightarrow> string \<Rightarrow> (nat \<times> (string \<Rightarrow> string)) option" where
  "first_match i [] meth path = None"
| "first_match i ((m, pat) # rs) meth path =
     (case (if m = meth then match_segments (split_on (CHR ''/'') pat) (split_on (CHR ''/'') path) else None) of
        Some ps \<Rightarrow> Some (i, \<lambda>k. case map_of ps k of None \<Rightarrow> [] | Some v \<Rightarrow> v)
      | None \<Rightarrow> first_match (Suc i) rs meth path)"

definition plain_platform :: "crypto \<Rightarrow> platform" where
  "plain_platform lib = \<lparr>pf_find = first_match 0, pf_405 = (\<lambda>_ _. False), pf_cors = (\<lambda>_ _. False), pf_origins = [''*''],
     pf_float = (\<lambda>_. None),
     pf_crypto = lib, pf_sha = (\<lambda>_. []), pf_quote = id,
     pf_sender = \<lparr>pc_Public = [], pc_Private = [], pc_Subject = []\<rparr>, pf_post = (\<lambda>_ _. None), pf_smtp = (\<lambda>_ _ _ _ _. None),
     pf_mail = \<lparr>ml_Host = [], ml_Port = 0, ml_Username = [], ml_Password = [], ml_From = []\<rparr>,
     pf_is_file = (\<lambda>_. False), pf_StaticDir = [], pf_AgentBinDir = [],
     sc_logs = id, sc_metrics = id, sc_events = id, sc_files = id, sc_subs = id, sc_users = id, sc_invites = id,
     sc_tokens = id, sc_orgs = id, sc_machines = id\<rparr>"

text \<open>A request with a token in its query.\<close>

definition plain_request :: "string \<Rightarrow> string \<Rightarrow> string \<Rightarrow> request" where
  "plain_request meth path tok = \<lparr>rq_Method = meth, rq_Path = path, rq_Query = (\<lambda>_. []), rq_Header = (\<lambda>_. []),
     rq_Auth = \<lparr>r_authorization = [], r_token = tok, r_api_key = [], r_key = []\<rparr>,
     rq_Base = \<lparr>hb_TLS = False, hb_ForwardedProto = [], hb_Host = ''h''\<rparr>, rq_Body = Some [],
     rq_Upgraded = False, rq_First = None\<rparr>"

text \<open>Tokens that name their user: \<open>m\<close> a member of \<open>a\<close>, \<open>p\<close> a platform administrator.\<close>

definition token_crypto :: crypto where
  "token_crypto = \<lparr>hash_pw = Some, check_pw = (=), sign = (\<lambda>_. None),
     parse = (\<lambda>_ t. if t = ''m'' then Some (sample_claims ''u'' ''a'')
       else if t = ''p'' then Some ((sample_claims ''p'' ''a'')\<lparr>cm_PlatformAdmin := True\<rparr>) else None)\<rparr>"


subsection \<open>What a request can change\<close>

text \<open>
  \<open>workspace_data\<close> is what an organisation keeps in the tables: its own row, invites, files, machines, sessions,
  logs, metrics, events and tokens. Accounts, agent keys and push subscriptions are filed under ids of their own,
  and a caller reaches its own account and endpoint wherever they are filed.
\<close>

definition workspace_data :: "string \<Rightarrow> store \<Rightarrow> store" where
  "workspace_data g st = (tenant_view g st)\<lparr>db_users := [], db_keys := [], db_subs := []\<rparr>"

definition untouched :: "string \<Rightarrow> server \<Rightarrow> server \<Rightarrow> bool" where
  "untouched g s s' \<longleftrightarrow> org_view g (sv_state s') = org_view g (sv_state s)
     \<and> workspace_data g (sv_store s') = workspace_data g (sv_store s)"

lemma untouched_refl [simp]: "untouched g s s"
  by (simp add: untouched_def)

lemma untouched_trans: "untouched g s s' \<Longrightarrow> untouched g s' s'' \<Longrightarrow> untouched g s s''"
  by (simp add: untouched_def)

lemma untouched_parts [simp]:
  "untouched g s (s'\<lparr>sv_hub := h\<rparr>) = untouched g s s'"
  "untouched g s (s'\<lparr>sv_agentKeys := ks\<rparr>) = untouched g s s'"
  "untouched g s (s'\<lparr>sv_termRouter := tr\<rparr>) = untouched g s s'"
  "untouched g s (reloadAgentKeys f a s') = untouched g s s'"
  "untouched g s (emit a g' w s') = untouched g s s'"
  by (simp_all add: untouched_def confined_emit_sv)

lemma untouched_store [simp]:
  "untouched g s (s\<lparr>sv_store := st\<rparr>) \<longleftrightarrow> workspace_data g st = workspace_data g (sv_store s)"
  by (simp add: untouched_def)

lemma workspace_data_accounts [simp]:
  "workspace_data g (st\<lparr>db_users := us\<rparr>) = workspace_data g st"
  "workspace_data g (st\<lparr>db_keys := ks\<rparr>) = workspace_data g st"
  "workspace_data g (st\<lparr>db_subs := ss\<rparr>) = workspace_data g st"
  by (simp_all add: workspace_data_def tenant_view_def)

lemma workspace_data_exec:
  "workspace_data g st' = workspace_data g st \<Longrightarrow> workspace_data g (fst (exec_stmt f st st')) = workspace_data g st"
  "workspace_data g st' = workspace_data g st \<Longrightarrow> workspace_data g (fst (exec_affected f n st st')) = workspace_data g st"
  by (simp_all add: exec_stmt_def exec_affected_def split: option.splits)

lemma workspace_data_view: "tenant_view g st' = tenant_view g st \<Longrightarrow> workspace_data g st' = workspace_data g st"
  by (simp add: workspace_data_def)

lemma workspace_data_writes:
  assumes "g' \<noteq> g"
  shows "workspace_data g' (fst (SaveEvent f g e st)) = workspace_data g' st"
    and "workspace_data g' (fst (CreateEnrollToken f rnd g l ttl now st)) = workspace_data g' st"
    and "workspace_data g' (fst (RevokeEnrollToken f g tok st)) = workspace_data g' st"
    and "workspace_data g' (fst (CreateInvite f rnd g em role by ttl now st)) = workspace_data g' st"
    and "workspace_data g' (fst (RevokeInvite f g tok st)) = workspace_data g' st"
    and "workspace_data g' (fst (DeleteMachine fs g i st)) = workspace_data g' st"
proof -
  show "workspace_data g' (fst (SaveEvent f g e st)) = workspace_data g' st"
    using assms by (auto simp: workspace_data_def tenant_view_def SaveEvent_def exec_stmt_def split: option.splits)
  show "workspace_data g' (fst (CreateEnrollToken f rnd g l ttl now st)) = workspace_data g' st"
    using assms by (auto simp: workspace_data_def tenant_view_def CreateEnrollToken_def Let_def split: option.splits)
  show "workspace_data g' (fst (RevokeEnrollToken f g tok st)) = workspace_data g' st"
    using assms by (auto simp: workspace_data_def tenant_view_def RevokeEnrollToken_def exec_stmt_def
        intro!: filter_sql_update_other split: option.splits)
  show "workspace_data g' (fst (CreateInvite f rnd g em role by ttl now st)) = workspace_data g' st"
    using assms by (auto simp: workspace_data_def tenant_view_def CreateInvite_def Let_def split: option.splits)
  show "workspace_data g' (fst (RevokeInvite f g tok st)) = workspace_data g' st"
    using assms by (auto simp: workspace_data_def tenant_view_def RevokeInvite_def exec_stmt_def
        intro!: filter_sql_delete_other split: option.splits)
  show "workspace_data g' (fst (DeleteMachine fs g i st)) = workspace_data g' st"
    using assms by (intro workspace_data_view DeleteMachine_foreign)
qed

lemma workspace_data_shared [simp]:
  "workspace_data g (fst (UpdatePassword f u h st)) = workspace_data g st"
  "workspace_data g (fst (SetUserRole f g' u role st)) = workspace_data g st"
  "workspace_data g (fst (RemoveUser f g' u st)) = workspace_data g st"
  "workspace_data g (fst (RevokeAgentKeysForMachine f i st)) = workspace_data g st"
  "workspace_data g (fst (DeletePushSubscription f ep st)) = workspace_data g st"
  "workspace_data g (fst (SavePushSubscription f1 f2 new now sub st)) = workspace_data g st"
  by (simp_all add: UpdatePassword_def SetUserRole_def RemoveUser_def RevokeAgentKeysForMachine_def
      DeletePushSubscription_def SavePushSubscription_def workspace_data_exec Let_def split: sum.splits)

lemma workspace_data_push_round [simp]: "workspace_data g (fst (push_round p post db pl k subs st)) = workspace_data g st"
  by (induction p post db pl k subs st rule: push_round.induct)
     (simp_all add: case_prod_unfold Let_def split: push_outcome.splits)

lemma emitServerEvent_untouched:
  "g' \<noteq> g \<Longrightarrow> untouched g' s (emitServerEvent k u a g m sid kind msg sev s)"
  by (simp add: emitServerEvent_def recordEvent_def Let_def untouched_def confined_emit_sv
      workspace_data_writes org_view_writes)

lemma drop_sessions_untouched:
  "g' \<noteq> g \<Longrightarrow> org_view g' (fst (RemoveMachineSessions \<pi> g i m)) = org_view g' m"
  unfolding RemoveMachineSessions_def by (subst org_eq) (simp add: Let_def case_prod_unfold)

lemma handleDeleteMachine_untouched:
  assumes "g \<noteq> cm_OrgID c"
  shows "untouched g s (fst (handleDeleteMachine a c i q s))"
proof -
  obtain st r where st: "DeleteMachine (am_db a) (cm_OrgID c) i (sv_store s) = (st, r)" by fastforce
  have w: "workspace_data g st = workspace_data g (sv_store s)"
    using workspace_data_writes(6) [OF assms, of "am_db a" i "sv_store s"] st by simp
  obtain m sids where m: "RemoveMachineSessions (am_sess a) (cm_OrgID c) i (sv_state s) = (m, sids)" by fastforce
  have v: "org_view g m = org_view g (sv_state s)"
    using drop_sessions_untouched [OF assms, of "am_sess a" i "sv_state s"] m by simp
  show ?thesis
    using w v assms
    by (cases r) (simp_all add: handleDeleteMachine_def Let_def st m emit_removals untouched_def confined_emit_sv
        RemoveMachine_eq)
qed

lemma sendCommand_untouched:
  assumes "g \<noteq> cm_OrgID c"
  shows "untouched g s (fst (sendCommand a c i act s))"
proof -
  have "untouched g s (emitServerEvent 0 1 a (cm_OrgID c) m i k msg sev (s\<lparr>sv_hub := h\<rparr>))" for m k msg sev h
    using emitServerEvent_untouched [OF assms, of "s\<lparr>sv_hub := h\<rparr>"] by (simp add: untouched_def)
  then show ?thesis
    by (simp add: sendCommand_def Let_def case_prod_unfold untouched_def split: option.splits)
qed

lemma run_user_untouched:
  assumes g: "g \<noteq> cm_OrgID c"
  shows "untouched g s (fst (run_user p a rq ps c e s))"
proof (cases e)
  case EpDeleteMachine
  then show ?thesis by (simp add: handleDeleteMachine_untouched g)
next
  case EpStopSession
  then show ?thesis by (simp add: handleStopSession_def sendCommand_untouched g)
next
  case EpRestartSession
  then show ?thesis by (simp add: handleRestartSession_def sendCommand_untouched g)
next
  case EpChangePassword
  then show ?thesis by (simp add: handleChangePassword_def Let_def case_prod_unfold split: option.splits sum.splits)
next
  case EpPushSubscribe
  then show ?thesis by (simp add: handlePushSubscribe_def Let_def case_prod_unfold split: option.splits sum.splits)
next
  case EpPushUnsubscribe
  then show ?thesis by (simp add: handlePushUnsubscribe_def Let_def case_prod_unfold split: option.splits sum.splits)
next
  case EpPushTest
  then show ?thesis by (simp add: handlePushTest_def Let_def case_prod_unfold split: sum.splits)
next
  case EpCreateEnrollToken
  then show ?thesis
    by (simp add: handleCreateEnrollToken_def Let_def case_prod_unfold workspace_data_writes g split: sum.splits)
next
  case EpRevokeEnrollToken
  then show ?thesis
    by (simp add: handleRevokeEnrollToken_def Let_def case_prod_unfold workspace_data_writes g split: sum.splits)
next
  case EpSetUserRole
  then show ?thesis by (simp add: handleSetUserRole_def answer_def Let_def split: option.splits sum.splits)
next
  case EpRemoveUser
  then show ?thesis by (simp add: handleRemoveUser_def answer_def Let_def split: option.splits sum.splits)
next
  case EpCreateInvite
  then show ?thesis
    by (simp add: handleCreateInvite_def Let_def case_prod_unfold workspace_data_writes g split: option.splits sum.splits)
next
  case EpRevokeInvite
  then show ?thesis
    by (simp add: handleRevokeInvite_def Let_def case_prod_unfold workspace_data_writes g split: sum.splits)
qed simp_all


definition shared_server :: server where
  "shared_server = one_machine_server\<lparr>sv_state := fst (UpsertMachine ''b'' (zero_machine\<lparr>m_ID := ''m''\<rparr>)
     (sv_state one_machine_server))\<rparr>"


subsection \<open>What a request can see\<close>

text \<open>
  Two servers that look the same from one organisation. The rows of the organisation come in an order that does
  not depend on the rows of others.
\<close>

definition same_workspace :: "string \<Rightarrow> server \<Rightarrow> server \<Rightarrow> bool" where
  "same_workspace g s t \<longleftrightarrow> org_view g (sv_state s) = org_view g (sv_state t)
     \<and> tenant_view g (sv_store s) = tenant_view g (sv_store t)"

definition local_scan :: "('r \<Rightarrow> string) \<Rightarrow> string \<Rightarrow> ('r list \<Rightarrow> 'r list) \<Rightarrow> bool" where
  "local_scan f g sc \<longleftrightarrow> (\<forall>t. filter (\<lambda>r. f r = g) (sc t) = sc (filter (\<lambda>r. f r = g) t))"

definition local_platform :: "string \<Rightarrow> platform \<Rightarrow> bool" where
  "local_platform g p \<longleftrightarrow> local_scan ll_OrgID g (sc_logs p) \<and> local_scan mt_OrgID g (sc_metrics p)
     \<and> local_scan er_OrgID g (sc_events p) \<and> local_scan f_OrgID g (sc_files p) \<and> local_scan u_OrgID g (sc_users p)
     \<and> local_scan i_OrgID g (sc_invites p) \<and> local_scan et_OrgID g (sc_tokens p)"

lemma local_query:
  assumes "local_scan f g sc" and "filter (\<lambda>r. f r = g) t = filter (\<lambda>r. f r = g) t'" and "\<And>r. P r \<Longrightarrow> f r = g"
  shows "filter P (sc t) = filter P (sc t')"
proof -
  have "filter P (sc x) = filter P (sc (filter (\<lambda>r. f r = g) x))" for x
  proof -
    have "filter P (sc x) = filter P (filter (\<lambda>r. f r = g) (sc x))"
      unfolding filter_filter using assms(3) by (intro filter_cong) auto
    with assms(1) show ?thesis by (simp add: local_scan_def)
  qed
  then show ?thesis using assms(2) by metis
qed

lemma local_first:
  assumes "filter (\<lambda>r. f r = g) t = filter (\<lambda>r. f r = g) t'" and "\<And>r. P r \<Longrightarrow> f r = g"
  shows "sql_first key P t = sql_first key P t'"
proof -
  have "filter P x = filter P (filter (\<lambda>r. f r = g) x)" for x
    unfolding filter_filter using assms(2) by (intro filter_cong) auto
  then show ?thesis unfolding sql_first_def using assms(1) by metis
qed

lemma Snapshot_of_ambient:
  assumes "ok_ambient a"
  shows "Snapshot_of (am_mach a) (am_sess a) g m =
    (let os = org_view g m in \<lparr>sn_Machines = sort_key m_ID (map snd (am_mach a (os_machines os))),
       sn_Sessions = sort_key (\<lambda>s. - s_StartedAt s) (map snd (am_sess a (os_sessions os))),
       sn_Events = rev (os_events os)\<rparr>)"
  using assms by (intro Snapshot_of_view) (simp_all add: ok_ambient_def)

lemma Session_view: "Session g i m = mget (os_sessions (org_view g m)) i"
  by (simp add: Session_def org_view_def newOrgState_def split: option.splits)

text \<open>The routes that only read, as the table has them: every \<open>GET\<close> of a signed-in user.\<close>

definition is_get :: "user_endpoint \<Rightarrow> bool" where
  "is_get e \<longleftrightarrow> list_ex (\<lambda>(m, _, e'). m = ''GET'' \<and> e' = UserEp e) api_routes"

lemma run_user_reads:
  assumes "same_workspace (cm_OrgID c) s t" and "local_platform (cm_OrgID c) p" and "ok_ambient a" and "is_get e"
  shows "snd (run_user p a rq ps c e s) = snd (run_user p a rq ps c e t)"
proof -
  let ?g = "cm_OrgID c"
  note v = assms(1) [unfolded same_workspace_def tenant_view_def, simplified]
  note l = assms(2) [unfolded local_platform_def]
  have live: "Snapshot_of (am_mach a) (am_sess a) ?g (sv_state s) = Snapshot_of (am_mach a) (am_sess a) ?g (sv_state t)"
    "Session ?g i (sv_state s) = Session ?g i (sv_state t)" for i
    using v by (simp_all add: Snapshot_of_ambient [OF assms(3)] Session_view)
  have logs: "LogPage (sc_logs p) f ?g i n m (sv_store s) = LogPage (sc_logs p) f ?g i n m (sv_store t)" for f i n m
  proof -
    have q: "filter P (sc_logs p (db_logs (sv_store s))) = filter P (sc_logs p (db_logs (sv_store t)))"
      if "\<And>r. P r \<Longrightarrow> ll_OrgID r = ?g" for P
      by (rule local_query [where f = ll_OrgID and g = ?g]) (use v l that in blast)+
    show ?thesis unfolding LogPage_def by (subst q) (simp_all)
  qed
  have metrics: "Metrics (sc_metrics p) f ?g i n m (sv_store s) = Metrics (sc_metrics p) f ?g i n m (sv_store t)" for f i n m
  proof -
    have q: "filter P (sc_metrics p (db_metrics (sv_store s))) = filter P (sc_metrics p (db_metrics (sv_store t)))"
      if "\<And>r. P r \<Longrightarrow> mt_OrgID r = ?g" for P
      by (rule local_query [where f = mt_OrgID and g = ?g]) (use v l that in blast)+
    show ?thesis unfolding Metrics_def by (subst q) (simp_all)
  qed
  have events: "ListEvents (sc_events p) f ?g ef n (sv_store s) = ListEvents (sc_events p) f ?g ef n (sv_store t)" for f ef n
  proof -
    have q: "filter P (sc_events p (db_events (sv_store s))) = filter P (sc_events p (db_events (sv_store t)))"
      if "\<And>r. P r \<Longrightarrow> er_OrgID r = ?g" for P
      by (rule local_query [where f = er_OrgID and g = ?g]) (use v l that in blast)+
    show ?thesis unfolding ListEvents_def by (subst q) (simp_all add: event_matches_def)
  qed
  have files: "ListFiles (sc_files p) f ?g x y n (sv_store s) = ListFiles (sc_files p) f ?g x y n (sv_store t)" for f x y n
  proof -
    have q: "filter P (sc_files p (db_files (sv_store s))) = filter P (sc_files p (db_files (sv_store t)))"
      if "\<And>r. P r \<Longrightarrow> f_OrgID r = ?g" for P
      by (rule local_query [where f = f_OrgID and g = ?g]) (use v l that in blast)+
    show ?thesis unfolding ListFiles_def by (subst q) (simp_all)
  qed
  have users: "ListOrgUsers (sc_users p) f ?g (sv_store s) = ListOrgUsers (sc_users p) f ?g (sv_store t)" for f
  proof -
    have q: "filter P (sc_users p (db_users (sv_store s))) = filter P (sc_users p (db_users (sv_store t)))"
      if "\<And>r. P r \<Longrightarrow> u_OrgID r = ?g" for P
      by (rule local_query [where f = u_OrgID and g = ?g]) (use v l that in blast)+
    show ?thesis unfolding ListOrgUsers_def by (subst q) (simp_all)
  qed
  have invites: "ListInvites (sc_invites p) f ?g (sv_store s) = ListInvites (sc_invites p) f ?g (sv_store t)" for f
  proof -
    have q: "filter P (sc_invites p (db_invites (sv_store s))) = filter P (sc_invites p (db_invites (sv_store t)))"
      if "\<And>r. P r \<Longrightarrow> i_OrgID r = ?g" for P
      by (rule local_query [where f = i_OrgID and g = ?g]) (use v l that in blast)+
    show ?thesis unfolding ListInvites_def by (subst q) (simp_all)
  qed
  have tokens: "ListEnrollTokens (sc_tokens p) f ?g (sv_store s) = ListEnrollTokens (sc_tokens p) f ?g (sv_store t)" for f
  proof -
    have q: "filter P (sc_tokens p (db_tokens (sv_store s))) = filter P (sc_tokens p (db_tokens (sv_store t)))"
      if "\<And>r. P r \<Longrightarrow> et_OrgID r = ?g" for P
      by (rule local_query [where f = et_OrgID and g = ?g]) (use v l that in blast)+
    show ?thesis unfolding ListEnrollTokens_def by (subst q) (simp_all)
  qed
  have got: "GetFile f ?g i (sv_store s) = GetFile f ?g i (sv_store t)" for f i
  proof -
    have q: "sql_first k P (db_files (sv_store s)) = sql_first k P (db_files (sv_store t))"
      if "\<And>r. P r \<Longrightarrow> f_OrgID r = ?g" for k :: "file_row \<Rightarrow> string" and P
      by (rule local_first [where f = f_OrgID and g = ?g]) (use v that in blast)+
    show ?thesis unfolding GetFile_def by (subst q) simp_all
  qed
  have org: "GetOrg f ?g (sv_store s) = GetOrg f ?g (sv_store t)" for f
  proof -
    have q: "sql_first k P (db_orgs (sv_store s)) = sql_first k P (db_orgs (sv_store t))"
      if "\<And>r. P r \<Longrightarrow> o_ID r = ?g" for k :: "org_row \<Rightarrow> string" and P
      by (rule local_first [where f = o_ID and g = ?g]) (use v that in blast)+
    show ?thesis unfolding GetOrg_def by (subst q) simp_all
  qed
  show ?thesis
    using assms(4)
    by (cases e) (simp_all add: is_get_def api_routes_def reads_def live logs metrics events files users invites tokens got org
        handleMe_def handleListMachines_def handleListSessions_def handleGetSession_def handleGetLogs_def
        handleGetMetrics_def handleListEvents_def handleListFiles_def handleDownloadFile_def handleListOrgUsers_def
        handleListInvites_def handleListEnrollTokens_def)
qed



text \<open>
  The CORS options leave the method of one route out: a browser on another origin cannot change a role.
\<close>

theorem cors_omits_patch:
  "(''PATCH'', ''/org/users/{id}'', UserEp EpSetUserRole) \<in> set api_routes
   \<and> ''PATCH'' \<notin> set (co_AllowedMethods (cors_of origins))"
  by (simp add: api_routes_def cors_of_def)

text \<open>
  A push subscription is deleted by its endpoint alone: a user of one organisation who knows the endpoint
  unsubscribes a user of another.
\<close>

theorem unsubscribe_foreign:
  "\<exists>s r. r \<in> set (db_subs (sv_store s)) \<and> ps_OrgID r = ''b''
     \<and> db_subs (sv_store (fst (run_user (plain_platform token_crypto) quiet
          ((plain_request ''POST'' ''/api/v1/push/unsubscribe'' ''m'')\<lparr>rq_Body :=
             Some (print_json (VObj [(''endpoint'', VStr (ps_Endpoint r))]))\<rparr>) ps
          (sample_claims ''u'' ''a'') EpPushUnsubscribe s))) = []"
proof (intro exI conjI)
  let ?r = "\<lparr>ps_ID = ''1'', ps_OrgID = ''b'', ps_UserID = ''v'', ps_Endpoint = ''e'', ps_P256dh = ''k'',
     ps_Auth = ''k'', ps_CreatedAt = None\<rparr>"
  let ?s = "(sample_server [] [])\<lparr>sv_store := empty_store\<lparr>db_subs := [?r]\<rparr>\<rparr>"
  let ?b = "Some (print_json (VObj [(''endpoint'', VStr (ps_Endpoint ?r))]))"
  show "?r \<in> set (db_subs (sv_store ?s))" "ps_OrgID ?r = ''b''" by simp_all
  have "endpoint_body ?b = pushUnsubscribeReq (VObj [(''endpoint'', VStr ''e'')]) []"
    using decodeJSON_object [of "[(''endpoint'', ''e'')]" pushUnsubscribeReq "[]"]
    by (simp add: endpoint_body_def valid_utf8_ascii)
  also have "pushUnsubscribeReq (VObj [(''endpoint'', VStr ''e'')]) [] = Some ''e''" by code_simp
  finally have b: "endpoint_body ?b = Some ''e''" .
  show "db_subs (sv_store (fst (run_user (plain_platform token_crypto) quiet
          ((plain_request ''POST'' ''/api/v1/push/unsubscribe'' ''m'')\<lparr>rq_Body := ?b\<rparr>) ps
          (sample_claims ''u'' ''a'') EpPushUnsubscribe ?s))) = []"
    using b by (simp add: handlePushUnsubscribe_def Let_def DeletePushSubscription_def exec_stmt_def sql_delete_def
        quiet_def split: sum.splits)
qed

end
