(* ===== verification/Server_Run.thy ===== *)
theory Server_Run
  imports Router Blocked_Notify Wire_Codec
begin

section \<open>The running server\<close>

text \<open>
  Models \<open>Server.Run\<close> and the loops it starts (\<open>server.go\<close>, \<open>blocked_notify.go\<close>, the read pump of
  \<open>internal/hub/client.go\<close>): everything that happens to a server is one of the actions below (a request, a frame of a client, its end, a turn of its
  write pump, a tick of a loop), each with what it
  gets from outside. The state is the server together with the tracker of the notifier's loop.
\<close>

subsection \<open>Actions\<close>

datatype server_act =
    Http ambient request
  | Frame ambient string string
  | Gone ambient string
  | Written string
  | RetentionTick ambient
  | NotifyTick "(string \<times> org_state) list \<Rightarrow> (string \<times> org_state) list" "nat \<Rightarrow> ambient"

text \<open>One message of the read pump: the callback of the client's role.\<close>

definition readPump_message :: "ambient \<Rightarrow> string \<Rightarrow> envelope \<Rightarrow> server \<Rightarrow> server" where
  "readPump_message a ref env s =
     (case mget (h_heap (sv_hub s)) ref of
        None \<Rightarrow> s
      | Some c \<Rightarrow> if cl_Role c = RoleAgent then onAgentMessage a c env s
                  else if cl_Role c = RoleDashboard then onDashboardMessage a c env s else s)"

text \<open>
  One turn of the read pump: a frame over the read limit ends the connection, one that is no envelope is dropped, and
  the next one is read.
\<close>

definition maxMessageSize :: nat where
  "maxMessageSize = 2 ^ 20"

definition readPump :: "(string \<Rightarrow> float64 option) \<Rightarrow> ambient \<Rightarrow> string \<Rightarrow> string \<Rightarrow> server \<Rightarrow> server" where
  "readPump rd a ref data s =
     (if maxMessageSize < length data then disconnect a ref s
      else case Decode rd data of None \<Rightarrow> s | Some env \<Rightarrow> readPump_message a ref env s)"

fun exec_act :: "platform \<Rightarrow> server_act \<Rightarrow> server \<times> tracker \<Rightarrow> server \<times> tracker" where
  "exec_act p (Http a rq) (s, t) = (fst (router p a rq s), t)"
| "exec_act p (Frame a ref data) (s, t) = (readPump (pf_float p) a ref data s, t)"
| "exec_act p (Gone a ref) (s, t) = (disconnect a ref s, t)"
| "exec_act p (Written ref) (s, t) = (s\<lparr>sv_hub := write_turn ref (sv_hub s)\<rparr>, t)"
| "exec_act p (RetentionTick a) (s, t) = (retention_tick a s, t)"
| "exec_act p (NotifyTick \<pi> av) (s, t) =
     (if blocked_loop_runs (pf_sender p) (sv_cfg s)
      then blocked_tick (pf_sender p) (pf_post p) (sc_subs p) \<pi> av s t else (s, t))"

text \<open>The retention loop sees one tick an hour until its context is done.\<close>

definition retentionLoop :: "ambient list \<Rightarrow> server \<Rightarrow> server" where
  "retentionLoop ticks s = foldl (\<lambda>s a. retention_tick a s) s ticks"

text \<open>
  What \<open>Run\<close> waits for: the end of its context, answered by the result of \<open>Shutdown\<close>, or the end of the
  listener, whose error is dropped when it is \<open>http.ErrServerClosed\<close>.
\<close>

datatype run_end =
    ContextDone "string option"
  | ListenerEnd string

definition ErrServerClosed :: string where
  "ErrServerClosed = ''http: Server closed''"

fun Run_result :: "run_end \<Rightarrow> string option" where
  "Run_result (ContextDone shutdown_err) = shutdown_err"
| "Run_result (ListenerEnd err) = (if err = ErrServerClosed then None else Some err)"

inductive reachable_server :: "crypto \<Rightarrow> platform \<Rightarrow> (server_act \<Rightarrow> bool) \<Rightarrow> server \<times> tracker \<Rightarrow> bool"
  for lib p ok where
  boot: "ok_ambient a \<Longrightarrow> am_db a = (\<lambda>_. None) \<Longrightarrow>
     reachable_server lib p ok (new_server lib a scan cfg st, newBlockedTracker)"
| act: "reachable_server lib p ok x \<Longrightarrow> ok c \<Longrightarrow> reachable_server lib p ok (exec_act p c x)"

subsection \<open>The keys a server accepts\<close>

text \<open>Every key the server accepts is a stored one that is not revoked, for the organisation and machine of its row.\<close>

definition keys_sound :: "server \<Rightarrow> bool" where
  "keys_sound s \<longleftrightarrow> (\<forall>key info. lookupAgentKey key s = Some info \<longrightarrow>
     (\<exists>k \<in> set (db_keys (sv_store s)). \<not> ak_Revoked k \<and> ak_Key k = key
        \<and> info = \<lparr>ki_OrgID = ak_OrgID k, ki_MachineID = ak_MachineID k\<rparr>))"

definition sound :: "server \<Rightarrow> bool" where
  "sound s \<longleftrightarrow> wf_manager (sv_state s) \<and> keys_sound s"

definition same_keys :: "server \<Rightarrow> server \<Rightarrow> bool" where
  "same_keys s s' \<longleftrightarrow> sv_agentKeys s' = sv_agentKeys s \<and> db_keys (sv_store s') = db_keys (sv_store s)"

definition keeps :: "server \<Rightarrow> server \<Rightarrow> bool" where
  "keeps s s' \<longleftrightarrow> same_keys s s' \<and> (wf_manager (sv_state s) \<longrightarrow> wf_manager (sv_state s'))"

lemma keeps_sound: "keeps s s' \<Longrightarrow> sound s \<Longrightarrow> sound s'"
  by (simp add: keeps_def same_keys_def sound_def keys_sound_def lookupAgentKey_def)

lemma sound_hub [simp]: "sound (s\<lparr>sv_hub := h\<rparr>) \<longleftrightarrow> sound s"
  by (simp add: sound_def keys_sound_def lookupAgentKey_def)

lemma keeps_refl [simp]: "keeps s s"
  by (simp add: keeps_def same_keys_def)

lemma keeps_trans: "keeps s s' \<Longrightarrow> keeps s' s'' \<Longrightarrow> keeps s s''"
  by (simp add: keeps_def same_keys_def)

lemma keeps_parts [simp]:
  "keeps s (s'\<lparr>sv_hub := h\<rparr>) = keeps s s'"
  "keeps s (s'\<lparr>sv_termRouter := tr\<rparr>) = keeps s s'"
  "keeps s (emit a g w s') = keeps s s'"
  by (simp_all add: keeps_def same_keys_def emit_def)

lemma keeps_store [simp]: "keeps s (s\<lparr>sv_store := st\<rparr>) \<longleftrightarrow> db_keys st = db_keys (sv_store s)"
  by (auto simp: keeps_def same_keys_def)

lemma keeps_state: "(wf_manager (sv_state s) \<Longrightarrow> wf_manager m) \<Longrightarrow> keeps s (s\<lparr>sv_state := m\<rparr>)"
  by (simp add: keeps_def same_keys_def)

text \<open>The calls of the live state, each an operation of a run.\<close>

lemma wf_manager_calls:
  assumes "wf_manager m"
  shows "wf_manager (AddEvent g e m)" "wf_manager (SeedEvent g e m)" "wf_manager (fst (UpsertMachine g mc m))"
    "wf_manager (fst (UpsertSession g x m))" "wf_manager (RemoveSession g i m)" "wf_manager (RemoveMachine g i m)"
    "wf_manager (fst (ApplyHeartbeat g hb ts m))" "wf_manager (fst (ApplyMetric g y m))"
    "wf_manager (fst (SetMachineOnline g i b m))"
  using wf_manager_exec_op [OF assms, of "OpEvent g e"] wf_manager_exec_op [OF assms, of "OpSeed g e"]
    wf_manager_exec_op [OF assms, of "OpMachine g mc"] wf_manager_exec_op [OF assms, of "OpSession g x"]
    wf_manager_exec_op [OF assms, of "OpDropSession g i"] wf_manager_exec_op [OF assms, of "OpDropMachine g i"]
    wf_manager_exec_op [OF assms, of "OpHeartbeat g hb ts"] wf_manager_exec_op [OF assms, of "OpMetric g y"]
    wf_manager_exec_op [OF assms, of "OpOnline g i b"]
  by simp_all

lemma wf_manager_drop_sessions:
  assumes "wf_manager m" and "range_order \<pi>"
  shows "wf_manager (fst (RemoveMachineSessions \<pi> g i m))"
proof -
  have wf: "wf_org (org_view g m)" using assms(1) by blast
  have "fst (RemoveMachineSessions \<pi> g i m) = fst (RemoveMachineSessions id g i m)"
    using RemoveMachineSessions_eq [OF wf assms(2), of i] RemoveMachineSessions_eq [OF wf range_order_id(1), of i] by simp
  then show ?thesis using wf_manager_exec_op [OF assms(1), of "OpDropMachineSessions g i"] by simp
qed

lemma keys_of_writes [simp]:
  "db_keys (fst (SaveEvent f g e st)) = db_keys st"
  "db_keys (fst (db_UpsertMachine f g m st)) = db_keys st"
  "db_keys (fst (db_UpsertSession f g x st)) = db_keys st"
  "db_keys (fst (AppendLog f g l st)) = db_keys st"
  "db_keys (fst (AppendMetric f g y st)) = db_keys st"
  "db_keys (fst (SaveFile f new now file' st)) = db_keys st"
  "db_keys (fst (CreateUser f new now u st)) = db_keys st"
  "db_keys (fst (CreateOrg f new nm slug now st)) = db_keys st"
  "db_keys (fst (UpdatePassword f uid h st)) = db_keys st"
  "db_keys (fst (SetUserRole f g uid role st)) = db_keys st"
  "db_keys (fst (RemoveUser f g uid st)) = db_keys st"
  "db_keys (fst (ApproveUser f uid g role st)) = db_keys st"
  "db_keys (fst (RejectUser f uid st)) = db_keys st"
  "db_keys (fst (SetPlatformAdmin f uid b st)) = db_keys st"
  "db_keys (fst (ActivateLegacyUsers f st)) = db_keys st"
  "db_keys (fst (MigrateOwnersToAdmin f st)) = db_keys st"
  "db_keys (fst (CreateInvite f rnd g em role by ttl now st)) = db_keys st"
  "db_keys (fst (AcceptInvite f tok now st)) = db_keys st"
  "db_keys (fst (RevokeInvite f g tok st)) = db_keys st"
  "db_keys (fst (CreateEnrollToken f rnd g lbl ttl now st)) = db_keys st"
  "db_keys (fst (RevokeEnrollToken f g tok st)) = db_keys st"
  "db_keys (fst (DeletePushSubscription f ep st)) = db_keys st"
  "db_keys (fst (SavePushSubscription f f' new now sub st)) = db_keys st"
  "db_keys (fst (PruneLogs f limit st)) = db_keys st"
  "db_keys (fst (PruneMetrics f limit st)) = db_keys st"
  "db_keys (fst (PruneEvents f limit st)) = db_keys st"
  "db_keys (fst (PruneExpiredTokens f limit st)) = db_keys st"
  by (simp_all add: SaveEvent_def db_UpsertMachine_def db_UpsertSession_def AppendLog_def AppendMetric_def SaveFile_def
      CreateUser_def CreateOrg_def UpdatePassword_def SetUserRole_def RemoveUser_def ApproveUser_def RejectUser_def
      SetPlatformAdmin_def ActivateLegacyUsers_def MigrateOwnersToAdmin_def CreateInvite_def AcceptInvite_def
      RevokeInvite_def CreateEnrollToken_def RevokeEnrollToken_def DeletePushSubscription_def SavePushSubscription_def
      PruneLogs_def PruneMetrics_def PruneEvents_def PruneExpiredTokens_def exec_stmt_def exec_affected_def Let_def
      split: option.splits sum.splits)

lemma keys_of_push_round [simp]: "db_keys (fst (push_round p post db pl k subs st)) = db_keys st"
  by (induction p post db pl k subs st rule: push_round.induct)
     (simp_all add: case_prod_unfold Let_def split: push_outcome.splits)

lemma recordEvent_keeps [simp]: "keeps s (recordEvent k u a g e s)"
  by (simp add: recordEvent_def Let_def keeps_def same_keys_def emit_def wf_manager_calls)

lemma emitServerEvent_keeps [simp]: "keeps s (emitServerEvent k u a g m sid kind msg sev s)"
  by (simp add: emitServerEvent_def)

lemma handleAgentTerminalOutput_keeps [simp]: "keeps s (handleAgentTerminalOutput a env s)"
  by (auto simp: handleAgentTerminalOutput_def Let_def release_pty_def split: option.splits wire.splits)

lemma onAgentMessage_keeps: "keeps s (onAgentMessage a c env s)"
proof (cases "env_Msg env")
  case (AgentHeartbeat p)
  then show ?thesis
    by (cases p) (auto simp: onAgentMessage_def Let_def case_prod_unfold keeps_def same_keys_def emit_def
        wf_manager_calls split: option.splits)
next
  case (SessionUpsert p)
  then show ?thesis
    by (cases p) (auto simp: onAgentMessage_def Let_def case_prod_unfold keeps_def same_keys_def emit_def
        wf_manager_calls)
next
  case (SessionRemoved p)
  then show ?thesis
    by (cases p) (auto simp: onAgentMessage_def Let_def keeps_def same_keys_def emit_def wf_manager_calls)
next
  case (LogAppend p)
  then show ?thesis by (cases p) (auto simp: onAgentMessage_def Let_def)
next
  case (MetricSample p)
  then show ?thesis
    by (cases p) (auto simp: onAgentMessage_def Let_def case_prod_unfold keeps_def same_keys_def emit_def
        wf_manager_calls split: option.splits)
next
  case (EventReport p)
  then show ?thesis by (cases p) (auto simp: onAgentMessage_def Let_def)
qed (simp_all add: onAgentMessage_def Let_def)

lemma onDashboardMessage_keeps: "keeps s (onDashboardMessage a c env s)"
  by (auto simp: onDashboardMessage_def relay_input_def forwardToAgent_def forwardToOrgAgents_def bind_pty_def
      release_pty_def Let_def split: wire.splits option.splits)

lemma readPump_message_keeps: "keeps s (readPump_message a ref env s)"
  by (simp add: readPump_message_def onAgentMessage_keeps onDashboardMessage_keeps split: option.splits)

lemma emits_keep: "keeps s (foldl (\<lambda>s i. emit a g (w i) s) s' is) = keeps s s'"
  by (induction "is" arbitrary: s') simp_all

lemma keeps_after: "(\<And>x. keeps x (f x)) \<Longrightarrow> keeps s s' \<Longrightarrow> keeps s (f s')"
  by (blast intro: keeps_trans)

lemma emitServerEvent_after [simp]: "keeps s s' \<Longrightarrow> keeps s (emitServerEvent k u a g m sid kind msg sev s')"
  by (rule keeps_after) simp_all

lemma onAgentHello_keeps: "keeps s (onAgentHello a c hello s)"
proof -
  have "keeps s (s\<lparr>sv_state := fst (UpsertMachine g m (sv_state s)),
      sv_store := fst (db_UpsertMachine f g m (sv_store s))\<rparr>)" for g m f
    by (simp add: keeps_def same_keys_def wf_manager_calls)
  then show ?thesis by (simp add: onAgentHello_def Let_def)
qed

text \<open>The two halves of a disconnect: the machine goes offline, then its sessions go.\<close>

definition go_offline :: "ambient \<Rightarrow> client \<Rightarrow> server \<Rightarrow> server" where
  "go_offline a c s =
     (case SetMachineOnline (cl_OrgID c) (cl_MachineID c) False (sv_state s) of
        (m, None) \<Rightarrow> s\<lparr>sv_state := m\<rparr>
      | (m, Some mc) \<Rightarrow> emitServerEvent 1 0 a (cl_OrgID c) (cl_MachineID c) '''' EventAgentOffline
          (''Agent disconnected '' @ middot @ '' '' @ m_Hostname mc) SeverityWarn
          (emit a (cl_OrgID c) (MachineUpsert (Some mc))
            (emit a (cl_OrgID c) (AgentStatus (Some \<lparr>as_MachineID = cl_MachineID c, as_Online = False\<rparr>))
              (s\<lparr>sv_state := m, sv_store := fst (db_UpsertMachine (am_db a 0) (cl_OrgID c) mc (sv_store s))\<rparr>))))"

definition drop_sessions :: "ambient \<Rightarrow> client \<Rightarrow> server \<Rightarrow> server" where
  "drop_sessions a c s =
     (case RemoveMachineSessions (am_sess a) (cl_OrgID c) (cl_MachineID c) (sv_state s) of
        (m, ids) \<Rightarrow> foldl (\<lambda>s i. emit a (cl_OrgID c) (SessionRemoved (Some i)) s) (s\<lparr>sv_state := m\<rparr>) ids)"

lemma onUnregister_eq:
  "onUnregister a c s =
     (if cl_Role c \<noteq> RoleAgent \<or> cl_MachineID c = '''' then s else drop_sessions a c (go_offline a c s))"
proof -
  obtain m v where m: "SetMachineOnline (cl_OrgID c) (cl_MachineID c) False (sv_state s) = (m, v)" by fastforce
  show ?thesis by (cases v) (simp_all add: onUnregister_def go_offline_def drop_sessions_def Let_def m)
qed

lemma onUnregister_keeps:
  assumes "ok_ambient a"
  shows "keeps s (onUnregister a c s)"
proof -
  have r: "range_order (am_sess a)" using assms by (simp add: ok_ambient_def)
  have "wf_manager (fst (SetMachineOnline g i False (sv_state s)))" if "wf_manager (sv_state s)" for g i
    using wf_manager_calls(9) [OF that] .
  then have "keeps s (s\<lparr>sv_state := fst (SetMachineOnline g i False (sv_state s)), sv_store := st\<rparr>)"
    if "db_keys st = db_keys (sv_store s)" for g i st using that by (simp add: keeps_def same_keys_def)
  from this [of "sv_store s"] this have "keeps s (go_offline a c s)"
    by (simp add: go_offline_def case_prod_unfold split: option.splits)
  moreover have "keeps x (drop_sessions a c x)" for x
    using wf_manager_drop_sessions [OF _ r, of "sv_state x" "cl_OrgID c" "cl_MachineID c"]
    by (simp add: drop_sessions_def case_prod_unfold emits_keep keeps_state)
  ultimately show ?thesis by (simp add: onUnregister_eq) (blast intro: keeps_trans)
qed

lemma disconnect_keeps: "ok_ambient a \<Longrightarrow> keeps s (disconnect a ref s)"
  using onUnregister_keeps [of a "s\<lparr>sv_hub := run_unregister ref (sv_hub s)\<rparr>"]
  by (simp add: disconnect_def keeps_def same_keys_def split: option.splits)

lemma readPump_keeps: "ok_ambient a \<Longrightarrow> keeps s (readPump rd a ref data s)"
  by (simp add: readPump_def readPump_message_keeps disconnect_keeps split: option.splits)

lemma handleWS_keeps: "keeps s (fst (handleWS lib a role r up first s))"
proof -
  have "keeps s (onAgentHello a c hello (s\<lparr>sv_hub := h\<rparr>))" for c hello h
    by (rule keeps_after) (simp_all add: onAgentHello_keeps)
  then show ?thesis
    by (auto simp: handleWS_def Let_def split: option.splits wire.splits)
qed

lemma reload_sound:
  assumes "ok_ambient a" and "wf_manager (sv_state s)"
  shows "sound (reloadAgentKeys None a s)"
  unfolding sound_def keys_sound_def
proof (intro conjI allI impI)
  show "wf_manager (sv_state (reloadAgentKeys None a s))" using assms(2) by simp
  fix key info
  assume "lookupAgentKey key (reloadAgentKeys None a s) = Some info"
  from reload_lookup [OF this assms(1)]
  show "\<exists>k \<in> set (db_keys (sv_store (reloadAgentKeys None a s))). \<not> ak_Revoked k \<and> ak_Key k = key
      \<and> info = \<lparr>ki_OrgID = ak_OrgID k, ki_MachineID = ak_MachineID k\<rparr>" by simp
qed

lemma handleDeleteMachine_sound:
  assumes "ok_ambient a" and "am_db a = (\<lambda>_. None)" and "sound s"
  shows "sound (fst (handleDeleteMachine a c i q s))"
proof (cases "handleDeleteMachine a c i q s")
  case (Pair s' r)
  have wf: "wf_manager (sv_state s)" using assms(3) by (simp add: sound_def)
  show ?thesis
  proof (cases r)
    case (Reply n u)
    from handleDeleteMachine_ok [OF Pair [unfolded Reply] assms(2)] obtain h where
      s': "s' = reloadAgentKeys None a (s\<lparr>sv_state := RemoveMachine (cm_OrgID c) i
        (fst (RemoveMachineSessions (am_sess a) (cm_OrgID c) i (sv_state s))), sv_hub := h,
      sv_store := fst (RevokeAgentKeysForMachine None i (without_machine (cm_OrgID c) i (sv_store s)))\<rparr>)" .
    have "wf_manager (RemoveMachine (cm_OrgID c) i (fst (RemoveMachineSessions (am_sess a) (cm_OrgID c) i (sv_state s))))"
      using assms(1) wf by (simp add: wf_manager_calls wf_manager_drop_sessions ok_ambient_def)
    then have "sound s'" unfolding s' by (intro reload_sound assms(1)) simp
    then show ?thesis by (simp add: Pair)
  next
    case (Error n code msg)
    have "DeleteMachine (am_db a) (cm_OrgID c) i (sv_store s) = (st, Inl e) \<Longrightarrow> st = sv_store s" for st e
      using DeleteMachine_ok [of "sv_store s" "cm_OrgID c" i] DeleteMachine_absent [of "sv_store s" "cm_OrgID c" i]
      by (cases "\<exists>r \<in> set (db_machines (sv_store s)). mr_OrgID r = cm_OrgID c \<and> mr_ID r = i") (simp_all add: assms(2))
    then have "s' = s"
      using Pair Error by (auto simp: handleDeleteMachine_def Let_def split: prod.splits sum.splits if_splits)
    then show ?thesis using assms(3) by (simp add: Pair)
  qed
qed

lemma enroll_consume_sound:
  assumes "ok_ambient a" and "am_db a = (\<lambda>_. None)" and "sound s"
  shows "sound (fst (enroll_consume a hb req mid s))"
proof -
  obtain st r where st: "ConsumeEnrollToken (\<lambda>k. am_db a (2 + k)) (am_rand a 0) (eq_Token req) mid
      (eq_Hostname req) (am_now a) (sv_store s) = (st, r)" by fastforce
  have fail: "db_keys st = db_keys (sv_store s)" if "r = Inl e" for e
    using st that by (auto simp: ConsumeEnrollToken_def Let_def split: sum.splits if_splits option.splits)
  have wf: "wf_manager (sv_state s)" using assms(3) by (simp add: sound_def)
  show ?thesis
  proof (cases r)
    case (Inl e)
    then show ?thesis
      using keeps_sound [OF _ assms(3), of "s\<lparr>sv_store := st\<rparr>"] fail st
      by (simp add: enroll_consume_def Let_def)
  next
    case (Inr key)
    have "sound (reloadAgentKeys None a (s\<lparr>sv_store := st\<rparr>))" using wf by (intro reload_sound assms(1)) simp
    from keeps_sound [OF _ this]
    show ?thesis using Inr st by (simp add: enroll_consume_def Let_def assms(2))
  qed
qed

lemma handleEnroll_sound:
  assumes "ok_ambient a" and "am_db a = (\<lambda>_. None)" and "sound s"
  shows "sound (fst (handleEnroll a hb body s))"
  using enroll_consume_sound [OF assms] assms(3)
  by (simp add: handleEnroll_def Let_def split: option.splits sum.splits)

lemma handleReassignMachine_sound:
  assumes "ok_ambient a" and "am_db a = (\<lambda>_. None)" and "sound s"
  shows "sound (fst (handleReassignMachine a mid body s))"
proof -
  have fail: "st = sv_store s" if "ReassignMachine (am_db a) mid g (sv_store s) = (st, Inl e)" for st e g
    using that by (auto simp: ReassignMachine_def assms(2) Let_def split: sum.splits)
  have "sound (reloadAgentKeys None a (s\<lparr>sv_store := st\<rparr>))" for st
    using assms(3) by (intro reload_sound assms(1)) (simp add: sound_def)
  then show ?thesis
    using assms(3)
    by (auto simp: handleReassignMachine_def Let_def assms(2) split: option.splits prod.splits sum.splits
        dest: fail [unfolded assms(2)])
qed

lemma sendCommand_keeps: "keeps s (fst (sendCommand a c i act s))"
  by (simp add: sendCommand_def Let_def case_prod_unfold split: option.splits)

lemma run_root_sound:
  assumes "ok_ambient a" and "am_db a = (\<lambda>_. None)" and "sound s"
  shows "sound (fst (run_root p a rq ps e s))"
proof (cases "e = EpEnroll")
  case True
  then show ?thesis by (simp add: handleEnroll_sound assms)
next
  case False
  have "keeps s (fst (run_root p a rq ps e s))"
  proof (cases e)
    case EpWS
    then show ?thesis by (simp add: case_prod_unfold Let_def handleWS_keeps)
  next
    case EpRegister
    then show ?thesis by (simp add: handleRegister_def Let_def case_prod_unfold split: option.splits sum.splits)
  next
    case EpAcceptInvite
    then show ?thesis
      by (simp add: handleAcceptInvite_def Let_def case_prod_unfold split: option.splits sum.splits)
  next
    case EpPublish
    then show ?thesis
      by (simp add: handlePublish_def Let_def case_prod_unfold split: option.splits sum.splits)
  qed (use False in simp_all)
  then show ?thesis using assms(3) by (rule keeps_sound)
qed

lemma run_user_sound:
  assumes "ok_ambient a" and "am_db a = (\<lambda>_. None)" and "sound s"
  shows "sound (fst (run_user p a rq ps c e s))"
proof (cases "e = EpDeleteMachine")
  case True
  then show ?thesis by (simp add: handleDeleteMachine_sound assms)
next
  case False
  have "keeps s (fst (run_user p a rq ps c e s))"
    by (cases e; (use False in \<open>simp\<close>)?; simp add: handleStopSession_def handleRestartSession_def sendCommand_keeps
        handleChangePassword_def handlePushSubscribe_def handlePushUnsubscribe_def handlePushTest_def
        handleCreateEnrollToken_def handleRevokeEnrollToken_def handleSetUserRole_def handleRemoveUser_def answer_def
        handleCreateInvite_def handleRevokeInvite_def Let_def case_prod_unfold split: option.splits sum.splits)
  then show ?thesis using assms(3) by (rule keeps_sound)
qed

lemma run_admin_sound:
  assumes "ok_ambient a" and "am_db a = (\<lambda>_. None)" and "sound s"
  shows "sound (fst (run_admin p a rq ps e s))"
proof (cases "e = EpReassignMachine")
  case True
  then show ?thesis by (simp add: handleReassignMachine_sound assms)
next
  case False
  have a: "keeps s (fst (approve_in a i g role (s\<lparr>sv_store := st\<rparr>)))" if "db_keys st = db_keys (sv_store s)" for i g role st
    using that by (simp add: approve_in_def Let_def case_prod_unfold split: sum.splits)
  have a0: "keeps s (fst (approve_in a i g role s))" for i g role
    using a [of "sv_store s" i g role] by simp
  have "keeps s (fst (run_admin p a rq ps e s))"
  proof (cases e)
    case EpApproveUser
    then show ?thesis
      by (simp add: handleApproveUser_def Let_def case_prod_unfold a a0 split: option.splits sum.splits)
  next
    case EpRejectUser
    then show ?thesis by (simp add: handleRejectUser_def Let_def case_prod_unfold split: sum.splits)
  qed (use False in simp_all)
  then show ?thesis using assms(3) by (rule keeps_sound)
qed

lemma router_sound:
  assumes "ok_ambient a" and "am_db a = (\<lambda>_. None)" and "sound s"
  shows "sound (fst (router p a rq s))"
proof -
  have "sound (fst (run_api p a rq ps c e s))" for ps c e
    using run_user_sound [OF assms] run_admin_sound [OF assms] assms(3)
    by (cases e) (simp_all add: requireSuperadmin_def)
  then show ?thesis
    using run_root_sound [OF assms] assms(3)
    by (auto simp: router_def api_router_def requireUser_def split: option.splits)
qed

lemma retention_tick_keeps: "keeps s (retention_tick a s)"
  by (simp add: retention_tick_def Let_def)

lemma notifyBlocked_keeps: "keeps s (notifyBlocked p post scan a g x s)"
  by (simp add: notifyBlocked_def Let_def case_prod_unfold split: sum.splits)

lemma blocked_tick_keeps: "keeps s (fst (blocked_tick p post scan \<pi> av s t))"
proof -
  have due: "keeps s (fst (foldl (\<lambda>(s, k) x. (notifyBlocked p post scan (av k) g x s, Suc k)) (s, k) xs))" for s k g xs
  proof (induction xs arbitrary: s k)
    case (Cons x xs)
    have "keeps (notifyBlocked p post scan (av k) g x s)
        (fst (foldl (\<lambda>(s, k) x. (notifyBlocked p post scan (av k) g x s, Suc k))
          (notifyBlocked p post scan (av k) g x s, Suc k) xs))" by (rule Cons.IH)
    from keeps_trans [OF notifyBlocked_keeps this] show ?case by simp
  qed simp
  have org: "keeps s (fst (blocked_org p post scan av th (s, t, k) (g, xs)))" for s t k g xs th
    using due by (simp add: blocked_org_def Let_def case_prod_unfold)
  have "keeps s (fst (foldl (blocked_org p post scan av th) (s, t, k) os))" for s t k os th
  proof (induction os arbitrary: s t k)
    case (Cons o' os)
    obtain s' t' k' where st: "blocked_org p post scan av th (s, t, k) o' = (s', t', k')" by (metis prod_cases3)
    have "keeps s s'" using org [of s th t k "fst o'" "snd o'"] st by simp
    from keeps_trans [OF this Cons.IH [of s' t' k']] show ?case by (simp add: st)
  qed simp
  then show ?thesis by (simp add: blocked_tick_def Let_def case_prod_unfold)
qed

lemma bootstrapAdmin_sound:
  assumes "ok_ambient a" and "am_db a = (\<lambda>_. None)" and "sound s"
  shows "sound (bootstrapAdmin lib a s)"
proof -
  have wf: "wf_manager (sv_state s)" using assms(3) by (simp add: sound_def)
  have keep: "sound (s\<lparr>sv_store := st\<rparr>)" if "db_keys st = db_keys (sv_store s)" for st
    by (rule keeps_sound [OF _ assms(3)]) (simp add: that)
  have reload: "sound (reloadAgentKeys None a (s\<lparr>sv_store := st\<rparr>))" for st
    using wf by (intro reload_sound assms(1)) simp
  have org: "db_keys (fst (case OrgBySlug f slug st of Inr g \<Rightarrow> (st, Inr g) | Inl _ \<Rightarrow> CreateOrg f' i nm slug now st)) = db_keys st"
    for f slug st f' i nm now by (simp split: sum.splits)
  show ?thesis
    using assms(3) keep reload org
    by (simp add: bootstrapAdmin_def Let_def case_prod_unfold assms(2) split: sum.splits)
qed

lemma new_server_sound:
  assumes "ok_ambient a" and "am_db a = (\<lambda>_. None)"
  shows "sound (new_server lib a scan cfg st)"
proof -
  let ?s0 = "\<lparr>sv_cfg = cfg, sv_hub = new_hub, sv_state = new_manager, sv_store = st,
            sv_agentKeys = [], sv_termRouter = []\<rparr>"
  let ?s1 = "reloadAgentKeys None a ?s0"
  have s1: "sound ?s1" by (rule reload_sound) (simp_all add: assms(1))
  have seeds: "wf_manager (seed_events evs owners new_manager)" for evs owners
    unfolding seed_events_run by (rule wf_manager_run_ops) simp
  have s2: "sound (?s1\<lparr>sv_state := seed_events evs owners (sv_state ?s1)\<rparr>)" for evs owners
    using s1 seeds by (intro keeps_sound [OF keeps_state s1]) simp
  have users: "sound (s\<lparr>sv_store := fst (MigrateOwnersToAdmin f' (fst (ActivateLegacyUsers f (sv_store s))))\<rparr>)"
    if "sound s" for s f f' by (rule keeps_sound [OF _ that]) simp
  show ?thesis
    using users [OF bootstrapAdmin_sound [OF assms s1]] users [OF bootstrapAdmin_sound [OF assms s2]]
    by (simp add: new_server_def Let_def assms(2) AllRecentEvents_def)
qed

text \<open>An action in which the database answers and the maps are ranged over in some order.\<close>

fun good_act :: "server_act \<Rightarrow> bool" where
  "good_act (Http a rq) \<longleftrightarrow> ok_ambient a \<and> am_db a = (\<lambda>_. None)"
| "good_act (Frame a ref data) \<longleftrightarrow> ok_ambient a"
| "good_act (Gone a ref) \<longleftrightarrow> ok_ambient a"
| "good_act _ \<longleftrightarrow> True"

lemma exec_act_sound: "good_act c \<Longrightarrow> sound (fst x) \<Longrightarrow> sound (fst (exec_act p c x))"
  using keeps_sound [OF readPump_keeps] keeps_sound [OF disconnect_keeps] keeps_sound [OF retention_tick_keeps]
    keeps_sound [OF blocked_tick_keeps]
  by (cases x; cases c) (simp_all add: router_sound)

text \<open>
  C6. Whatever happens to a server (requests of anybody, messages and disconnects of agents and dashboards, ticks of
  its loops) from any start on any database that answers, every key it accepts is a stored key that is not revoked,
  for the organisation and machine of its row, and every record of the live state is filed under its own id.
\<close>

theorem accepted_keys_are_live:
  assumes "reachable_server lib p good_act x"
  shows "keys_sound (fst x) \<and> wf_manager (sv_state (fst x))"
proof -
  from assms have "sound (fst x)"
  proof (induction rule: reachable_server.induct)
    case (boot a scan cfg st)
    then show ?case by (simp add: new_server_sound)
  next
    case (act x c)
    then show ?case by (simp add: exec_act_sound)
  qed
  then show ?thesis by (simp add: sound_def)
qed

definition keyed_store :: store where
  "keyed_store = empty_store\<lparr>db_machines := [machine_rec ''a'' (zero_machine\<lparr>m_ID := ''m''\<rparr>)],
     db_keys := [\<lparr>ak_Key = ''k'', ak_OrgID = ''a'', ak_MachineID = ''m'', ak_Label = [], ak_CreatedAt = 0,
       ak_Revoked = False\<rparr>]\<rparr>"

theorem accepted_keys_are_live_witness:
  "let P = plain_platform token_crypto;
       x = (new_server token_crypto quiet id (sv_cfg (sample_server [] [])) keyed_store, newBlockedTracker);
       y = exec_act P (Http quiet (plain_request ''DELETE'' ''/api/v1/machines/m'' ''m'')) x in
     lookupAgentKey ''k'' (fst x) \<noteq> None \<and> lookupAgentKey ''k'' (fst y) = None \<and> keys_sound (fst y)"
proof -
  let ?P = "plain_platform token_crypto"
  let ?x = "(new_server token_crypto quiet id (sv_cfg (sample_server [] [])) keyed_store, newBlockedTracker)"
  let ?c = "Http quiet (plain_request ''DELETE'' ''/api/v1/machines/m'' ''m'')"
  have db: "am_db quiet = (\<lambda>_. None)" by (simp add: quiet_def)
  have "(lookupAgentKey ''k'' (fst ?x) = None) = False" by code_simp
  moreover have "(lookupAgentKey ''k'' (fst (exec_act ?P ?c ?x)) = None) = True" by code_simp
  moreover have "reachable_server token_crypto ?P good_act (exec_act ?P ?c ?x)"
    by (rule reachable_server.act [OF reachable_server.boot [OF ok_quiet db]]) (simp add: db)
  note accepted_keys_are_live [OF this]
  ultimately show ?thesis by (simp only: Let_def) simp
qed

subsection \<open>Who acts for an organisation\<close>

text \<open>
  An action acts for an organisation when it comes with a credential of it: an agent key, an enrollment token, an
  invite, a session token (a platform administrator's acts for everyone), an agent's open connection. The server's
  own ticks act for everyone.
\<close>

fun acts_for :: "platform \<Rightarrow> server_act \<Rightarrow> server \<Rightarrow> string \<Rightarrow> bool" where
  "acts_for p (Http a rq) s g =
     (case find_route p root_routes (rq_Method rq) (rq_Path rq) of
        Some (EpPublish, ps) \<Rightarrow> (case authAgentKey (rq_Auth rq) s of None \<Rightarrow> False | Some i \<Rightarrow> ki_OrgID i = g)
      | Some (EpEnroll, ps) \<Rightarrow> (case enroll_body (rq_Body rq) of None \<Rightarrow> False
          | Some b \<Rightarrow> list_ex (\<lambda>t. et_Token t = eq_Token b \<and> et_OrgID t = g) (db_tokens (sv_store s)))
      | Some (EpAcceptInvite, ps) \<Rightarrow> (case accept_body (rq_Body rq) of None \<Rightarrow> False
          | Some b \<Rightarrow> list_ex (\<lambda>i. i_Token i = ai_Token b \<and> i_OrgID i = g) (db_invites (sv_store s)))
      | Some (EpWS, ps) \<Rightarrow> (case first_message p rq of
            Some (AgentHello (Some h)) \<Rightarrow> (case lookupAgentKey (ah_APIKey h) s of None \<Rightarrow> False | Some i \<Rightarrow> ki_OrgID i = g)
          | _ \<Rightarrow> False)
      | Some _ \<Rightarrow> False
      | None \<Rightarrow> (case Verify (pf_crypto p) (am_now a) (bearer (rq_Auth rq)) of None \<Rightarrow> False
          | Some c \<Rightarrow> cm_PlatformAdmin c \<or> cm_OrgID c = g))"
| "acts_for p (Frame a ref data) s g =
     (case mget (h_heap (sv_hub s)) ref of None \<Rightarrow> False | Some c \<Rightarrow> cl_OrgID c = g)"
| "acts_for p (Gone a ref) s g =
     (case mget (h_heap (sv_hub s)) ref of None \<Rightarrow> False | Some c \<Rightarrow> cl_OrgID c = g)"
| "acts_for p (Written ref) s g = False"
| "acts_for p (RetentionTick a) s g = True"
| "acts_for p (NotifyTick \<pi> av) s g = True"

text \<open>The runs in which nobody acts for an organisation.\<close>

inductive run_without :: "platform \<Rightarrow> string \<Rightarrow> server \<times> tracker \<Rightarrow> server \<times> tracker \<Rightarrow> bool" for p g where
  rest: "run_without p g x x"
| step: "run_without p g x y \<Longrightarrow> \<not> acts_for p c (fst y) g \<Longrightarrow> run_without p g x (exec_act p c y)"

text \<open>The rows filed under the organisation itself; those of machines and sessions have ids of their own.\<close>

definition own_data :: "string \<Rightarrow> store \<Rightarrow> store" where
  "own_data g st = (workspace_data g st)\<lparr>db_machines := [], db_sessions := []\<rparr>"

definition apart :: "string \<Rightarrow> server \<Rightarrow> server \<Rightarrow> bool" where
  "apart g s s' \<longleftrightarrow> org_view g (sv_state s') = org_view g (sv_state s)
     \<and> own_data g (sv_store s') = own_data g (sv_store s)"

lemma untouched_apart: "untouched g s s' \<Longrightarrow> apart g s s'"
  by (simp add: untouched_def apart_def own_data_def)

lemma apart_trans: "apart g s s' \<Longrightarrow> apart g s' s'' \<Longrightarrow> apart g s s''"
  by (simp add: apart_def)

lemma apart_refl [simp]: "apart g s s"
  by (simp add: apart_def)

lemma apart_parts [simp]:
  "apart g s (s'\<lparr>sv_hub := h\<rparr>) = apart g s s'"
  "apart g s (s'\<lparr>sv_termRouter := tr\<rparr>) = apart g s s'"
  "apart g s (reloadAgentKeys f a s') = apart g s s'"
  "apart g s (emit a g' w s') = apart g s s'"
  by (simp_all add: apart_def emit_def)

lemma apart_store [simp]: "apart g s (s\<lparr>sv_store := st\<rparr>) \<longleftrightarrow> own_data g st = own_data g (sv_store s)"
  by (simp add: apart_def)

lemma own_data_rows: "own_rows g st' = own_rows g st \<Longrightarrow> own_data g st' = own_data g st"
  by (simp add: own_data_def own_rows_def workspace_data_def tenant_view_def)

lemma own_data_accounts [simp]:
  "own_data g (fst (CreateUser f new now u st)) = own_data g st"
  "own_data g (st\<lparr>db_keys := ks\<rparr>) = own_data g st"
  "own_data g (fst (db_UpsertMachine f g' m st)) = own_data g st"
  "own_data g (fst (db_UpsertSession f g' x st)) = own_data g st"
  by (simp_all add: own_data_def workspace_data_def tenant_view_def CreateUser_def db_UpsertMachine_def
      db_UpsertSession_def exec_stmt_def Let_def split: option.splits)

lemma own_data_writes:
  assumes "g' \<noteq> g"
  shows "own_data g' (fst (AppendLog f g l st)) = own_data g' st"
    and "own_data g' (fst (AppendMetric f g y st)) = own_data g' st"
    and "own_data g' (fst (SaveEvent f g e st)) = own_data g' st"
  using own_rows_writes [OF assms] by (auto intro: own_data_rows)

lemma recordEvent_apart: "g' \<noteq> g \<Longrightarrow> apart g' s (recordEvent k u a g e s)"
  by (simp add: recordEvent_def Let_def apart_def emit_def org_view_writes own_data_writes)

lemma recordEvent_apart_after: "g' \<noteq> g \<Longrightarrow> apart g' s s' \<Longrightarrow> apart g' s (recordEvent k u a g e s')"
  using apart_trans recordEvent_apart by blast

lemma onAgentMessage_apart:
  assumes "g \<noteq> cl_OrgID c"
  shows "apart g s (onAgentMessage a c env s)"
  using assms
  by (auto simp: onAgentMessage_def Let_def case_prod_unfold recordEvent_apart [unfolded apart_def] handleAgentTerminalOutput_def release_pty_def
      apart_def emit_def org_view_writes own_data_writes split: wire.splits option.splits)

lemma emitServerEvent_apart: "g' \<noteq> g \<Longrightarrow> apart g' s s' \<Longrightarrow> apart g' s (emitServerEvent k u a g m sid kind msg sev s')"
  by (simp add: emitServerEvent_def recordEvent_apart_after)

lemma readPump_message_apart:
  assumes "\<not> acts_for p (Frame a ref data) s g"
  shows "apart g s (readPump_message a ref env s)"
proof (cases "mget (h_heap (sv_hub s)) ref")
  case (Some c)
  have d: "apart g s (onDashboardMessage a c env s)"
    by (auto simp: onDashboardMessage_def relay_input_def forwardToAgent_def forwardToOrgAgents_def bind_pty_def
        release_pty_def Let_def split: wire.splits option.splits)
  show ?thesis
    using assms Some onAgentMessage_apart [of g c s a env] d by (simp add: readPump_message_def)
qed (simp add: readPump_message_def)

lemma emits_apart: "apart g s (foldl (\<lambda>s i. emit a g' (w i) s) s' is) = apart g s s'"
  by (induction "is" arbitrary: s') simp_all

lemma onAgentHello_apart: "g \<noteq> cl_OrgID c \<Longrightarrow> apart g s s' \<Longrightarrow> apart g s (onAgentHello a c hello s')"
  by (simp add: onAgentHello_def Let_def emitServerEvent_apart apart_def org_view_writes)
    (simp add: emitServerEvent_apart [unfolded apart_def] emit_def org_view_writes)

lemma onUnregister_apart:
  assumes "g \<noteq> cl_OrgID c"
  shows "apart g s (onUnregister a c s)"
proof -
  have "apart g s (s\<lparr>sv_state := fst (SetMachineOnline (cl_OrgID c) i False (sv_state s)), sv_store := st\<rparr>)"
    if "own_data g st = own_data g (sv_store s)" for i st
    using org_view_writes(7) [OF assms] that by (simp add: apart_def)
  from this [of "sv_store s"] this have "apart g s (go_offline a c s)"
    by (simp add: go_offline_def case_prod_unfold emitServerEvent_apart assms split: option.splits)
  moreover have "apart g x (drop_sessions a c x)" for x
    using drop_sessions_untouched [OF assms, of "am_sess a" "cl_MachineID c" "sv_state x"]
    by (simp add: drop_sessions_def case_prod_unfold emits_apart) (simp add: apart_def)
  ultimately show ?thesis by (simp add: onUnregister_eq) (blast intro: apart_trans)
qed

lemma handleWS_apart:
  assumes "\<And>h info. first = Some (AgentHello (Some h)) \<Longrightarrow> lookupAgentKey (ah_APIKey h) s = Some info \<Longrightarrow> ki_OrgID info \<noteq> g"
  shows "apart g s (fst (handleWS lib a role r up first s))"
proof -
  have "apart g s (onAgentHello a c h (s\<lparr>sv_hub := NewClient ref RoleAgent (ki_OrgID info) m (sv_hub s)\<rparr>))"
    if "first = Some (AgentHello (Some h))" "lookupAgentKey (ah_APIKey h) s = Some info"
      "mget (h_heap (NewClient ref RoleAgent (ki_OrgID info) m (sv_hub s))) ref = Some c" for h info c ref m
  proof -
    have "cl_OrgID c = ki_OrgID info" using that(3) by (auto simp: NewClient_def)
    then show ?thesis using assms [OF that(1,2)] by (simp add: onAgentHello_apart)
  qed
  then show ?thesis
    by (auto simp: handleWS_def Let_def split: option.splits wire.splits)
qed

lemma filter_upsert_other:
  assumes "\<not> Q r" and "\<And>x. x \<in> set t \<Longrightarrow> key x = key r \<Longrightarrow> \<not> Q x"
  shows "filter Q (sql_upsert key r t) = filter Q t"
proof -
  have "filter Q (map (\<lambda>x. if key x = key r then r else x) t) = filter Q t"
    using assms by (induction t) auto
  with assms(1) show ?thesis by (simp add: sql_upsert_def)
qed

lemma own_data_consume:
  assumes "\<not> list_ex (\<lambda>t. et_Token t = tok \<and> et_OrgID t = g) (db_tokens st)"
  shows "own_data g (fst (ConsumeEnrollToken fs rnd tok mid label now st)) = own_data g st"
proof (cases "first_or ErrTokenInvalid (fs 0) (find_token tok st)")
  case (Inr rec)
  then have "find_token tok st = Some rec" by (auto simp: first_or_def split: option.splits)
  then have rec: "rec \<in> set (db_tokens st)" "et_Token rec = tok" unfolding find_token_def by (rule sql_first_Some)+
  with assms have g: "et_OrgID rec \<noteq> g" by (auto simp: list_ex_iff)
  have "filter (\<lambda>r. et_OrgID r = g) (sql_upsert et_Token (rec\<lparr>et_UsedAt := u, et_UsedByID := i\<rparr>) (db_tokens st))
      = filter (\<lambda>r. et_OrgID r = g) (db_tokens st)" for u i
    by (rule filter_upsert_other) (use g assms rec in \<open>auto simp: list_ex_iff\<close>)
  then have "own_data g (st\<lparr>db_tokens := sql_upsert et_Token (rec\<lparr>et_UsedAt := u, et_UsedByID := i\<rparr>) (db_tokens st)\<rparr>)
      = own_data g st" for u i
    by (simp add: own_data_def workspace_data_def tenant_view_def)
  then show ?thesis by (simp add: ConsumeEnrollToken_def Inr Let_def split: option.splits)
qed (simp add: ConsumeEnrollToken_def)

lemma handleEnroll_apart:
  assumes "\<And>b. body = Some b \<Longrightarrow>
    \<not> list_ex (\<lambda>t. et_Token t = eq_Token b \<and> et_OrgID t = g) (db_tokens (sv_store s))"
  shows "apart g s (fst (handleEnroll a hb body s))"
proof (cases body)
  case (Some b)
  have "apart g s (fst (enroll_consume a hb b mid s))" for mid
    using own_data_consume [OF assms [OF Some]]
    by (simp add: enroll_consume_def Let_def case_prod_unfold split: sum.splits) (simp add: apart_def)
  then show ?thesis by (simp add: handleEnroll_def Some Let_def split: sum.splits option.splits)
qed (simp add: handleEnroll_def)

lemma own_data_accept:
  assumes "\<not> list_ex (\<lambda>i. i_Token i = tok \<and> i_OrgID i = g) (db_invites st)"
  shows "own_data g (fst (AcceptInvite f tok now st)) = own_data g st"
proof -
  have "filter (\<lambda>r. i_OrgID r = g) (sql_update (\<lambda>r. i_Token r = tok) (i_AcceptedAt_update (\<lambda>_. Some now)) t)
      = filter (\<lambda>r. i_OrgID r = g) t" if "\<not> list_ex (\<lambda>i. i_Token i = tok \<and> i_OrgID i = g) t" for t
    using that unfolding sql_update_def by (induction t) auto
  from this [OF assms] show ?thesis
    by (simp add: AcceptInvite_def exec_stmt_def own_data_def workspace_data_def tenant_view_def split: option.splits)
qed

lemma handleAcceptInvite_apart:
  assumes "\<And>b. body = Some b \<Longrightarrow>
    \<not> list_ex (\<lambda>i. i_Token i = ai_Token b \<and> i_OrgID i = g) (db_invites (sv_store s))"
  shows "apart g s (fst (handleAcceptInvite lib a body s))"
proof (cases body)
  case (Some b)
  have tok: "i_Token ivt = ai_Token b" if "GetInvite f (ai_Token b) (sv_store s) = Inr ivt" for f ivt
    using that sql_first_Some(2) [of i_Token "\<lambda>r. i_Token r = ai_Token b" "db_invites (sv_store s)" ivt]
    by (auto simp: GetInvite_def first_or_def split: option.splits)
  have inv: "db_invites (fst (CreateUser f new now u st)) = db_invites st" for f new now u st
    by (simp add: CreateUser_def exec_stmt_def Let_def split: option.splits)
  have "own_data g (fst (AcceptInvite f2 (ai_Token b) now (fst (CreateUser f new now' u (sv_store s)))))
      = own_data g (sv_store s)" for f2 now f new now' u
    using own_data_accept [of "ai_Token b" g "fst (CreateUser f new now' u (sv_store s))" f2 now] assms [OF Some]
    by (simp add: inv)
  then show ?thesis
    using tok by (auto simp: handleAcceptInvite_def Some Let_def case_prod_unfold split: sum.splits)
qed (simp add: handleAcceptInvite_def)

lemma handlePublish_apart:
  assumes "\<And>info. authAgentKey (pr_key r) s = Some info \<Longrightarrow> ki_OrgID info \<noteq> g"
  shows "apart g s (fst (handlePublish sha a r s))"
proof (cases "authAgentKey (pr_key r) s")
  case (Some info)
  have n: "g \<noteq> ki_OrgID info" using assms [OF Some] by simp
  have "own_data g (fst (SaveFile f new now fl st)) = own_data g st" if "f_OrgID fl = ki_OrgID info" for f new now fl st
    using that n by (auto simp: SaveFile_def Let_def own_data_def workspace_data_def tenant_view_def split: option.splits)
  then show ?thesis
    by (simp add: handlePublish_def Some Let_def case_prod_unfold emitServerEvent_apart n split: option.splits sum.splits)
qed (simp add: handlePublish_def)

lemma http_apart:
  assumes "\<not> acts_for p (Http a rq) s g"
  shows "apart g s (fst (router p a rq s))"
proof (cases "find_route p root_routes (rq_Method rq) (rq_Path rq)")
  case None
  show ?thesis
  proof (cases "Verify (pf_crypto p) (am_now a) (bearer (rq_Auth rq))")
    case (Some c)
    have "untouched g s (fst (run_api p a rq ps c e s))" for ps e
      using assms None Some run_user_untouched [of g c s p a rq ps] by (cases e) (auto simp: requireSuperadmin_def)
    then have "apart g s (fst (run_api p a rq ps c e s))" for ps e by (rule untouched_apart)
    then show ?thesis by (auto simp: router_def api_router_def requireUser_def None Some split: option.splits)
  qed (auto simp: router_def api_router_def requireUser_def None split: option.splits)
next
  case (Some x)
  obtain e ps where x: "x = (e, ps)" by fastforce
  have "apart g s (fst (run_root p a rq ps e s))"
  proof (cases e)
    case EpWS
    have "apart g s (fst (handleWS (pf_crypto p) a (rq_Query rq ''role'') (rq_Auth rq) (rq_Upgraded rq) (first_message p rq) s))"
      using assms by (intro handleWS_apart) (simp add: Some x EpWS)
    then show ?thesis by (simp add: EpWS case_prod_unfold Let_def)
  next
    case EpEnroll
    have "apart g s (fst (handleEnroll a (rq_Base rq) (enroll_body (rq_Body rq)) s))"
      using assms by (intro handleEnroll_apart) (simp add: Some x EpEnroll)
    then show ?thesis by (simp add: EpEnroll)
  next
    case EpAcceptInvite
    have "apart g s (fst (handleAcceptInvite (pf_crypto p) a (accept_body (rq_Body rq)) s))"
      using assms by (intro handleAcceptInvite_apart) (simp add: Some x EpAcceptInvite)
    then show ?thesis by (simp add: EpAcceptInvite)
  next
    case EpPublish
    have "apart g s (fst (handlePublish (pf_sha p) a (publish_of rq) s))"
      using assms by (intro handlePublish_apart) (simp add: Some x EpPublish publish_of_def)
    then show ?thesis by (simp add: EpPublish)
  next
    case EpRegister
    then show ?thesis by (simp add: handleRegister_def Let_def case_prod_unfold split: option.splits sum.splits)
  qed simp_all
  then show ?thesis by (simp add: router_def Some x)
qed

lemma disconnect_apart:
  assumes "\<not> acts_for p (Gone a ref) s g"
  shows "apart g s (disconnect a ref s)"
proof (cases "mget (h_heap (sv_hub s)) ref")
  case (Some d)
  then have "g \<noteq> cl_OrgID d" using assms by auto
  from onUnregister_apart [OF this, of "s\<lparr>sv_hub := run_unregister ref (sv_hub s)\<rparr>" a]
  show ?thesis by (simp add: disconnect_def Some apart_def)
qed (simp add: disconnect_def)

lemma readPump_apart:
  assumes "\<not> acts_for p (Frame a ref data) s g"
  shows "apart g s (readPump rd a ref data s)"
  using readPump_message_apart [OF assms] disconnect_apart [of p a ref s g] assms
  by (simp add: readPump_def split: option.splits)



end
