(* ===== verification/Commands.thy ===== *)
theory Commands
  imports Agent_Daemon Server_Run Config
begin

section \<open>The commands\<close>

text \<open>
  Models the two programs: \<open>main\<close> and \<open>runPublish\<close> of \<open>apps/agent/main.go\<close> with the parsing of their flags, and
  \<open>main\<close> of \<open>apps/server/main.go\<close>: the configuration is loaded, the store is opened (\<open>Open\<close> of
  \<open>internal/store/store.go\<close>), the server is built from both and runs until its context or its listener ends. The
  drivers of the database, YAML, HTTP and the clock are parameters.
\<close>

subsection \<open>Flags\<close>

text \<open>
  \<open>FlagSet.Parse\<close> of Go for flags that take a string: it stops before the first argument that is no flag, and after
  \<open>--\<close>. On an error the process exits, with 0 when help was asked for.
\<close>

datatype flag_error = BadSyntax | Undefined | NeedsArgument | HelpAsked

fun exit_code :: "flag_error \<Rightarrow> nat" where
  "exit_code HelpAsked = 0"
| "exit_code _ = 2"

definition flag_name :: "string \<Rightarrow> string" where
  "flag_name s = (if has_prefix s ''--'' then drop 2 s else drop 1 s)"

text \<open>A value after an equals sign, which is not the first letter.\<close>

definition flag_value :: "string \<Rightarrow> string \<times> string option" where
  "flag_value n =
     (let k = takeWhile (\<lambda>c. c \<noteq> CHR ''='') (tl n)
      in if Suc (length k) < length n then (take (Suc (length k)) n, Some (drop (length k + 2) n)) else (n, None))"

fun parse_flags :: "string list \<Rightarrow> (string, string) gomap \<Rightarrow> string list
    \<Rightarrow> flag_error + (string, string) gomap \<times> string list" where
  "parse_flags names m [] = Inr (m, [])"
| "parse_flags names m (s # args) =
     (if length s < 2 \<or> hd s \<noteq> CHR ''-'' then Inr (m, s # args)
      else if s = ''--'' then Inr (m, args)
      else (let n = flag_name s in
        if n = [] \<or> hd n = CHR ''-'' \<or> hd n = CHR ''='' then Inl BadSyntax
        else (let (n, v) = flag_value n in
          if n \<notin> set names then Inl (if n = ''help'' \<or> n = ''h'' then HelpAsked else Undefined)
          else (case v of Some x \<Rightarrow> parse_flags names (mput n x m) args
            | None \<Rightarrow> (case args of [] \<Rightarrow> Inl NeedsArgument | x # args \<Rightarrow> parse_flags names (mput n x m) args)))))"

definition flag_of :: "(string, string) gomap \<Rightarrow> string \<Rightarrow> string" where
  "flag_of m n = (case mget m n of None \<Rightarrow> [] | Some v \<Rightarrow> v)"

subsection \<open>The agent\<close>

datatype agent_outcome =
    Exited nat string
  | Printed string
  | Stopped agent_error
  | Daemon runtime "agent_provider list"

definition publish_usage :: string where
  "publish_usage = ''usage: mission-control-agent publish <path> [--session id] [--config agent.yaml]''"

text \<open>\<open>content\<close> reads the file to publish, \<open>send\<close> posts it.\<close>

definition runPublish ::
  "'w process_env \<Rightarrow> (Agent_Enroll.publish_request \<Rightarrow> 'w \<Rightarrow> 'w \<times> (string + http_reply)) \<Rightarrow> (string \<Rightarrow> string option)
     \<Rightarrow> (string, string) gomap \<Rightarrow> string list \<Rightarrow> 'w \<Rightarrow> 'w \<times> agent_outcome" where
  "runPublish pe send content files args w =
     (case parse_flags [''config'', ''session''] [] args of
        Inl e \<Rightarrow> (w, Exited (exit_code e) [])
      | Inr (m, rest) \<Rightarrow>
          (case rest of [] \<Rightarrow> (w, Exited 2 publish_usage)
           | path # _ \<Rightarrow>
               (let (cfg, err) = LoadAgent (pe_yaml pe) (pe_getenv pe) files (flag_of m ''config'') in
                case err of Some e \<Rightarrow> (w, Exited 1 (''load config: '' @ e))
                | None \<Rightarrow>
                    (let (w, err) = Publish (pe_host pe) send (content path) (ag_ServerURL cfg) (ag_APIKey cfg) path
                           (flag_of m ''session'') w
                     in case err of Some e \<Rightarrow> (w, Exited 1 (''publish: '' @ e))
                        | None \<Rightarrow> (w, Printed (''published '' @ path))))))"

definition agent_main ::
  "'w process_env \<Rightarrow> (Agent_Enroll.publish_request \<Rightarrow> 'w \<Rightarrow> 'w \<times> (string + http_reply)) \<Rightarrow> (string \<Rightarrow> string option)
     \<Rightarrow> (string, string) gomap \<Rightarrow> string list \<Rightarrow> 'w \<Rightarrow> 'w \<times> (string, string) gomap \<times> agent_outcome" where
  "agent_main pe send content files argv w =
     (if 1 < length argv \<and> argv ! 1 = ''publish''
      then (let (w, out) = runPublish pe send content files (drop 2 argv) w in (w, files, out))
      else case parse_flags [''config''] [] (drop 1 argv) of
          Inl e \<Rightarrow> (w, files, Exited (exit_code e) [])
        | Inr (m, rest) \<Rightarrow>
            (let (w, files, r) = runDaemon pe (flag_of m ''config'') files w
             in (w, files, case r of Inl e \<Rightarrow> Stopped e | Inr (rt, ps) \<Rightarrow> Daemon rt ps)))"

subsection \<open>The server\<close>

datatype dialect = Postgres | Sqlite

text \<open>\<open>Open\<close>: the driver is chosen by the DSN and the tables of the models are created or migrated.\<close>

definition store_models :: "string list" where
  "store_models = [''Org'', ''User'', ''Invite'', ''PublishedFile'', ''Machine'', ''Session'', ''LogLine'', ''MetricSample'',
     ''Event'', ''EnrollmentToken'', ''AgentKey'', ''PushSubscription'']"

definition Open ::
  "(dialect \<Rightarrow> string \<Rightarrow> string + 'db) \<Rightarrow> (string list \<Rightarrow> 'db \<Rightarrow> string + 'db) \<Rightarrow> string \<Rightarrow> string + 'db" where
  "Open opener migrate dsn =
     (case opener (if isPostgresDSN dsn then Postgres else Sqlite) dsn of
        Inl e \<Rightarrow> Inl e
      | Inr db \<Rightarrow> migrate store_models db)"

text \<open>The parts of the configuration the components are built with.\<close>

definition server_cfg_of :: "server_config \<Rightarrow> server_cfg" where
  "server_cfg_of cfg = \<lparr>cf_PublicURL = sc_PublicURL cfg, cf_AdminEmail = sc_AdminEmail cfg,
     cf_AdminPass = sc_AdminPass cfg, cf_LogHours = rc_LogHours (sc_Retention cfg),
     cf_MetricHours = rc_MetricHours (sc_Retention cfg), cf_BlockedNotifySeconds = sc_BlockedNotifySeconds cfg\<rparr>"

definition configured :: "server_config \<Rightarrow> platform \<Rightarrow> platform" where
  "configured cfg p = p\<lparr>pf_origins := sc_CORSOrigins cfg, pf_StaticDir := sc_StaticDir cfg,
     pf_AgentBinDir := sc_AgentBinDir cfg,
     pf_sender := \<lparr>pc_Public = wp_VAPIDPublic (sc_WebPush cfg), pc_Private = wp_VAPIDPrivate (sc_WebPush cfg),
       pc_Subject = wp_Subject (sc_WebPush cfg)\<rparr>\<rparr>"

datatype server_exit = UsageError nat | Panicked string | Fatal string string | ShutdownComplete

record server_process =
  sp_yaml :: "string \<Rightarrow> server_config \<Rightarrow> server_config \<times> bool"
  sp_getenv :: "string \<Rightarrow> string"
  sp_connect :: "dialect \<Rightarrow> string \<Rightarrow> string + store"
  sp_migrate :: "string list \<Rightarrow> store \<Rightarrow> string + store"
  sp_ambient :: ambient
  sp_platform :: platform

text \<open>
  \<open>server_start\<close> is \<open>main\<close> up to \<open>Run\<close>; \<open>server_main\<close> the whole process, with the actions that happen to the running
  server and what ends it.
\<close>

definition server_start ::
  "server_process \<Rightarrow> (string, string) gomap \<Rightarrow> string \<Rightarrow> server_exit + platform \<times> server \<times> tracker" where
  "server_start prc files path =
     (let (cfg, err) = LoadServer (sp_yaml prc) (sp_getenv prc) files path in
      case err of Some e \<Rightarrow> Inl (Panicked e)
      | None \<Rightarrow>
          (case Open (sp_connect prc) (sp_migrate prc) (sc_DatabaseURL cfg) of
             Inl e \<Rightarrow> Inl (Fatal ''open store'' e)
           | Inr st \<Rightarrow>
               (let p = configured cfg (sp_platform prc) in
                Inr (p, new_server (pf_crypto p) (sp_ambient prc) (sc_events p) (server_cfg_of cfg) st, newBlockedTracker))))"

definition server_main ::
  "server_process \<Rightarrow> (string, string) gomap \<Rightarrow> string list \<Rightarrow> server_act list \<Rightarrow> run_end
     \<Rightarrow> (server \<times> tracker) option \<times> server_exit" where
  "server_main prc files argv acts ending =
     (case parse_flags [''config''] [] (drop 1 argv) of
        Inl e \<Rightarrow> (None, UsageError (exit_code e))
      | Inr (m, rest) \<Rightarrow>
          (case server_start prc files (flag_of m ''config'') of
             Inl e \<Rightarrow> (None, e)
           | Inr (p, x) \<Rightarrow>
               (Some (foldl (\<lambda>x c. exec_act p c x) x acts),
                case Run_result ending of None \<Rightarrow> ShutdownComplete | Some e \<Rightarrow> Fatal ''server exited'' e)))"

subsection \<open>What a start gives\<close>

text \<open>
  The usage names the path first and the flags after it, but the flags end at the path: whatever follows it is
  ignored, and the file is published without the session it was meant for.
\<close>

lemma publish_ignores_flags_after_path:
  assumes "path \<noteq> []" "hd path \<noteq> CHR ''-''"
  shows "runPublish pe send content files (path # args) w = runPublish pe send content files [path] w"
  using assms by (simp add: runPublish_def)

lemma flags_before_path:
  assumes "path \<noteq> []" "hd path \<noteq> CHR ''-''"
  shows "parse_flags [''config'', ''session''] [] [''--session'', i, path] = Inr ([(''session'', i)], [path])"
  using assms by (simp add: flag_name_def flag_value_def has_prefix_def Let_def mput_def)

text \<open>A server process that gets as far as running starts from what its configuration and its database say, and runs.\<close>

lemma server_main_runs:
  assumes "server_main prc files argv acts ending = (Some x, out)"
  obtains p y where "server_start prc files (flag_of (fst (projr (parse_flags [''config''] [] (drop 1 argv)))) ''config'') = Inr (p, y)"
    and "x = foldl (\<lambda>x c. exec_act p c x) y acts"
  using assms by (auto simp: server_main_def split: sum.splits)

lemma server_start_boots:
  assumes "server_start prc files path = Inr (p, y)"
  obtains cfg st where "LoadServer (sp_yaml prc) (sp_getenv prc) files path = (cfg, None)"
    and "Open (sp_connect prc) (sp_migrate prc) (sc_DatabaseURL cfg) = Inr st" and "p = configured cfg (sp_platform prc)"
    and "y = (new_server (pf_crypto p) (sp_ambient prc) (sc_events p) (server_cfg_of cfg) st, newBlockedTracker)"
  using assms by (auto simp: server_start_def Let_def split: prod.splits option.splits sum.splits)

lemma server_process_reachable:
  assumes "server_start prc files path = Inr (p, y)" "ok_ambient (sp_ambient prc)" "am_db (sp_ambient prc) = (\<lambda>_. None)"
    and "list_all ok acts"
  shows "reachable_server (pf_crypto p) p ok (foldl (\<lambda>x c. exec_act p c x) y acts)"
proof -
  have "reachable_server (pf_crypto p) p ok y"
    using assms(1) by (rule server_start_boots) (simp add: reachable_server.boot assms)
  with assms(4) show ?thesis
    by (induction acts arbitrary: y) (simp_all add: reachable_server.act del: split_paired_all split_paired_All)
qed

end
