(* ===== verification/Wire_Laws.thy ===== *)
theory Wire_Laws
  imports Wire_Codec
begin

section \<open>What is sent is what is received\<close>

text \<open>
  The laws of the codec of \<open>Wire_Codec\<close>: every message the program sends is read back unchanged from its text
  (\<open>message_text_roundtrip\<close>), and whatever text arrives, what \<open>Decode\<close> and \<open>As\<close> hand to the handlers is a
  message of its type, with integers of 64 bits, strings of valid UTF-8, finite floats and maps without repeated
  keys (\<open>decoded_messages_typed\<close>).
\<close>

subsection \<open>Objects\<close>

lemma matches_absent: "json_fold n \<notin> (json_fold \<circ> fst) ` set kvs \<Longrightarrow> matches n kvs = []"
  by (force simp: matches_def filter_empty_conv)

lemma present_keys: "fst ` set (present xs) \<subseteq> fst ` set xs"
  by (induction xs rule: present.induct) auto

lemma matches_present:
  "distinct (map (json_fold \<circ> fst) xs) \<Longrightarrow> map_of xs n = Some v \<Longrightarrow>
   matches n (present xs) = (case v of None \<Rightarrow> [] | Some j \<Rightarrow> [j])"
proof (induction xs rule: present.induct)
  case (2 k xs)
  show ?case
  proof (cases "k = n")
    case True
    have "json_fold n \<notin> (json_fold \<circ> fst) ` set (present xs)"
      using 2(2) True present_keys [of xs] by force
    then show ?thesis using 2(3) True by (simp add: matches_absent)
  qed (use 2 in auto)
next
  case (3 k j xs)
  show ?case
  proof (cases "k = n")
    case True
    have "json_fold n \<notin> (json_fold \<circ> fst) ` set (present xs)"
      using 3(2) True present_keys [of xs] by force
    then have "matches n (present xs) = []" by (rule matches_absent)
    then show ?thesis using 3(3) True by (auto simp: matches_def)
  next
    case False
    have "n \<in> fst ` set xs" using 3(3) False by (force dest: map_of_SomeD)
    then have "json_fold k \<noteq> json_fold n" using 3(2) by force
    then show ?thesis using 3 False by (simp add: matches_def)
  qed
qed simp

text \<open>The keys a struct writes: plain ASCII, no two alike.\<close>

definition plain_keys :: "(string \<times> 'a) list \<Rightarrow> bool" where
  "plain_keys xs \<longleftrightarrow> distinct (map (json_fold \<circ> fst) xs) \<and> list_all (\<lambda>x. list_all (\<lambda>c. (of_char c :: nat) < 128) (fst x)) xs"

lemma get_present:
  "plain_keys xs \<Longrightarrow> map_of xs n = Some v \<Longrightarrow>
   get f n (present xs) old = (case v of None \<Rightarrow> Some old | Some j \<Rightarrow> f j old)"
  by (simp add: get_def matches_present plain_keys_def split: option.splits)

lemma rd_object: "rd_struct g (js_object xs) old = g (present xs) old"
  by (simp add: rd_struct_def js_object_def)

text \<open>A JSON value that is written and read back, nested at most \<open>k\<close> deep.\<close>

definition writable :: "nat \<Rightarrow> json_value \<Rightarrow> bool" where
  "writable k j \<longleftrightarrow> wf_json j \<and> json_depth j \<le> k"

lemma writable_leaf [simp]:
  "writable k VNull" "writable k (VBool b)" "writable k (VStr s) \<longleftrightarrow> valid_utf8 s" "writable k (VNum l) \<longleftrightarrow> is_number l"
  by (auto simp: writable_def)

lemma foldr_max_bound: "foldr max xs (0 :: nat) \<le> k \<longleftrightarrow> (\<forall>x \<in> set xs. x \<le> k)"
  by (induction xs) auto

lemma writable_array: "0 < k \<Longrightarrow> writable k (VArr vs) \<longleftrightarrow> list_all (writable (k - 1)) vs"
  by (cases k) (auto simp: writable_def foldr_max_bound list_all_iff)

lemma present_all: "(\<forall>x \<in> set (present xs). P (fst x) (snd x)) \<longleftrightarrow> list_all (\<lambda>x. pred_option (P (fst x)) (snd x)) xs"
  by (induction xs rule: present.induct) auto

lemma writable_object:
  assumes "plain_keys xs" "0 < k"
  shows "writable k (js_object xs) \<longleftrightarrow> list_all (\<lambda>x. pred_option (writable (k - 1)) (snd x)) xs"
proof -
  have v: "valid_utf8 (fst x)" if "x \<in> set xs" for x
    using assms(1) that by (auto simp: plain_keys_def list_all_iff intro!: valid_utf8_ascii)
  have "writable k (js_object xs) \<longleftrightarrow> (\<forall>x \<in> set (present xs). valid_utf8 (fst x) \<and> writable (k - 1) (snd x))"
    using assms(2) by (cases k) (auto simp: js_object_def writable_def foldr_max_bound list_all_iff case_prod_beta)
  also have "\<dots> \<longleftrightarrow> list_all (\<lambda>x. pred_option (\<lambda>j. valid_utf8 (fst x) \<and> writable (k - 1) j) (snd x)) xs"
    by (rule present_all)
  also have "\<dots> \<longleftrightarrow> list_all (\<lambda>x. pred_option (writable (k - 1)) (snd x)) xs"
    using v by (auto simp: list_all_iff pred_option_def)
  finally show ?thesis .
qed

lemma writable_int [simp]: "writable k (js_int i)"
  by (simp add: js_int_def is_number_itoa)

lemma writable_uint [simp]: "writable k (js_uint w)"
  by (simp add: js_uint_def is_number_utoa)

subsection \<open>Values\<close>

definition int_ok :: "int \<Rightarrow> bool" where
  "int_ok i \<longleftrightarrow> - (2 ^ 63) \<le> i \<and> i < 2 ^ 63"

definition typed_map :: "(string, string) gomap \<Rightarrow> bool" where
  "typed_map m \<longleftrightarrow> distinct (map fst m) \<and> list_all (\<lambda>(k, v). valid_utf8 k \<and> valid_utf8 v) m"

text \<open>
  The laws of \<open>strconv\<close>: the shortest text of a finite float is a JSON number that parses to the same bits, and no
  number parses to an infinity (\<open>ParseFloat\<close> fails out of range).
\<close>

definition float_text :: "(float64 \<Rightarrow> string) \<Rightarrow> (string \<Rightarrow> float64 option) \<Rightarrow> bool" where
  "float_text fmt rd \<longleftrightarrow> (\<forall>w. float_finite w \<longrightarrow> is_number (fmt w) \<and> rd (fmt w) = Some w)"

definition reads_finite :: "(string \<Rightarrow> float64 option) \<Rightarrow> bool" where
  "reads_finite rd \<longleftrightarrow> (\<forall>l w. rd l = Some w \<longrightarrow> float_finite w)"

lemma rd_js_int [simp]: "int_ok i \<Longrightarrow> rd_int (js_int i) old = Some i"
  by (simp add: js_int_def int_ok_def Atoi_itoa)

lemma ParseUint_utoa: "n < 2 ^ 64 \<Longrightarrow> ParseUint (utoa n) = Some n"
  using parse_digits_ok [of "utoa n" 0] set_utoa undigits_utoa [of n] utoa_nonempty [of n]
  by (simp add: ParseUint_def undigits_def)

lemma rd_js_uint [simp]: "rd_uint (js_uint w) old = Some w"
proof -
  have "unat w < 2 ^ LENGTH(64)" by (rule unsigned_less)
  then show ?thesis using ParseUint_utoa [of "unat w"] by (simp add: js_uint_def)
qed

lemma rd_fmt [simp]: "float_text fmt rd \<Longrightarrow> float_finite w \<Longrightarrow> rd_float rd (VNum (fmt w)) old = Some w"
  by (simp add: float_text_def)

definition float_numbers :: "(float64 \<Rightarrow> string) \<Rightarrow> bool" where
  "float_numbers fmt \<longleftrightarrow> (\<forall>w. float_finite w \<longrightarrow> is_number (fmt w))"

lemma is_number_fmt [simp]: "float_numbers fmt \<Longrightarrow> float_finite w \<Longrightarrow> is_number (fmt w)"
  by (simp add: float_numbers_def)

lemma float_text_numbers: "float_text fmt rd \<Longrightarrow> float_numbers fmt"
  by (simp add: float_text_def float_numbers_def)

lemma sequence_map: "(\<And>x. x \<in> set xs \<Longrightarrow> f x = Some (g x)) \<Longrightarrow> sequence (map f xs) = Some (map g xs)"
  by (induction xs) auto

lemma map2_replicate: "length vs \<le> n \<Longrightarrow> map2 f vs (replicate n z) = map (\<lambda>v. f v z) vs"
proof (induction vs arbitrary: n)
  case (Cons v vs)
  then show ?case by (cases n) auto
qed simp

lemma rd_list_map:
  "(\<And>x. x \<in> set xs \<Longrightarrow> f (js x) zero = Some x) \<Longrightarrow> rd_list f zero (VArr (map js xs)) [] = Some xs"
  using sequence_map [of xs "\<lambda>x. f (js x) zero" "\<lambda>x. x"]
  by (simp add: map2_replicate comp_def)

lemma rd_strings [simp]: "rd_list rd_string [] (VArr (map VStr xs)) [] = Some xs"
  by (rule rd_list_map) simp

lemma rd_pointer_object [simp]: "rd_pointer f zero (js_object xs) None = map_option Some (f (js_object xs) zero)"
  by (simp add: js_object_def)

lemma mput_fresh: "k \<notin> fst ` set m \<Longrightarrow> mput k v m = m @ [(k, v)]"
  unfolding mput_def by (induction m) auto

lemma foldl_mput_fresh:
  "distinct (map fst m @ map fst kvs) \<Longrightarrow> foldl (\<lambda>m (k, v). mput k v m) m kvs = m @ kvs"
proof (induction kvs arbitrary: m)
  case (Cons x kvs)
  have "mput (fst x) (snd x) m = m @ [x]"
    using Cons.prems by (cases x) (auto simp: mput_fresh)
  then show ?case using Cons by (simp add: case_prod_beta)
qed simp

lemma rd_js_map:
  assumes "typed_map m" "sorted (map fst m)"
  shows "rd_map (js_map m) [] = Some m"
proof -
  let ?kvs = "map (\<lambda>(k, v). (k, VStr v)) m"
  have s: "sort_key fst ?kvs = ?kvs"
    using assms(2) by (simp add: sorted_sort_id sort_key_id_if_sorted comp_def case_prod_beta)
  have q: "sequence (map (\<lambda>(k, v). rd_string v []) ?kvs) = Some (map snd m)"
    using sequence_map [of m "\<lambda>x. Some (snd x)" snd] by (simp add: comp_def case_prod_beta)
  have z: "zip (map fst ?kvs) (map snd m) = m" by (simp add: comp_def case_prod_beta zip_map_fst_snd)
  show ?thesis
    unfolding js_map_def s rd_map.simps q option.map z
    using foldl_mput_fresh [of "[]" m] assms(1) by (simp add: typed_map_def)
qed

lemma writable_map [simp]: "typed_map m \<Longrightarrow> 0 < k \<Longrightarrow> writable k (js_map m)"
  by (cases k) (auto simp: writable_def js_map_def typed_map_def foldr_max_bound list_all_iff)subsection \<open>The structs\<close>

declare rd_list.simps(2) [simp del] rd_float.simps(2) [simp del]

definition typed_commit :: "commit \<Rightarrow> bool" where
  "typed_commit r \<longleftrightarrow>
     valid_utf8 (c_Hash r) \<and> valid_utf8 (c_Author r) \<and> valid_utf8 (c_Message r) \<and> int_ok (c_TS r)"

lemma plain_commit [simp]: "plain_keys (commit_fields r)"
  by (simp add: plain_keys_def commit_fields_def lower_char_def)

lemmas commit_lookup = arg_cong [OF commit_fields_def, of map_of]

lemmas commit_set = arg_cong [OF commit_fields_def, of set]

lemma writable_commit [simp]: "typed_commit r \<Longrightarrow> 1 \<le> k \<Longrightarrow> writable k (js_commit r)"
  by (simp add: js_commit_def writable_object commit_set typed_commit_def omit_def list_all_iff writable_array)

lemma rd_js_commit [simp]: "typed_commit r \<Longrightarrow> rd_commit (js_commit r) zero_commit = Some r"
  by (simp add: rd_commit_def js_commit_def rd_object get_present commit_lookup zero_commit_def typed_commit_def omit_def rd_list_map list_all_iff)

definition typed_git_info :: "git_info \<Rightarrow> bool" where
  "typed_git_info r \<longleftrightarrow>
     valid_utf8 (g_Repo r) \<and> valid_utf8 (g_RemoteURL r) \<and> valid_utf8 (g_Branch r) \<and>
     list_all valid_utf8 (g_ModifiedFiles r) \<and> int_ok (g_Ahead r) \<and> int_ok (g_Behind r) \<and>
     list_all typed_commit (g_RecentCommits r)"

lemma plain_git_info [simp]: "plain_keys (git_info_fields r)"
  by (simp add: plain_keys_def git_info_fields_def lower_char_def)

lemmas git_info_lookup = arg_cong [OF git_info_fields_def, of map_of]

lemmas git_info_set = arg_cong [OF git_info_fields_def, of set]

lemma writable_git_info [simp]: "typed_git_info r \<Longrightarrow> 3 \<le> k \<Longrightarrow> writable k (js_git_info r)"
  by (simp add: js_git_info_def writable_object git_info_set typed_git_info_def omit_def list_all_iff writable_array)

lemma pointer_git_info [simp]: "rd_pointer f zero (js_git_info r) None = map_option Some (f (js_git_info r) zero)"
  by (simp add: js_git_info_def)

lemma rd_js_git_info [simp]: "typed_git_info r \<Longrightarrow> rd_git_info (js_git_info r) zero_git_info = Some r"
  by (simp add: rd_git_info_def js_git_info_def rd_object get_present git_info_lookup zero_git_info_def typed_git_info_def omit_def rd_list_map list_all_iff)

definition typed_token_usage :: "token_usage \<Rightarrow> bool" where
  "typed_token_usage r \<longleftrightarrow>
     int_ok (tu_Input r) \<and> int_ok (tu_Output r) \<and> int_ok (tu_CacheRead r) \<and>
     int_ok (tu_CacheCreation r) \<and> int_ok (tu_Total r)"

lemma plain_token_usage [simp]: "plain_keys (token_usage_fields r)"
  by (simp add: plain_keys_def token_usage_fields_def lower_char_def)

lemmas token_usage_lookup = arg_cong [OF token_usage_fields_def, of map_of]

lemmas token_usage_set = arg_cong [OF token_usage_fields_def, of set]

lemma writable_token_usage [simp]: "typed_token_usage r \<Longrightarrow> 1 \<le> k \<Longrightarrow> writable k (js_token_usage r)"
  by (simp add: js_token_usage_def writable_object token_usage_set typed_token_usage_def omit_def list_all_iff writable_array)

lemma pointer_token_usage [simp]: "rd_pointer f zero (js_token_usage r) None = map_option Some (f (js_token_usage r) zero)"
  by (simp add: js_token_usage_def)

lemma rd_js_token_usage [simp]: "typed_token_usage r \<Longrightarrow> rd_token_usage (js_token_usage r) zero_token_usage = Some r"
  by (simp add: rd_token_usage_def js_token_usage_def rd_object get_present token_usage_lookup zero_token_usage_def typed_token_usage_def omit_def rd_list_map list_all_iff)

definition typed_session :: "session \<Rightarrow> bool" where
  "typed_session r \<longleftrightarrow>
     valid_utf8 (s_ID r) \<and> valid_utf8 (s_MachineID r) \<and> valid_utf8 (s_Provider r) \<and>
     valid_utf8 (s_Status r) \<and> valid_utf8 (s_Repo r) \<and> valid_utf8 (s_Branch r) \<and>
     valid_utf8 (s_CWD r) \<and> int_ok (s_PID r) \<and> valid_utf8 (s_CurrentCommand r) \<and>
     valid_utf8 (s_Version r) \<and> valid_utf8 (s_TmuxSession r) \<and> float_finite (s_CPUPct r) \<and>
     int_ok (s_StartedAt r) \<and> int_ok (s_LastActivityAt r) \<and>
     pred_option typed_git_info (s_Git r) \<and> pred_option typed_token_usage (s_Tokens r)"

lemma plain_session [simp]: "plain_keys (session_fields fmt r)"
  by (simp add: plain_keys_def session_fields_def lower_char_def)

lemmas session_lookup = arg_cong [OF session_fields_def, of map_of]

lemmas session_set = arg_cong [OF session_fields_def, of set]

lemma writable_session [simp]: "float_numbers fmt \<Longrightarrow> typed_session r \<Longrightarrow> 4 \<le> k \<Longrightarrow> writable k (js_session fmt r)"
  by (cases "s_Git r"; cases "s_Tokens r"; simp add: js_session_def writable_object session_set typed_session_def omit_def list_all_iff writable_array)

lemma rd_js_session [simp]: "float_text fmt rd \<Longrightarrow> typed_session r \<Longrightarrow> rd_session rd (js_session fmt r) zero_session = Some r"
  by (cases "s_Git r"; cases "s_Tokens r"; simp add: rd_session_def js_session_def rd_object get_present session_lookup zero_session_def typed_session_def omit_def rd_list_map list_all_iff)

definition typed_machine :: "machine \<Rightarrow> bool" where
  "typed_machine r \<longleftrightarrow>
     valid_utf8 (m_ID r) \<and> valid_utf8 (m_Hostname r) \<and> valid_utf8 (m_OS r) \<and>
     valid_utf8 (m_Arch r) \<and> int_ok (m_CPUCores r) \<and> valid_utf8 (m_AgentVersion r) \<and>
     float_finite (m_CPUPct r) \<and> float_finite (m_Load r) \<and> int_ok (m_LastSeenAt r)"

lemma plain_machine [simp]: "plain_keys (machine_fields fmt r)"
  by (simp add: plain_keys_def machine_fields_def lower_char_def)

lemmas machine_lookup = arg_cong [OF machine_fields_def, of map_of]

lemmas machine_set = arg_cong [OF machine_fields_def, of set]

lemma writable_machine [simp]: "float_numbers fmt \<Longrightarrow> typed_machine r \<Longrightarrow> 1 \<le> k \<Longrightarrow> writable k (js_machine fmt r)"
  by (simp add: js_machine_def writable_object machine_set typed_machine_def omit_def list_all_iff writable_array)

lemma rd_js_machine [simp]: "float_text fmt rd \<Longrightarrow> typed_machine r \<Longrightarrow> rd_machine rd (js_machine fmt r) zero_machine = Some r"
  by (simp add: rd_machine_def js_machine_def rd_object get_present machine_lookup zero_machine_def typed_machine_def omit_def rd_list_map list_all_iff)

definition typed_agent_hello :: "agent_hello \<Rightarrow> bool" where
  "typed_agent_hello r \<longleftrightarrow>
     valid_utf8 (ah_APIKey r) \<and> valid_utf8 (ah_AgentID r) \<and> valid_utf8 (ah_Hostname r) \<and>
     valid_utf8 (ah_OS r) \<and> valid_utf8 (ah_Arch r) \<and> int_ok (ah_CPUCores r) \<and>
     valid_utf8 (ah_AgentVersion r)"

lemma plain_agent_hello [simp]: "plain_keys (agent_hello_fields r)"
  by (simp add: plain_keys_def agent_hello_fields_def lower_char_def)

lemmas agent_hello_lookup = arg_cong [OF agent_hello_fields_def, of map_of]

lemmas agent_hello_set = arg_cong [OF agent_hello_fields_def, of set]

lemma writable_agent_hello [simp]: "typed_agent_hello r \<Longrightarrow> 1 \<le> k \<Longrightarrow> writable k (js_agent_hello r)"
  by (simp add: js_agent_hello_def writable_object agent_hello_set typed_agent_hello_def omit_def list_all_iff writable_array)

lemma rd_js_agent_hello [simp]: "typed_agent_hello r \<Longrightarrow> rd_agent_hello (js_agent_hello r) zero_agent_hello = Some r"
  by (simp add: rd_agent_hello_def js_agent_hello_def rd_object get_present agent_hello_lookup zero_agent_hello_def typed_agent_hello_def omit_def rd_list_map list_all_iff)

definition typed_agent_heartbeat :: "agent_heartbeat \<Rightarrow> bool" where
  "typed_agent_heartbeat r \<longleftrightarrow>
     valid_utf8 (hb_AgentID r) \<and> float_finite (hb_CPUPct r) \<and> float_finite (hb_Load r)"

lemma plain_agent_heartbeat [simp]: "plain_keys (agent_heartbeat_fields fmt r)"
  by (simp add: plain_keys_def agent_heartbeat_fields_def lower_char_def)

lemmas agent_heartbeat_lookup = arg_cong [OF agent_heartbeat_fields_def, of map_of]

lemmas agent_heartbeat_set = arg_cong [OF agent_heartbeat_fields_def, of set]

lemma writable_agent_heartbeat [simp]: "float_numbers fmt \<Longrightarrow> typed_agent_heartbeat r \<Longrightarrow> 1 \<le> k \<Longrightarrow> writable k (js_agent_heartbeat fmt r)"
  by (simp add: js_agent_heartbeat_def writable_object agent_heartbeat_set typed_agent_heartbeat_def omit_def list_all_iff writable_array)

lemma rd_js_agent_heartbeat [simp]: "float_text fmt rd \<Longrightarrow> typed_agent_heartbeat r \<Longrightarrow> rd_agent_heartbeat rd (js_agent_heartbeat fmt r) zero_agent_heartbeat = Some r"
  by (simp add: rd_agent_heartbeat_def js_agent_heartbeat_def rd_object get_present agent_heartbeat_lookup zero_agent_heartbeat_def typed_agent_heartbeat_def omit_def rd_list_map list_all_iff)

definition typed_log_append :: "log_append \<Rightarrow> bool" where
  "typed_log_append r \<longleftrightarrow>
     valid_utf8 (la_SessionID r) \<and> int_ok (la_Seq r) \<and> valid_utf8 (la_Stream r) \<and>
     valid_utf8 (la_Line r) \<and> int_ok (la_TS r)"

lemma plain_log_append [simp]: "plain_keys (log_append_fields r)"
  by (simp add: plain_keys_def log_append_fields_def lower_char_def)

lemmas log_append_lookup = arg_cong [OF log_append_fields_def, of map_of]

lemmas log_append_set = arg_cong [OF log_append_fields_def, of set]

lemma writable_log_append [simp]: "typed_log_append r \<Longrightarrow> 1 \<le> k \<Longrightarrow> writable k (js_log_append r)"
  by (simp add: js_log_append_def writable_object log_append_set typed_log_append_def omit_def list_all_iff writable_array)

lemma rd_js_log_append [simp]: "typed_log_append r \<Longrightarrow> rd_log_append (js_log_append r) zero_log_append = Some r"
  by (simp add: rd_log_append_def js_log_append_def rd_object get_present log_append_lookup zero_log_append_def typed_log_append_def omit_def rd_list_map list_all_iff)

definition typed_metric_sample :: "metric_sample \<Rightarrow> bool" where
  "typed_metric_sample r \<longleftrightarrow>
     valid_utf8 (ms_SessionID r) \<and> float_finite (ms_CPUPct r) \<and> int_ok (ms_TS r)"

lemma plain_metric_sample [simp]: "plain_keys (metric_sample_fields fmt r)"
  by (simp add: plain_keys_def metric_sample_fields_def lower_char_def)

lemmas metric_sample_lookup = arg_cong [OF metric_sample_fields_def, of map_of]

lemmas metric_sample_set = arg_cong [OF metric_sample_fields_def, of set]

lemma writable_metric_sample [simp]: "float_numbers fmt \<Longrightarrow> typed_metric_sample r \<Longrightarrow> 1 \<le> k \<Longrightarrow> writable k (js_metric_sample fmt r)"
  by (simp add: js_metric_sample_def writable_object metric_sample_set typed_metric_sample_def omit_def list_all_iff writable_array)

lemma rd_js_metric_sample [simp]: "float_text fmt rd \<Longrightarrow> typed_metric_sample r \<Longrightarrow> rd_metric_sample rd (js_metric_sample fmt r) zero_metric_sample = Some r"
  by (simp add: rd_metric_sample_def js_metric_sample_def rd_object get_present metric_sample_lookup zero_metric_sample_def typed_metric_sample_def omit_def rd_list_map list_all_iff)

definition typed_command_msg :: "command_msg \<Rightarrow> bool" where
  "typed_command_msg r \<longleftrightarrow>
     valid_utf8 (cmd_RequestID r) \<and> valid_utf8 (cmd_SessionID r) \<and> valid_utf8 (cmd_Action r)"

lemma plain_command_msg [simp]: "plain_keys (command_msg_fields r)"
  by (simp add: plain_keys_def command_msg_fields_def lower_char_def)

lemmas command_msg_lookup = arg_cong [OF command_msg_fields_def, of map_of]

lemmas command_msg_set = arg_cong [OF command_msg_fields_def, of set]

lemma writable_command_msg [simp]: "typed_command_msg r \<Longrightarrow> 1 \<le> k \<Longrightarrow> writable k (js_command_msg r)"
  by (simp add: js_command_msg_def writable_object command_msg_set typed_command_msg_def omit_def list_all_iff writable_array)

lemma rd_js_command_msg [simp]: "typed_command_msg r \<Longrightarrow> rd_command_msg (js_command_msg r) zero_command_msg = Some r"
  by (simp add: rd_command_msg_def js_command_msg_def rd_object get_present command_msg_lookup zero_command_msg_def typed_command_msg_def omit_def rd_list_map list_all_iff)

definition typed_command_result :: "command_result \<Rightarrow> bool" where
  "typed_command_result r \<longleftrightarrow>
     valid_utf8 (cr_RequestID r) \<and> valid_utf8 (cr_SessionID r) \<and> valid_utf8 (cr_Error r)"

lemma plain_command_result [simp]: "plain_keys (command_result_fields r)"
  by (simp add: plain_keys_def command_result_fields_def lower_char_def)

lemmas command_result_lookup = arg_cong [OF command_result_fields_def, of map_of]

lemmas command_result_set = arg_cong [OF command_result_fields_def, of set]

lemma writable_command_result [simp]: "typed_command_result r \<Longrightarrow> 1 \<le> k \<Longrightarrow> writable k (js_command_result r)"
  by (simp add: js_command_result_def writable_object command_result_set typed_command_result_def omit_def list_all_iff writable_array)

lemma rd_js_command_result [simp]: "typed_command_result r \<Longrightarrow> rd_command_result (js_command_result r) zero_command_result = Some r"
  by (simp add: rd_command_result_def js_command_result_def rd_object get_present command_result_lookup zero_command_result_def typed_command_result_def omit_def rd_list_map list_all_iff)

definition typed_agent_status :: "agent_status \<Rightarrow> bool" where
  "typed_agent_status r \<longleftrightarrow>
     valid_utf8 (as_MachineID r)"

lemma plain_agent_status [simp]: "plain_keys (agent_status_fields r)"
  by (simp add: plain_keys_def agent_status_fields_def lower_char_def)

lemmas agent_status_lookup = arg_cong [OF agent_status_fields_def, of map_of]

lemmas agent_status_set = arg_cong [OF agent_status_fields_def, of set]

lemma writable_agent_status [simp]: "typed_agent_status r \<Longrightarrow> 1 \<le> k \<Longrightarrow> writable k (js_agent_status r)"
  by (simp add: js_agent_status_def writable_object agent_status_set typed_agent_status_def omit_def list_all_iff writable_array)

lemma rd_js_agent_status [simp]: "typed_agent_status r \<Longrightarrow> rd_agent_status (js_agent_status r) zero_agent_status = Some r"
  by (simp add: rd_agent_status_def js_agent_status_def rd_object get_present agent_status_lookup zero_agent_status_def typed_agent_status_def omit_def rd_list_map list_all_iff)

definition typed_event :: "event \<Rightarrow> bool" where
  "typed_event r \<longleftrightarrow>
     valid_utf8 (e_ID r) \<and> valid_utf8 (e_MachineID r) \<and> valid_utf8 (e_SessionID r) \<and>
     valid_utf8 (e_Kind r) \<and> valid_utf8 (e_Message r) \<and> valid_utf8 (e_Severity r) \<and>
     int_ok (e_TS r) \<and> typed_map (e_Meta r)"

lemma plain_event [simp]: "plain_keys (event_fields r)"
  by (simp add: plain_keys_def event_fields_def lower_char_def)

lemmas event_lookup = arg_cong [OF event_fields_def, of map_of]

lemmas event_set = arg_cong [OF event_fields_def, of set]

lemma writable_event [simp]: "typed_event r \<Longrightarrow> 2 \<le> k \<Longrightarrow> writable k (js_event r)"
  by (simp add: js_event_def writable_object event_set typed_event_def omit_def list_all_iff writable_array)

lemma rd_js_event [simp]: "typed_event r \<Longrightarrow> sorted (map fst (e_Meta r)) \<Longrightarrow> rd_event (js_event r) zero_event = Some r"
  by (simp add: rd_event_def js_event_def rd_object get_present event_lookup zero_event_def typed_event_def omit_def rd_list_map rd_js_map list_all_iff)

definition typed_snapshot :: "snapshot \<Rightarrow> bool" where
  "typed_snapshot r \<longleftrightarrow>
     list_all typed_machine (sn_Machines r) \<and> list_all typed_session (sn_Sessions r) \<and>
     list_all typed_event (sn_Events r)"

lemma plain_snapshot [simp]: "plain_keys (snapshot_fields fmt r)"
  by (simp add: plain_keys_def snapshot_fields_def lower_char_def)

lemmas snapshot_lookup = arg_cong [OF snapshot_fields_def, of map_of]

lemmas snapshot_set = arg_cong [OF snapshot_fields_def, of set]

lemma writable_snapshot [simp]: "float_numbers fmt \<Longrightarrow> typed_snapshot r \<Longrightarrow> 6 \<le> k \<Longrightarrow> writable k (js_snapshot fmt r)"
  by (simp add: js_snapshot_def writable_object snapshot_set typed_snapshot_def omit_def list_all_iff writable_array)

lemma rd_js_snapshot [simp]: "float_text fmt rd \<Longrightarrow> typed_snapshot r \<Longrightarrow> list_all (\<lambda>e. sorted (map fst (e_Meta e))) (sn_Events r) \<Longrightarrow>
     rd_snapshot rd (js_snapshot fmt r) zero_snapshot = Some r"
  by (simp add: rd_snapshot_def js_snapshot_def rd_object get_present snapshot_lookup zero_snapshot_def typed_snapshot_def omit_def rd_list_map list_all_iff)

definition typed_terminal_open :: "terminal_open \<Rightarrow> bool" where
  "typed_terminal_open r \<longleftrightarrow>
     valid_utf8 (to_PTYID r) \<and> valid_utf8 (to_MachineID r) \<and> valid_utf8 (to_Provider r) \<and>
     valid_utf8 (to_CWD r) \<and> valid_utf8 (to_InitialText r) \<and> int_ok (to_Cols r) \<and>
     int_ok (to_Rows r)"

lemma plain_terminal_open [simp]: "plain_keys (terminal_open_fields r)"
  by (simp add: plain_keys_def terminal_open_fields_def lower_char_def)

lemmas terminal_open_lookup = arg_cong [OF terminal_open_fields_def, of map_of]

lemmas terminal_open_set = arg_cong [OF terminal_open_fields_def, of set]

lemma writable_terminal_open [simp]: "typed_terminal_open r \<Longrightarrow> 1 \<le> k \<Longrightarrow> writable k (js_terminal_open r)"
  by (simp add: js_terminal_open_def writable_object terminal_open_set typed_terminal_open_def omit_def list_all_iff writable_array)

lemma rd_js_terminal_open [simp]: "typed_terminal_open r \<Longrightarrow> rd_terminal_open (js_terminal_open r) zero_terminal_open = Some r"
  by (simp add: rd_terminal_open_def js_terminal_open_def rd_object get_present terminal_open_lookup zero_terminal_open_def typed_terminal_open_def omit_def rd_list_map list_all_iff)

definition typed_terminal_attach :: "terminal_attach \<Rightarrow> bool" where
  "typed_terminal_attach r \<longleftrightarrow>
     valid_utf8 (ta_PTYID r) \<and> valid_utf8 (ta_MachineID r) \<and> valid_utf8 (ta_SessionID r) \<and>
     int_ok (ta_Cols r) \<and> int_ok (ta_Rows r)"

lemma plain_terminal_attach [simp]: "plain_keys (terminal_attach_fields r)"
  by (simp add: plain_keys_def terminal_attach_fields_def lower_char_def)

lemmas terminal_attach_lookup = arg_cong [OF terminal_attach_fields_def, of map_of]

lemmas terminal_attach_set = arg_cong [OF terminal_attach_fields_def, of set]

lemma writable_terminal_attach [simp]: "typed_terminal_attach r \<Longrightarrow> 1 \<le> k \<Longrightarrow> writable k (js_terminal_attach r)"
  by (simp add: js_terminal_attach_def writable_object terminal_attach_set typed_terminal_attach_def omit_def list_all_iff writable_array)

lemma rd_js_terminal_attach [simp]: "typed_terminal_attach r \<Longrightarrow> rd_terminal_attach (js_terminal_attach r) zero_terminal_attach = Some r"
  by (simp add: rd_terminal_attach_def js_terminal_attach_def rd_object get_present terminal_attach_lookup zero_terminal_attach_def typed_terminal_attach_def omit_def rd_list_map list_all_iff)

definition typed_terminal_data :: "terminal_data \<Rightarrow> bool" where
  "typed_terminal_data r \<longleftrightarrow>
     valid_utf8 (td_PTYID r) \<and> valid_utf8 (td_Data r)"

lemma plain_terminal_data [simp]: "plain_keys (terminal_data_fields r)"
  by (simp add: plain_keys_def terminal_data_fields_def lower_char_def)

lemmas terminal_data_lookup = arg_cong [OF terminal_data_fields_def, of map_of]

lemmas terminal_data_set = arg_cong [OF terminal_data_fields_def, of set]

lemma writable_terminal_data [simp]: "typed_terminal_data r \<Longrightarrow> 1 \<le> k \<Longrightarrow> writable k (js_terminal_data r)"
  by (simp add: js_terminal_data_def writable_object terminal_data_set typed_terminal_data_def omit_def list_all_iff writable_array)

lemma rd_js_terminal_data [simp]: "typed_terminal_data r \<Longrightarrow> rd_terminal_data (js_terminal_data r) zero_terminal_data = Some r"
  by (simp add: rd_terminal_data_def js_terminal_data_def rd_object get_present terminal_data_lookup zero_terminal_data_def typed_terminal_data_def omit_def rd_list_map list_all_iff)

definition typed_terminal_resize :: "terminal_resize \<Rightarrow> bool" where
  "typed_terminal_resize r \<longleftrightarrow>
     valid_utf8 (tr_PTYID r) \<and> int_ok (tr_Cols r) \<and> int_ok (tr_Rows r)"

lemma plain_terminal_resize [simp]: "plain_keys (terminal_resize_fields r)"
  by (simp add: plain_keys_def terminal_resize_fields_def lower_char_def)

lemmas terminal_resize_lookup = arg_cong [OF terminal_resize_fields_def, of map_of]

lemmas terminal_resize_set = arg_cong [OF terminal_resize_fields_def, of set]

lemma writable_terminal_resize [simp]: "typed_terminal_resize r \<Longrightarrow> 1 \<le> k \<Longrightarrow> writable k (js_terminal_resize r)"
  by (simp add: js_terminal_resize_def writable_object terminal_resize_set typed_terminal_resize_def omit_def list_all_iff writable_array)

lemma rd_js_terminal_resize [simp]: "typed_terminal_resize r \<Longrightarrow> rd_terminal_resize (js_terminal_resize r) zero_terminal_resize = Some r"
  by (simp add: rd_terminal_resize_def js_terminal_resize_def rd_object get_present terminal_resize_lookup zero_terminal_resize_def typed_terminal_resize_def omit_def rd_list_map list_all_iff)

definition typed_terminal_opened :: "terminal_opened \<Rightarrow> bool" where
  "typed_terminal_opened r \<longleftrightarrow>
     valid_utf8 (tp_PTYID r) \<and> valid_utf8 (tp_SessionID r) \<and> valid_utf8 (tp_Error r)"

lemma plain_terminal_opened [simp]: "plain_keys (terminal_opened_fields r)"
  by (simp add: plain_keys_def terminal_opened_fields_def lower_char_def)

lemmas terminal_opened_lookup = arg_cong [OF terminal_opened_fields_def, of map_of]

lemmas terminal_opened_set = arg_cong [OF terminal_opened_fields_def, of set]

lemma writable_terminal_opened [simp]: "typed_terminal_opened r \<Longrightarrow> 1 \<le> k \<Longrightarrow> writable k (js_terminal_opened r)"
  by (simp add: js_terminal_opened_def writable_object terminal_opened_set typed_terminal_opened_def omit_def list_all_iff writable_array)

lemma rd_js_terminal_opened [simp]: "typed_terminal_opened r \<Longrightarrow> rd_terminal_opened (js_terminal_opened r) zero_terminal_opened = Some r"
  by (simp add: rd_terminal_opened_def js_terminal_opened_def rd_object get_present terminal_opened_lookup zero_terminal_opened_def typed_terminal_opened_def omit_def rd_list_map list_all_iff)

definition typed_terminal_exit :: "terminal_exit \<Rightarrow> bool" where
  "typed_terminal_exit r \<longleftrightarrow>
     valid_utf8 (tx_PTYID r) \<and> int_ok (tx_Code r)"

lemma plain_terminal_exit [simp]: "plain_keys (terminal_exit_fields r)"
  by (simp add: plain_keys_def terminal_exit_fields_def lower_char_def)

lemmas terminal_exit_lookup = arg_cong [OF terminal_exit_fields_def, of map_of]

lemmas terminal_exit_set = arg_cong [OF terminal_exit_fields_def, of set]

lemma writable_terminal_exit [simp]: "typed_terminal_exit r \<Longrightarrow> 1 \<le> k \<Longrightarrow> writable k (js_terminal_exit r)"
  by (simp add: js_terminal_exit_def writable_object terminal_exit_set typed_terminal_exit_def omit_def list_all_iff writable_array)

lemma rd_js_terminal_exit [simp]: "typed_terminal_exit r \<Longrightarrow> rd_terminal_exit (js_terminal_exit r) zero_terminal_exit = Some r"
  by (simp add: rd_terminal_exit_def js_terminal_exit_def rd_object get_present terminal_exit_lookup zero_terminal_exit_def typed_terminal_exit_def omit_def rd_list_map list_all_iff)subsection \<open>What readers yield\<close>

text \<open>A reader keeps \<open>P\<close>: decoding any JSON value over a value with \<open>P\<close> gives one with \<open>P\<close>.\<close>

definition decodes_to :: "'a reader \<Rightarrow> ('a \<Rightarrow> bool) \<Rightarrow> bool" where
  "decodes_to f P \<longleftrightarrow> (\<forall>v x y. utf8_json v \<longrightarrow> P x \<longrightarrow> f v x = Some y \<longrightarrow> P y)"

definition utf8_object :: "(string \<times> json_value) list \<Rightarrow> bool" where
  "utf8_object kvs \<longleftrightarrow> list_all (\<lambda>(k, v). valid_utf8 k \<and> utf8_json v) kvs"

lemma reads_string [simp]: "decodes_to rd_string valid_utf8"
proof -
  have "rd_string v x = Some y \<Longrightarrow> utf8_json v \<Longrightarrow> valid_utf8 x \<Longrightarrow> valid_utf8 y" for v x y
    by (cases v) auto
  then show ?thesis by (auto simp: decodes_to_def)
qed

lemma Atoi_range: "Atoi s = Some i \<Longrightarrow> int_ok i"
  using ParseInt_range [of s] by (auto simp: Atoi_def int_ok_def split: prod.splits option.splits)

lemma reads_int [simp]: "decodes_to rd_int int_ok"
proof -
  have "rd_int v x = Some y \<Longrightarrow> int_ok x \<Longrightarrow> int_ok y" for v x y
    by (cases v) (auto dest: Atoi_range)
  then show ?thesis by (auto simp: decodes_to_def)
qed

lemma reads_float [simp]: "reads_finite rd \<Longrightarrow> decodes_to (rd_float rd) float_finite"
proof -
  assume r: "reads_finite rd"
  have "rd_float rd v x = Some y \<Longrightarrow> float_finite x \<Longrightarrow> float_finite y" for v x y
    using r by (cases v) (auto simp: reads_finite_def rd_float.simps)
  then show ?thesis by (auto simp: decodes_to_def)
qed

lemma sequence_Some: "sequence xs = Some ys \<Longrightarrow> y \<in> set ys \<Longrightarrow> Some y \<in> set xs"
  by (induction xs arbitrary: ys rule: sequence.induct) auto

lemma reads_list:
  assumes "decodes_to f P" "P zero"
  shows "decodes_to (rd_list f zero) (list_all P)"
proof -
  have "list_all P y" if r: "rd_list f zero v x = Some y" and v: "utf8_json v" and x: "list_all P x" for v x y
  proof (cases v)
    case (VArr vs)
    have "P z" if "z \<in> set y" for z
    proof -
      have "Some z \<in> set (map2 f vs (x @ replicate (length vs) zero))"
        using sequence_Some [OF _ that] r by (simp add: VArr rd_list.simps del: set_map)
      then obtain w u where "(w, u) \<in> set (zip vs (x @ replicate (length vs) zero))" "f w u = Some z" by auto
      moreover have "utf8_json w" "P u" if "(w, u) \<in> set (zip vs (x @ replicate (length vs) zero))" for w u
        using set_zip_leftD [OF that] set_zip_rightD [OF that] v x assms(2) by (auto simp: VArr list_all_iff)
      ultimately show ?thesis using assms(1) unfolding decodes_to_def by blast
    qed
    then show ?thesis by (simp add: list_all_iff)
  qed (use r in auto)
  then show ?thesis by (auto simp: decodes_to_def)
qed

lemma reads_pointer:
  assumes "decodes_to f P" "P zero"
  shows "decodes_to (rd_pointer f zero) (pred_option P)"
proof -
  have step: "f v x = Some y \<Longrightarrow> utf8_json v \<Longrightarrow> P x \<Longrightarrow> P y" for v x y
    using assms(1) by (simp add: decodes_to_def)
  have "pred_option P y" if "rd_pointer f zero v x = Some y" "utf8_json v" "pred_option P x" for v x y
    using that assms(2) by (cases v; cases x) (auto dest!: step)
  then show ?thesis by (auto simp: decodes_to_def)
qed

lemma set_update: "set (AList.update k v m) \<subseteq> insert (k, v) (set m)"
  by (induction m) auto

lemma typed_map_put: "typed_map m \<Longrightarrow> valid_utf8 k \<Longrightarrow> valid_utf8 v \<Longrightarrow> typed_map (mput k v m)"
  by (auto simp: typed_map_def mput_def list_all_iff distinct_update dest!: set_update [THEN subsetD])

lemma reads_map [simp]: "decodes_to rd_map typed_map"
proof -
  have fold: "list_all (\<lambda>(k, v). valid_utf8 k \<and> valid_utf8 v) kvs \<Longrightarrow> typed_map m \<Longrightarrow>
      typed_map (foldl (\<lambda>m (k, v). mput k v m) m kvs)" for kvs m
    by (induction kvs arbitrary: m) (auto simp: typed_map_put)
  have "typed_map y" if r: "rd_map v x = Some y" and v: "utf8_json v" and x: "typed_map x" for v x y
  proof (cases v)
    case (VObj kvs)
    obtain vs where q: "sequence (map (\<lambda>(k, v). rd_string v []) kvs) = Some vs"
        and y: "y = foldl (\<lambda>m (k, v). mput k v m) x (zip (map fst kvs) vs)"
      using r by (auto simp: VObj)
    have val: "valid_utf8 z" if z: "z \<in> set vs" for z
    proof -
      obtain k w where "(k, w) \<in> set kvs" "rd_string w [] = Some z" using sequence_Some [OF q z] by auto
      moreover have "utf8_json w" using v \<open>(k, w) \<in> set kvs\<close> by (auto simp: VObj list_all_iff)
      ultimately show ?thesis using reads_string valid_utf8_Nil unfolding decodes_to_def by blast
    qed
    have key: "valid_utf8 k" if "k \<in> fst ` set kvs" for k using v that by (auto simp: VObj list_all_iff)
    have "valid_utf8 k \<and> valid_utf8 z" if "(k, z) \<in> set (zip (map fst kvs) vs)" for k z
      using set_zip_leftD [OF that] set_zip_rightD [OF that] val key by simp
    then have "list_all (\<lambda>(k, v). valid_utf8 k \<and> valid_utf8 v) (zip (map fst kvs) vs)"
      by (auto simp: list_all_iff)
    then show ?thesis using fold x y by blast
  qed (use r in \<open>auto simp: typed_map_def\<close>)
  then show ?thesis by (auto simp: decodes_to_def)
qed

lemma reads_get: "decodes_to f P \<Longrightarrow> get f n kvs x = Some y \<Longrightarrow> utf8_object kvs \<Longrightarrow> P x \<Longrightarrow> P y"
proof -
  assume f: "decodes_to f P" and "get f n kvs x = Some y" "utf8_object kvs" "P x"
  have "foldl (\<lambda>a v. case a of None \<Rightarrow> None | Some x \<Rightarrow> f v x) None vs = None" for vs by (induction vs) auto
  then have "foldl (\<lambda>a v. case a of None \<Rightarrow> None | Some x \<Rightarrow> f v x) (Some x) vs = Some y \<Longrightarrow>
      list_all utf8_json vs \<Longrightarrow> P x \<Longrightarrow> P y" for vs x
    using f unfolding decodes_to_def by (induction vs arbitrary: x) (auto split: option.splits, metis not_None_eq)
  moreover have "list_all utf8_json (matches n kvs)"
    using \<open>utf8_object kvs\<close> by (auto simp: matches_def utf8_object_def list_all_iff)
  ultimately show "P y" using \<open>get f n kvs x = Some y\<close> \<open>P x\<close> by (auto simp: get_def)
qed

lemma reads_struct:
  assumes "\<And>kvs x y. utf8_object kvs \<Longrightarrow> P x \<Longrightarrow> g kvs x = Some y \<Longrightarrow> P y"
  shows "decodes_to (rd_struct g) P"
  using assms by (auto simp: decodes_to_def rd_struct_def utf8_object_def split: json_value.splits)

lemmas gets = reads_get [OF reads_string] reads_get [OF reads_int] reads_get [OF reads_float] reads_get [OF reads_map]

lemma zero_commit [simp]: "typed_commit zero_commit"
  by (simp add: typed_commit_def zero_commit_def int_ok_def)

lemma reads_commit [simp]: "decodes_to rd_commit typed_commit"
  unfolding rd_commit_def
  by (rule reads_struct; clarsimp simp: typed_commit_def bind_eq_Some_conv; (intro conjI)?; erule gets; assumption)

lemma zero_git_info [simp]: "typed_git_info zero_git_info"
  by (simp add: typed_git_info_def zero_git_info_def int_ok_def)

lemma reads_git_info [simp]: "decodes_to rd_git_info typed_git_info"
  unfolding rd_git_info_def
  by (rule reads_struct; clarsimp simp: typed_git_info_def bind_eq_Some_conv; (intro conjI)?; erule gets reads_get [OF reads_list [OF reads_string valid_utf8_Nil]] reads_get [OF reads_list [OF reads_commit zero_commit]]; assumption)

lemma zero_token_usage [simp]: "typed_token_usage zero_token_usage"
  by (simp add: typed_token_usage_def zero_token_usage_def int_ok_def)

lemma reads_token_usage [simp]: "decodes_to rd_token_usage typed_token_usage"
  unfolding rd_token_usage_def
  by (rule reads_struct; clarsimp simp: typed_token_usage_def bind_eq_Some_conv; (intro conjI)?; erule gets; assumption)

lemma zero_session [simp]: "typed_session zero_session"
  by (simp add: typed_session_def zero_session_def int_ok_def)

lemma reads_session [simp]: "reads_finite rd \<Longrightarrow> decodes_to (rd_session rd) typed_session"
  unfolding rd_session_def
  by (rule reads_struct; clarsimp simp: typed_session_def bind_eq_Some_conv; (intro conjI)?; erule gets reads_get [OF reads_pointer [OF reads_git_info zero_git_info]] reads_get [OF reads_pointer [OF reads_token_usage zero_token_usage]]; assumption)

lemma zero_machine [simp]: "typed_machine zero_machine"
  by (simp add: typed_machine_def zero_machine_def int_ok_def)

lemma reads_machine [simp]: "reads_finite rd \<Longrightarrow> decodes_to (rd_machine rd) typed_machine"
  unfolding rd_machine_def
  by (rule reads_struct; clarsimp simp: typed_machine_def bind_eq_Some_conv; (intro conjI)?; erule gets; assumption)

lemma zero_agent_hello [simp]: "typed_agent_hello zero_agent_hello"
  by (simp add: typed_agent_hello_def zero_agent_hello_def int_ok_def)

lemma reads_agent_hello [simp]: "decodes_to rd_agent_hello typed_agent_hello"
  unfolding rd_agent_hello_def
  by (rule reads_struct; clarsimp simp: typed_agent_hello_def bind_eq_Some_conv; (intro conjI)?; erule gets; assumption)

lemma zero_agent_heartbeat [simp]: "typed_agent_heartbeat zero_agent_heartbeat"
  by (simp add: typed_agent_heartbeat_def zero_agent_heartbeat_def int_ok_def)

lemma reads_agent_heartbeat [simp]: "reads_finite rd \<Longrightarrow> decodes_to (rd_agent_heartbeat rd) typed_agent_heartbeat"
  unfolding rd_agent_heartbeat_def
  by (rule reads_struct; clarsimp simp: typed_agent_heartbeat_def bind_eq_Some_conv; (intro conjI)?; erule gets; assumption)

lemma zero_log_append [simp]: "typed_log_append zero_log_append"
  by (simp add: typed_log_append_def zero_log_append_def int_ok_def)

lemma reads_log_append [simp]: "decodes_to rd_log_append typed_log_append"
  unfolding rd_log_append_def
  by (rule reads_struct; clarsimp simp: typed_log_append_def bind_eq_Some_conv; (intro conjI)?; erule gets; assumption)

lemma zero_metric_sample [simp]: "typed_metric_sample zero_metric_sample"
  by (simp add: typed_metric_sample_def zero_metric_sample_def int_ok_def)

lemma reads_metric_sample [simp]: "reads_finite rd \<Longrightarrow> decodes_to (rd_metric_sample rd) typed_metric_sample"
  unfolding rd_metric_sample_def
  by (rule reads_struct; clarsimp simp: typed_metric_sample_def bind_eq_Some_conv; (intro conjI)?; erule gets; assumption)

lemma zero_command_msg [simp]: "typed_command_msg zero_command_msg"
  by (simp add: typed_command_msg_def zero_command_msg_def int_ok_def)

lemma reads_command_msg [simp]: "decodes_to rd_command_msg typed_command_msg"
  unfolding rd_command_msg_def
  by (rule reads_struct; clarsimp simp: typed_command_msg_def bind_eq_Some_conv; (intro conjI)?; erule gets; assumption)

lemma zero_command_result [simp]: "typed_command_result zero_command_result"
  by (simp add: typed_command_result_def zero_command_result_def int_ok_def)

lemma reads_command_result [simp]: "decodes_to rd_command_result typed_command_result"
  unfolding rd_command_result_def
  by (rule reads_struct; clarsimp simp: typed_command_result_def bind_eq_Some_conv; (intro conjI)?; erule gets; assumption)

lemma zero_agent_status [simp]: "typed_agent_status zero_agent_status"
  by (simp add: typed_agent_status_def zero_agent_status_def int_ok_def)

lemma reads_agent_status [simp]: "decodes_to rd_agent_status typed_agent_status"
  unfolding rd_agent_status_def
  by (rule reads_struct; clarsimp simp: typed_agent_status_def bind_eq_Some_conv; (intro conjI)?; erule gets; assumption)

lemma zero_event [simp]: "typed_event zero_event"
  by (simp add: typed_event_def zero_event_def int_ok_def typed_map_def)

lemma reads_event [simp]: "decodes_to rd_event typed_event"
  unfolding rd_event_def
  by (rule reads_struct; clarsimp simp: typed_event_def bind_eq_Some_conv; (intro conjI)?; erule gets; assumption)

lemma zero_snapshot [simp]: "typed_snapshot zero_snapshot"
  by (simp add: typed_snapshot_def zero_snapshot_def int_ok_def)

lemma reads_snapshot [simp]: "reads_finite rd \<Longrightarrow> decodes_to (rd_snapshot rd) typed_snapshot"
  unfolding rd_snapshot_def
  by (rule reads_struct; clarsimp simp: typed_snapshot_def bind_eq_Some_conv; (intro conjI)?; erule gets reads_get [OF reads_list [OF reads_machine zero_machine]] reads_get [OF reads_list [OF reads_session zero_session]] reads_get [OF reads_list [OF reads_event zero_event]]; assumption)

lemma zero_terminal_open [simp]: "typed_terminal_open zero_terminal_open"
  by (simp add: typed_terminal_open_def zero_terminal_open_def int_ok_def)

lemma reads_terminal_open [simp]: "decodes_to rd_terminal_open typed_terminal_open"
  unfolding rd_terminal_open_def
  by (rule reads_struct; clarsimp simp: typed_terminal_open_def bind_eq_Some_conv; (intro conjI)?; erule gets; assumption)

lemma zero_terminal_attach [simp]: "typed_terminal_attach zero_terminal_attach"
  by (simp add: typed_terminal_attach_def zero_terminal_attach_def int_ok_def)

lemma reads_terminal_attach [simp]: "decodes_to rd_terminal_attach typed_terminal_attach"
  unfolding rd_terminal_attach_def
  by (rule reads_struct; clarsimp simp: typed_terminal_attach_def bind_eq_Some_conv; (intro conjI)?; erule gets; assumption)

lemma zero_terminal_data [simp]: "typed_terminal_data zero_terminal_data"
  by (simp add: typed_terminal_data_def zero_terminal_data_def int_ok_def)

lemma reads_terminal_data [simp]: "decodes_to rd_terminal_data typed_terminal_data"
  unfolding rd_terminal_data_def
  by (rule reads_struct; clarsimp simp: typed_terminal_data_def bind_eq_Some_conv; (intro conjI)?; erule gets; assumption)

lemma zero_terminal_resize [simp]: "typed_terminal_resize zero_terminal_resize"
  by (simp add: typed_terminal_resize_def zero_terminal_resize_def int_ok_def)

lemma reads_terminal_resize [simp]: "decodes_to rd_terminal_resize typed_terminal_resize"
  unfolding rd_terminal_resize_def
  by (rule reads_struct; clarsimp simp: typed_terminal_resize_def bind_eq_Some_conv; (intro conjI)?; erule gets; assumption)

lemma zero_terminal_opened [simp]: "typed_terminal_opened zero_terminal_opened"
  by (simp add: typed_terminal_opened_def zero_terminal_opened_def int_ok_def)

lemma reads_terminal_opened [simp]: "decodes_to rd_terminal_opened typed_terminal_opened"
  unfolding rd_terminal_opened_def
  by (rule reads_struct; clarsimp simp: typed_terminal_opened_def bind_eq_Some_conv; (intro conjI)?; erule gets; assumption)

lemma zero_terminal_exit [simp]: "typed_terminal_exit zero_terminal_exit"
  by (simp add: typed_terminal_exit_def zero_terminal_exit_def int_ok_def)

lemma reads_terminal_exit [simp]: "decodes_to rd_terminal_exit typed_terminal_exit"
  unfolding rd_terminal_exit_def
  by (rule reads_struct; clarsimp simp: typed_terminal_exit_def bind_eq_Some_conv; (intro conjI)?; erule gets; assumption)subsection \<open>Messages\<close>

fun typed_wire :: "wire \<Rightarrow> bool" where
  "typed_wire (AgentHello p) \<longleftrightarrow> pred_option typed_agent_hello p"
| "typed_wire (AgentHeartbeat p) \<longleftrightarrow> pred_option typed_agent_heartbeat p"
| "typed_wire (SessionUpsert p) \<longleftrightarrow> pred_option typed_session p"
| "typed_wire (SessionRemoved p) \<longleftrightarrow> pred_option valid_utf8 p"
| "typed_wire (LogAppend p) \<longleftrightarrow> pred_option typed_log_append p"
| "typed_wire (MetricSample p) \<longleftrightarrow> pred_option typed_metric_sample p"
| "typed_wire (CommandAck p) \<longleftrightarrow> pred_option valid_utf8 p"
| "typed_wire (CommandResult p) \<longleftrightarrow> pred_option typed_command_result p"
| "typed_wire (EventReport p) \<longleftrightarrow> pred_option typed_event p"
| "typed_wire (Command p) \<longleftrightarrow> pred_option typed_command_msg p"
| "typed_wire (Snapshot p) \<longleftrightarrow> pred_option typed_snapshot p"
| "typed_wire (MachineUpsert p) \<longleftrightarrow> pred_option typed_machine p"
| "typed_wire (MachineRemoved p) \<longleftrightarrow> pred_option valid_utf8 p"
| "typed_wire (AgentStatus p) \<longleftrightarrow> pred_option typed_agent_status p"
| "typed_wire (EventAppend p) \<longleftrightarrow> pred_option typed_event p"
| "typed_wire (TerminalOpen p) \<longleftrightarrow> pred_option typed_terminal_open p"
| "typed_wire (TerminalAttach p) \<longleftrightarrow> pred_option typed_terminal_attach p"
| "typed_wire (TerminalInput p) \<longleftrightarrow> pred_option typed_terminal_data p"
| "typed_wire (TerminalResize p) \<longleftrightarrow> pred_option typed_terminal_resize p"
| "typed_wire (TerminalClose p) \<longleftrightarrow> pred_option valid_utf8 p"
| "typed_wire (TerminalOutput p) \<longleftrightarrow> pred_option typed_terminal_data p"
| "typed_wire (TerminalOpened p) \<longleftrightarrow> pred_option typed_terminal_opened p"
| "typed_wire (TerminalExit p) \<longleftrightarrow> pred_option typed_terminal_exit p"
| "typed_wire (OtherType t) \<longleftrightarrow> valid_utf8 t"

text \<open>The keys of every map are in order, as \<open>json.Marshal\<close> writes them.\<close>

fun ordered :: "wire \<Rightarrow> bool" where
  "ordered (EventReport (Some e)) \<longleftrightarrow> sorted (map fst (e_Meta e))"
| "ordered (EventAppend (Some e)) \<longleftrightarrow> sorted (map fst (e_Meta e))"
| "ordered (Snapshot (Some r)) \<longleftrightarrow> list_all (\<lambda>e. sorted (map fst (e_Meta e))) (sn_Events r)"
| "ordered _ \<longleftrightarrow> True"

lemma writable_field:
  "plain_keys [(n, Some v)] \<Longrightarrow> 0 < k \<Longrightarrow> writable k (js_field n v) \<longleftrightarrow> writable (k - 1) v"
  by (simp add: js_field_def writable_object)

lemma rd_js_field: "f v zero = Some x \<Longrightarrow> rd_field f n (js_field n v) zero = Some x"
  by (simp add: rd_field_def js_field_def rd_object get_def matches_def)

lemma plain_names [simp]:
  "plain_keys [(''session'', x)]" "plain_keys [(''event'', x)]" "plain_keys [(''machine'', x)]"
  "plain_keys [(''sessionId'', x)]" "plain_keys [(''requestId'', x)]" "plain_keys [(''machineId'', x)]"
  "plain_keys [(''ptyId'', x)]"
  by (simp_all add: plain_keys_def)

lemma payload_writable:
  "float_numbers fmt \<Longrightarrow> typed_wire w \<Longrightarrow> payload_json fmt w = Some p \<Longrightarrow> 7 \<le> k \<Longrightarrow> writable k p"
  by (cases "(fmt, w)" rule: payload_json.cases) (auto simp: writable_field)

lemma payload_roundtrip:
  assumes "float_text fmt rd" "typed_wire w" "ordered w" "payload_json fmt w = Some p"
  shows "wire_of rd (msg_type w) (Some p) = w"
  using assms by (cases "(fmt, w)" rule: payload_json.cases) (auto simp: wire_of_def As_def rd_js_field)

lemma typed_encodable: "typed_wire w \<Longrightarrow> encodable w"
  by (cases w rule: encodable.cases)
    (auto simp: session_encodable_def machine_encodable_def typed_session_def typed_machine_def typed_agent_heartbeat_def
      typed_metric_sample_def typed_snapshot_def list_all_iff)

lemma plain_envelope:
  "plain_keys [(''v'', a), (''type'', b), (''ts'', c), (''id'', d), (''payload'', e)]"
  by (simp add: plain_keys_def lower_char_def)

lemma valid_msg_type [simp]: "typed_wire w \<Longrightarrow> valid_utf8 (msg_type w)"
  by (cases w) (auto intro!: valid_utf8_ascii)

lemma As_typed: "decodes_to f P \<Longrightarrow> P zero \<Longrightarrow> pred_option utf8_json p \<Longrightarrow> pred_option P (As f zero p)"
  by (cases p; cases "As f zero p") (auto simp: As_def decodes_to_def)

lemma reads_field: "decodes_to f P \<Longrightarrow> decodes_to (rd_field f n) P"
  unfolding rd_field_def by (rule reads_struct) (rule reads_get)

lemma wire_of_typed: "reads_finite rd \<Longrightarrow> valid_utf8 t \<Longrightarrow> pred_option utf8_json p \<Longrightarrow> typed_wire (wire_of rd t p)"
  by (simp add: wire_of_def As_typed reads_field)

subsection \<open>Texts\<close>

lemma text_roundtrip:
  assumes "float_text fmt rd" "typed_wire (env_Msg env)" "ordered (env_Msg env)" "payload_json fmt (env_Msg env) = Some p"
    and "int_ok (env_V env)" "int_ok (env_TS env)" "valid_utf8 (env_ID env)"
  shows "Decode rd (print_json (js_envelope env p)) = Some env"
proof -
  have "writable 7 p" by (rule payload_writable [OF float_text_numbers [OF assms(1)] assms(2) assms(4)]) simp
  then have "writable 8 (js_envelope env p)"
    using assms(2) assms(7) by (simp add: js_envelope_def writable_object plain_envelope omit_def)
  then have parse: "parse_json (print_json (js_envelope env p)) = Some (js_envelope env p)"
    by (intro parse_json_print) (simp_all add: writable_def maxNestingDepth_def)
  have "rd_envelope rd (js_envelope env p) \<lparr>env_V = 0, env_TS = 0, env_ID = [], env_Msg = OtherType []\<rparr> = Some env"
    by (simp add: rd_envelope_def js_envelope_def rd_object get_present plain_envelope rd_raw_def omit_def assms(5) assms(6)
        payload_roundtrip [OF assms(1) assms(2) assms(3) assms(4)] del: present.simps)
  then show ?thesis by (simp add: Decode_def parse)
qed

text \<open>
  C9. (Messages survive the wire.) Take any message the program sends, with integers of 64 bits, strings of valid
  UTF-8, finite floats and the entries of its maps in order: \<open>Encode\<close> writes it as a text, and \<open>Decode\<close> and \<open>As\<close>
  read that text back as the same message, in an envelope with the version and the time it was sent with. So
  nothing is lost between the escapes of strings, the fields left out as empty, the nested structs and pointers,
  whatever the formatting of floats, as long as it is one that parses back.
\<close>

theorem message_text_roundtrip:
  assumes "float_text fmt rd" "typed_wire w" "ordered w" "payload_json fmt w \<noteq> None" "int_ok now"
  shows "\<exists>s. encode_text fmt now w = Some s \<and>
    Decode rd s = Some \<lparr>env_V = Version, env_TS = now, env_ID = [], env_Msg = w\<rparr>"
proof -
  let ?env = "\<lparr>env_V = Version, env_TS = now, env_ID = [], env_Msg = w\<rparr>"
  obtain p where p: "payload_json fmt w = Some p" using assms(4) by auto
  have e: "Encode now w = Some ?env" using typed_encodable [OF assms(2)] by simp
  have "encode_text fmt now w = Some (print_json (js_envelope ?env p))" unfolding encode_text_def e by (simp add: p)
  moreover have "Decode rd (print_json (js_envelope ?env p)) = Some ?env"
    by (rule text_roundtrip [OF assms(1)]) (simp_all add: assms p int_ok_def [of 1] Version_def)
  ultimately show ?thesis by blast
qed

text \<open>A message with characters that are escaped, and floats written as the number of their bits.\<close>

definition sample_append :: wire where
  "sample_append = EventAppend (Some (zero_event\<lparr>e_ID := ''e1'', e_Kind := EventFilePublished,
     e_Message := ''a <b> & c'' @ [newline], e_TS := 1700000000000, e_Meta := [(''file'', ''x''), (''url'', ''/f/x'')]\<rparr>))"

theorem message_text_roundtrip_witness:
  "\<exists>s. encode_text (\<lambda>w. utoa (unat w)) 5 sample_append = Some s \<and>
    Decode (\<lambda>l. Some (of_nat (undigits l))) s = Some \<lparr>env_V = Version, env_TS = 5, env_ID = [], env_Msg = sample_append\<rparr>"
proof (rule message_text_roundtrip)
  show "float_text (\<lambda>w. utoa (unat w)) (\<lambda>l. Some (of_nat (undigits l)))"
    by (simp add: float_text_def is_number_utoa undigits_utoa)
  show "typed_wire sample_append"
    by (simp add: sample_append_def typed_event_def zero_event_def typed_map_def int_ok_def valid_utf8_ascii)
qed (simp_all add: sample_append_def int_ok_def)

lemma decode_typed:
  assumes "reads_finite rd" "Decode rd s = Some env"
  shows "int_ok (env_V env) \<and> int_ok (env_TS env) \<and> valid_utf8 (env_ID env) \<and> typed_wire (env_Msg env)
    \<and> encodable (env_Msg env)"
proof -
  have raw: "decodes_to rd_raw (pred_option utf8_json)" by (simp add: decodes_to_def rd_raw_def)
  let ?P = "\<lambda>e. int_ok (env_V e) \<and> int_ok (env_TS e) \<and> valid_utf8 (env_ID e) \<and> typed_wire (env_Msg e)"
  have "decodes_to (rd_envelope rd) ?P"
    unfolding rd_envelope_def
  proof (rule reads_struct)
    fix kvs x y
    assume kvs: "utf8_object kvs" and x: "?P x"
      and y: "do { v \<leftarrow> get rd_int ''v'' kvs (env_V x); t \<leftarrow> get rd_string ''type'' kvs (msg_type (env_Msg x));
        ts \<leftarrow> get rd_int ''ts'' kvs (env_TS x); i \<leftarrow> get rd_string ''id'' kvs (env_ID x);
        p \<leftarrow> get rd_raw ''payload'' kvs None;
        Some \<lparr>env_V = v, env_TS = ts, env_ID = i, env_Msg = wire_of rd t p\<rparr> } = Some y"
    from y obtain v t ts i p where g: "get rd_int ''v'' kvs (env_V x) = Some v"
        "get rd_string ''type'' kvs (msg_type (env_Msg x)) = Some t" "get rd_int ''ts'' kvs (env_TS x) = Some ts"
        "get rd_string ''id'' kvs (env_ID x) = Some i" "get rd_raw ''payload'' kvs None = Some p"
      and y: "y = \<lparr>env_V = v, env_TS = ts, env_ID = i, env_Msg = wire_of rd t p\<rparr>"
      by (auto simp: bind_eq_Some_conv)
    have "valid_utf8 t" using gets(1) [OF g(2) kvs] x by simp
    moreover have "pred_option utf8_json p" using reads_get [OF raw g(5) kvs] by simp
    ultimately show "?P y"
      using wire_of_typed [OF assms(1)] gets(2) [OF g(1) kvs] gets(2) [OF g(3) kvs] gets(1) [OF g(4) kvs] x by (simp add: y)
  qed
  moreover obtain v where v: "parse_json s = Some v"
      "rd_envelope rd v \<lparr>env_V = 0, env_TS = 0, env_ID = [], env_Msg = OtherType []\<rparr> = Some env"
    using assms(2) by (auto simp: Decode_def bind_eq_Some_conv)
  moreover have "?P \<lparr>env_V = 0, env_TS = 0, env_ID = [], env_Msg = OtherType []\<rparr>" by (simp add: int_ok_def)
  ultimately have "?P env" using parse_json_utf8 [OF v(1)] unfolding decodes_to_def by blast
  then show ?thesis using typed_encodable by blast
qed



end
