(* ===== verification/Dashboard.thy ===== *)
theory Dashboard
  imports Live_State Hub
begin

section \<open>What a dashboard shows\<close>

text \<open>
  Models the live store of the dashboard (\<open>apps/dashboard/src/store/live.ts\<close>, TypeScript), what each message changes in
  it, and what the hub has sent to the dashboards it knows. \<open>Dashboard_Run\<close> runs it against the server. A JavaScript
  record is a map in the order of insertion; the handlers of terminals are not state of the store. A payload that is
  missing would throw in the code and changes nothing here; the server sends none.
\<close>

subsection \<open>The live store\<close>

record log_entry =
  le_seq :: int
  le_stream :: string
  le_line :: string
  le_ts :: int

record metric_point =
  mp_ts :: int
  mp_cpuPct :: float64
  mp_memBytes :: "64 word"

record live_store =
  lv_machines :: "(string, machine) gomap"
  lv_sessions :: "(string, session) gomap"
  lv_logs :: "(string, log_entry list) gomap"
  lv_metrics :: "(string, metric_point list) gomap"
  lv_events :: "event list"

definition initial_store :: live_store where
  "initial_store = \<lparr>lv_machines = [], lv_sessions = [], lv_logs = [], lv_metrics = [], lv_events = []\<rparr>"

definition MAX_LOGS_PER_SESSION :: nat where
  "MAX_LOGS_PER_SESSION = 5000"

definition MAX_METRICS_PER_SESSION :: nat where
  "MAX_METRICS_PER_SESSION = 600"

definition MAX_EVENTS :: nat where
  "MAX_EVENTS = 500"

text \<open>Merged by key, the later value winning, sorted by key, the oldest dropped.\<close>

definition merge_by :: "('a \<Rightarrow> int) \<Rightarrow> nat \<Rightarrow> 'a list \<Rightarrow> 'a list \<Rightarrow> 'a list" where
  "merge_by key cap a b =
     (let merged = sort_key key (map snd (foldl (\<lambda>m e. mput (key e) e m) [] (a @ b)))
      in drop (length merged - cap) merged)"

definition mergeLogs :: "log_entry list \<Rightarrow> log_entry list \<Rightarrow> log_entry list" where
  "mergeLogs = merge_by le_seq MAX_LOGS_PER_SESSION"

definition mergeMetrics :: "metric_point list \<Rightarrow> metric_point list \<Rightarrow> metric_point list" where
  "mergeMetrics = merge_by mp_ts MAX_METRICS_PER_SESSION"

definition entries_of :: "(string, 'a list) gomap \<Rightarrow> string \<Rightarrow> 'a list" where
  "entries_of m i = (case mget m i of None \<Rightarrow> [] | Some es \<Rightarrow> es)"

definition from_entries :: "('a \<Rightarrow> string) \<Rightarrow> 'a list \<Rightarrow> (string, 'a) gomap" where
  "from_entries key xs = foldl (\<lambda>m x. mput (key x) x m) [] xs"

fun applyMessage :: "wire \<Rightarrow> live_store \<Rightarrow> live_store" where
  "applyMessage (Snapshot (Some snap)) v =
     v\<lparr>lv_machines := from_entries m_ID (sn_Machines snap), lv_sessions := from_entries s_ID (sn_Sessions snap),
       lv_events := take MAX_EVENTS (sn_Events snap)\<rparr>"
| "applyMessage (EventAppend (Some e)) v =
     (if list_ex (\<lambda>d. e_ID d = e_ID e) (lv_events v) then v
      else v\<lparr>lv_events := take MAX_EVENTS (e # lv_events v)\<rparr>)"
| "applyMessage (MachineUpsert (Some m)) v = v\<lparr>lv_machines := mput (m_ID m) m (lv_machines v)\<rparr>"
| "applyMessage (MachineRemoved (Some i)) v =
     v\<lparr>lv_machines := mdel i (lv_machines v), lv_sessions := mkeep (\<lambda>_ s. s_MachineID s \<noteq> i) (lv_sessions v)\<rparr>"
| "applyMessage (AgentStatus (Some a)) v =
     (case mget (lv_machines v) (as_MachineID a) of None \<Rightarrow> v
      | Some m \<Rightarrow> v\<lparr>lv_machines := mput (as_MachineID a) (m\<lparr>m_Online := as_Online a\<rparr>) (lv_machines v)\<rparr>)"
| "applyMessage (SessionUpsert (Some s)) v = v\<lparr>lv_sessions := mput (s_ID s) s (lv_sessions v)\<rparr>"
| "applyMessage (SessionRemoved (Some i)) v = v\<lparr>lv_sessions := mdel i (lv_sessions v)\<rparr>"
| "applyMessage (LogAppend (Some l)) v =
     v\<lparr>lv_logs := mput (la_SessionID l) (mergeLogs (entries_of (lv_logs v) (la_SessionID l))
       [\<lparr>le_seq = la_Seq l, le_stream = la_Stream l, le_line = la_Line l, le_ts = la_TS l\<rparr>]) (lv_logs v)\<rparr>"
| "applyMessage (MetricSample (Some m)) v =
     v\<lparr>lv_metrics := mput (ms_SessionID m) (mergeMetrics (entries_of (lv_metrics v) (ms_SessionID m))
       [\<lparr>mp_ts = ms_TS m, mp_cpuPct = ms_CPUPct m, mp_memBytes = ms_MemBytes m\<rparr>]) (lv_metrics v)\<rparr>"
| "applyMessage _ v = v"

text \<open>What the pages merge in from the REST API, and what a sign-out leaves.\<close>

definition hydrateLogs :: "string \<Rightarrow> log_entry list \<Rightarrow> live_store \<Rightarrow> live_store" where
  "hydrateLogs i es v = v\<lparr>lv_logs := mput i (mergeLogs (entries_of (lv_logs v) i) es) (lv_logs v)\<rparr>"

definition hydrateMetrics :: "string \<Rightarrow> metric_point list \<Rightarrow> live_store \<Rightarrow> live_store" where
  "hydrateMetrics i ps v = v\<lparr>lv_metrics := mput i (mergeMetrics (entries_of (lv_metrics v) i) ps) (lv_metrics v)\<rparr>"

definition hydrateFleet :: "machine list \<Rightarrow> session list \<Rightarrow> live_store \<Rightarrow> live_store" where
  "hydrateFleet ms ss v = v\<lparr>lv_machines := foldl (\<lambda>m x. mput (m_ID x) x m) (lv_machines v) ms,
     lv_sessions := foldl (\<lambda>m x. mput (s_ID x) x m) (lv_sessions v) ss\<rparr>"

definition disconnect_store :: "live_store \<Rightarrow> live_store" where
  "disconnect_store v = initial_store"

text \<open>
  The answer of the REST API is merged in whenever it comes: one that was taken before a session was removed brings
  the session back, for as long as the page stays open.
\<close>

theorem late_answer_resurrects:
  "mget (lv_sessions (hydrateFleet ms [x] (applyMessage (SessionRemoved (Some (s_ID x))) v))) (s_ID x) = Some x"
  by (simp add: hydrateFleet_def)

text \<open>Lines are merged by number alone: those of a stream that starts again at 1 replace the lines of the old one.\<close>

theorem restarted_stream_replaces:
  "mergeLogs [\<lparr>le_seq = 1, le_stream = ''stdout'', le_line = ''old'', le_ts = 1\<rparr>]
     [\<lparr>le_seq = 1, le_stream = ''stdout'', le_line = ''new'', le_ts = 2\<rparr>]
   = [\<lparr>le_seq = 1, le_stream = ''stdout'', le_line = ''new'', le_ts = 2\<rparr>]"
  by code_simp

text \<open>What a client shows when it has handled its whole stream.\<close>

definition shown :: "client \<Rightarrow> live_store" where
  "shown c = foldl (\<lambda>v env. applyMessage (env_Msg env) v) initial_store (stream c)"

text \<open>
  The usage of a session travels in samples the store keeps beside the session, so a session is compared without its
  CPU, memory and last activity.
\<close>

definition dimmed :: "session \<Rightarrow> session" where
  "dimmed s = s\<lparr>s_CPUPct := 0, s_MemBytes := 0, s_LastActivityAt := 0\<rparr>"

definition agrees :: "org_state \<Rightarrow> live_store \<Rightarrow> bool" where
  "agrees os v \<longleftrightarrow> wf_map (lv_sessions v) \<and> (\<forall>i. mget (lv_machines v) i = mget (os_machines os) i)
     \<and> (\<forall>i. map_option dimmed (mget (lv_sessions v) i) = map_option dimmed (mget (os_sessions os) i))"

subsection \<open>Messages that change what is shown\<close>

fun shows_in :: "wire \<Rightarrow> bool" where
  "shows_in (Snapshot _) \<longleftrightarrow> True"
| "shows_in (MachineUpsert _) \<longleftrightarrow> True"
| "shows_in (MachineRemoved _) \<longleftrightarrow> True"
| "shows_in (AgentStatus _) \<longleftrightarrow> True"
| "shows_in (SessionUpsert _) \<longleftrightarrow> True"
| "shows_in (SessionRemoved _) \<longleftrightarrow> True"
| "shows_in _ \<longleftrightarrow> False"

definition apply_all :: "wire list \<Rightarrow> live_store \<Rightarrow> live_store" where
  "apply_all ws v = foldl (\<lambda>v w. applyMessage w v) v ws"

lemma apply_all_simps [simp]: "apply_all [] v = v" "apply_all (w # ws) v = apply_all ws (applyMessage w v)"
  "apply_all (ws @ ws') v = apply_all ws' (apply_all ws v)"
  by (simp_all add: apply_all_def)

definition news :: "client \<Rightarrow> wire list" where
  "news c = filter shows_in (map env_Msg (stream c))"

definition same_fleet :: "live_store \<Rightarrow> live_store \<Rightarrow> bool" where
  "same_fleet v v' \<longleftrightarrow> lv_machines v = lv_machines v' \<and> lv_sessions v = lv_sessions v'"

lemma applyMessage_fleet: "same_fleet v v' \<Longrightarrow> same_fleet (applyMessage w v) (applyMessage w v')"
  by (cases "(w, v)" rule: applyMessage.cases) (auto simp: same_fleet_def split: option.splits)

lemma applyMessage_hidden: "\<not> shows_in w \<Longrightarrow> same_fleet (applyMessage w v) v"
  by (cases "(w, v)" rule: applyMessage.cases) (auto simp: same_fleet_def)

lemma apply_all_filter: "same_fleet v v' \<Longrightarrow> same_fleet (apply_all ws v) (apply_all (filter shows_in ws) v')"
proof (induction ws arbitrary: v v')
  case (Cons w ws)
  have "same_fleet (applyMessage w v) (if shows_in w then applyMessage w v' else v')"
    using applyMessage_fleet [OF Cons.prems, of w] applyMessage_hidden [of w v] Cons.prems
    by (auto simp: same_fleet_def)
  from Cons.IH [OF this] show ?case by (cases "shows_in w") simp_all
qed simp

lemma agrees_fleet: "same_fleet v v' \<Longrightarrow> agrees os v \<longleftrightarrow> agrees os v'"
  by (simp add: same_fleet_def agrees_def)

lemma shown_news: "agrees os (shown c) \<longleftrightarrow> agrees os (apply_all (news c) initial_store)"
proof -
  have "shown c = apply_all (map env_Msg (stream c)) initial_store"
    by (simp add: shown_def apply_all_def foldl_map)
  moreover have "same_fleet (apply_all (map env_Msg (stream c)) initial_store) (apply_all (news c) initial_store)"
    unfolding news_def by (rule apply_all_filter) (simp add: same_fleet_def)
  ultimately show ?thesis by (simp only: agrees_fleet)
qed

subsection \<open>Each message is the change it reports\<close>

lemma agrees_machine: "agrees os v \<Longrightarrow>
    agrees (os\<lparr>os_machines := mput (m_ID m) m (os_machines os)\<rparr>) (applyMessage (MachineUpsert (Some m)) v)"
  by (simp add: agrees_def)

lemma agrees_online:
  assumes "agrees os v" and "mget (os_machines os) i = Some m"
  shows "agrees (os\<lparr>os_machines := mput i (m\<lparr>m_Online := b\<rparr>) (os_machines os)\<rparr>)
    (applyMessage (AgentStatus (Some \<lparr>as_MachineID = i, as_Online = b\<rparr>)) v)"
  using assms by (simp add: agrees_def)

lemma agrees_session: "agrees os v \<Longrightarrow>
    agrees (os\<lparr>os_sessions := mput (s_ID x) x (os_sessions os)\<rparr>) (applyMessage (SessionUpsert (Some x)) v)"
  by (simp add: agrees_def)

lemma agrees_no_session: "agrees os v \<Longrightarrow>
    agrees (os\<lparr>os_sessions := mdel i (os_sessions os)\<rparr>) (applyMessage (SessionRemoved (Some i)) v)"
  by (simp add: agrees_def)

lemma dimmed_metric [simp]: "dimmed (metric_session ms x) = dimmed x"
  by (simp add: dimmed_def metric_session_def)

lemma agrees_metric: "agrees os v \<Longrightarrow> mget (os_sessions os) i = Some x \<Longrightarrow>
    agrees (os\<lparr>os_sessions := mput i (metric_session ms x) (os_sessions os)\<rparr>) v"
  by (simp add: agrees_def)

lemma agrees_events [simp]: "agrees (os\<lparr>os_events := es\<rparr>) v = agrees os v"
  by (simp add: agrees_def)

lemma removed_sessions:
  "lv_machines (apply_all (map (SessionRemoved \<circ> Some) is) v) = lv_machines v
   \<and> (wf_map (lv_sessions v) \<longrightarrow> wf_map (lv_sessions (apply_all (map (SessionRemoved \<circ> Some) is) v)))
   \<and> mget (lv_sessions (apply_all (map (SessionRemoved \<circ> Some) is) v)) i =
      (if i \<in> set is then None else mget (lv_sessions v) i)"
  by (induction "is" arbitrary: v) auto

text \<open>A dropped machine's sessions go one by one.\<close>

lemma agrees_sessions_gone:
  assumes "agrees os v" and "wf_map (os_sessions os)"
    and "\<And>i. i \<in> set is \<longleftrightarrow> (\<exists>x. mget (os_sessions os) i = Some x \<and> s_MachineID x = mid)"
  shows "agrees (os\<lparr>os_sessions := mkeep (\<lambda>_ x. s_MachineID x \<noteq> mid) (os_sessions os)\<rparr>)
    (apply_all (map (SessionRemoved \<circ> Some) is) v)"
  unfolding agrees_def
proof (intro conjI allI)
  fix i
  have s: "map_option dimmed (mget (lv_sessions v) i) = map_option dimmed (mget (os_sessions os) i)"
    using assms(1) by (simp add: agrees_def)
  show "map_option dimmed (mget (lv_sessions (apply_all (map (SessionRemoved \<circ> Some) is) v)) i) =
      map_option dimmed (mget (os_sessions (os\<lparr>os_sessions := mkeep (\<lambda>_ x. s_MachineID x \<noteq> mid) (os_sessions os)\<rparr>)) i)"
    using s assms(3) [of i] by (auto simp: removed_sessions mget_mkeep [OF assms(2)] split: option.splits)
qed (use assms(1) in \<open>simp_all add: removed_sessions agrees_def\<close>)

text \<open>A removed machine takes its sessions with it.\<close>

lemma dimmed_machine: "dimmed x = dimmed y \<Longrightarrow> s_MachineID x = s_MachineID y"
  by (drule arg_cong [where f = s_MachineID]) (simp add: dimmed_def)

lemma agrees_no_machine:
  assumes "agrees os v" and "\<And>j x. mget (os_sessions os) j = Some x \<Longrightarrow> s_MachineID x \<noteq> i"
  shows "agrees (os\<lparr>os_machines := mdel i (os_machines os)\<rparr>) (applyMessage (MachineRemoved (Some i)) v)"
proof -
  have "s_MachineID y \<noteq> i" if "mget (lv_sessions v) j = Some y" for j y
  proof -
    have "map_option dimmed (mget (os_sessions os) j) = Some (dimmed y)"
      using assms(1) that by (metis agrees_def option.simps(9))
    then show ?thesis using assms(2) by (auto dest: dimmed_machine)
  qed
  moreover have "wf_map (lv_sessions v)" using assms(1) by (simp add: agrees_def)
  ultimately have "mget (mkeep (\<lambda>_ x. s_MachineID x \<noteq> i) (lv_sessions v)) j = mget (lv_sessions v) j" for j
    by (simp add: mget_mkeep split: option.split)
  then show ?thesis using assms(1) by (simp add: agrees_def)
qed

text \<open>A snapshot is the whole fleet.\<close>

lemma mget_from_entries:
  assumes "\<And>x. x \<in> set xs \<Longrightarrow> M (key x) = Some x"
  shows "mget (from_entries key xs) i = (if i \<in> key ` set xs then M i else None)"
  using assms
proof (induction xs rule: rev_induct)
  case (snoc x xs)
  then show ?case by (auto simp: from_entries_def)
qed (simp add: from_entries_def)

lemma wf_from_entries: "wf_map (from_entries key xs)"
  unfolding from_entries_def by (rule foldl_invariant) simp_all

lemma from_entries_map:
  assumes "wf_map m" and "\<And>i x. mget m i = Some x \<Longrightarrow> key x = i" and "set xs = snd ` set m"
  shows "mget (from_entries key xs) i = mget m i"
proof -
  have "mget m (key x) = Some x" if "x \<in> set xs" for x
    using that assms(2) by (auto simp: assms(3) set_mget [OF assms(1)])
  then have "mget (from_entries key xs) i = (if i \<in> key ` set xs then mget m i else None)"
    by (rule mget_from_entries)
  moreover have "i \<in> key ` set xs" if "mget m i = Some x" for x
    using assms(2) [OF that] mget_in_set [OF that] by (force simp: assms(3))
  ultimately show ?thesis by (cases "mget m i") auto
qed

lemma agrees_snapshot:
  assumes "wf_org (org_view g m)" and "range_order \<pi>m" "range_order \<pi>s"
  shows "agrees (org_view g m) (applyMessage (Snapshot (Some (Snapshot_of \<pi>m \<pi>s g m))) v)"
proof -
  let ?os = "org_view g m"
  have s: "Snapshot_of \<pi>m \<pi>s g m = \<lparr>sn_Machines = sort_key m_ID (map snd (\<pi>m (os_machines ?os))),
      sn_Sessions = sort_key (\<lambda>s. - s_StartedAt s) (map snd (\<pi>s (os_sessions ?os))), sn_Events = rev (os_events ?os)\<rparr>"
    using Snapshot_of_view [OF assms(2,3)] by (simp add: Let_def)
  have "mget (from_entries m_ID (sort_key m_ID (map snd (\<pi>m (os_machines ?os))))) i = mget (os_machines ?os) i" for i
    by (rule from_entries_map) (use assms in \<open>auto simp: wf_org_def\<close>)
  moreover have "mget (from_entries s_ID (sort_key (\<lambda>s. - s_StartedAt s) (map snd (\<pi>s (os_sessions ?os))))) i
      = mget (os_sessions ?os) i" for i
    by (rule from_entries_map) (use assms in \<open>auto simp: wf_org_def\<close>)
  ultimately show ?thesis by (simp add: agrees_def s wf_from_entries)
qed

subsection \<open>What the open dashboards of the hub are sent\<close>

text \<open>A registered dashboard whose connection is open has lost no message: the drop of a message closes it.\<close>

definition watching :: "hub \<Rightarrow> string \<Rightarrow> client \<Rightarrow> bool" where
  "watching h ref c \<longleftrightarrow> mget (h_clients h) ref \<noteq> None \<and> mget (h_heap h) ref = Some c
     \<and> cl_Role c = RoleDashboard \<and> cl_conn c"

text \<open>Between two states of the hub, the dashboards of \<open>g\<close> have got \<open>ws\<close> and all others nothing that shows.\<close>

definition delivers :: "string \<Rightarrow> wire list \<Rightarrow> hub \<Rightarrow> hub \<Rightarrow> bool" where
  "delivers g ws h h' \<longleftrightarrow> (wf_hub h \<longrightarrow> wf_hub h' \<and> (\<forall>ref c'. watching h' ref c' \<longrightarrow>
     (\<exists>c. watching h ref c \<and> cl_OrgID c' = cl_OrgID c
        \<and> news c' = news c @ (if cl_OrgID c = g then filter shows_in ws else []))))"

lemma delivers_refl [simp]: "delivers g [] h h"
  by (auto simp: delivers_def)

lemma delivers_trans: "delivers g ws h h' \<Longrightarrow> delivers g ws' h' h'' \<Longrightarrow> delivers g (ws @ ws') h h''"
  unfolding delivers_def
proof (intro impI conjI allI)
  assume a: "wf_hub h \<longrightarrow> wf_hub h' \<and> (\<forall>ref c'. watching h' ref c' \<longrightarrow> (\<exists>c. watching h ref c \<and> cl_OrgID c' = cl_OrgID c
        \<and> news c' = news c @ (if cl_OrgID c = g then filter shows_in ws else [])))"
    and b: "wf_hub h' \<longrightarrow> wf_hub h'' \<and> (\<forall>ref c'. watching h'' ref c' \<longrightarrow> (\<exists>c. watching h' ref c \<and> cl_OrgID c' = cl_OrgID c
        \<and> news c' = news c @ (if cl_OrgID c = g then filter shows_in ws' else [])))"
    and wf: "wf_hub h"
  from a b wf show "wf_hub h''" by blast
  fix ref c'' assume "watching h'' ref c''"
  then obtain c' where c': "watching h' ref c'" "cl_OrgID c'' = cl_OrgID c'"
      "news c'' = news c' @ (if cl_OrgID c' = g then filter shows_in ws' else [])" using a b wf by blast
  then obtain c where "watching h ref c" "cl_OrgID c' = cl_OrgID c"
      "news c' = news c @ (if cl_OrgID c = g then filter shows_in ws else [])" using a wf by blast
  with c' show "\<exists>c. watching h ref c \<and> cl_OrgID c'' = cl_OrgID c
      \<and> news c'' = news c @ (if cl_OrgID c = g then filter shows_in (ws @ ws') else [])"
    by (intro exI [of _ c]) simp
qed

lemmas delivers_hidden = delivers_trans [where ws = "[]", simplified] delivers_trans [where ws' = "[]", simplified]

lemma deliversI:
  assumes "wf_hub h \<Longrightarrow> wf_hub h'"
    and "\<And>ref c'. wf_hub h \<Longrightarrow> watching h' ref c' \<Longrightarrow> \<exists>c. watching h ref c \<and> cl_OrgID c' = cl_OrgID c
        \<and> news c' = news c @ (if cl_OrgID c = g then filter shows_in ws else [])"
  shows "delivers g ws h h'"
  using assms unfolding delivers_def by blast

lemma news_deliver: "cl_conn (deliver msg c) \<Longrightarrow> cl_conn c \<and> news (deliver msg c) = news c @ filter shows_in [env_Msg msg]"
  by (auto simp: deliver_def news_def stream_def split: if_splits)

lemma delivers_matching:
  assumes "range_order \<pi>"
    and "\<And>c. cl_Role c = RoleDashboard \<Longrightarrow> (if P c then filter shows_in [env_Msg msg] else []) =
      (if cl_OrgID c = g then filter shows_in ws else [])"
  shows "delivers g ws h (send_matching \<pi> P msg h)"
proof (rule deliversI)
  fix ref c' assume wf: "wf_hub h" and w: "watching (send_matching \<pi> P msg h) ref c'"
  note spec = send_matching_spec [OF wf assms(1), where P = P and msg = msg]
  obtain c where c: "mget (h_heap h) ref = Some c" "c' = (if P c then deliver msg c else c)"
    using w by (auto simp: watching_def spec)
  have "watching h ref c" using w c news_deliver [of msg c] by (auto simp: watching_def spec split: if_splits)
  moreover have "news c' = news c @ (if P c then filter shows_in [env_Msg msg] else [])"
    using w c news_deliver [of msg c] by (auto simp: watching_def split: if_splits)
  ultimately show "\<exists>c. watching h ref c \<and> cl_OrgID c' = cl_OrgID c
      \<and> news c' = news c @ (if cl_OrgID c = g then filter shows_in ws else [])"
    using assms(2) [of c] c(2) by (intro exI [of _ c]) (simp add: watching_def)
qed (rule send_matching_spec(1) [OF _ assms(1)])

lemma delivers_Emit: "range_order \<pi> \<Longrightarrow> encodable w \<Longrightarrow> delivers g [w] h (EmitOrg \<pi> now g w h)"
  by (simp add: EmitOrg_def Encode_def BroadcastOrg_def) (rule delivers_matching; simp)

lemma delivers_Emit_hidden: "range_order \<pi> \<Longrightarrow> \<not> shows_in w \<Longrightarrow> delivers g [] h (EmitOrg \<pi> now g' w h)"
  by (simp add: EmitOrg_def Encode_def BroadcastOrg_def) (rule impI, rule delivers_matching; simp)

lemma delivers_Broadcast_hidden:
  "range_order \<pi> \<Longrightarrow> \<not> shows_in (env_Msg msg) \<Longrightarrow> delivers g [] h (BroadcastOrg \<pi> g' msg h)"
  unfolding BroadcastOrg_def by (rule delivers_matching) simp_all

lemma delivers_agents: "range_order \<pi> \<Longrightarrow> delivers g [] h (SendToOrgAgents \<pi> g' msg h)"
  unfolding SendToOrgAgents_def by (rule delivers_matching) simp_all

text \<open>A change of one client of which nothing is seen.\<close>

lemma delivers_client:
  assumes "wf_hub h \<Longrightarrow> wf_hub h'" and "\<And>r. wf_hub h \<Longrightarrow> mget (h_clients h') r \<noteq> None \<Longrightarrow> mget (h_clients h) r \<noteq> None"
    and "\<And>r. r \<noteq> ref \<Longrightarrow> mget (h_heap h') r = mget (h_heap h) r"
    and "\<And>c'. wf_hub h \<Longrightarrow> watching h' ref c' \<Longrightarrow> \<exists>c. mget (h_heap h) ref = Some c \<and> cl_Role c = RoleDashboard
        \<and> cl_conn c \<and> cl_OrgID c' = cl_OrgID c \<and> news c' = news c"
  shows "delivers g [] h h'"
proof (rule deliversI)
  fix r c' assume wf: "wf_hub h" and w: "watching h' r c'"
  show "\<exists>c. watching h r c \<and> cl_OrgID c' = cl_OrgID c \<and> news c' = news c @ (if cl_OrgID c = g then filter shows_in [] else [])"
  proof (cases "r = ref")
    case True
    with assms(4) [OF wf] w assms(2) [OF wf, of r] show ?thesis by (force simp: watching_def)
  next
    case False
    with assms(3) [OF False] w assms(2) [OF wf, of r] show ?thesis by (force simp: watching_def)
  qed
qed (rule assms(1))

lemma delivers_enqueue:
  assumes "\<And>c. mget (h_heap h) ref = Some c \<Longrightarrow> cl_open c"
    and "\<And>c. wf_hub h \<Longrightarrow> mget (h_heap h) ref = Some c \<Longrightarrow> cl_Role c = RoleDashboard \<Longrightarrow> \<not> shows_in (env_Msg msg)"
  shows "delivers g [] h (enqueue ref msg h)"
proof (rule delivers_client [where ref = ref])
  fix c' assume wf: "wf_hub h" and w: "watching (enqueue ref msg h) ref c'"
  then obtain c where c: "mget (h_heap h) ref = Some c" "c' = deliver msg c"
    using assms(1) by (auto simp: watching_def enqueue_def split: option.splits if_splits)
  then show "\<exists>c. mget (h_heap h) ref = Some c \<and> cl_Role c = RoleDashboard \<and> cl_conn c \<and> cl_OrgID c' = cl_OrgID c
      \<and> news c' = news c"
    using w news_deliver [of msg c] assms(2) [OF wf c(1)] by (auto simp: watching_def)
next
  show "wf_hub (enqueue ref msg h)" if "wf_hub h" using that assms(1) by (rule wf_hub_enqueue)
qed (auto simp: enqueue_def split: option.splits if_splits)

lemma delivers_SendToAgent: "delivers g [] h (fst (SendToAgent m msg h))"
proof (cases "lookup_agent m h")
  case (Some ref)
  show ?thesis
  proof (cases "wf_hub h")
    case True
    from wf_hub_agentD [OF True Some [unfolded lookup_agent_def]] obtain c
      where c: "mget (h_heap h) ref = Some c" "cl_Role c = RoleAgent" "mget (h_clients h) ref = Some ref" by blast
    have "cl_open c" using wf_hub_clientD [OF True c(3)] c(1) by auto
    then have "delivers g [] h (enqueue ref msg h)" by (intro delivers_enqueue) (use c in simp_all)
    then show ?thesis by (simp add: SendToAgent_def Some)
  qed (simp add: delivers_def)
qed (simp add: SendToAgent_def)

lemma delivers_write: "delivers g [] h (write_turn ref h)"
proof (rule delivers_client [where ref = ref])
  fix c' assume "watching (write_turn ref h) ref c'"
  then show "\<exists>c. mget (h_heap h) ref = Some c \<and> cl_Role c = RoleDashboard \<and> cl_conn c \<and> cl_OrgID c' = cl_OrgID c
      \<and> news c' = news c"
    by (auto simp: watching_def write_turn_def news_def stream_def split: option.splits list.splits if_splits)
next
  show "wf_hub (write_turn ref h)" if "wf_hub h" using that by (rule wf_hub_write)
qed (auto simp: write_turn_def split: option.splits list.splits if_splits)

lemma delivers_unregister: "delivers g [] h (run_unregister ref h)"
proof (rule delivers_client [where ref = ref])
  fix c' assume wf: "wf_hub h" and "watching (run_unregister ref h) ref c'"
  then show "\<exists>c. mget (h_heap h) ref = Some c \<and> cl_Role c = RoleDashboard \<and> cl_conn c \<and> cl_OrgID c' = cl_OrgID c
      \<and> news c' = news c"
    using wf_hub_heapD [OF wf, of ref]
    by (auto simp: watching_def run_unregister_def Let_def news_def stream_def split: option.splits if_splits)
next
  show "wf_hub (run_unregister ref h)" if "wf_hub h" using that by (rule wf_hub_unregister)
qed (auto simp: run_unregister_def Let_def split: option.splits if_splits)

lemma delivers_new: "mget (h_heap h) ref = None \<Longrightarrow> delivers g [] h (NewClient ref role g' m h)"
proof (rule delivers_client [where ref = ref])
  fix c' assume new: "mget (h_heap h) ref = None" and wf: "wf_hub h" and "watching (NewClient ref role g' m h) ref c'"
  then obtain r where "mget (h_clients h) ref = Some r" by (auto simp: watching_def NewClient_def)
  with wf_hub_clientD [OF wf this] new
  show "\<exists>c. mget (h_heap h) ref = Some c \<and> cl_Role c = RoleDashboard \<and> cl_conn c \<and> cl_OrgID c' = cl_OrgID c
      \<and> news c' = news c" by auto
next
  show "wf_hub (NewClient ref role g' m h)" if "mget (h_heap h) ref = None" "wf_hub h"
    using that(2,1) by (rule wf_hub_NewClient)
qed (simp_all add: NewClient_def)

lemma delivers_register_agent:
  assumes "mget (h_heap h) ref = Some c" "cl_open c" "cl_Role c = RoleAgent"
  shows "delivers g [] h (run_register ref h)"
proof (rule deliversI)
  fix r c' assume wf: "wf_hub h" and w: "watching (run_register ref h) r c'"
  have "cl_ID c = ref" using wf_hub_heapD [OF wf assms(1)] by simp
  then have "r \<noteq> ref" "watching h r c'"
    using w assms by (auto simp: watching_def run_register_def Let_def split: if_splits)
  then show "\<exists>c. watching h r c \<and> cl_OrgID c' = cl_OrgID c \<and> news c' = news c @ (if cl_OrgID c = g then filter shows_in [] else [])"
    by auto
qed (use assms in \<open>auto intro: wf_hub_register\<close>)

end
