(* ===== verification/Dashboard_Run.thy ===== *)
theory Dashboard_Run
  imports Dashboard Server_Run Wire_Laws
begin

section \<open>Dashboards follow the server\<close>

text \<open>
  Runs the live store of the dashboard (\<open>Dashboard\<close>) against the server (\<open>Server_Run\<close>): in every run the machines and
  sessions that an open dashboard shows when it has handled its stream are those the server holds for its organisation
  (\<open>dashboard_in_step\<close>). Each handler of the server is one step, so the gap between the snapshot and the registration
  of a dashboard in \<open>ws.go\<close> is closed here.
\<close>

subsection \<open>The invariant\<close>

text \<open>What the server holds can be sent: a float it took from a message is finite.\<close>

definition fin_org :: "org_state \<Rightarrow> bool" where
  "fin_org os \<longleftrightarrow> (\<forall>i m. mget (os_machines os) i = Some m \<longrightarrow> machine_encodable m)
     \<and> (\<forall>i x. mget (os_sessions os) i = Some x \<longrightarrow> session_encodable x)"

definition in_step :: "server \<Rightarrow> bool" where
  "in_step s \<longleftrightarrow> wf_hub (sv_hub s) \<and> wf_manager (sv_state s) \<and> (\<forall>g. fin_org (org_view g (sv_state s)))
     \<and> (\<forall>ref c. watching (sv_hub s) ref c \<longrightarrow> agrees (org_view (cl_OrgID c) (sv_state s)) (shown c))"

lemma in_step_parts [simp]:
  "in_step (s\<lparr>sv_store := st\<rparr>) = in_step s"
  "in_step (s\<lparr>sv_termRouter := tr\<rparr>) = in_step s"
  "in_step (s\<lparr>sv_agentKeys := ks\<rparr>) = in_step s"
  by (simp_all add: in_step_def)

lemma in_step_reload [simp]: "in_step (reloadAgentKeys f a s) = in_step s"
  by (simp add: reloadAgentKeys_def split: sum.splits)

text \<open>A change of one partition together with the messages that tell of it.\<close>

lemma in_step_change:
  assumes s: "in_step s" and d: "delivers g ws (sv_hub s) (sv_hub s')"
    and wf: "wf_manager (sv_state s')" and fin: "fin_org (org_view g (sv_state s'))"
    and other: "\<And>g'. g' \<noteq> g \<Longrightarrow> org_view g' (sv_state s') = org_view g' (sv_state s)"
    and tell: "\<And>v. agrees (org_view g (sv_state s)) v \<Longrightarrow> agrees (org_view g (sv_state s')) (apply_all ws v)"
  shows "in_step s'"
  unfolding in_step_def
proof (intro conjI allI impI wf)
  show "wf_hub (sv_hub s')" using s d by (simp add: in_step_def delivers_def)
  show "fin_org (org_view g' (sv_state s'))" for g'
    using fin other [of g'] s by (cases "g' = g") (simp_all add: in_step_def)
  fix ref c' assume "watching (sv_hub s') ref c'"
  then obtain c where c: "watching (sv_hub s) ref c" "cl_OrgID c' = cl_OrgID c"
      "news c' = news c @ (if cl_OrgID c = g then filter shows_in ws else [])"
    using s d unfolding in_step_def delivers_def by blast
  have a: "agrees (org_view (cl_OrgID c) (sv_state s)) (apply_all (news c) initial_store)"
    using s c(1) by (simp add: in_step_def shown_news)
  have f: "agrees os (apply_all (filter shows_in ws) v) = agrees os (apply_all ws v)" for os v
    using agrees_fleet [OF apply_all_filter, of v v] by (simp add: same_fleet_def)
  show "agrees (org_view (cl_OrgID c') (sv_state s')) (shown c')"
    using a c(2,3) tell other by (cases "cl_OrgID c = g") (simp_all add: shown_news f)
qed

text \<open>Nothing that shows is sent, and the state is the same.\<close>

lemma in_step_hub:
  assumes "in_step s" and "delivers g [] (sv_hub s) h"
  shows "in_step (s\<lparr>sv_hub := h\<rparr>)"
  by (rule in_step_change [OF assms(1), of g "[]"]) (use assms in \<open>simp_all add: in_step_def\<close>)

fun op_finite :: "state_op \<Rightarrow> bool" where
  "op_finite (OpMachine g m) \<longleftrightarrow> machine_encodable m"
| "op_finite (OpHeartbeat g hb ts) \<longleftrightarrow> encodable (AgentHeartbeat (Some hb))"
| "op_finite (OpSession g x) \<longleftrightarrow> session_encodable x"
| "op_finite (OpMetric g y) \<longleftrightarrow> encodable (MetricSample (Some y))"
| "op_finite _ \<longleftrightarrow> True"

lemma fin_part_op: "wf_org os \<Longrightarrow> fin_org os \<Longrightarrow> op_finite c \<Longrightarrow> fin_org (part_op c os)"
proof (cases c)
  case (OpDropMachineSessions g i)
  assume wf: "wf_org os" and fin: "fin_org os"
  then have "wf_map (os_sessions os)" by (simp add: wf_org_def)
  then show ?thesis using fin unfolding OpDropMachineSessions part_op_drop [OF wf]
    by (auto simp: fin_org_def mget_mkeep split: option.splits if_splits)
next
  case (OpOnline g i b)
  assume "fin_org os"
  then show ?thesis unfolding OpOnline by (auto simp: fin_org_def machine_encodable_def split: option.split)
next
  case (OpHeartbeat g hb ts)
  assume "fin_org os" "op_finite c"
  then show ?thesis unfolding OpHeartbeat
    by (auto simp: fin_org_def machine_encodable_def heartbeat_machine_def split: option.split)
next
  case (OpMetric g y)
  assume "fin_org os" "op_finite c"
  then show ?thesis unfolding OpMetric
    by (auto simp: fin_org_def session_encodable_def metric_session_def split: option.split)
qed (auto simp: fin_org_def)

text \<open>A call of the live state together with the messages that tell of it.\<close>

lemma in_step_op:
  assumes s: "in_step s" and d: "delivers (op_org c) ws (sv_hub s) (sv_hub s')"
    and op: "sv_state s' = exec_op c (sv_state s)" and fin: "op_finite c"
    and tell: "\<And>v. wf_org (org_view (op_org c) (sv_state s)) \<Longrightarrow> agrees (org_view (op_org c) (sv_state s)) v \<Longrightarrow>
      agrees (part_op c (org_view (op_org c) (sv_state s))) (apply_all ws v)"
  shows "in_step s'"
proof (rule in_step_change [OF s d])
  have wf: "wf_manager (sv_state s)" using s by (simp add: in_step_def)
  then have os: "wf_org (org_view (op_org c) (sv_state s))" by (rule wf_org_view)
  show "wf_manager (sv_state s')" unfolding op using wf by (rule wf_manager_exec_op)
  show "fin_org (org_view (op_org c) (sv_state s'))"
    using fin_part_op [OF os _ fin] s by (simp add: op org_view_exec_op in_step_def)
  show "agrees (org_view (op_org c) (sv_state s')) (apply_all ws v)"
    if "agrees (org_view (op_org c) (sv_state s)) v" for v
    using tell [OF os that] by (simp add: op org_view_exec_op)
qed (simp add: op org_view_exec_op)

lemma in_step_fin: "in_step s \<Longrightarrow> fin_org (org_view g (sv_state s)) \<and> wf_org (org_view g (sv_state s))"
  using wf_org_view by (auto simp: in_step_def)

subsection \<open>Events and terminals\<close>

lemma in_step_hidden:
  assumes "in_step s" "ok_ambient a" "\<not> shows_in w"
  shows "in_step (emit a g w s)"
  unfolding emit_def
  by (rule in_step_hub [OF assms(1) delivers_Emit_hidden]) (use assms in \<open>simp_all add: ok_ambient_def\<close>)

lemma in_step_event:
  assumes "in_step s" "ok_ambient a"
  shows "in_step (recordEvent k u a g e s)"
proof -
  have "in_step (s\<lparr>sv_state := AddEvent g e (sv_state s)\<rparr>)" for e
    by (rule in_step_op [OF assms(1), of "OpEvent g e" "[]"]) simp_all
  then have "in_step (s\<lparr>sv_store := st, sv_state := AddEvent g e (sv_state s)\<rparr>)" for st e
    by (simp add: in_step_def)
  then show ?thesis using assms(2) by (simp add: recordEvent_def Let_def in_step_hidden)
qed

lemma in_step_server_event: "in_step s \<Longrightarrow> ok_ambient a \<Longrightarrow> in_step (emitServerEvent k u a g m sid kind msg sev s)"
  by (simp add: emitServerEvent_def in_step_event)

lemma in_step_terminal_output:
  assumes "in_step s" "ok_ambient a" "is_terminal_output (env_Msg env)"
  shows "in_step (handleAgentTerminalOutput a env s)"
proof -
  have "\<not> shows_in (env_Msg env)" using assms(3) by (cases "env_Msg env") simp_all
  then have "in_step (s\<lparr>sv_hub := BroadcastOrg (am_hub a) g env (sv_hub s)\<rparr>)" for g
    using assms(2) by (intro in_step_hub [OF assms(1) delivers_Broadcast_hidden]) (simp_all add: ok_ambient_def)
  then show ?thesis
    using assms(1) by (simp add: handleAgentTerminalOutput_def Let_def release_pty_def split: option.split wire.split)
qed

subsection \<open>Messages of agents and dashboards\<close>

lemma emit_store [simp]: "emit a g w (s\<lparr>sv_store := st\<rparr>) = (emit a g w s)\<lparr>sv_store := st\<rparr>"
  by (simp add: emit_def)

lemma emit_state [simp]: "sv_state (emit a g w s) = sv_state s"
  by (simp add: emit_def)

text \<open>The change and the message of it that every handler sends next.\<close>

lemma in_step_told:
  assumes "in_step s" and "ok_ambient a" and "op_finite c" and "encodable w"
    and "\<And>v. wf_org (org_view (op_org c) (sv_state s)) \<Longrightarrow> agrees (org_view (op_org c) (sv_state s)) v \<Longrightarrow>
      agrees (part_op c (org_view (op_org c) (sv_state s))) (applyMessage w v)"
  shows "in_step (emit a (op_org c) w (s\<lparr>sv_state := exec_op c (sv_state s)\<rparr>))"
proof (rule in_step_op [OF assms(1), of c "[w]"])
  show "delivers (op_org c) [w] (sv_hub s) (sv_hub (emit a (op_org c) w (s\<lparr>sv_state := exec_op c (sv_state s)\<rparr>)))"
    using assms(2,4) by (simp add: emit_def delivers_Emit ok_ambient_def)
qed (use assms(3,5) in \<open>simp_all add: emit_def\<close>)

lemma in_step_heartbeat:
  assumes s: "in_step s" and a: "ok_ambient a" and e: "encodable (AgentHeartbeat (Some hb))"
  shows "in_step (onAgentMessage a c (env\<lparr>env_Msg := AgentHeartbeat (Some hb)\<rparr>) s)"
proof -
  let ?g = "cl_OrgID c" and ?c = "OpHeartbeat (cl_OrgID c) hb (env_TS env)"
  note f = in_step_fin [OF s, of ?g]
  show ?thesis
  proof (cases "mget (os_machines (org_view ?g (sv_state s))) (hb_AgentID hb)")
    case None
    have "in_step (s\<lparr>sv_state := exec_op ?c (sv_state s)\<rparr>)"
      by (rule in_step_op [OF s, of ?c "[]"]) (use e None in simp_all)
    then show ?thesis by (simp add: onAgentMessage_def Let_def ApplyHeartbeat_eq None)
  next
    case (Some mc)
    let ?m = "heartbeat_machine hb (env_TS env) mc"
    have i: "m_ID mc = hb_AgentID hb" using f Some by (simp add: wf_org_def)
    have "in_step (emit a (op_org ?c) (MachineUpsert (Some ?m)) (s\<lparr>sv_state := exec_op ?c (sv_state s)\<rparr>))"
    proof (rule in_step_told [OF s a])
      fix v assume "agrees (org_view (op_org ?c) (sv_state s)) v"
      from agrees_machine [OF this, of ?m] show "agrees (part_op ?c (org_view (op_org ?c) (sv_state s)))
          (applyMessage (MachineUpsert (Some ?m)) v)" by (simp add: Some i)
    qed (use e in \<open>simp_all add: machine_encodable_def heartbeat_machine_def\<close>)
    then show ?thesis by (simp add: onAgentMessage_def Let_def ApplyHeartbeat_eq Some)
  qed
qed

lemma in_step_metric:
  assumes s: "in_step s" and a: "ok_ambient a" and e: "encodable (MetricSample (Some y))"
  shows "in_step (onAgentMessage a c (env\<lparr>env_Msg := MetricSample (Some y)\<rparr>) s)"
proof -
  let ?c = "OpMetric (cl_OrgID c) y"
  have "in_step (s\<lparr>sv_state := exec_op ?c (sv_state s)\<rparr>)"
    by (rule in_step_op [OF s, of ?c "[]"]) (use e in \<open>simp_all add: agrees_metric split: option.split\<close>)
  then have "in_step (s\<lparr>sv_store := st, sv_state := fst (ApplyMetric (cl_OrgID c) y (sv_state s))\<rparr>)" for st
    by (simp add: in_step_def)
  then show ?thesis using a
    by (simp add: onAgentMessage_def Let_def case_prod_unfold in_step_hidden split: option.split)
qed

lemma in_step_onAgentMessage:
  assumes s: "in_step s" and a: "ok_ambient a" and e: "encodable (env_Msg env)"
  shows "in_step (onAgentMessage a c env s)"
proof (cases "env_Msg env")
  case (AgentHeartbeat p)
  then show ?thesis using s e in_step_heartbeat [OF s a, of _ c env]
    by (cases p) (simp_all add: onAgentMessage_def AgentHeartbeat [symmetric])
next
  case (MetricSample p)
  then show ?thesis using s e in_step_metric [OF s a, of _ c env]
    by (cases p) (simp_all add: onAgentMessage_def MetricSample [symmetric])
next
  case (SessionUpsert p)
  show ?thesis
  proof (cases p)
    case (Some x)
    let ?x = "x\<lparr>s_MachineID := cl_MachineID c\<rparr>" and ?c = "OpSession (cl_OrgID c) (x\<lparr>s_MachineID := cl_MachineID c\<rparr>)"
    have "in_step (emit a (op_org ?c) (SessionUpsert (Some ?x)) (s\<lparr>sv_state := exec_op ?c (sv_state s)\<rparr>))"
    proof (rule in_step_told [OF s a])
      show "agrees (part_op ?c (org_view (op_org ?c) (sv_state s))) (applyMessage (SessionUpsert (Some ?x)) v)"
        if "agrees (org_view (op_org ?c) (sv_state s)) v" for v
        using agrees_session [OF that, of ?x] by simp
    qed (use e in \<open>simp_all add: SessionUpsert Some session_encodable_def\<close>)
    then show ?thesis by (simp add: onAgentMessage_def SessionUpsert Some Let_def UpsertSession_eq)
  qed (use s in \<open>simp add: onAgentMessage_def SessionUpsert\<close>)
next
  case (SessionRemoved p)
  show ?thesis
  proof (cases p)
    case (Some i)
    let ?c = "OpDropSession (cl_OrgID c) i"
    have "in_step (emit a (op_org ?c) (SessionRemoved (Some i)) (s\<lparr>sv_state := exec_op ?c (sv_state s)\<rparr>))"
    proof (rule in_step_told [OF s a])
      show "agrees (part_op ?c (org_view (op_org ?c) (sv_state s))) (applyMessage (SessionRemoved (Some i)) v)"
        if "agrees (org_view (op_org ?c) (sv_state s)) v" for v
        using agrees_no_session [OF that, of i] by simp
    qed simp_all
    then show ?thesis by (simp add: onAgentMessage_def SessionRemoved Some Let_def)
  qed (use s in \<open>simp add: onAgentMessage_def SessionRemoved\<close>)
next
  case (LogAppend p)
  then show ?thesis using s a by (cases p) (simp_all add: onAgentMessage_def Let_def in_step_hidden)
next
  case (EventReport p)
  then show ?thesis using s a by (cases p) (simp_all add: onAgentMessage_def Let_def in_step_event)
qed (use s a in_step_terminal_output [OF s a] in \<open>simp_all add: onAgentMessage_def Let_def\<close>)

lemma in_step_onDashboardMessage:
  assumes s: "in_step s" and a: "ok_ambient a" and c: "mget (h_heap (sv_hub s)) (cl_ID c) = Some c" "cl_open c"
  shows "in_step (onDashboardMessage a c env s)"
proof -
  have "in_step (s\<lparr>sv_hub := client_Send now (cl_ID c) (TerminalOpened p) (sv_hub s)\<rparr>)" for now p
    using c by (simp add: client_Send_def Encode_def) (rule in_step_hub [OF s delivers_enqueue]; simp)
  moreover have "in_step (forwardToAgent m env s')" if "in_step s'" for m s'
    unfolding forwardToAgent_def using that by (rule in_step_hub) (rule delivers_SendToAgent)
  moreover have "in_step (forwardToOrgAgents a g env s)" for g
    unfolding forwardToOrgAgents_def using a by (intro in_step_hub [OF s] delivers_agents) (simp add: ok_ambient_def)
  ultimately show ?thesis using s
    by (simp add: onDashboardMessage_def relay_input_def bind_pty_def release_pty_def Let_def
        split: wire.split option.split)
qed

subsection \<open>Connections that end\<close>

lemma in_step_again:
  assumes "in_step s" "ok_ambient a" "encodable w"
    and "\<And>v. agrees (org_view g (sv_state s)) v \<Longrightarrow> agrees (org_view g (sv_state s)) (applyMessage w v)"
  shows "in_step (emit a g w s)"
  by (rule in_step_change [OF assms(1), of g "[w]"])
    (use assms in \<open>simp_all add: emit_def delivers_Emit ok_ambient_def in_step_def\<close>)

lemma in_step_go_offline:
  assumes s: "in_step s" and a: "ok_ambient a"
  shows "in_step (go_offline a c s)"
proof -
  let ?g = "cl_OrgID c" and ?i = "cl_MachineID c" and ?c = "OpOnline (cl_OrgID c) (cl_MachineID c) False"
  note f = in_step_fin [OF s, of ?g]
  show ?thesis
  proof (cases "mget (os_machines (org_view ?g (sv_state s))) ?i")
    case None
    have "in_step (s\<lparr>sv_state := exec_op ?c (sv_state s)\<rparr>)"
      by (rule in_step_op [OF s, of ?c "[]"]) (use None in simp_all)
    then show ?thesis by (simp add: go_offline_def SetMachineOnline_eq None)
  next
    case (Some mc)
    let ?m = "mc\<lparr>m_Online := False\<rparr>" and ?w = "AgentStatus (Some \<lparr>as_MachineID = ?i, as_Online = False\<rparr>)"
    let ?s = "emit a ?g ?w (s\<lparr>sv_state := exec_op ?c (sv_state s)\<rparr>)"
    have i: "m_ID mc = ?i" and e: "machine_encodable ?m"
      using f Some by (auto simp: wf_org_def fin_org_def machine_encodable_def)
    have "in_step (emit a (op_org ?c) ?w (s\<lparr>sv_state := exec_op ?c (sv_state s)\<rparr>))"
    proof (rule in_step_told [OF s a])
      show "agrees (part_op ?c (org_view (op_org ?c) (sv_state s))) (applyMessage ?w v)"
        if "agrees (org_view (op_org ?c) (sv_state s)) v" for v
        using agrees_online [OF that, of ?i mc False] Some by simp
    qed simp_all
    then have s1: "in_step ?s" by simp
    have v: "mget (os_machines (org_view ?g (sv_state ?s))) ?i = Some ?m" by (simp add: SetMachineOnline_eq Some)
    have "in_step (emit a ?g (MachineUpsert (Some ?m)) ?s)"
    proof (rule in_step_again [OF s1 a])
      show "agrees (org_view ?g (sv_state ?s)) (applyMessage (MachineUpsert (Some ?m)) v)"
        if "agrees (org_view ?g (sv_state ?s)) v" for v
        using that v i by (simp add: agrees_def del: emit_state exec_op.simps)
    qed (use e in simp)
    then show ?thesis using a by (simp add: go_offline_def SetMachineOnline_eq Some in_step_server_event)
  qed
qed

lemma emits_state [simp]: "sv_state (foldl (\<lambda>s i. emit a g (w i) s) s is) = sv_state s"
  by (induction "is" arbitrary: s) simp_all

lemma emits_deliver:
  assumes "ok_ambient a" and "\<And>i. encodable (w i)"
  shows "delivers g (map w is) (sv_hub s) (sv_hub (foldl (\<lambda>s i. emit a g (w i) s) s is))"
proof (induction "is" arbitrary: s)
  case (Cons i xs)
  have "delivers g [w i] (sv_hub s) (sv_hub (emit a g (w i) s))"
    using assms by (simp add: emit_def delivers_Emit ok_ambient_def)
  from delivers_trans [OF this Cons.IH] show ?case by simp
qed simp

text \<open>The sessions of a machine leave the live state, then a message for each.\<close>

lemma in_step_sessions_gone:
  assumes s: "in_step s" and a: "ok_ambient a"
    and r: "RemoveMachineSessions (am_sess a) g mid (sv_state s) = (m, is)"
  shows "in_step (foldl (\<lambda>s i. emit a g (SessionRemoved (Some i)) s) (s\<lparr>sv_state := m\<rparr>) is)"
proof -
  let ?os = "org_view g (sv_state s)" and ?s = "s\<lparr>sv_state := m\<rparr>"
  have f: "fin_org ?os" "wf_org ?os" using in_step_fin [OF s] by simp_all
  have ra: "range_order (am_sess a)" using a by (simp add: ok_ambient_def)
  note eq = RemoveMachineSessions_eq [OF f(2) ra, of mid, unfolded r]
  have wf: "wf_map (os_sessions ?os)" using f by (simp add: wf_org_def)
  have "is": "i \<in> set is \<longleftrightarrow> (\<exists>x. mget (os_sessions ?os) i = Some x \<and> s_MachineID x = mid)" for i
    using eq ra by (auto simp: image_iff set_mget [OF wf])
  have m: "org_view g m = ?os\<lparr>os_sessions := mkeep (\<lambda>_ x. s_MachineID x \<noteq> mid) (os_sessions ?os)\<rparr>"
      "org_view g' m = org_view g' (sv_state s)" if "g' \<noteq> g" for g'
    using eq that by simp_all
  show ?thesis
  proof (rule in_step_change [OF s, of g "map (\<lambda>i. SessionRemoved (Some i)) is"])
    show "delivers g (map (\<lambda>i. SessionRemoved (Some i)) is) (sv_hub s)
        (sv_hub (foldl (\<lambda>s i. emit a g (SessionRemoved (Some i)) s) ?s is))"
      using emits_deliver [OF a, of "\<lambda>i. SessionRemoved (Some i)" g "is" ?s] by simp
    show "wf_manager (sv_state (foldl (\<lambda>s i. emit a g (SessionRemoved (Some i)) s) ?s is))"
      using wf_manager_drop_sessions [OF _ ra, of "sv_state s" g mid] s r by (simp add: in_step_def)
    show "fin_org (org_view g (sv_state (foldl (\<lambda>s i. emit a g (SessionRemoved (Some i)) s) ?s is)))"
      using f wf eq by (auto simp: fin_org_def mget_mkeep split: option.splits if_splits)
    show "agrees (org_view g (sv_state (foldl (\<lambda>s i. emit a g (SessionRemoved (Some i)) s) ?s is)))
        (apply_all (map (\<lambda>i. SessionRemoved (Some i)) is) v)" if "agrees (org_view g (sv_state s)) v" for v
      using agrees_sessions_gone [OF that wf "is"] eq by (simp add: comp_def)
  qed (use eq in simp_all)
qed

lemma in_step_onUnregister: "in_step s \<Longrightarrow> ok_ambient a \<Longrightarrow> in_step (onUnregister a c s)"
  using in_step_sessions_gone [OF in_step_go_offline]
  by (simp add: onUnregister_eq drop_sessions_def case_prod_unfold)

lemma in_step_disconnect:
  assumes "in_step s" "ok_ambient a"
  shows "in_step (disconnect a ref s)"
proof -
  have "in_step (s\<lparr>sv_hub := run_unregister ref (sv_hub s)\<rparr>)" by (rule in_step_hub [OF assms(1) delivers_unregister])
  from in_step_onUnregister [OF this assms(2)] assms(1) show ?thesis by (simp add: disconnect_def split: option.split)
qed

text \<open>A deleted machine takes its sessions along, first one by one and then in one message.\<close>

lemma in_step_delete:
  assumes s: "in_step s" and a: "ok_ambient a"
  shows "in_step (fst (handleDeleteMachine a c i q s))"
proof -
  let ?g = "cm_OrgID c" and ?op = "OpDropMachine (cm_OrgID c) i"
  obtain m "is" where r: "RemoveMachineSessions (am_sess a) ?g i (sv_state s) = (m, is)" by fastforce
  let ?s = "foldl (\<lambda>s i. emit a ?g (SessionRemoved (Some i)) s) (s\<lparr>sv_state := m\<rparr>) is"
  have 1: "in_step ?s" by (rule in_step_sessions_gone [OF s a r])
  have wf: "wf_org (org_view ?g (sv_state s))" using in_step_fin [OF s] by simp
  have "org_view ?g m = (org_view ?g (sv_state s))\<lparr>os_sessions :=
      mkeep (\<lambda>_ x. s_MachineID x \<noteq> i) (os_sessions (org_view ?g (sv_state s)))\<rparr>"
    using RemoveMachineSessions_eq [OF wf, of "am_sess a" i] a r by (simp add: ok_ambient_def)
  then have gone: "s_MachineID x \<noteq> i" if "mget (os_sessions (org_view ?g m)) j = Some x" for j x
    using wf that by (auto simp: wf_org_def mget_mkeep split: option.splits if_splits)
  have "in_step (emit a (op_org ?op) (MachineRemoved (Some i)) (?s\<lparr>sv_state := exec_op ?op (sv_state ?s)\<rparr>))"
  proof (rule in_step_told [OF 1 a])
    show "agrees (part_op ?op (org_view (op_org ?op) (sv_state ?s))) (applyMessage (MachineRemoved (Some i)) v)"
      if "agrees (org_view (op_org ?op) (sv_state ?s)) v" for v
      using agrees_no_machine [OF that, of i] gone by simp
  qed simp_all
  then have 2: "in_step (emit a ?g (MachineRemoved (Some i)) (?s\<lparr>sv_store := st, sv_state := RemoveMachine ?g i m\<rparr>))" for st
  proof -
    have eq: "?s\<lparr>sv_store := st, sv_state := x\<rparr> = ?s\<lparr>sv_state := x, sv_store := st\<rparr>" for x by simp
    assume "in_step (emit a (op_org ?op) (MachineRemoved (Some i)) (?s\<lparr>sv_state := exec_op ?op (sv_state ?s)\<rparr>))"
    then show ?thesis unfolding eq by simp
  qed
  have st: "foldl (\<lambda>s i. emit a ?g (SessionRemoved (Some i)) s) (s\<lparr>sv_store := st, sv_state := m\<rparr>) is = ?s\<lparr>sv_store := st\<rparr>" for st
  proof -
    have "foldl (\<lambda>s i. emit a ?g (SessionRemoved (Some i)) s) (t\<lparr>sv_store := st\<rparr>) is
        = (foldl (\<lambda>s i. emit a ?g (SessionRemoved (Some i)) s) t is)\<lparr>sv_store := st\<rparr>" for t
      by (induction "is" arbitrary: t) simp_all
    moreover have "s\<lparr>sv_store := st, sv_state := m\<rparr> = s\<lparr>sv_state := m, sv_store := st\<rparr>" by simp
    ultimately show ?thesis by (simp only:)
  qed
  show ?thesis
    using s 2 by (simp add: handleDeleteMachine_def Let_def case_prod_unfold r st split: sum.split)
qed

subsection \<open>Connections that begin\<close>

text \<open>A dashboard is sent a snapshot of its organisation and registered.\<close>

lemma in_step_dashboard:
  assumes s: "in_step s" and a: "ok_ambient a" and new: "mget (h_heap (sv_hub s)) ref = None"
    and h: "h = run_register ref (client_Send now ref
      (Snapshot (Some (Snapshot_of (am_mach a) (am_sess a) g (sv_state s)))) (NewClient ref RoleDashboard g '''' (sv_hub s)))"
  shows "in_step (s\<lparr>sv_hub := h\<rparr>)"
proof -
  let ?os = "org_view g (sv_state s)" and ?snap = "Snapshot_of (am_mach a) (am_sess a) g (sv_state s)"
  let ?c = "\<lparr>cl_ID = ref, cl_Role = RoleDashboard, cl_OrgID = g, cl_MachineID = '''', cl_send =
      [\<lparr>env_V = Version, env_TS = now, env_ID = '''', env_Msg = Snapshot (Some ?snap)\<rparr>],
      cl_open = True, cl_conn = True, cl_written = []\<rparr>"
  have wf: "wf_hub (sv_hub s)" "wf_org ?os" "fin_org ?os" using s in_step_fin [OF s] by (simp_all add: in_step_def)
  have ra: "range_order (am_mach a)" "range_order (am_sess a)" using a by (simp_all add: ok_ambient_def)
  have enc: "encodable (Snapshot (Some ?snap))"
    using wf(2,3) ra
    by (auto simp: Snapshot_of_view Let_def list_all_iff fin_org_def wf_org_def set_mget)
  have h': "h = sv_hub s\<lparr>h_heap := mput ref ?c (mput ref (?c\<lparr>cl_send := []\<rparr>) (h_heap (sv_hub s))),
      h_clients := mput ref ref (h_clients (sv_hub s))\<rparr>"
    using enc by (simp add: h NewClient_def client_Send_def Encode_def enqueue_def deliver_def sendBuffer_def
        run_register_def Let_def)
  have "wf_hub (NewClient ref RoleDashboard g '''' (sv_hub s))" using wf(1) new by (rule wf_hub_NewClient)
  then have "wf_hub (client_Send now ref (Snapshot (Some ?snap)) (NewClient ref RoleDashboard g '''' (sv_hub s)))"
    using enc by (simp add: client_Send_def Encode_def) (rule wf_hub_enqueue; auto simp: NewClient_def)
  then have "wf_hub h" unfolding h
    by (rule wf_hub_register) (use enc in \<open>auto simp: NewClient_def client_Send_def Encode_def enqueue_def deliver_def\<close>)
  moreover have "agrees (org_view (cl_OrgID c') (sv_state s)) (shown c')" if "watching h r c'" for r c'
  proof (cases "r = ref")
    case True
    then have "c' = ?c" using that by (simp add: watching_def h')
    then show ?thesis using agrees_snapshot [OF wf(2) ra, of initial_store] by (simp add: shown_def stream_def)
  next
    case False
    then have "watching (sv_hub s) r c'" using that by (simp add: watching_def h')
    then show ?thesis using s by (simp add: in_step_def)
  qed
  ultimately show ?thesis using s by (simp add: in_step_def)
qed

text \<open>What a handler broadcasts does not reach a client that is not registered yet.\<close>

lemma emit_waiting:
  assumes "wf_hub (sv_hub s)" "ok_ambient a" "mget (h_clients (sv_hub s)) ref = None"
  shows "wf_hub (sv_hub (emit a g w s)) \<and> h_clients (sv_hub (emit a g w s)) = h_clients (sv_hub s)
    \<and> mget (h_heap (sv_hub (emit a g w s))) ref = mget (h_heap (sv_hub s)) ref"
  using assms send_matching_spec [OF assms(1), of "am_hub a"]
  by (auto simp: emit_def EmitOrg_def Encode_def BroadcastOrg_def ok_ambient_def option.map_ident)

lemma in_step_hello:
  assumes s: "in_step s" and a: "ok_ambient a"
  shows "in_step (onAgentHello a c hello s)"
proof -
  let ?m = "\<lparr>m_ID = ah_AgentID hello, m_Hostname = ah_Hostname hello, m_OS = ah_OS hello,
            m_Arch = ah_Arch hello, m_CPUCores = ah_CPUCores hello, m_TotalMem = ah_TotalMem hello,
            m_AgentVersion = ah_AgentVersion hello, m_Online = True, m_CPUPct = 0,
            m_MemUsedBytes = 0, m_Load = 0, m_LastSeenAt = NowMillis a\<rparr>"
  let ?c = "OpMachine (cl_OrgID c) ?m"
  have "in_step (emit a (op_org ?c) (MachineUpsert (Some ?m)) (s\<lparr>sv_state := exec_op ?c (sv_state s)\<rparr>))"
  proof (rule in_step_told [OF s a])
    show "agrees (part_op ?c (org_view (op_org ?c) (sv_state s))) (applyMessage (MachineUpsert (Some ?m)) v)"
      if "agrees (org_view (op_org ?c) (sv_state s)) v" for v
      using agrees_machine [OF that, of ?m] by simp
  qed (simp_all add: machine_encodable_def)
  then show ?thesis by (simp add: onAgentHello_def Let_def in_step_server_event a)
qed

lemma hello_waiting:
  assumes "wf_hub (sv_hub s)" "ok_ambient a" "mget (h_clients (sv_hub s)) ref = None"
  shows "mget (h_heap (sv_hub (onAgentHello a c hello s))) ref = mget (h_heap (sv_hub s)) ref"
proof -
  have e: "mget (h_heap (sv_hub (emit a g w t))) ref = mget (h_heap (sv_hub s)) ref
      \<and> wf_hub (sv_hub (emit a g w t)) \<and> mget (h_clients (sv_hub (emit a g w t))) ref = None"
    if "mget (h_heap (sv_hub t)) ref = mget (h_heap (sv_hub s)) ref \<and> wf_hub (sv_hub t)
      \<and> mget (h_clients (sv_hub t)) ref = None" for g w t
    using emit_waiting [of t a ref g w] that assms(2) by simp
  then show ?thesis using assms
    by (simp add: onAgentHello_def emitServerEvent_def recordEvent_def Let_def)
qed

lemma in_step_handleWS:
  assumes s: "in_step s" and a: "ok_ambient a" and new: "mget (h_heap (sv_hub s)) (am_uuid a 1) = None"
  shows "in_step (fst (handleWS lib a role r up first s))"
proof -
  let ?ref = "am_uuid a 1"
  have agent: "in_step (onAgentHello a c hello (s\<lparr>sv_hub := n\<rparr>)\<lparr>sv_hub := run_register ?ref
      (sv_hub (onAgentHello a c hello (s\<lparr>sv_hub := n\<rparr>)))\<rparr>)"
    if n: "n = NewClient ?ref RoleAgent g m (sv_hub s)" and c: "mget (h_heap n) ?ref = Some c" for g m n c hello
  proof -
    let ?s = "s\<lparr>sv_hub := n\<rparr>"
    have 1: "in_step ?s" unfolding n using s delivers_new [OF new] by (rule in_step_hub)
    have wf: "wf_hub (sv_hub s)" "wf_hub n" using s 1 by (simp_all add: in_step_def)
    have "mget (h_clients (sv_hub s)) ?ref = None"
      using wf_hub_clientD [OF wf(1), of ?ref] new by (cases "mget (h_clients (sv_hub s)) ?ref") auto
    then have "mget (h_heap (sv_hub (onAgentHello a c hello ?s))) ?ref = Some c"
      using hello_waiting [of ?s a ?ref c hello] wf(2) a c by (simp add: n NewClient_def)
    moreover have "cl_open c" "cl_Role c = RoleAgent" using c by (auto simp: n NewClient_def)
    ultimately have "delivers g [] (sv_hub (onAgentHello a c hello ?s)) (run_register ?ref (sv_hub (onAgentHello a c hello ?s)))"
      by (rule delivers_register_agent)
    with in_step_hello [OF 1 a] show ?thesis by (rule in_step_hub)
  qed
  show ?thesis
    using s agent [OF refl] in_step_dashboard [OF s a new refl]
    by (auto simp: handleWS_def Let_def NewClient_def split: option.splits wire.splits)
qed

subsection \<open>Requests and ticks\<close>

lemma in_step_server_event_after [simp]:
  "ok_ambient a \<Longrightarrow> in_step s \<Longrightarrow> in_step (emitServerEvent k u a g m sid kind msg sev s)"
  by (rule in_step_server_event)

lemma in_step_sendCommand: "in_step s \<Longrightarrow> ok_ambient a \<Longrightarrow> in_step (fst (sendCommand a c i act s))"
  using in_step_hub [OF _ delivers_SendToAgent]
  by (simp add: sendCommand_def Let_def case_prod_unfold split: option.split)

lemma in_step_run_root:
  assumes s: "in_step s" and a: "ok_ambient a" and new: "mget (h_heap (sv_hub s)) (am_uuid a 1) = None"
  shows "in_step (fst (run_root p a rq ps e s))"
proof (cases e)
  case EpWS
  then show ?thesis using in_step_handleWS [OF s a new] by (simp add: case_prod_unfold Let_def)
next
  case EpEnroll
  then show ?thesis using s a
    by (simp add: handleEnroll_def enroll_consume_def Let_def case_prod_unfold split: option.split sum.split)
next
  case EpRegister
  then show ?thesis using s by (simp add: handleRegister_def Let_def case_prod_unfold split: option.split sum.split)
next
  case EpAcceptInvite
  then show ?thesis using s
    by (simp add: handleAcceptInvite_def Let_def case_prod_unfold split: option.split sum.split)
next
  case EpPublish
  then show ?thesis using s a
    by (simp add: handlePublish_def Let_def case_prod_unfold split: option.split sum.split)
qed (use s in simp_all)

lemma in_step_run_user:
  assumes s: "in_step s" and a: "ok_ambient a"
  shows "in_step (fst (run_user p a rq ps c e s))"
  using s a
  by (cases e; simp add: in_step_delete handleStopSession_def handleRestartSession_def in_step_sendCommand
      handleChangePassword_def handlePushSubscribe_def handlePushUnsubscribe_def handlePushTest_def
      handleCreateEnrollToken_def handleRevokeEnrollToken_def handleSetUserRole_def handleRemoveUser_def answer_def
      handleCreateInvite_def handleRevokeInvite_def Let_def case_prod_unfold split: option.split sum.split)

lemma in_step_run_admin:
  assumes s: "in_step s" and a: "ok_ambient a"
  shows "in_step (fst (run_admin p a rq ps e s))"
  using s a
  by (cases e; simp add: handleApproveUser_def approve_in_def handleRejectUser_def handleReassignMachine_def
      Let_def case_prod_unfold split: option.split sum.split)

lemma in_step_router:
  assumes s: "in_step s" and a: "ok_ambient a" and new: "mget (h_heap (sv_hub s)) (am_uuid a 1) = None"
  shows "in_step (fst (router p a rq s))"
proof -
  have "in_step (fst (run_api p a rq ps c e s))" for ps c e
    using in_step_run_user [OF s a] in_step_run_admin [OF s a] s
    by (cases e) (simp_all add: requireSuperadmin_def)
  then show ?thesis
    using in_step_run_root [OF assms] s
    by (auto simp: router_def api_router_def requireUser_def split: option.splits)
qed

lemma in_step_notifyBlocked: "in_step s \<Longrightarrow> ok_ambient a \<Longrightarrow> in_step (notifyBlocked p post scan a g x s)"
  by (simp add: notifyBlocked_def Let_def case_prod_unfold split: sum.split)

lemma in_step_blocked_tick:
  assumes s: "in_step s" and av: "\<And>k. ok_ambient (av k)"
  shows "in_step (fst (blocked_tick p post scan \<pi> av s t))"
proof -
  have due: "in_step (fst (foldl (\<lambda>(s, k) x. (notifyBlocked p post scan (av k) g x s, Suc k)) (s, k) xs))"
    if "in_step s" for s g k xs
    using that by (induction xs arbitrary: s k) (simp_all add: in_step_notifyBlocked av)
  have org: "in_step (fst (blocked_org p post scan av th (s, t, k) (g, xs)))" if "in_step s" for s t k g xs th
    using due [OF that] by (simp add: blocked_org_def Let_def case_prod_unfold)
  have "in_step (fst (foldl (blocked_org p post scan av th) (s, t, k) os))" if "in_step s" for s t k os th
    using that
  proof (induction os arbitrary: s t k)
    case (Cons o' os)
    obtain s' t' k' where st: "blocked_org p post scan av th (s, t, k) o' = (s', t', k')" by (metis prod_cases3)
    have "in_step s'" using org [OF Cons.prems, of th t k "fst o'" "snd o'"] st by simp
    from Cons.IH [OF this, of t' k'] show ?case by (simp add: st)
  qed simp
  from this [OF s] show ?thesis by (simp add: blocked_tick_def Let_def case_prod_unfold)
qed

lemma in_step_seeds: "in_step s \<Longrightarrow> in_step (s\<lparr>sv_state := seed_events evs owners (sv_state s)\<rparr>)"
proof -
  have "in_step (s\<lparr>sv_state := foldl (\<lambda>m (g, e). SeedEvent g e m) (sv_state s) xs\<rparr>)" if "in_step s" for s xs
    using that
  proof (induction xs arbitrary: s)
    case (Cons x xs)
    obtain g e where x: "x = (g, e)" by fastforce
    have "in_step (s\<lparr>sv_state := exec_op (OpSeed g e) (sv_state s)\<rparr>)"
      by (rule in_step_op [OF Cons.prems, of "OpSeed g e" "[]"]) simp_all
    from Cons.IH [OF this] show ?case by (simp add: x)
  qed simp
  then show "in_step s \<Longrightarrow> ?thesis" by (simp add: seed_events_def)
qed

lemma in_step_new_server: "in_step (new_server lib a scan cfg st)"
proof -
  have 0: "in_step \<lparr>sv_cfg = cfg, sv_hub = new_hub, sv_state = new_manager, sv_store = st, sv_agentKeys = [],
      sv_termRouter = []\<rparr>" (is "in_step ?s")
    by (simp add: in_step_def watching_def new_hub_def fin_org_def newOrgState_def wf_new_hub [unfolded new_hub_def])
  have "in_step (bootstrapAdmin lib a s)" if "in_step s" for s
    using that by (simp add: bootstrapAdmin_def Let_def case_prod_unfold split: sum.split)
  then show ?thesis
    using 0 in_step_seeds [of "reloadAgentKeys (am_db a 20) a ?s"]
    by (simp add: new_server_def Let_def split: sum.split)
qed

subsection \<open>Runs\<close>

text \<open>
  What happens to a server: its maps are ranged over in some order, a connection gets a fresh id, and frames are read
  from a connection that is not unregistered. The database may fail at every statement.
\<close>

fun live_act :: "server \<Rightarrow> server_act \<Rightarrow> bool" where
  "live_act s (Http a rq) \<longleftrightarrow> ok_ambient a \<and> mget (h_heap (sv_hub s)) (am_uuid a 1) = None"
| "live_act s (Frame a ref data) \<longleftrightarrow> ok_ambient a
     \<and> (case mget (h_heap (sv_hub s)) ref of None \<Rightarrow> False | Some c \<Rightarrow> cl_open c)"
| "live_act s (Gone a ref) \<longleftrightarrow> ok_ambient a"
| "live_act s (Written ref) \<longleftrightarrow> True"
| "live_act s (RetentionTick a) \<longleftrightarrow> True"
| "live_act s (NotifyTick \<pi> av) \<longleftrightarrow> (\<forall>k. ok_ambient (av k))"

inductive live_run :: "crypto \<Rightarrow> platform \<Rightarrow> server \<times> tracker \<Rightarrow> bool" for lib p where
  live_start: "live_run lib p (new_server lib a scan cfg st, newBlockedTracker)"
| live_step: "live_run lib p x \<Longrightarrow> live_act (fst x) c \<Longrightarrow> live_run lib p (exec_act p c x)"

lemma in_step_readPump:
  assumes s: "in_step s" and l: "live_act s (Frame a ref data)" and rd: "reads_finite rd"
  shows "in_step (readPump rd a ref data s)"
proof -
  have a: "ok_ambient a" using l by simp
  obtain c where c: "mget (h_heap (sv_hub s)) ref = Some c" "cl_open c" using l by (auto split: option.splits)
  have i: "cl_ID c = ref" using s c wf_hub_heapD by (auto simp: in_step_def)
  have "in_step (readPump_message a ref env s)" if "Decode rd data = Some env" for env
  proof -
    have "encodable (env_Msg env)" using decode_typed [OF rd that] by simp
    from in_step_onAgentMessage [OF s a this] in_step_onDashboardMessage [OF s a] s c i
    show ?thesis by (simp add: readPump_message_def)
  qed
  then show ?thesis using in_step_disconnect [OF s a] s by (simp add: readPump_def split: option.split)
qed

lemma in_step_exec:
  assumes rd: "reads_finite (pf_float p)" and s: "in_step (fst x)" and l: "live_act (fst x) c"
  shows "in_step (fst (exec_act p c x))"
proof -
  obtain s t where x: "x = (s, t)" by fastforce
  have s: "in_step s" and l: "live_act s c" using assms(2,3) by (simp_all add: x)
  show ?thesis
  proof (cases c)
    case (Frame a ref data)
    then show ?thesis using in_step_readPump [OF s _ rd, of a ref data] l by (simp add: x)
  next
    case (Written ref)
    then show ?thesis using in_step_hub [OF s delivers_write] by (simp add: x)
  qed (use s l in \<open>simp_all add: x in_step_router in_step_disconnect in_step_blocked_tick retention_tick_def Let_def\<close>)
qed


text \<open>A dashboard and then an agent of its organisation connect.\<close>

definition ws_request :: "string \<Rightarrow> string \<Rightarrow> string option \<Rightarrow> request" where
  "ws_request role tok first = (plain_request ''GET'' ''/ws'' tok)\<lparr>rq_Query := (\<lambda>k. if k = ''role'' then role else []),
     rq_Upgraded := True, rq_First := first\<rparr>"

definition sample_hello :: agent_hello where
  "sample_hello = \<lparr>ah_APIKey = ''k'', ah_AgentID = ''m'', ah_Hostname = ''h'', ah_OS = '''', ah_Arch = '''',
     ah_CPUCores = 1, ah_TotalMem = 2, ah_AgentVersion = ''''\<rparr>"

definition bits_float :: "string \<Rightarrow> float64 option" where
  "bits_float l = (let w = of_nat (undigits l) in if float_finite w then Some w else None)"

definition hello_text :: string where
  "hello_text = (case encode_text (\<lambda>w. utoa (unat w)) 0 (AgentHello (Some sample_hello)) of Some t \<Rightarrow> t | None \<Rightarrow> [])"

lemma decode_hello: "map_option env_Msg (Decode bits_float hello_text) = Some (AgentHello (Some sample_hello))"
proof -
  let ?env = "\<lparr>env_V = Version, env_TS = 0, env_ID = [], env_Msg = AgentHello (Some sample_hello)\<rparr>"
  obtain p where p: "payload_json (\<lambda>w. utoa (unat w)) (AgentHello (Some sample_hello)) = Some p"
      "hello_text = print_json (js_envelope ?env p)"
    by (simp add: hello_text_def encode_text_def Encode_def)
  have "typed_wire (AgentHello (Some sample_hello))"
    by (simp add: sample_hello_def typed_agent_hello_def int_ok_def valid_utf8_ascii)
  then have "Decode bits_float (print_json (js_envelope ?env p)) = Some ?env"
    by (intro text_roundtrip [of "\<lambda>w. utoa (unat w)"])
      (use p(1) in \<open>simp_all add: float_text_def bits_float_def is_number_utoa undigits_utoa int_ok_def Version_def\<close>)
  then show ?thesis by (simp add: p(2))
qed

definition watch_platform :: platform where
  "watch_platform = (plain_platform token_crypto)\<lparr>pf_float := bits_float\<rparr>"

definition watched_server :: "server \<times> tracker" where
  "watched_server = exec_act watch_platform (Http quiet (ws_request ''dashboard'' ''m'' None))
     (new_server token_crypto quiet id (sv_cfg (sample_server [] [])) keyed_store, newBlockedTracker)"

lemma agent_connects:
  "exec_act watch_platform (Http a (ws_request ''agent'' [] (Some hello_text))) x =
    (fst (handleWS token_crypto a ''agent'' (rq_Auth (plain_request [] [] [])) True
      (Some (AgentHello (Some sample_hello))) (fst x)), snd x)"
proof -
  have "(case find_route watch_platform root_routes ''GET'' ''/ws'' of Some (e, ps) \<Rightarrow> e = EpWS | None \<Rightarrow> False) = True"
    by code_simp
  then obtain ps where "find_route watch_platform root_routes ''GET'' ''/ws'' = Some (EpWS, ps)"
    by (auto split: option.splits)
  moreover have "first_message watch_platform (ws_request ''agent'' [] (Some hello_text)) = Some (AgentHello (Some sample_hello))"
    using decode_hello by (simp add: first_message_def ws_request_def watch_platform_def)
  moreover have "\<not> pf_cors watch_platform c rq" for c rq by (simp add: watch_platform_def plain_platform_def)
  moreover have "pf_crypto watch_platform = token_crypto" by (simp add: watch_platform_def plain_platform_def)
  ultimately show ?thesis
    by (cases x) (simp add: router_def ws_request_def plain_request_def case_prod_unfold Let_def)
qed


end
