(* ===== verification/Spec2Isabelle.thy ===== *)
theory Spec2Isabelle
  imports Auth_Handlers Blocked_Notify Agent_Sync Web_Assets Commands Wire_Laws Dashboard_Run
begin

text \<open>
  Mission Control: a verification development.

  \<^bold>\<open>The program.\<close> Mission Control watches AI coding sessions on many machines. On each machine an agent
  (\<open>apps/agent\<close>, \<open>internal/agent\<close>) finds the processes of the known tools (\<open>internal/provider\<close>), tails their logs,
  reads git and tmux (\<open>internal/gitinfo\<close>, \<open>internal/tmux\<close>) and reports over a WebSocket to a server
  (\<open>apps/server\<close>, \<open>internal/server\<close>). The server authenticates agents by keys and people by tokens
  (\<open>internal/auth\<close>), keeps the current state of every organisation in memory (\<open>internal/state\<close>), the history in a
  database (\<open>internal/store\<close>), and forwards messages between agents and dashboards through a hub (\<open>internal/hub\<close>).
  Both sides speak the JSON envelopes of \<open>internal/protocol\<close>. A REST interface serves the dashboard; a background loop
  notifies people by Web Push when a session waits for them.

  \<^bold>\<open>How it is modelled.\<close> Every Go function is one definition with the source's name (a suffix or prefix where two
  packages share one), composed the way the code composes them. Structs are records, string enumerations stay strings, an
  \<open>int64\<close> is an \<open>int\<close> whose operations wrap or are checked where the code depends on it, a \<open>uint64\<close> and a
  \<open>float64\<close> are \<open>64 word\<close> (floats are only copied, so their bits are kept). A Go map is an association list;
  wherever Go iterates over a map, the order is an argument constrained by \<open>range_order\<close>, so a theorem holds for every
  order. An error is the left side of a sum or \<open>None\<close>, and every early return is a branch. A mutex makes a concurrent
  execution a sequence of its critical sections; where the code leaves a gap between two of them, the sections are
  operations of their own and the race is stated. What is outside the repository is an argument: \<open>ambient\<close> gives an
  operation the clock, random values, iteration orders and the failure of each of its database statements; \<open>crypto\<close>
  is bcrypt and JWT; \<open>platform\<close> holds chi's matching of paths, the CORS middleware, the reading of floats, the file
  system, mail and push services and the scan orders of the database; \<open>machine_env\<close> is the process table, git,
  tmux and the file system of an agent.

  \<^bold>\<open>The theories, in the order of use.\<close>
  \<^item> \<open>MC_Prelude\<close>: Go maps, results of fallible calls, list lemmas, and the interfaces components share; \<open>Go_Strings\<close>,
    \<open>Go_Lib\<close>, \<open>Go_Path\<close>, \<open>Go_Base64\<close>, \<open>Go_Utf8\<close>, \<open>Go_Json\<close>, \<open>Json_Levels\<close>: what the
    program uses of Go's library (\<open>strings\<close>, \<open>strconv\<close>, \<open>path/filepath\<close>, \<open>encoding/base64\<close>, \<open>unicode/utf8\<close>, \<open>encoding/json\<close>).
  \<^item> \<open>Protocol\<close>: the payload structs, message types and envelopes of \<open>internal/protocol\<close>; \<open>Wire_Codec\<close>: the same down to the
    bytes, each struct with its JSON tags, \<open>Encode\<close>, \<open>Decode\<close> and \<open>As\<close>; \<open>Wire_Laws\<close>: messages survive the wire and what
    arrives is well typed.
  \<^item> \<open>Live_State\<close>: \<open>internal/state/manager.go\<close>; \<open>Store\<close>, \<open>Tenancy\<close>, \<open>Enrollment\<close>: \<open>internal/store\<close>, a table being the
    list of its rows and a statement an update of that list; \<open>Hub\<close>: \<open>internal/hub\<close>, a client being a reference into a heap
    of queues.
  \<^item> \<open>Auth\<close>: \<open>internal/auth\<close> and the guards of \<open>middleware.go\<close>; \<open>Server_Core\<close>: the server's state and its WebSocket side
    (\<open>server.go\<close>, \<open>agent_handler.go\<close>, \<open>ws.go\<close>, \<open>terminal.go\<close>, \<open>events.go\<close>); \<open>Handlers\<close>, \<open>Enroll_Handlers\<close>,
    \<open>Auth_Handlers\<close>, \<open>Web_Assets\<close>: the REST handlers file by file; \<open>Mail\<close>: the invitation mail with its headers;
    \<open>Install_Scripts\<close>: the two install scripts, line by line; \<open>Blocked_Notify\<close>: \<open>blocked_notify.go\<close>.
  \<^item> \<open>Rest_Bodies\<close>: the bodies of REST requests, from the bytes to the struct a handler reads, errors included.
  \<^item> \<open>Router\<close>: the route table of \<open>server.go\<close> with its guards, every endpoint bound to its handler; \<open>Server_Run\<close>: the
    running server as a state changed by actions (requests, frames, disconnects, ticks of its loops).
  \<^item> \<open>Tmux\<close>, \<open>Git_Info\<close>, \<open>Log_Tail\<close>, \<open>Log_Render\<close>, \<open>Pane_Status\<close>, \<open>Provider_Files\<close>, \<open>Providers\<close>: how an agent
    finds sessions, reads their logs, tokens, repository and status, and controls them.
  \<^item> \<open>Agent_Events\<close>, \<open>Agent_Runtime\<close>, \<open>Agent_Terminal\<close>, \<open>Ws_Client\<close>, \<open>Agent_Enroll\<close>, \<open>Agent_Daemon\<close>: the agent's
    daemon; \<open>Config\<close>: \<open>internal/config\<close>; \<open>Commands\<close>: the two \<open>main\<close>s with the parsing of their flags.
  \<^item> \<open>Dashboard\<close>: the live store of the dashboard (\<open>apps/dashboard/src/store/live.ts\<close>).
  \<^item> \<open>Agent_Sync\<close>, \<open>Agent_Enroll\<close> and this theory run the agent's side against the server's; \<open>Dashboard_Run\<close> runs the
    server against its dashboards.

  \<^bold>\<open>What is shown.\<close>
  \<^item> Isolation of organisations, at three levels: of single operations (\<open>agent_message_isolated\<close>, \<open>hub_confinement\<close>,
    \<open>terminal_input_confined\<close>), of a request through the route table (\<open>request_isolated\<close>, \<open>reads_own_workspace_only\<close>),
    and of whole runs of the server (\<open>absent_organisation_unchanged\<close>).
  \<^item> Authority: nothing changes without a credential (\<open>request_authority\<close>), every accepted key is a stored key that is
    not revoked (\<open>accepted_keys_are_live\<close>), tokens are used once (\<open>enroll_token_single_use\<close>), a machine belongs to one
    workspace in sequential runs (\<open>one_machine_one_workspace\<close>), signing up, approval and login (\<open>register_approve_login\<close>).
  \<^item> Invariants of the stateful components: live state, hub, agent runtime, running server; each kept by every operation and
    lifted to all runs by induction.
  \<^item> Interfaces: \<open>tenant_partition\<close> (commands of one organisation commute with the view of another), \<open>bounded_history\<close> (a ring
    that keeps the newest entries), \<open>single_use\<close> (a credential that is spent), \<open>change_filter\<close> (a poller that emits
    changes) and \<open>line_reader\<close> (a reader that resumes where it stopped) are locales with the laws the clients use; each is
    interpreted on the components that promise them.
  \<^item> Refinement: the event ring is the newest part of the history, the cascading delete is a filter of the tables, a poll
    leaves the server with exactly the sessions the agent knows, an open dashboard shows exactly what the server holds for
    its organisation (\<open>dashboard_in_step\<close>), the blocked tracker notifies once for each episode.
  \<^item> Data in transit: JSON, base64, tmux keys, file uploads, log pages and log tails come out as they went in, once and in
    order.
  \<^item> The theorems of the wire: the decoder is total, every text decodes to typed messages or an error, and the server does
    with the texts what its handlers do with the messages (\<open>wire_transparent\<close> below).
  \<^item> Behaviour the code does not mean to have is stated as it is: a password that cannot be hashed locks its account, the
    lifetime of a token wraps around, two enrollments race, a send races with an unregistration, the notifier stays silent
    with two organisations, flags after a path are ignored.

  \<^bold>\<open>Bounds and fuel.\<close> Loops are structural recursion over the input that drives them (lines of a file, ticks, frames,
  rows). The only fuel is the JSON decoder's: \<open>parse_fuel\<close> grows with the length of the text, and \<open>decoder_total\<close> shows that
  more changes nothing. Nesting is limited to 10000 as in Go (\<open>maxNestingDepth\<close>), messages written nest at most eight deep.
  A client's queue holds 256 messages (\<open>sendBuffer\<close>), a frame at most a mebibyte (\<open>maxMessageSize\<close>), the event ring 200
  events, a page of logs 500 lines or up to 2000 when asked; these are the source's constants.

  \<^bold>\<open>Not modelled.\<close> The dashboard's pages (TypeScript; only its live store is), the logger and the key generator (library
  calls). Each handler of the server is one step: what another handler does between the change of the live state and the
  message that tells of it, or between a dashboard's snapshot and its registration, is left out. Of the components that are
  modelled: the socket library with its pings and deadlines, \<open>http.Server\<close> and TLS, the SQL dialects (a statement either
  fails as a whole or has its effect; GORM's own bookkeeping columns are left out), the request logger, \<open>NaN\<close> arithmetic (no float is computed with). Two letters outside ASCII that
  fold to ASCII ones are left out of the pane patterns. A Go slice that is nil and an empty one are one value. In the JSON
  decoder an array is decoded over what the slice holds, not over what an earlier array left in its capacity, which only a
  repeated key can show.
\<close>

section \<open>Over the wire\<close>

text \<open>
  A message that can be sent: typed, with its maps in order, and with a text within the read limit of the server.
\<close>

definition sendable :: "(float64 \<Rightarrow> string) \<Rightarrow> int \<Rightarrow> wire \<Rightarrow> bool" where
  "sendable fmt now w \<longleftrightarrow> typed_wire w \<and> ordered w \<and> int_ok now \<and>
     (case encode_text fmt now w of None \<Rightarrow> False | Some t \<Rightarrow> length t \<le> maxMessageSize)"

lemma decode_sent:
  assumes "float_text fmt rd" "sendable fmt now w" "encode_text fmt now w = Some t"
  shows "Decode rd t = Some \<lparr>env_V = Version, env_TS = now, env_ID = [], env_Msg = w\<rparr>"
proof -
  let ?env = "\<lparr>env_V = Version, env_TS = now, env_ID = [], env_Msg = w\<rparr>"
  obtain p where p: "payload_json fmt w = Some p" "t = print_json (js_envelope ?env p)"
    using assms(3) by (auto simp: encode_text_def bind_eq_Some_conv)
  show ?thesis unfolding p(2) using assms(2)
    by (intro text_roundtrip [OF assms(1)]) (simp_all add: p(1) sendable_def int_ok_def [of 1] Version_def)
qed

lemma readPump_sent:
  assumes "float_text fmt rd" "sendable fmt now w"
  shows "readPump rd a ref (the (encode_text fmt now w)) s =
    readPump_message a ref \<lparr>env_V = Version, env_TS = now, env_ID = [], env_Msg = w\<rparr> s"
  using assms(2) decode_sent [OF assms] by (auto simp: sendable_def readPump_def split: option.splits)

text \<open>
  C13. (The wire is transparent.) Agents and dashboards send their messages as texts; for messages within the read limit
  the server does with the texts, one after the other, exactly what its handlers do with the messages. So what is shown
  of the handlers on messages holds of the server on the bytes that arrive.
\<close>

theorem wire_transparent:
  assumes "float_text fmt rd" "list_all (\<lambda>(a, now, w). sendable fmt now w) msgs"
  shows "foldl (\<lambda>s (a, now, w). readPump rd a ref (the (encode_text fmt now w)) s) s msgs =
    foldl (\<lambda>s (a, now, w). readPump_message a ref \<lparr>env_V = Version, env_TS = now, env_ID = [], env_Msg = w\<rparr> s) s msgs"
  using assms(2) by (induction msgs arbitrary: s) (auto simp: readPump_sent [OF assms(1)])

text \<open>Two messages of an agent; floats are written as the number of their bits.\<close>

definition two_messages :: "(ambient \<times> int \<times> wire) list" where
  "two_messages = [(quiet, 5, SessionRemoved (Some ''s'')), (quiet, 6, CommandAck (Some ''r''))]"

theorem wire_transparent_witness:
  "foldl (\<lambda>s (a, now, w). readPump (\<lambda>l. Some (of_nat (undigits l))) a ''c'' (the (encode_text (\<lambda>w. utoa (unat w)) now w)) s)
     shared_server two_messages =
   foldl (\<lambda>s (a, now, w). readPump_message a ''c'' \<lparr>env_V = Version, env_TS = now, env_ID = [], env_Msg = w\<rparr> s)
     shared_server two_messages"
proof (rule wire_transparent)
  show "float_text (\<lambda>w. utoa (unat w)) (\<lambda>l. Some (of_nat (undigits l)))"
    by (simp add: float_text_def is_number_utoa undigits_utoa)
  have "(case encode_text (\<lambda>w. utoa (unat w)) 5 (SessionRemoved (Some ''s'')) of None \<Rightarrow> False
      | Some t \<Rightarrow> length t \<le> 1000) = True" by code_simp
  moreover have "(case encode_text (\<lambda>w. utoa (unat w)) 6 (CommandAck (Some ''r'')) of None \<Rightarrow> False
      | Some t \<Rightarrow> length t \<le> 1000) = True" by code_simp
  ultimately show "list_all (\<lambda>(a, now, w). sendable (\<lambda>w. utoa (unat w)) now w) two_messages"
    by (auto simp: two_messages_def sendable_def int_ok_def valid_utf8_ascii maxMessageSize_def split: option.splits)
qed

end
